(* ===== verification/Prelude.thy ===== *)
theory Prelude
  imports Main "HOL-Library.AList"
begin

text \<open>
  Shared vocabulary of the development: Rust's \<open>Result\<close> combinators on sums, the ASCII
  classes of \<open>u8\<close>/\<open>char\<close>, decimal printing and parsing of unsigned integers, and the
  association lists that stand for \<open>DashMap\<close> and \<open>HashMap\<close> values.

  A Rust \<open>String\<close> is a \<open>string\<close> here, the list of its UTF-8 bytes, so \<open>length\<close> is
  \<open>str::len\<close>.  The order of an association list is the (unspecified) iteration order of
  the hash map; no theorem depends on it.
\<close>

named_theorems result_simps \<open>unfolding of the Result combinators\<close>

section \<open>Results\<close>

definition and_then :: "'e + 'a \<Rightarrow> ('a \<Rightarrow> 'e + 'b) \<Rightarrow> 'e + 'b" where
  "and_then m f = (case m of Inl e \<Rightarrow> Inl e | Inr x \<Rightarrow> f x)"

definition map_err :: "('e \<Rightarrow> 'f) \<Rightarrow> 'e + 'a \<Rightarrow> 'f + 'a" where
  "map_err g m = (case m of Inl e \<Rightarrow> Inl (g e) | Inr x \<Rightarrow> Inr x)"

definition ok_or :: "'e \<Rightarrow> 'a option \<Rightarrow> 'e + 'a" where
  "ok_or e m = (case m of None \<Rightarrow> Inl e | Some x \<Rightarrow> Inr x)"

definition is_ok :: "'e + 'a \<Rightarrow> bool" where
  "is_ok m = (case m of Inl _ \<Rightarrow> False | Inr _ \<Rightarrow> True)"

definition ok :: "'e + 'a \<Rightarrow> 'a option" where
  "ok m = (case m of Inl _ \<Rightarrow> None | Inr x \<Rightarrow> Some x)"

text \<open>A handler that writes returns the state it leaves behind with its result: an early
  return (\<open>?\<close>) keeps the state reached so far.\<close>

definition try_in :: "'s \<Rightarrow> 'e + 'a \<Rightarrow> ('a \<Rightarrow> 's \<times> ('e + 'b)) \<Rightarrow> 's \<times> ('e + 'b)" where
  "try_in s m k = (case m of Inl e \<Rightarrow> (s, Inl e) | Inr x \<Rightarrow> k x)"

text \<open>A write that itself can fail, followed by the rest of the handler.\<close>

definition try_run :: "'s \<times> ('e + 'a) \<Rightarrow> ('s \<Rightarrow> 'a \<Rightarrow> 's \<times> ('e + 'b)) \<Rightarrow> 's \<times> ('e + 'b)" where
  "try_run p k = (case snd p of Inl e \<Rightarrow> (fst p, Inl e) | Inr x \<Rightarrow> k (fst p) x)"

text \<open>The answer of a handler without its body.\<close>

definition only_ok :: "'s \<times> ('e + 'a) \<Rightarrow> 's \<times> ('e + unit)" where
  "only_ok p = (fst p, and_then (snd p) (\<lambda>_. Inr ()))"

lemma and_then_simps [simp, result_simps]:
  "and_then (Inl e) f = Inl e"
  "and_then (Inr x) f = f x"
  by (simp_all add: and_then_def)

lemma and_then_eq_Inr [simp, result_simps]:
  "and_then m f = Inr y \<longleftrightarrow> (\<exists>x. m = Inr x \<and> f x = Inr y)"
  by (cases m) auto

lemma and_then_eq_Inl:
  "and_then m f = Inl e \<longleftrightarrow> m = Inl e \<or> (\<exists>x. m = Inr x \<and> f x = Inl e)"
  by (cases m) auto

lemma map_err_simps [simp, result_simps]:
  "map_err g (Inl e) = Inl (g e)"
  "map_err g (Inr x) = Inr x"
  by (simp_all add: map_err_def)

lemma map_err_eq_Inr [simp, result_simps]: "map_err g m = Inr x \<longleftrightarrow> m = Inr x"
  by (cases m) auto

lemma ok_or_simps [simp, result_simps]:
  "ok_or e None = Inl e"
  "ok_or e (Some x) = Inr x"
  by (simp_all add: ok_or_def)

lemma ok_or_eq_Inr [simp, result_simps]: "ok_or e m = Inr x \<longleftrightarrow> m = Some x"
  by (cases m) auto

lemma is_ok_simps [simp, result_simps]:
  "is_ok (Inl e) = False"
  "is_ok (Inr x) = True"
  by (simp_all add: is_ok_def)

lemma is_ok_iff: "is_ok m \<longleftrightarrow> (\<exists>x. m = Inr x)"
  by (cases m) auto

lemma not_is_ok_iff: "\<not> is_ok m \<longleftrightarrow> (\<exists>e. m = Inl e)"
  by (cases m) auto

lemma ok_simps [simp, result_simps]:
  "ok (Inl e) = None"
  "ok (Inr x) = Some x"
  by (simp_all add: ok_def)

lemma ok_eq_Some [simp]: "ok m = Some x \<longleftrightarrow> m = Inr x"
  by (cases m) auto

lemma try_in_simps [simp, result_simps]:
  "try_in s (Inl e) k = (s, Inl e)"
  "try_in s (Inr x) k = k x"
  by (simp_all add: try_in_def)

lemma fst_only_ok [simp]: "fst (only_ok p) = fst p"
  by (simp add: only_ok_def)

lemma try_in_cases:
  "try_in s m k = (s', r) \<longleftrightarrow>
     (\<exists>e. m = Inl e \<and> s' = s \<and> r = Inl e) \<or> (\<exists>x. m = Inr x \<and> k x = (s', r))"
  by (cases m) auto

lemma try_in_Inr:
  "try_in s m k = (s', Inr y) \<longleftrightarrow> (\<exists>x. m = Inr x \<and> k x = (s', Inr y))"
  by (cases m) auto

lemma try_run_simps [simp, result_simps]:
  "try_run (s, Inl e) k = (s, Inl e)"
  "try_run (s, Inr x) k = k s x"
  by (simp_all add: try_run_def)

lemma try_run_Inr:
  "try_run p k = (s', Inr y) \<longleftrightarrow> (\<exists>s x. p = (s, Inr x) \<and> k s x = (s', Inr y))"
  by (cases p; cases "snd p") auto

section \<open>ASCII\<close>

definition byte :: "char \<Rightarrow> nat" where
  "byte c = of_char c"

definition is_ascii_digit :: "char \<Rightarrow> bool" where
  "is_ascii_digit c \<longleftrightarrow> 48 \<le> byte c \<and> byte c \<le> 57"

definition is_ascii_lowercase :: "char \<Rightarrow> bool" where
  "is_ascii_lowercase c \<longleftrightarrow> 97 \<le> byte c \<and> byte c \<le> 122"

definition is_ascii_uppercase :: "char \<Rightarrow> bool" where
  "is_ascii_uppercase c \<longleftrightarrow> 65 \<le> byte c \<and> byte c \<le> 90"

definition is_ascii_alphanumeric :: "char \<Rightarrow> bool" where
  "is_ascii_alphanumeric c \<longleftrightarrow>
     is_ascii_digit c \<or> is_ascii_lowercase c \<or> is_ascii_uppercase c"

definition to_ascii_lowercase :: "char \<Rightarrow> char" where
  "to_ascii_lowercase c = (if is_ascii_uppercase c then char_of (byte c + 32) else c)"

definition eq_ignore_ascii_case :: "string \<Rightarrow> string \<Rightarrow> bool" where
  "eq_ignore_ascii_case a b \<longleftrightarrow> map to_ascii_lowercase a = map to_ascii_lowercase b"

lemmas ascii_defs = byte_def is_ascii_digit_def is_ascii_lowercase_def is_ascii_uppercase_def
  is_ascii_alphanumeric_def

lemma eq_ignore_ascii_case_refl [simp]: "eq_ignore_ascii_case a a"
  by (simp add: eq_ignore_ascii_case_def)

lemma eq_ignore_ascii_case_sym: "eq_ignore_ascii_case a b \<longleftrightarrow> eq_ignore_ascii_case b a"
  by (auto simp: eq_ignore_ascii_case_def)

text \<open>\<open>str::starts_with\<close> and \<open>str::strip_prefix\<close>.\<close>

definition starts_with :: "string \<Rightarrow> string \<Rightarrow> bool" where
  "starts_with s p \<longleftrightarrow> take (length p) s = p"

definition strip_prefix :: "string \<Rightarrow> string \<Rightarrow> string option" where
  "strip_prefix s p = (if starts_with s p then Some (drop (length p) s) else None)"

lemma starts_with_append [simp]: "starts_with (p @ s) p"
  by (simp add: starts_with_def)

lemma strip_prefix_append [simp]: "strip_prefix (p @ s) p = Some s"
  by (simp add: strip_prefix_def)

lemma strip_prefix_eq_Some: "strip_prefix s p = Some t \<longleftrightarrow> s = p @ t"
  by (auto simp: strip_prefix_def starts_with_def) (metis append_take_drop_id)

text \<open>\<open>str::trim\<close>: the UTF-8 encodings of the characters with the Unicode property
  \<open>White_Space\<close>, and their removal at either end.\<close>

definition white_space :: "string list" where
  "white_space =
     map (map char_of)
       ([[9], [10], [11], [12], [13], [32], [0xC2, 0x85], [0xC2, 0xA0], [0xE1, 0x9A, 0x80]] @
        map (\<lambda>b. [0xE2, 0x80, b]) ([0x80..<0x8B] @ [0xA8, 0xA9, 0xAF]) @
        [[0xE2, 0x81, 0x9F], [0xE3, 0x80, 0x80 :: nat]])"

function strip_leading :: "string list \<Rightarrow> string \<Rightarrow> string" where
  "strip_leading ws s =
     (case find (\<lambda>w. w \<noteq> [] \<and> starts_with s w) ws of
        None \<Rightarrow> s
      | Some w \<Rightarrow> strip_leading ws (drop (length w) s))"
  by pat_completeness auto

lemma starts_with_shorter:
  assumes "w \<noteq> []" and "starts_with s w" shows "length s - length w < length s"
proof -
  from assms have "0 < length s" by (cases s) (auto simp: starts_with_def)
  with assms show ?thesis by simp
qed

termination strip_leading
proof (relation "measure (\<lambda>(ws, s). length s)")
  fix ws s w assume "find (\<lambda>w. w \<noteq> [] \<and> starts_with s w) ws = Some w"
  then have "w \<noteq> []" "starts_with s w" by (auto simp: find_Some_iff)
  then show "((ws, drop (length w) s), ws, s) \<in> measure (\<lambda>(ws, s). length s)"
    using starts_with_shorter by simp
qed simp

declare strip_leading.simps [simp del]

definition trim :: "string \<Rightarrow> string" where
  "trim s = rev (strip_leading (map rev white_space) (rev (strip_leading white_space s)))"

lemma length_strip_leading: "length (strip_leading ws s) \<le> length s"
proof (induction ws s rule: strip_leading.induct)
  case (1 ws s)
  show ?case
    by (subst strip_leading.simps)
      (use 1 in \<open>auto split: option.split intro: le_trans [OF _ diff_le_self]\<close>)
qed

lemma length_trim: "length (trim s) \<le> length s"
  unfolding trim_def
  by (metis length_rev length_strip_leading le_trans)

section \<open>Fixed-width integers\<close>

text \<open>An \<open>i64\<close> addition in a release build wraps around.\<close>

definition i64_add :: "int \<Rightarrow> int \<Rightarrow> int" where
  "i64_add a b = (a + b + 2 ^ 63) mod 2 ^ 64 - 2 ^ 63"

lemma i64_add_exact: "- (2 ^ 63) \<le> a + b \<Longrightarrow> a + b < 2 ^ 63 \<Longrightarrow> i64_add a b = a + b"
  by (simp add: i64_add_def)

section \<open>Decimal numbers\<close>

text \<open>\<open>u64::to_string\<close>: no leading zero, no sign.\<close>

fun to_decimal :: "nat \<Rightarrow> string" where
  "to_decimal n =
     (if n < 10 then [char_of (48 + n)]
      else to_decimal (n div 10) @ [char_of (48 + n mod 10)])"

declare to_decimal.simps [simp del]

definition digit_value :: "char \<Rightarrow> nat" where
  "digit_value c = byte c - 48"

definition decimal_value :: "string \<Rightarrow> nat" where
  "decimal_value s = foldl (\<lambda>n c. 10 * n + digit_value c) 0 s"

text \<open>\<open>str::parse::<u64>\<close>: an optional leading plus, at least one digit, nothing else, and
  the value fits in 64 bits.\<close>

definition parse_u64 :: "string \<Rightarrow> nat option" where
  "parse_u64 s =
     (let ds = (case s of c # cs \<Rightarrow> if c = CHR ''+'' then cs else s | [] \<Rightarrow> [])
      in if ds \<noteq> [] \<and> list_all is_ascii_digit ds \<and> decimal_value ds < 2 ^ 64
         then Some (decimal_value ds) else None)"

lemma byte_char_of [simp]: "n < 256 \<Longrightarrow> byte (char_of n) = n"
  by (simp add: byte_def)

lemma digit_char: "n < 10 \<Longrightarrow> is_ascii_digit (char_of (48 + n)) \<and> digit_value (char_of (48 + n)) = n"
  by (simp add: is_ascii_digit_def digit_value_def)

lemma to_decimal_nonempty: "to_decimal n \<noteq> []"
  by (subst to_decimal.simps) simp

lemma to_decimal_digits: "list_all is_ascii_digit (to_decimal n)"
proof (induction n rule: to_decimal.induct)
  case (1 n)
  then show ?case
    by (subst to_decimal.simps) (use digit_char [of n] digit_char [of "n mod 10"] in auto)
qed

lemma decimal_value_snoc: "decimal_value (s @ [c]) = 10 * decimal_value s + digit_value c"
  by (simp add: decimal_value_def)

lemma decimal_value_to_decimal [simp]: "decimal_value (to_decimal n) = n"
proof (induction n rule: to_decimal.induct)
  case (1 n)
  show ?case
  proof (cases "n < 10")
    case True
    then show ?thesis
      by (subst to_decimal.simps) (use digit_char [of n] in \<open>simp add: decimal_value_def\<close>)
  next
    case False
    with 1 have "decimal_value (to_decimal (n div 10)) = n div 10" by simp
    with False show ?thesis
      by (subst to_decimal.simps) (use digit_char [of "n mod 10"] in \<open>simp add: decimal_value_snoc\<close>)
  qed
qed

lemma to_decimal_inject: "to_decimal m = to_decimal n \<longleftrightarrow> m = n"
  by (metis decimal_value_to_decimal)

lemma digit_not_plus: "is_ascii_digit c \<Longrightarrow> c \<noteq> CHR ''+''"
  by (auto simp: is_ascii_digit_def byte_def)

lemma parse_to_decimal [simp]:
  assumes "n < 2 ^ 64"
  shows "parse_u64 (to_decimal n) = Some n"
proof -
  obtain c cs where cs: "to_decimal n = c # cs"
    using to_decimal_nonempty [of n] by (cases "to_decimal n") auto
  then have "c \<noteq> CHR ''+''"
    using to_decimal_digits [of n] by (auto simp: digit_not_plus)
  then have "parse_u64 (to_decimal n) =
      (if to_decimal n \<noteq> [] \<and> list_all is_ascii_digit (to_decimal n)
          \<and> decimal_value (to_decimal n) < 2 ^ 64
       then Some (decimal_value (to_decimal n)) else None)"
    unfolding parse_u64_def Let_def by (simp only: cs list.case if_False)
  then show ?thesis
    using assms by (simp add: to_decimal_digits to_decimal_nonempty)
qed

section \<open>Hash maps as association lists\<close>

type_synonym ('k, 'v) hmap = "('k \<times> 'v) list"

definition hm_get :: "('k, 'v) hmap \<Rightarrow> 'k \<Rightarrow> 'v option" where
  "hm_get m k = map_of m k"

definition hm_insert :: "'k \<Rightarrow> 'v \<Rightarrow> ('k, 'v) hmap \<Rightarrow> ('k, 'v) hmap" where
  "hm_insert k v m = AList.update k v m"

definition hm_remove :: "'k \<Rightarrow> ('k, 'v) hmap \<Rightarrow> ('k, 'v) hmap" where
  "hm_remove k m = AList.delete k m"

definition hm_retain :: "('k \<Rightarrow> 'v \<Rightarrow> bool) \<Rightarrow> ('k, 'v) hmap \<Rightarrow> ('k, 'v) hmap" where
  "hm_retain P m = filter (\<lambda>(k, v). P k v) m"

definition hm_values :: "('k, 'v) hmap \<Rightarrow> 'v list" where
  "hm_values m = map snd m"

definition hm_wf :: "('k, 'v) hmap \<Rightarrow> bool" where
  "hm_wf m \<longleftrightarrow> distinct (map fst m)"

lemma hm_get_insert [simp]: "hm_get (hm_insert k v m) k' = (if k' = k then Some v else hm_get m k')"
  by (simp add: hm_get_def hm_insert_def update_conv)

lemma hm_get_remove [simp]: "hm_get (hm_remove k m) k' = (if k' = k then None else hm_get m k')"
  by (auto simp: hm_get_def hm_remove_def delete_conv')

lemma hm_get_empty [simp]: "hm_get [] k = None"
  by (simp add: hm_get_def)

lemma hm_wf_empty [simp]: "hm_wf []"
  by (simp add: hm_wf_def)

lemma hm_wf_insert [simp]: "hm_wf m \<Longrightarrow> hm_wf (hm_insert k v m)"
  by (simp add: hm_wf_def hm_insert_def distinct_update)

lemma hm_wf_remove [simp]: "hm_wf m \<Longrightarrow> hm_wf (hm_remove k m)"
  by (simp add: hm_wf_def hm_remove_def distinct_delete)

lemma hm_wf_retain [simp]: "hm_wf m \<Longrightarrow> hm_wf (hm_retain P m)"
  by (induction m) (auto simp: hm_wf_def hm_retain_def)

lemma hm_get_in: "hm_get m k = Some v \<Longrightarrow> (k, v) \<in> set m"
  by (simp add: hm_get_def map_of_SomeD)

lemma hm_in_get: "hm_wf m \<Longrightarrow> (k, v) \<in> set m \<Longrightarrow> hm_get m k = Some v"
  by (simp add: hm_get_def hm_wf_def)

lemma hm_get_iff: "hm_wf m \<Longrightarrow> hm_get m k = Some v \<longleftrightarrow> (k, v) \<in> set m"
  by (auto intro: hm_get_in hm_in_get)

lemma hm_get_None: "hm_get m k = None \<longleftrightarrow> k \<notin> fst ` set m"
  by (simp add: hm_get_def map_of_eq_None_iff)

lemma hm_get_retain:
  assumes "hm_wf m"
  shows "hm_get (hm_retain P m) k =
    (case hm_get m k of Some v \<Rightarrow> if P k v then Some v else None | None \<Rightarrow> None)"
proof (cases "hm_get (hm_retain P m) k")
  case None
  with assms show ?thesis
    by (auto simp: hm_get_None hm_retain_def split: option.splits dest!: hm_get_in) (force)
next
  case (Some v)
  with assms have "(k, v) \<in> set m \<and> P k v"
    by (auto simp: hm_retain_def dest!: hm_get_in)
  with assms Some show ?thesis by (auto simp: hm_in_get)
qed

lemma set_hm_values: "hm_wf m \<Longrightarrow> v \<in> set (hm_values m) \<longleftrightarrow> (\<exists>k. hm_get m k = Some v)"
  by (auto simp: hm_values_def hm_get_iff intro: rev_image_eqI)

lemma length_hm_insert:
  "length (hm_insert k v m) = (if hm_get m k = None then Suc (length m) else length m)"
  by (induction m) (auto simp: hm_insert_def hm_get_def split: if_splits)

lemma length_hm_retain: "length (hm_retain P m) \<le> length m"
  by (simp add: hm_retain_def)

lemma length_hm_remove: "length (hm_remove k m) \<le> length m"
  by (simp add: hm_remove_def length_delete_le)

section \<open>The keyed store interface\<close>

text \<open>
  What the in-memory registries (voice states, presences, sessions, parked sessions, trackers)
  rely on: a lookup after an insert or a removal.  The client facts are proved once here.
\<close>

locale keyed_store =
  fixes get :: "'m \<Rightarrow> 'k \<Rightarrow> 'v option"
    and insert :: "'k \<Rightarrow> 'v \<Rightarrow> 'm \<Rightarrow> 'm"
    and remove :: "'k \<Rightarrow> 'm \<Rightarrow> 'm"
    and invar :: "'m \<Rightarrow> bool"
  assumes get_insert: "invar m \<Longrightarrow> get (insert k v m) k' = (if k' = k then Some v else get m k')"
    and get_remove: "invar m \<Longrightarrow> get (remove k m) k' = (if k' = k then None else get m k')"
    and invar_insert: "invar m \<Longrightarrow> invar (insert k v m)"
    and invar_remove: "invar m \<Longrightarrow> invar (remove k m)"
begin

text \<open>Removing what was just inserted forgets the key and nothing else.\<close>

lemma remove_insert_get:
  "invar m \<Longrightarrow> get (remove k (insert k v m)) k' = (if k' = k then None else get m k')"
  by (simp add: get_remove get_insert invar_insert)

text \<open>The last insert under a key wins.\<close>

lemma insert_insert_get:
  "invar m \<Longrightarrow> get (insert k w (insert k v m)) k' = get (insert k w m) k'"
  by (simp add: get_insert invar_insert)

text \<open>A registry that files every entry under the owner it names stays that way.\<close>

lemma owner_preserved:
  assumes "invar m" and "\<forall>k v. get m k = Some v \<longrightarrow> owner v = k" and "owner v0 = k0"
  shows "\<forall>k v. get (insert k0 v0 m) k = Some v \<longrightarrow> owner v = k"
  using assms by (simp add: get_insert)

lemma owner_preserved_remove:
  assumes "invar m" and "\<forall>k v. get m k = Some v \<longrightarrow> owner v = k"
  shows "\<forall>k v. get (remove k0 m) k = Some v \<longrightarrow> owner v = k"
  using assms by (simp add: get_remove)

end

interpretation hm: keyed_store hm_get hm_insert hm_remove hm_wf
  by unfold_locales simp_all

section \<open>Lists\<close>

text \<open>\<open>if !xs.contains(p) { xs.push(p) }\<close> over a list of additions.\<close>

definition push_missing :: "'a list \<Rightarrow> 'a list \<Rightarrow> 'a list" where
  "push_missing xs ps = foldl (\<lambda>acc p. if p \<in> set acc then acc else acc @ [p]) xs ps"

lemma push_missing_Nil [simp]: "push_missing xs [] = xs"
  by (simp add: push_missing_def)

lemma push_missing_Cons:
  "push_missing xs (p # ps) = push_missing (if p \<in> set xs then xs else xs @ [p]) ps"
  by (simp add: push_missing_def)

lemma set_push_missing [simp]: "set (push_missing xs ps) = set xs \<union> set ps"
  by (induction ps arbitrary: xs) (auto simp: push_missing_Cons)

lemma distinct_push_missing: "distinct xs \<Longrightarrow> distinct (push_missing xs ps)"
  by (induction ps arbitrary: xs) (auto simp: push_missing_Cons)

text \<open>\<open>for d in ds { xs.retain(|p| p != d) }\<close>.\<close>

definition retain_not_in :: "'a list \<Rightarrow> 'a list \<Rightarrow> 'a list" where
  "retain_not_in xs ds = foldl (\<lambda>acc d. filter (\<lambda>p. p \<noteq> d) acc) xs ds"

lemma set_retain_not_in [simp]: "set (retain_not_in xs ds) = set xs - set ds"
  by (induction ds arbitrary: xs) (auto simp: retain_not_in_def)

lemma find_False [simp]: "find (\<lambda>_. False) xs = None"
  by (induction xs) simp_all

lemma find_SomeD: "find P xs = Some x \<Longrightarrow> x \<in> set xs \<and> P x"
  by (auto simp: find_Some_iff)

end
