(* ===== verification/Snowflake.thy ===== *)
theory Snowflake
  imports Prelude "HOL-Library.Word"
begin

unbundle bit_operations_syntax

text \<open>
  The id generator of \<open>Server/src/snowflake.rs\<close>: two process-wide atomics and a millisecond
  clock.  \<open>generate\<close> is the code run by one caller at a time, on the clock readings it makes;
  \<open>sf_step\<close> is the same code as atomic steps of any number of threads.
\<close>

type_synonym u64 = "64 word"

definition EPOCH :: u64 where
  "EPOCH = 1704067200000"

section \<open>The generator, one caller at a time\<close>

record sf_state =
  SEQUENCE :: u64
  LAST_TIMESTAMP :: u64

text \<open>\<open>while timestamp <= last { timestamp = now_ms() - EPOCH; }\<close> on the coming clock readings;
  \<open>None\<close> when the readings run out, that is while the loop still spins.\<close>

fun wait_next_ms :: "u64 \<Rightarrow> u64 \<Rightarrow> u64 list \<Rightarrow> (u64 \<times> u64 list) option" where
  "wait_next_ms timestamp lst clock =
     (if timestamp \<le> lst
      then (case clock of [] \<Rightarrow> None | now # clock' \<Rightarrow> wait_next_ms (now - EPOCH) lst clock')
      else Some (timestamp, clock))"

declare wait_next_ms.simps [simp del]

definition make_id :: "u64 \<Rightarrow> u64 \<Rightarrow> u64" where
  "make_id timestamp seq = (push_bit 22 timestamp OR seq)"

fun generate :: "sf_state \<Rightarrow> u64 list \<Rightarrow> (u64 \<times> sf_state \<times> u64 list) option" where
  "generate st [] = None"
| "generate st (now # clock) =
     (let timestamp = now - EPOCH; lst = LAST_TIMESTAMP st in
      if timestamp = lst then
        (let seq = SEQUENCE st AND 0xFFF; st1 = st\<lparr>SEQUENCE := SEQUENCE st + 1\<rparr> in
         if seq = 0 then
           (case wait_next_ms timestamp lst clock of
              None \<Rightarrow> None
            | Some (timestamp', clock') \<Rightarrow>
                Some (make_id timestamp' seq, st1\<lparr>LAST_TIMESTAMP := timestamp'\<rparr>, clock'))
         else Some (make_id timestamp seq, st1\<lparr>LAST_TIMESTAMP := timestamp\<rparr>, clock))
      else Some (push_bit 22 timestamp, \<lparr>SEQUENCE = 1, LAST_TIMESTAMP = timestamp\<rparr>, clock))"

text \<open>\<open>n\<close> calls in a row.\<close>

fun generate_many :: "nat \<Rightarrow> sf_state \<Rightarrow> u64 list \<Rightarrow> u64 list option" where
  "generate_many 0 st clock = Some []"
| "generate_many (Suc n) st clock =
     (case generate st clock of
        None \<Rightarrow> None
      | Some (i, st', clock') \<Rightarrow> map_option ((#) i) (generate_many n st' clock'))"

definition timestamp_of :: "string \<Rightarrow> nat option" where
  "timestamp_of i =
     (case parse_u64 (takeWhile (\<lambda>c. c \<noteq> CHR ''@'') i) of
        None \<Rightarrow> None
      | Some num \<Rightarrow> Some (num div 2 ^ 22 + unat EPOCH))"

section \<open>Ids as numbers\<close>

lemma unat_EPOCH: "unat EPOCH = 1704067200000"
  by (simp add: EPOCH_def)

lemma mask_12: "mask 12 = (0xFFF :: u64)" and two_12: "(2 :: u64) ^ 12 = 4096"
  by (simp_all add: mask_eq_exp_minus_1)

lemma seq_mod: "(x :: u64) AND 0xFFF = x mod 4096"
  by (rule trans [OF take_bit_eq_mask [of 12 x, unfolded mask_12, symmetric]
        take_bit_eq_mod [of 12 x, unfolded two_12]])

lemma seq_nat: "unat ((x :: u64) AND 0xFFF) = unat x mod 4096"
  unfolding seq_mod by (simp add: unat_mod)

lemma seq_bound: "unat ((x :: u64) AND 0xFFF) < 4096"
  by (simp add: seq_nat)

lemma previous_mod: "((a :: nat) + 4095) mod 4096 = (if a mod 4096 = 0 then 4095 else a mod 4096 - 1)"
proof -
  have e: "(a + 4095) mod 4096 = (a mod 4096 + 4095) mod 4096"
    by (metis mod_add_left_eq)
  show ?thesis
  proof (cases "a mod 4096")
    case (Suc r)
    moreover have "Suc r < 4096" using Suc mod_less_divisor [of 4096 a] by linarith
    ultimately show ?thesis using e by simp
  qed (use e in simp)
qed

lemma successor_mod:
  assumes "(a :: nat) mod 4096 = (q + 1) mod 4096" and "q < 4096"
  shows "(a + 4095) mod 4096 = q"
proof -
  have "(a + 4095) mod 4096 = ((q + 1) + 4095) mod 4096"
    using assms(1) by (metis mod_add_left_eq)
  then show ?thesis using assms(2) by simp
qed

lemma unat_shift:
  assumes "unat (t :: u64) < 2 ^ 42"
  shows "unat (push_bit 22 t) = unat t * 2 ^ 22"
proof -
  have "unat (push_bit 22 t) = (unat t * 2 ^ 22) mod 2 ^ 64"
    by (simp add: push_bit_eq_mult unat_word_ariths)
  then show ?thesis using assms by simp
qed

lemma make_id_value:
  assumes t: "unat t < 2 ^ 42" and q: "unat q < 2 ^ 22"
  shows "unat (make_id t q) = unat t * 2 ^ 22 + unat q"
proof -
  have "push_bit 22 t AND q = 0"
  proof (rule bit_word_eqI)
    fix n
    assume "n < LENGTH(64)"
    have "q = take_bit 22 q"
      using q by (simp add: word_unat_eq_iff unsigned_take_bit_eq take_bit_nat_eq_self)
    then have "bit q n \<Longrightarrow> n < 22"
      by (metis bit_take_bit_iff)
    then show "bit (push_bit 22 t AND q) n = bit (0 :: u64) n"
      by (auto simp: bit_and_iff bit_push_bit_iff)
  qed
  then have "make_id t q = push_bit 22 t + q"
    by (simp add: make_id_def disjunctive_add_eq_or)
  moreover have "unat (push_bit 22 t) + unat q < 2 ^ 64"
    using t q by (simp add: unat_shift)
  ultimately show ?thesis
    by (simp add: unat_word_ariths unat_shift [OF t])
qed

lemma shift_is_make_id: "push_bit 22 t = make_id t 0"
  by (simp add: make_id_def)

text \<open>The id that the last call issued, read off the state it left.\<close>

definition last_issued :: "sf_state \<Rightarrow> nat" where
  "last_issued st = unat (LAST_TIMESTAMP st) * 2 ^ 22 + (unat (SEQUENCE st) + 4095) mod 4096"

text \<open>A clock that does not run backwards and stays within the 42 bits an id has for it.\<close>

definition steady_clock :: "u64 \<Rightarrow> u64 list \<Rightarrow> bool" where
  "steady_clock lst clock \<longleftrightarrow>
     sorted (map unat clock) \<and>
     (\<forall>now \<in> set clock. unat EPOCH + unat lst \<le> unat now \<and> unat now < unat EPOCH + 2 ^ 42)"

lemma steady_since_epoch:
  assumes "steady_clock lst clock" and "now \<in> set clock"
  shows "unat (now - EPOCH) = unat now - unat EPOCH"
    and "unat lst \<le> unat (now - EPOCH)" and "unat (now - EPOCH) < 2 ^ 42"
proof -
  from assms have b: "unat EPOCH + unat lst \<le> unat now" "unat now < unat EPOCH + 2 ^ 42"
    by (auto simp: steady_clock_def)
  then have "EPOCH \<le> now" by (simp add: word_le_nat_alt)
  then show eq: "unat (now - EPOCH) = unat now - unat EPOCH"
    by (rule unat_sub)
  show "unat lst \<le> unat (now - EPOCH)" and "unat (now - EPOCH) < 2 ^ 42"
    using b by (simp_all add: eq)
qed

lemma steady_clock_tl: "steady_clock lst (now # clock) \<Longrightarrow> steady_clock lst clock"
  by (simp add: steady_clock_def)

lemma steady_clock_advance:
  assumes "steady_clock lst (now # clock)"
  shows "steady_clock (now - EPOCH) clock"
  using assms steady_since_epoch(1) [OF assms, of now] by (auto simp: steady_clock_def)

lemma wait_next_ms_Some:
  assumes "wait_next_ms t lst clock = Some (t', clock')"
    and "steady_clock lst clock" and "unat t < 2 ^ 42" and "steady_clock t clock"
  shows "unat lst < unat t' \<and> unat t' < 2 ^ 42 \<and> steady_clock t' clock'"
  using assms
proof (induction t lst clock rule: wait_next_ms.induct)
  case (1 t lst clock)
  show ?case
  proof (cases "t \<le> lst")
    case False
    with "1.prems" show ?thesis
      by (auto simp: wait_next_ms.simps [of t lst clock] word_less_nat_alt not_le)
  next
    case True
    with "1.prems" obtain now rest where clock: "clock = now # rest"
      by (auto simp: wait_next_ms.simps [of t lst clock] split: list.splits)
    from "1.prems"(2) have st: "steady_clock lst (now # rest)" by (simp add: clock)
    have "wait_next_ms (now - EPOCH) lst rest = Some (t', clock')"
      using "1.prems"(1) True by (simp add: clock wait_next_ms.simps [of t lst "now # rest"])
    then show ?thesis
      using "1.IH" [OF True clock] steady_clock_tl [OF st] steady_clock_advance [OF st]
        steady_since_epoch(3) [OF st] by simp
  qed
qed

text \<open>One call: the id is the one the new state records, and it is above the previous one.\<close>

lemma generate_step:
  assumes g: "generate st clock = Some (i, st', clock')"
    and steady: "steady_clock (LAST_TIMESTAMP st) clock"
  shows "unat i = last_issued st' \<and> last_issued st < unat i \<and>
    steady_clock (LAST_TIMESTAMP st') clock'"
proof -
  let ?lst = "LAST_TIMESTAMP st"
  from g obtain now rest where clock: "clock = now # rest" by (cases clock) auto
  let ?t = "now - EPOCH"
  have st: "steady_clock ?lst (now # rest)" using steady clock by simp
  have b: "unat ?lst \<le> unat ?t" "unat ?t < 2 ^ 42"
    using steady_since_epoch(2,3) [OF st, of now] by simp_all
  have adv: "steady_clock ?t rest" by (rule steady_clock_advance [OF st])
  let ?seq = "SEQUENCE st AND 0xFFF"
  have seq: "unat ?seq < 2 ^ 22" using seq_bound [of "SEQUENCE st"] by simp
  have succ: "unat (SEQUENCE st + 1) mod 4096 = (unat ?seq + 1) mod 4096"
    by (simp add: seq_nat unat_word_ariths mod_mod_cancel mod_Suc_eq)
  have issued_next: "(unat (SEQUENCE st + 1) + 4095) mod 4096 = unat ?seq"
    by (rule successor_mod [OF succ seq_bound])
  show ?thesis
  proof (cases "?t = ?lst")
    case False
    then have "unat ?lst < unat ?t" using b by (metis le_neq_implies_less word_unat_eq_iff)
    moreover have "i = push_bit 22 ?t" "st' = \<lparr>SEQUENCE = 1, LAST_TIMESTAMP = ?t\<rparr>" "clock' = rest"
      using g False by (simp_all add: clock Let_def)
    ultimately show ?thesis
      using adv b mod_less_divisor [of 4096 "unat (SEQUENCE st) + 4095"]
      by (simp add: last_issued_def unat_shift)
  next
    case same: True
    show ?thesis
    proof (cases "?seq = 0")
      case False
      then have i: "i = make_id ?t ?seq"
        and st': "st' = st\<lparr>SEQUENCE := SEQUENCE st + 1, LAST_TIMESTAMP := ?t\<rparr>" and "clock' = rest"
        using g same by (cases st; simp add: clock Let_def)+
      have "(unat (SEQUENCE st) + 4095) mod 4096 < unat ?seq"
        using False by (simp add: previous_mod word_unat_eq_iff seq_nat)
      then show ?thesis
        using adv b same issued_next \<open>clock' = rest\<close> make_id_value [OF b(2) seq]
        by (simp add: i st' last_issued_def)
    next
      case zero: True
      then obtain t' where w: "wait_next_ms ?t ?lst rest = Some (t', clock')"
        and i: "i = make_id t' ?seq"
        and st': "st' = st\<lparr>SEQUENCE := SEQUENCE st + 1, LAST_TIMESTAMP := t'\<rparr>"
        using g same by (auto simp: clock Let_def split: option.splits)
      from wait_next_ms_Some [OF w steady_clock_tl [OF st] b(2) adv]
      have t': "unat ?lst < unat t'" "unat t' < 2 ^ 42" "steady_clock t' clock'" by auto
      then show ?thesis
        using mod_less_divisor [of 4096 "unat (SEQUENCE st) + 4095"] issued_next
        by (simp add: i st' last_issued_def make_id_value [OF t'(2) seq])
    qed
  qed
qed

lemma generate_make_id:
  assumes g: "generate st clock = Some (i, st', clock')"
    and steady: "steady_clock (LAST_TIMESTAMP st) clock"
  shows "\<exists>t q. i = make_id t q \<and> LAST_TIMESTAMP st' = t \<and> unat t < 2 ^ 42 \<and> unat q < 2 ^ 22"
proof -
  let ?lst = "LAST_TIMESTAMP st"
  from g obtain now rest where clock: "clock = now # rest" by (cases clock) auto
  let ?t = "now - EPOCH"
  have st: "steady_clock ?lst (now # rest)" using steady clock by simp
  have b: "unat ?t < 2 ^ 42" using steady_since_epoch(3) [OF st, of now] by simp
  have seq: "unat (SEQUENCE st AND 0xFFF) < 2 ^ 22" using seq_bound [of "SEQUENCE st"] by simp
  have wait: "unat t' < 2 ^ 42" if "wait_next_ms ?t ?lst rest = Some (t', clock')" for t'
    using wait_next_ms_Some [OF that steady_clock_tl [OF st] b steady_clock_advance [OF st]] by simp
  have "i = make_id (LAST_TIMESTAMP st') 0 \<or> i = make_id (LAST_TIMESTAMP st') (SEQUENCE st AND 0xFFF)"
    and "unat (LAST_TIMESTAMP st') < 2 ^ 42"
    using g b wait
    by (auto simp: clock Let_def shift_is_make_id split: if_splits option.splits)
  then show ?thesis using seq by (metis unat_0 zero_less_numeral zero_less_power)
qed

lemma generate_many_above:
  assumes "generate_many n st clock = Some ids" and "steady_clock (LAST_TIMESTAMP st) clock"
  shows "sorted_wrt (<) (map unat ids) \<and> (\<forall>i \<in> set ids. last_issued st < unat i)"
  using assms
proof (induction n arbitrary: st clock ids)
  case 0
  then show ?case by simp
next
  case (Suc n)
  then obtain i st' clock' rest where g: "generate st clock = Some (i, st', clock')"
    and rest: "generate_many n st' clock' = Some rest" and ids: "ids = i # rest"
    by (auto split: option.splits)
  note step = generate_step [OF g Suc.prems(2)]
  with Suc.IH [OF rest] have "sorted_wrt (<) (map unat rest)"
    "\<forall>j \<in> set rest. unat i < unat j" by auto
  then show ?case using step by (auto simp: ids)
qed

text \<open>C24.  Calls that run one after the other, on a clock that does not step back, issue strictly
  increasing ids: no id is issued twice, even when 4096 calls exhaust a millisecond.\<close>

theorem generate_strictly_increasing:
  assumes "generate_many n st clock = Some ids" and "steady_clock (LAST_TIMESTAMP st) clock"
  shows "sorted_wrt (<) (map unat ids) \<and> distinct ids"
proof -
  have sorted: "sorted_wrt (<) (map unat ids)"
    using generate_many_above [OF assms] by simp
  then have "distinct (map unat ids)"
    by (simp add: strict_sorted_iff)
  then show ?thesis using sorted by (simp add: distinct_map)
qed

theorem generate_strictly_increasing_witness:
  "sorted_wrt (<) (map unat [20971520, 20971521, 25165824 :: u64]) \<and>
   distinct [20971520, 20971521, 25165824 :: u64]"
proof -
  let ?st = "\<lparr>SEQUENCE = 0, LAST_TIMESTAMP = 0\<rparr>"
  let ?clock = "[EPOCH + 5, EPOCH + 5, EPOCH + 6]"
  have "generate_many 3 ?st ?clock = Some [20971520, 20971521, 25165824]"
    by (simp add: numeral_3_eq_3 Let_def make_id_def EPOCH_def push_bit_eq_mult)
  moreover have "steady_clock (LAST_TIMESTAMP ?st) ?clock"
    by (simp add: steady_clock_def EPOCH_def)
  ultimately show ?thesis
    using generate_strictly_increasing [of 3 ?st ?clock "[20971520, 20971521, 25165824]"] by blast
qed

section \<open>Reading the timestamp back\<close>

lemma digit_not_at: "is_ascii_digit c \<Longrightarrow> c \<noteq> CHR ''@''"
  by (auto simp: is_ascii_digit_def byte_def)

lemma takeWhile_digits:
  "list_all is_ascii_digit ds \<Longrightarrow> takeWhile (\<lambda>c. c \<noteq> CHR ''@'') (ds @ CHR ''@'' # rest) = ds"
  by (induction ds) (auto simp: digit_not_at)

lemma takeWhile_digits':
  "list_all is_ascii_digit ds \<Longrightarrow> takeWhile (\<lambda>c. c \<noteq> CHR ''@'') ds = ds"
  by (induction ds) (auto simp: digit_not_at)

lemma timestamp_of_id:
  assumes "unat t < 2 ^ 42" and "unat q < 2 ^ 22"
  shows "timestamp_of (to_decimal (unat (make_id t q))) = Some (unat t + unat EPOCH)"
    and "timestamp_of (to_decimal (unat (make_id t q)) @ CHR ''@'' # domain) = Some (unat t + unat EPOCH)"
proof -
  let ?s = "to_decimal (unat (make_id t q))"
  have parse: "parse_u64 ?s = Some (unat t * 2 ^ 22 + unat q)"
    using parse_to_decimal [of "unat (make_id t q)"] unsigned_less [of "make_id t q", where 'a = nat]
    by (simp add: make_id_value [OF assms])
  have "(unat t * 2 ^ 22 + unat q) div 2 ^ 22 = unat t"
    using assms(2) by simp
  then show "timestamp_of ?s = Some (unat t + unat EPOCH)"
    and "timestamp_of (?s @ CHR ''@'' # domain) = Some (unat t + unat EPOCH)"
    by (simp_all add: timestamp_of_def parse takeWhile_digits [OF to_decimal_digits]
        takeWhile_digits' [OF to_decimal_digits])
qed

text \<open>The timestamp read from an issued id, bare or qualified with a home domain, is the
  millisecond the generator recorded when it issued the id.\<close>

theorem timestamp_of_generated:
  assumes g: "generate st clock = Some (i, st', clock')"
    and steady: "steady_clock (LAST_TIMESTAMP st) clock"
  shows "timestamp_of (to_decimal (unat i)) = Some (unat (LAST_TIMESTAMP st') + unat EPOCH) \<and>
    timestamp_of (to_decimal (unat i) @ CHR ''@'' # domain) =
      Some (unat (LAST_TIMESTAMP st') + unat EPOCH)"
proof -
  obtain t q where i: "i = make_id t q" "LAST_TIMESTAMP st' = t" "unat t < 2 ^ 42" "unat q < 2 ^ 22"
    using generate_make_id [OF g steady] by blast
  then show ?thesis using timestamp_of_id [OF i(3,4)] by simp
qed

theorem timestamp_of_generated_witness:
  "timestamp_of (to_decimal 20971520) = Some 1704067200005 \<and>
   timestamp_of (to_decimal 20971520 @ ''@chat.example'') = Some 1704067200005"
proof -
  let ?st = "\<lparr>SEQUENCE = 0, LAST_TIMESTAMP = 0\<rparr>"
  have "generate ?st [EPOCH + 5] = Some (20971520, \<lparr>SEQUENCE = 1, LAST_TIMESTAMP = 5\<rparr>, [])"
    by (simp add: Let_def EPOCH_def push_bit_eq_mult)
  moreover have "steady_clock (LAST_TIMESTAMP ?st) [EPOCH + 5]"
    by (simp add: steady_clock_def EPOCH_def)
  ultimately show ?thesis
    using timestamp_of_generated [of ?st "[EPOCH + 5]" 20971520 _ _ "''chat.example''"]
    by (fastforce simp: unat_EPOCH)
qed

section \<open>The generator run by several threads\<close>

text \<open>
  The same code one atomic access at a time.  \<open>generate\<close> takes no lock, so the steps of two
  callers interleave: each program point below is one between two accesses.
\<close>

datatype sf_pc =
    Start
  | Read u64                \<comment> \<open>\<open>now_ms() - EPOCH\<close> taken\<close>
  | Loaded u64 u64          \<comment> \<open>and \<open>LAST_TIMESTAMP\<close> loaded\<close>
  | Spin u64 u64            \<comment> \<open>sequence overflow: waiting for the next millisecond\<close>
  | Fetched u64 u64         \<comment> \<open>timestamp and sequence fixed, \<open>LAST_TIMESTAMP\<close> not yet stored\<close>
  | Fresh u64               \<comment> \<open>new millisecond stored, \<open>SEQUENCE\<close> not yet reset\<close>
  | Done u64

record sf_sys =
  clock_ms :: u64
  atomics :: sf_state
  threads :: "nat \<Rightarrow> sf_pc"

definition sf_init :: "u64 \<Rightarrow> sf_sys" where
  "sf_init now = \<lparr>clock_ms = now, atomics = \<lparr>SEQUENCE = 0, LAST_TIMESTAMP = 0\<rparr>, threads = (\<lambda>_. Start)\<rparr>"

inductive sf_step :: "sf_sys \<Rightarrow> sf_sys \<Rightarrow> bool" where
  tick: "sf_step s (s\<lparr>clock_ms := clock_ms s + 1\<rparr>)"
| read: "threads s k = Start \<Longrightarrow>
    sf_step s (s\<lparr>threads := (threads s)(k := Read (clock_ms s - EPOCH))\<rparr>)"
| load: "threads s k = Read t \<Longrightarrow>
    sf_step s (s\<lparr>threads := (threads s)(k := Loaded t (LAST_TIMESTAMP (atomics s)))\<rparr>)"
| fetch: "threads s k = Loaded t lst \<Longrightarrow> t = lst \<Longrightarrow> seq = SEQUENCE (atomics s) AND 0xFFF \<Longrightarrow>
    sf_step s (s\<lparr>atomics := (atomics s)\<lparr>SEQUENCE := SEQUENCE (atomics s) + 1\<rparr>,
      threads := (threads s)(k := (if seq = 0 then Spin t lst else Fetched t seq))\<rparr>)"
| spin: "threads s k = Spin t lst \<Longrightarrow> t \<le> lst \<Longrightarrow>
    sf_step s (s\<lparr>threads := (threads s)(k := Spin (clock_ms s - EPOCH) lst)\<rparr>)"
| spun: "threads s k = Spin t lst \<Longrightarrow> \<not> t \<le> lst \<Longrightarrow>
    sf_step s (s\<lparr>threads := (threads s)(k := Fetched t 0)\<rparr>)"
| finish: "threads s k = Fetched t seq \<Longrightarrow>
    sf_step s (s\<lparr>atomics := (atomics s)\<lparr>LAST_TIMESTAMP := t\<rparr>,
      threads := (threads s)(k := Done (make_id t seq))\<rparr>)"
| store_fresh: "threads s k = Loaded t lst \<Longrightarrow> t \<noteq> lst \<Longrightarrow>
    sf_step s (s\<lparr>atomics := (atomics s)\<lparr>LAST_TIMESTAMP := t\<rparr>,
      threads := (threads s)(k := Fresh t)\<rparr>)"
| finish_fresh: "threads s k = Fresh t \<Longrightarrow>
    sf_step s (s\<lparr>atomics := (atomics s)\<lparr>SEQUENCE := 1\<rparr>,
      threads := (threads s)(k := Done (push_bit 22 t))\<rparr>)"

inductive_cases sf_step_cases: "sf_step s t"

text \<open>The clock of the interleaved model never steps back before it wraps, so a repeated id
  below is owed to the interleaving alone.\<close>

lemma sf_step_clock: "sf_step s t \<Longrightarrow> clock_ms t = clock_ms s \<or> clock_ms t = clock_ms s + 1"
  by (erule sf_step_cases) auto

text \<open>Two threads that read the same fresh millisecond before either has stored it both take
  the branch for a new millisecond and issue the same id: uniqueness does not survive concurrency.\<close>

theorem generate_race_repeats_id:
  "\<exists>s i. rtranclp sf_step (sf_init now) s \<and> threads s 0 = Done i \<and> threads s 1 = Done i"
  if fresh: "now \<noteq> EPOCH"
proof -
  let ?t = "now - EPOCH"
  let ?A = "\<lparr>SEQUENCE = 0, LAST_TIMESTAMP = 0\<rparr> :: sf_state"
  let ?B = "\<lparr>SEQUENCE = 0, LAST_TIMESTAMP = ?t\<rparr> :: sf_state"
  let ?C = "\<lparr>SEQUENCE = 1, LAST_TIMESTAMP = ?t\<rparr> :: sf_state"
  let ?th = "\<lambda>p q. (\<lambda>_. Start) (0 := p, 1 := q)"
  let ?s = "\<lambda>a p q. \<lparr>clock_ms = now, atomics = a, threads = ?th p q\<rparr>"
  have nz: "?t \<noteq> 0" using fresh by simp
  have s0: "sf_init now = ?s ?A Start Start" by (auto simp: sf_init_def fun_eq_iff)
  have s1: "sf_step (?s ?A Start Start) (?s ?A (Read ?t) Start)"
    using sf_step.read [of "?s ?A Start Start" 0] by (simp add: fun_upd_twist)
  have s2: "sf_step (?s ?A (Read ?t) Start) (?s ?A (Read ?t) (Read ?t))"
    using sf_step.read [of "?s ?A (Read ?t) Start" 1] by simp
  have s3: "sf_step (?s ?A (Read ?t) (Read ?t)) (?s ?A (Loaded ?t 0) (Read ?t))"
    using sf_step.load [of "?s ?A (Read ?t) (Read ?t)" 0 ?t] by (simp add: fun_upd_twist)
  have s4: "sf_step (?s ?A (Loaded ?t 0) (Read ?t)) (?s ?A (Loaded ?t 0) (Loaded ?t 0))"
    using sf_step.load [of "?s ?A (Loaded ?t 0) (Read ?t)" 1 ?t] by simp
  have s5: "sf_step (?s ?A (Loaded ?t 0) (Loaded ?t 0)) (?s ?B (Fresh ?t) (Loaded ?t 0))"
    using sf_step.store_fresh [of "?s ?A (Loaded ?t 0) (Loaded ?t 0)" 0 ?t 0] nz
    by (simp add: fun_upd_twist)
  have s6: "sf_step (?s ?B (Fresh ?t) (Loaded ?t 0)) (?s ?B (Fresh ?t) (Fresh ?t))"
    using sf_step.store_fresh [of "?s ?B (Fresh ?t) (Loaded ?t 0)" 1 ?t 0] nz by simp
  have s7: "sf_step (?s ?B (Fresh ?t) (Fresh ?t)) (?s ?C (Done (push_bit 22 ?t)) (Fresh ?t))"
    using sf_step.finish_fresh [of "?s ?B (Fresh ?t) (Fresh ?t)" 0 ?t] by (simp add: fun_upd_twist)
  have s8: "sf_step (?s ?C (Done (push_bit 22 ?t)) (Fresh ?t))
      (?s ?C (Done (push_bit 22 ?t)) (Done (push_bit 22 ?t)))"
    using sf_step.finish_fresh [of "?s ?C (Done (push_bit 22 ?t)) (Fresh ?t)" 1 ?t] by simp
  have "rtranclp sf_step (sf_init now) (?s ?C (Done (push_bit 22 ?t)) (Done (push_bit 22 ?t)))"
    unfolding s0
    by (rule converse_rtranclp_into_rtranclp, rule s1, rule converse_rtranclp_into_rtranclp, rule s2,
        rule converse_rtranclp_into_rtranclp, rule s3, rule converse_rtranclp_into_rtranclp, rule s4,
        rule converse_rtranclp_into_rtranclp, rule s5, rule converse_rtranclp_into_rtranclp, rule s6,
        rule converse_rtranclp_into_rtranclp, rule s7, rule r_into_rtranclp, rule s8)
  then show ?thesis by (intro exI conjI) (assumption, simp_all)
qed

theorem generate_race_repeats_id_witness:
  "\<exists>s i. rtranclp sf_step (sf_init (EPOCH + 5)) s \<and> threads s 0 = Done i \<and> threads s 1 = Done i"
  by (rule generate_race_repeats_id) simp

end
