(* ===== verification/Slug.thy ===== *)
theory Slug
  imports Prelude
begin

text \<open>
  Space slugs, \<open>Server/src/slug.rs\<close>: \<open>slugify\<close> derives one from a name, \<open>validate_slug\<close> accepts
  one from a user.

  \<open>slugify\<close> works on Unicode scalar values, so a name is the list of them here (\<open>nat list\<close>);
  everything after the first pass is ASCII and a \<open>string\<close>.  \<open>str::to_lowercase\<close> is written out
  on ASCII; on the rest of Unicode it is the argument \<open>lower\<close>, the table of the standard library
  (which maps, for example, the Kelvin sign to the ASCII letter k).
\<close>

section \<open>slugify\<close>

definition to_lowercase :: "(nat \<Rightarrow> nat list) \<Rightarrow> nat list \<Rightarrow> nat list" where
  "to_lowercase lower name =
     concat (map (\<lambda>c. if c < 128 then [if 65 \<le> c \<and> c \<le> 90 then c + 32 else c] else lower c) name)"

text \<open>\<open>if c.is_ascii_alphanumeric() { c } else { '-' }\<close>.\<close>

definition slug_char :: "nat \<Rightarrow> char" where
  "slug_char c = (if c < 128 \<and> is_ascii_alphanumeric (char_of c) then char_of c else CHR ''-'')"

fun collapse_hyphens :: "bool \<Rightarrow> string \<Rightarrow> string" where
  "collapse_hyphens prev_hyphen [] = []"
| "collapse_hyphens prev_hyphen (c # cs) =
     (if c = CHR ''-''
      then (if prev_hyphen then collapse_hyphens True cs else CHR ''-'' # collapse_hyphens True cs)
      else c # collapse_hyphens False cs)"

definition trim_start :: "string \<Rightarrow> string" where
  "trim_start s = dropWhile (\<lambda>c. c = CHR ''-'') s"

definition trim_end :: "string \<Rightarrow> string" where
  "trim_end s = rev (trim_start (rev s))"

definition slugify :: "(nat \<Rightarrow> nat list) \<Rightarrow> nat list \<Rightarrow> string" where
  "slugify lower name =
     (let slug = map slug_char (to_lowercase lower name);
          result = collapse_hyphens False slug;
          trimmed = trim_end (trim_start result);
          truncated = (if length trimmed > 100 then trim_end (take 100 trimmed) else trimmed)
      in if truncated \<noteq> [] \<and> list_all is_ascii_digit truncated
         then ''s-'' @ truncated else truncated)"

section \<open>validate\_slug\<close>

fun contains_double_hyphen :: "string \<Rightarrow> bool" where
  "contains_double_hyphen (a # b # cs) =
     (a = CHR ''-'' \<and> b = CHR ''-'' \<or> contains_double_hyphen (b # cs))"
| "contains_double_hyphen _ = False"

definition validate_slug :: "string \<Rightarrow> string + unit" where
  "validate_slug slug =
     (if slug = [] then Inl ''slug must not be empty''
      else if length slug > 100 then Inl ''slug must be 100 characters or fewer''
      else if \<not> list_all (\<lambda>c. is_ascii_lowercase c \<or> is_ascii_digit c \<or> c = CHR ''-'') slug
        then Inl ''slug may only contain lowercase letters, digits, and hyphens''
      else if hd slug = CHR ''-'' \<or> last slug = CHR ''-''
        then Inl ''slug must not start or end with a hyphen''
      else if contains_double_hyphen slug then Inl ''slug must not contain consecutive hyphens''
      else if list_all is_ascii_digit slug
        then Inl ''slug must contain at least one letter or hyphen''
      else Inr ())"

section \<open>What slugify produces\<close>

definition slug_alphabet :: "char \<Rightarrow> bool" where
  "slug_alphabet c \<longleftrightarrow> is_ascii_lowercase c \<or> is_ascii_digit c \<or> c = CHR ''-''"

text \<open>The table maps no character to an upper-case ASCII letter; the standard library's does not.\<close>

definition lowers :: "(nat \<Rightarrow> nat list) \<Rightarrow> bool" where
  "lowers lower \<longleftrightarrow> (\<forall>c. \<forall>d \<in> set (lower c). \<not> (65 \<le> d \<and> d \<le> 90))"

lemma slug_char_alphabet: "\<not> (65 \<le> c \<and> c \<le> 90) \<Longrightarrow> slug_alphabet (slug_char c)"
  by (auto simp: slug_char_def slug_alphabet_def is_ascii_alphanumeric_def is_ascii_uppercase_def)

lemma to_lowercase_lower:
  "lowers lower \<Longrightarrow> c \<in> set (to_lowercase lower name) \<Longrightarrow> \<not> (65 \<le> c \<and> c \<le> 90)"
  by (auto simp: to_lowercase_def lowers_def split: if_splits)

lemma set_collapse: "set (collapse_hyphens p s) \<subseteq> set s"
  by (induction p s rule: collapse_hyphens.induct) auto

lemma collapse_no_double:
  "\<not> contains_double_hyphen (collapse_hyphens p s) \<and>
   (p \<longrightarrow> collapse_hyphens p s = [] \<or> hd (collapse_hyphens p s) \<noteq> CHR ''-'')"
proof (induction p s rule: collapse_hyphens.induct)
  case (2 p c cs)
  then show ?case
    by (cases "collapse_hyphens True cs"; cases "collapse_hyphens False cs") auto
qed simp

lemma no_double_append:
  "\<not> contains_double_hyphen (xs @ ys) \<Longrightarrow> \<not> contains_double_hyphen xs \<and> \<not> contains_double_hyphen ys"
proof (induction xs)
  case (Cons x xs)
  then show ?case by (cases xs; cases ys) auto
qed simp

lemma trim_start_suffix: "\<exists>p. s = p @ trim_start s"
  unfolding trim_start_def by (metis takeWhile_dropWhile_id)

lemma trim_end_prefix: "\<exists>p. s = trim_end s @ p"
proof -
  obtain p where "rev s = p @ trim_start (rev s)" using trim_start_suffix by blast
  then have "s = rev (trim_start (rev s)) @ rev p" by (metis rev_append rev_rev_ident)
  then show ?thesis by (auto simp: trim_end_def)
qed

lemma trim_start_hd: "trim_start s \<noteq> [] \<Longrightarrow> hd (trim_start s) \<noteq> CHR ''-''"
  unfolding trim_start_def by (metis (mono_tags, lifting) hd_dropWhile)

lemma trim_end_last: "trim_end s \<noteq> [] \<Longrightarrow> last (trim_end s) \<noteq> CHR ''-''"
  using trim_start_hd [of "rev s"] by (simp add: trim_end_def last_rev)

lemma trim_end_hd: "trim_end s \<noteq> [] \<Longrightarrow> hd (trim_end s) = hd s"
  using trim_end_prefix [of s] by (metis hd_append2)

lemma length_trim_end: "length (trim_end s) \<le> length s"
  using length_dropWhile_le [of _ "rev s"] by (simp add: trim_end_def trim_start_def)

text \<open>What every stage keeps: alphabet, no doubled hyphen, no hyphen at either end.\<close>

definition slug_shape :: "string \<Rightarrow> bool" where
  "slug_shape s \<longleftrightarrow> list_all slug_alphabet s \<and> \<not> contains_double_hyphen s \<and>
     (s \<noteq> [] \<longrightarrow> hd s \<noteq> CHR ''-'' \<and> last s \<noteq> CHR ''-'')"

lemma shape_trim:
  assumes "list_all slug_alphabet s" and "\<not> contains_double_hyphen s"
  shows "slug_shape (trim_end (trim_start s))"
proof -
  obtain p where p: "s = p @ trim_start s" using trim_start_suffix by blast
  obtain q where q: "trim_start s = trim_end (trim_start s) @ q" using trim_end_prefix by blast
  have "list_all slug_alphabet (trim_end (trim_start s))"
    using assms(1) p q by (metis list_all_append)
  moreover have "\<not> contains_double_hyphen (trim_end (trim_start s))"
    using assms(2) p q by (metis no_double_append)
  moreover have "hd (trim_end (trim_start s)) \<noteq> CHR ''-''" if "trim_end (trim_start s) \<noteq> []"
    using that trim_end_hd [OF that] q trim_start_hd [of s] by (metis Nil_is_append_conv)
  ultimately show ?thesis by (auto simp: slug_shape_def dest: trim_end_last)
qed

lemma shape_truncate:
  assumes "slug_shape s"
  shows "slug_shape (trim_end (take 100 s))"
proof -
  obtain q where q: "take 100 s = trim_end (take 100 s) @ q" using trim_end_prefix by blast
  then have s: "s = trim_end (take 100 s) @ q @ drop 100 s"
    by (metis append.assoc append_take_drop_id)
  then have "list_all slug_alphabet (trim_end (take 100 s))"
    and "\<not> contains_double_hyphen (trim_end (take 100 s))"
    using assms unfolding slug_shape_def by (metis list_all_append, metis no_double_append)
  moreover have "hd (trim_end (take 100 s)) \<noteq> CHR ''-''" if "trim_end (take 100 s) \<noteq> []"
    using that assms s unfolding slug_shape_def by (metis append_is_Nil_conv hd_append2)
  ultimately show ?thesis by (auto simp: slug_shape_def dest: trim_end_last)
qed

definition slug_core :: "(nat \<Rightarrow> nat list) \<Rightarrow> nat list \<Rightarrow> string" where
  "slug_core lower name =
     (let trimmed = trim_end (trim_start (collapse_hyphens False (map slug_char (to_lowercase lower name))))
      in if length trimmed > 100 then trim_end (take 100 trimmed) else trimmed)"

lemma slugify_core:
  "slugify lower name =
     (if slug_core lower name \<noteq> [] \<and> list_all is_ascii_digit (slug_core lower name)
      then ''s-'' @ slug_core lower name else slug_core lower name)"
  by (simp add: slugify_def slug_core_def Let_def)

lemma slug_core_shape:
  assumes "lowers lower"
  shows "slug_shape (slug_core lower name) \<and> length (slug_core lower name) \<le> 100"
proof -
  let ?s = "collapse_hyphens False (map slug_char (to_lowercase lower name))"
  have "list_all slug_alphabet (map slug_char (to_lowercase lower name))"
    using to_lowercase_lower [OF assms] slug_char_alphabet by (fastforce simp: list_all_iff)
  then have "list_all slug_alphabet ?s"
    using set_collapse by (fastforce simp: list_all_iff)
  then have "slug_shape (trim_end (trim_start ?s))"
    using collapse_no_double by (blast intro: shape_trim)
  then show ?thesis
    using shape_truncate length_trim_end [of "take 100 (trim_end (trim_start ?s))"]
    by (auto simp: slug_core_def Let_def)
qed

lemma digits_no_double: "list_all is_ascii_digit s \<Longrightarrow> \<not> contains_double_hyphen s"
  by (induction s rule: contains_double_hyphen.induct) (auto simp: is_ascii_digit_def byte_def)

lemma digit_prefixed:
  assumes "s \<noteq> []" and d: "list_all is_ascii_digit s"
  shows "slug_shape (''s-'' @ s)"
proof -
  obtain c cs where s: "s = c # cs" using assms(1) by (cases s) auto
  have dash: "x \<noteq> CHR ''-''" if "is_ascii_digit x" for x
    using that by (auto simp: is_ascii_digit_def byte_def)
  have "last s \<noteq> CHR ''-''" using dash d assms(1) by (simp add: list_all_iff)
  then show ?thesis
    using d dash digits_no_double [OF d] by (auto simp: slug_shape_def slug_alphabet_def s
        is_ascii_lowercase_def byte_def list_all_iff)
qed

lemma validate_shape:
  "slug_shape s \<Longrightarrow> s \<noteq> [] \<Longrightarrow> length s \<le> 100 \<Longrightarrow> \<not> list_all is_ascii_digit s \<Longrightarrow>
   validate_slug s = Inr ()"
  by (simp add: validate_slug_def slug_shape_def slug_alphabet_def [abs_def])

text \<open>Whatever the name, the derived slug is empty, or passes the validation a user-provided
  slug has to pass, or is one of the over-long numeric slugs of the next property: 101 or 102
  characters, all of them after \<open>s-\<close> digits.\<close>

theorem slugify_valid:
  assumes "lowers lower"
  shows "slugify lower name = [] \<or> validate_slug (slugify lower name) = Inr () \<or>
    (\<exists>ds. slugify lower name = ''s-'' @ ds \<and> list_all is_ascii_digit ds \<and> length ds \<in> {99, 100})"
proof -
  let ?c = "slug_core lower name"
  have shape: "slug_shape ?c" and len: "length ?c \<le> 100"
    using slug_core_shape [OF assms] by auto
  show ?thesis
  proof (cases "?c \<noteq> [] \<and> list_all is_ascii_digit ?c")
    case False
    then show ?thesis using validate_shape [OF shape] len by (auto simp: slugify_core)
  next
    case digits: True
    then have eq: "slugify lower name = ''s-'' @ ?c" by (simp add: slugify_core)
    show ?thesis
    proof (cases "length ?c \<le> 98")
      case True
      then have "validate_slug (''s-'' @ ?c) = Inr ()"
        using digit_prefixed digits
        by (intro validate_shape) (auto simp: is_ascii_digit_def byte_def)
      then show ?thesis by (simp add: eq)
    next
      case False
      then have "length ?c \<in> {99, 100}" using len by auto
      then show ?thesis using digits eq by blast
    qed
  qed
qed

theorem slugify_valid_witness:
  "slugify (\<lambda>_. []) [77, 121, 32, 32, 45, 33] = ''my'' \<and> lowers (\<lambda>_. []) \<and>
   (''my'' = [] \<or> validate_slug ''my'' = Inr () \<or>
    (\<exists>ds. ''my'' = ''s-'' @ ds \<and> list_all is_ascii_digit ds \<and> length ds \<in> {99, 100}))"
proof -
  have l: "lowers (\<lambda>_. [])" by (simp add: lowers_def)
  have e: "slugify (\<lambda>_. []) [77, 121, 32, 32, 45, 33] = ''my''" by code_simp
  show ?thesis using l e slugify_valid [OF l, of "[77, 121, 32, 32, 45, 33]"] by (simp only: e)
qed

text \<open>The truncation comes before the prefix that keeps slugs apart from ids, so a name of a
  hundred digits yields a slug of 102 characters, which the server's own validation rejects.\<close>

theorem slugify_exceeds_limit:
  "length (slugify lower (replicate 100 49)) = 102 \<and>
   validate_slug (slugify lower (replicate 100 49)) = Inl ''slug must be 100 characters or fewer''"
proof -
  have core: "trim_end (trim_start (collapse_hyphens False
      (map slug_char (to_lowercase lower (replicate n 49))))) = replicate n (CHR ''1'')" for n
  proof -
    have "to_lowercase lower (replicate n 49) = replicate n 49"
      by (induction n) (simp_all add: to_lowercase_def)
    moreover have "slug_char 49 = CHR ''1''"
      by code_simp
    moreover have "collapse_hyphens p (replicate n (CHR ''1'')) = replicate n (CHR ''1'')" for p
      by (induction n arbitrary: p) simp_all
    ultimately show ?thesis
      by (simp add: trim_end_def trim_start_def dropWhile_replicate)
  qed
  have "slug_core lower (replicate 100 49) = replicate 100 (CHR ''1'')"
    unfolding slug_core_def Let_def core by (simp only: length_replicate) simp
  moreover have "list_all is_ascii_digit (replicate n (CHR ''1''))" for n
    by (simp add: list_all_iff is_ascii_digit_def byte_def)
  moreover have "replicate 100 (CHR ''1'') \<noteq> []"
    using replicate_empty [of 100] by simp
  ultimately have slug: "slugify lower (replicate 100 49) = ''s-'' @ replicate 100 (CHR ''1'')"
    by (simp only: slugify_core if_True simp_thms)
  have "length (''s-'' @ replicate 100 (CHR ''1'')) = 102"
    by (simp only: length_append length_replicate) simp
  then show ?thesis unfolding slug validate_slug_def by simp
qed

end
