(* ===== verification/Mentions.thy ===== *)
theory Mentions
  imports Prelude
begin

text \<open>
  Parsing of \<open>@\<close>-mentions, \<open>Server/src/mentions.rs\<close>.  \<open>parse_from\<close> is the index loop over the
  bytes of the content; \<open>mention_words\<close> is the reference it is proved equal to, a single
  left-to-right pass that remembers whether the byte before was alphanumeric.
\<close>

record ParsedMentions =
  everyone :: bool
  usernames :: "string list"

definition word_byte :: "char \<Rightarrow> bool" where
  "word_byte c \<longleftrightarrow> is_ascii_alphanumeric c \<or> c = CHR ''_''"

text \<open>The inner loop: the first index from \<open>j\<close> on that is not a handle byte.\<close>

function word_end :: "string \<Rightarrow> nat \<Rightarrow> nat" where
  "word_end bytes j =
     (if j < length bytes \<and> word_byte (bytes ! j) then word_end bytes (j + 1) else j)"
  by pat_completeness auto
termination
  by (relation "measure (\<lambda>(bytes, j). length bytes - j)") auto

declare word_end.simps [simp del]

definition is_everyone :: "string \<Rightarrow> bool" where
  "is_everyone word \<longleftrightarrow>
     eq_ignore_ascii_case word ''everyone'' \<or> eq_ignore_ascii_case word ''here''"

definition add_mention :: "string \<Rightarrow> ParsedMentions \<Rightarrow> ParsedMentions" where
  "add_mention word out =
     (if is_everyone word then out\<lparr>everyone := True\<rparr>
      else if \<not> list_ex (\<lambda>u. eq_ignore_ascii_case u word) (usernames out)
      then out\<lparr>usernames := usernames out @ [word]\<rparr> else out)"

lemma word_end_ge: "j \<le> word_end bytes j"
proof (induction bytes j rule: word_end.induct)
  case (1 bytes j)
  then show ?case by (cases "j < length bytes \<and> word_byte (bytes ! j)")
      (auto simp: word_end.simps [of bytes j])
qed

text \<open>The outer loop.\<close>

function parse_from :: "string \<Rightarrow> nat \<Rightarrow> ParsedMentions \<Rightarrow> ParsedMentions" where
  "parse_from bytes i out =
     (if i < length bytes then
        (if bytes ! i \<noteq> CHR ''@'' \<or> (i > 0 \<and> is_ascii_alphanumeric (bytes ! (i - 1)))
         then parse_from bytes (i + 1) out
         else if word_end bytes (i + 1) = i + 1 then parse_from bytes (i + 1) out
         else parse_from bytes (word_end bytes (i + 1))
           (add_mention (take (word_end bytes (i + 1) - (i + 1)) (drop (i + 1) bytes)) out))
      else out)"
  by pat_completeness auto
termination
proof (relation "measure (\<lambda>(bytes, i, out). length bytes - i)")
  fix bytes :: string and i out
  assume "i < length bytes"
  then show "((bytes, word_end bytes (i + 1),
        add_mention (take (word_end bytes (i + 1) - (i + 1)) (drop (i + 1) bytes)) out), bytes, i, out)
      \<in> measure (\<lambda>(bytes, i, out). length bytes - i)"
    using word_end_ge [of "i + 1" bytes] by auto
qed auto

declare parse_from.simps [simp del]

definition parse_mentions :: "string \<Rightarrow> ParsedMentions" where
  "parse_mentions content = parse_from content 0 \<lparr>everyone = False, usernames = []\<rparr>"

section \<open>Reference\<close>

text \<open>The handles in order, duplicates and \<open>@everyone\<close> included.\<close>

function mention_words :: "bool \<Rightarrow> string \<Rightarrow> string list" where
  "mention_words alnum_before [] = []"
| "mention_words alnum_before (c # cs) =
     (if c = CHR ''@'' \<and> \<not> alnum_before \<and> takeWhile word_byte cs \<noteq> []
      then takeWhile word_byte cs #
           mention_words (is_ascii_alphanumeric (last (takeWhile word_byte cs))) (dropWhile word_byte cs)
      else mention_words (is_ascii_alphanumeric c) cs)"
  by pat_completeness auto
termination
  by (relation "measure (\<lambda>(b, s). length s)") (auto simp: less_Suc_eq_le length_dropWhile_le)

definition collect_mentions :: "ParsedMentions \<Rightarrow> string list \<Rightarrow> ParsedMentions" where
  "collect_mentions out words = foldl (\<lambda>out w. add_mention w out) out words"

lemma word_end_takeWhile:
  "word_end bytes j = j + length (takeWhile word_byte (drop j bytes))"
proof (induction bytes j rule: word_end.induct)
  case (1 bytes j)
  show ?case
  proof (cases "j < length bytes \<and> word_byte (bytes ! j)")
    case True
    with 1 show ?thesis
      by (simp add: word_end.simps [of bytes j] Cons_nth_drop_Suc [symmetric])
  next
    case False
    then show ?thesis
      by (cases "j < length bytes")
        (auto simp: word_end.simps [of bytes j] Cons_nth_drop_Suc [symmetric])
  qed
qed

definition alnum_before :: "string \<Rightarrow> nat \<Rightarrow> bool" where
  "alnum_before bytes i \<longleftrightarrow> i > 0 \<and> is_ascii_alphanumeric (bytes ! (i - 1))"

lemma take_word:
  "take (length (takeWhile P xs)) xs = takeWhile P xs"
  by (metis takeWhile_eq_take)

lemma last_word:
  assumes "takeWhile word_byte (drop i bytes) \<noteq> []"
  shows "bytes ! (i + length (takeWhile word_byte (drop i bytes)) - 1) =
    last (takeWhile word_byte (drop i bytes))"
proof -
  let ?w = "takeWhile word_byte (drop i bytes)"
  have "length ?w \<le> length (drop i bytes)" by (rule length_takeWhile_le)
  moreover have "0 < length ?w" using assms by blast
  ultimately have len: "length ?w - 1 < length (drop i bytes)" "0 < length ?w" by linarith+
  have "last ?w = drop i bytes ! (length ?w - 1)"
    using assms by (simp add: last_conv_nth takeWhile_nth)
  also have "\<dots> = bytes ! (i + (length ?w - 1))"
    using len by (simp add: nth_drop)
  finally show ?thesis using len by simp
qed

lemma drop_word: "drop (i + length (takeWhile P (drop i xs))) xs = dropWhile P (drop i xs)"
  by (metis add.commute drop_drop dropWhile_eq_drop)

lemma parse_from_words:
  assumes "i \<le> length bytes"
  shows "parse_from bytes i out =
    collect_mentions out (mention_words (alnum_before bytes i) (drop i bytes))"
  using assms
proof (induction bytes i out rule: parse_from.induct)
  case (1 bytes i out)
  show ?case
  proof (cases "i < length bytes")
    case False
    then show ?thesis by (simp add: parse_from.simps [of bytes i] collect_mentions_def)
  next
    case lt: True
    then have drop: "drop i bytes = bytes ! i # drop (i + 1) bytes"
      by (simp add: Cons_nth_drop_Suc)
    let ?w = "takeWhile word_byte (drop (i + 1) bytes)"
    have j: "word_end bytes (i + 1) = i + 1 + length ?w" by (rule word_end_takeWhile)
    have before: "alnum_before bytes (i + 1) = is_ascii_alphanumeric (bytes ! i)"
      by (simp add: alnum_before_def)
    consider (skip) "bytes ! i \<noteq> CHR ''@'' \<or> alnum_before bytes i"
      | (bare) "\<not> (bytes ! i \<noteq> CHR ''@'' \<or> alnum_before bytes i)" "?w = []"
      | (word) "\<not> (bytes ! i \<noteq> CHR ''@'' \<or> alnum_before bytes i)" "?w \<noteq> []"
      by blast
    then show ?thesis
    proof cases
      case skip
      then show ?thesis using lt "1.IH"(1)
        by (simp add: parse_from.simps [of bytes i] drop before alnum_before_def del: drop_Suc)
          (auto simp: alnum_before_def)
    next
      case bare
      then show ?thesis using lt "1.IH"(2) j
        by (simp add: parse_from.simps [of bytes i] drop before alnum_before_def)
    next
      case word
      have le: "i + 1 + length ?w \<le> length bytes"
        using length_takeWhile_le [of word_byte "drop (i + 1) bytes"] lt by simp
      have before_j: "alnum_before bytes (i + 1 + length ?w) = is_ascii_alphanumeric (last ?w)"
        using last_word [OF word(2)] by (simp add: alnum_before_def)
      have "parse_from bytes i out =
          parse_from bytes (i + 1 + length ?w) (add_mention ?w out)"
        using word lt j by (auto simp: parse_from.simps [of bytes i] alnum_before_def take_word)
      also have "\<dots> = collect_mentions (add_mention ?w out)
          (mention_words (is_ascii_alphanumeric (last ?w)) (dropWhile word_byte (drop (i + 1) bytes)))"
        using "1.IH"(3) [OF lt] word j le before_j drop_word [of "i + 1" word_byte bytes]
        by (simp add: alnum_before_def take_word)
      also have "\<dots> = collect_mentions out (mention_words (alnum_before bytes i) (drop i bytes))"
        using word by (simp add: drop collect_mentions_def)
      finally show ?thesis .
    qed
  qed
qed

lemma parse_mentions_collect:
  "parse_mentions content =
     collect_mentions \<lparr>everyone = False, usernames = []\<rparr> (mention_words False content)"
  using parse_from_words [of 0 content] by (simp add: parse_mentions_def alnum_before_def)

text \<open>The index loop is the one-pass reference: a handle is a maximal run of word bytes
  after an \<open>@\<close> that does not itself follow a letter or digit, and each is collected once.\<close>

theorem parse_mentions_reference:
  "parse_mentions content =
     collect_mentions \<lparr>everyone = False, usernames = []\<rparr> (mention_words False content)"
  by (rule parse_mentions_collect)

section \<open>What is collected\<close>

lemma mention_words_handles:
  "w \<in> set (mention_words b s) \<Longrightarrow> w \<noteq> [] \<and> list_all word_byte w \<and> (\<exists>p q. s = p @ CHR ''@'' # w @ q)"
proof (induction b s arbitrary: w rule: mention_words.induct)
  case (2 b c cs)
  show ?case
  proof (cases "c = CHR ''@'' \<and> \<not> b \<and> takeWhile word_byte cs \<noteq> []")
    case True
    let ?w = "takeWhile word_byte cs"
    have split: "c # cs = (CHR ''@'' # ?w) @ dropWhile word_byte cs" using True by simp
    from True "2.prems" consider "w = ?w"
      | "w \<in> set (mention_words (is_ascii_alphanumeric (last ?w)) (dropWhile word_byte cs))"
      by auto
    then show ?thesis
    proof cases
      case 1
      then show ?thesis
        using True split by (metis append_Cons append_Nil list_all_iff set_takeWhileD)
    next
      case 2
      with "2.IH"(1) True obtain p q where "w \<noteq> []" "list_all word_byte w"
        "dropWhile word_byte cs = p @ CHR ''@'' # w @ q" by blast
      then show ?thesis using split by (metis append.assoc)
    qed
  next
    case False
    then have "w \<in> set (mention_words (is_ascii_alphanumeric c) cs)"
      using "2.prems" by (simp only: mention_words.simps if_False)
    with "2.IH"(2) [OF False] obtain p q where "w \<noteq> []" "list_all word_byte w"
      "cs = p @ CHR ''@'' # w @ q" by blast
    then show ?thesis by (metis append_Cons)
  qed
qed simp

definition mentions_inv :: "ParsedMentions \<Rightarrow> bool" where
  "mentions_inv out \<longleftrightarrow>
     distinct (map (map to_ascii_lowercase) (usernames out)) \<and>
     (\<forall>u \<in> set (usernames out). \<not> is_everyone u)"

lemma add_mention_inv: "mentions_inv out \<Longrightarrow> mentions_inv (add_mention w out)"
  by (auto simp: mentions_inv_def add_mention_def list_ex_iff eq_ignore_ascii_case_def)

lemma collect_mentions_inv: "mentions_inv out \<Longrightarrow> mentions_inv (collect_mentions out ws)"
  by (induction ws arbitrary: out) (auto simp: collect_mentions_def add_mention_inv)

lemma collect_mentions_subset:
  "set (usernames (collect_mentions out ws)) \<subseteq> set (usernames out) \<union> set ws"
proof (induction ws arbitrary: out)
  case (Cons w ws)
  have "set (usernames (add_mention w out)) \<subseteq> insert w (set (usernames out))"
    by (auto simp: add_mention_def)
  with Cons [of "add_mention w out"] show ?case by (auto simp: collect_mentions_def)
qed (simp add: collect_mentions_def)

text \<open>Every collected user name is a non-empty run of word bytes that stands after an \<open>@\<close> in
  the content, is not \<open>everyone\<close> or \<open>here\<close> in any case, and no two agree up to case.\<close>

theorem parse_mentions_usernames:
  "distinct (map (map to_ascii_lowercase) (usernames (parse_mentions content))) \<and>
   (\<forall>u \<in> set (usernames (parse_mentions content)).
      u \<noteq> [] \<and> list_all word_byte u \<and> \<not> is_everyone u \<and> (\<exists>p q. content = p @ CHR ''@'' # u @ q))"
proof -
  have "mentions_inv (parse_mentions content)"
    unfolding parse_mentions_collect
    by (rule collect_mentions_inv) (simp add: mentions_inv_def)
  moreover have "set (usernames (parse_mentions content)) \<subseteq> set (mention_words False content)"
    using collect_mentions_subset [of "\<lparr>everyone = False, usernames = []\<rparr>" "mention_words False content"]
    by (simp add: parse_mentions_collect)
  ultimately show ?thesis
    using mention_words_handles [of _ False content] unfolding mentions_inv_def by blast
qed

theorem parse_mentions_usernames_witness:
  "usernames (parse_mentions ''@Bob a@b.c @bob @Here @al_1'') = [''Bob'', ''al_1''] \<and>
   distinct (map (map to_ascii_lowercase) (usernames (parse_mentions ''@Bob a@b.c @bob @Here @al_1'')))"
proof -
  have "usernames (parse_mentions ''@Bob a@b.c @bob @Here @al_1'') = [''Bob'', ''al_1'']"
    by code_simp
  then show ?thesis
    using parse_mentions_usernames [of "''@Bob a@b.c @bob @Here @al_1''"] by blast
qed

end
