(* ===== verification/Errors.thy ===== *)
theory Errors
  imports Prelude
begin

text \<open>
  The error type of every handler and the HTTP response it becomes, \<open>Server/src/error.rs\<close>.
  A driver error of sqlx is what the code inspects of it: \<open>RowNotFound\<close>, an error reported by the
  database with its SQLSTATE or SQLite code, or anything else.
\<close>

datatype sqlx_error =
    RowNotFound
  | DatabaseError "string option" string  \<comment> \<open>code, message\<close>
  | DriverError string

datatype AppError =
    Database sqlx_error
  | Internal string
  | BadRequest string
  | NotFound string
  | Unauthorized string
  | Forbidden string
  | Conflict string
  | PayloadTooLarge string
  | RateLimited nat

fun code :: "AppError \<Rightarrow> string" where
  "code (Database _) = ''internal_error''"
| "code (Internal _) = ''internal_error''"
| "code (BadRequest _) = ''invalid_request''"
| "code (NotFound _) = ''not_found''"
| "code (Unauthorized _) = ''unauthorized''"
| "code (Forbidden _) = ''forbidden''"
| "code (Conflict _) = ''already_exists''"
| "code (PayloadTooLarge _) = ''payload_too_large''"
| "code (RateLimited _) = ''rate_limited''"

fun status :: "AppError \<Rightarrow> nat" where
  "status (Database _) = 500"
| "status (Internal _) = 500"
| "status (BadRequest _) = 400"
| "status (NotFound _) = 404"
| "status (Unauthorized _) = 401"
| "status (Forbidden _) = 403"
| "status (Conflict _) = 409"
| "status (PayloadTooLarge _) = 413"
| "status (RateLimited _) = 429"

fun message :: "AppError \<Rightarrow> string" where
  "message (Database _) = ''internal database error''"
| "message (Internal _) = ''internal server error''"
| "message (BadRequest msg) = msg"
| "message (NotFound msg) = msg"
| "message (Unauthorized msg) = msg"
| "message (Forbidden msg) = msg"
| "message (Conflict msg) = msg"
| "message (PayloadTooLarge msg) = msg"
| "message (RateLimited retry_after) = ''rate limited, retry after '' @ to_decimal retry_after @ ''s''"

text \<open>The response: status line, the \<open>error\<close> object of the JSON body, the \<open>Retry-After\<close> header.\<close>

record response =
  rs_status :: nat
  rs_code :: string
  rs_message :: string
  rs_retry_after :: "nat option"
  rs_retry_header :: "string option"

definition into_response :: "AppError \<Rightarrow> response" where
  "into_response e =
     \<lparr>rs_status = status e, rs_code = code e, rs_message = message e,
      rs_retry_after = (case e of RateLimited n \<Rightarrow> Some n | _ \<Rightarrow> None),
      rs_retry_header = (case e of RateLimited n \<Rightarrow> Some (to_decimal n) | _ \<Rightarrow> None)\<rparr>"

fun from_sqlx :: "sqlx_error \<Rightarrow> AppError" where
  "from_sqlx RowNotFound = NotFound ''resource not found''"
| "from_sqlx (DatabaseError c msg) =
     (if c \<in> {Some ''2067'', Some ''23505''} then Conflict ''resource already exists''
      else if c \<in> {Some ''1299'', Some ''23502''} then BadRequest ''missing required field''
      else if c \<in> {Some ''787'', Some ''23503''} then BadRequest ''referenced resource does not exist''
      else if c \<in> {Some ''275'', Some ''23514''} then BadRequest ''invalid field value''
      else Database (DatabaseError c msg))"
| "from_sqlx (DriverError msg) = Database (DriverError msg)"

text \<open>What the database or the server says about a failure never reaches a client: any two
  internal errors have the same response, and a driver error is answered by one of six fixed
  texts, whatever its message.\<close>

theorem internal_errors_opaque:
  "into_response (Database e) = into_response (Database e') \<and>
   into_response (Internal m) = into_response (Internal m') \<and>
   rs_message (into_response (from_sqlx e)) \<in>
     {''resource not found'', ''resource already exists'', ''missing required field'',
      ''referenced resource does not exist'', ''invalid field value'', ''internal database error''} \<and>
   into_response (from_sqlx (DatabaseError c text)) = into_response (from_sqlx (DatabaseError c text'))"
  by (cases e) (simp_all add: into_response_def)

text \<open>Every error is answered with an error status, 5xx exactly for the internal ones, and a
  \<open>Retry-After\<close> header exactly for 429, where it repeats the body's number.\<close>

theorem error_status_class:
  "400 \<le> rs_status (into_response e) \<and> rs_status (into_response e) \<le> 500 \<and>
   (rs_status (into_response e) = 500 \<longleftrightarrow> rs_code (into_response e) = ''internal_error'') \<and>
   (rs_status (into_response e) = 429 \<longleftrightarrow> rs_retry_header (into_response e) \<noteq> None) \<and>
   rs_retry_header (into_response e) = map_option to_decimal (rs_retry_after (into_response e))"
  by (cases e) (simp_all add: into_response_def)

end
