(* ===== verification/Database.thy ===== *)
theory Database
  imports Errors Json
begin

text \<open>
  The rows and queries of \<open>Server/src/models\<close> and \<open>Server/src/db\<close> that the modelled components
  use.  A table is a list of rows; a query is a filter over it, in table order unless the SQL
  orders it (ties in table order).  \<open>db_ok\<close> says whether the database answers: when it does not,
  every query and statement fails with the driver's error and changes nothing, and it stays so for
  the whole request (an outage in the middle of a handler is not modelled).  The primary-key and
  foreign-key constraints of the migrations are enforced where a statement can violate them.
\<close>

section \<open>Rows\<close>

text \<open>A JSON text column that should hold an array of strings.\<close>

datatype json_column = JsonStrings "string list" | JsonMalformed string

text \<open>\<open>serde_json::from_str(..).unwrap_or_default()\<close>.\<close>

fun from_json_or_default :: "json_column \<Rightarrow> string list" where
  "from_json_or_default (JsonStrings xs) = xs"
| "from_json_or_default (JsonMalformed _) = []"

record User =
  us_id :: string
  us_username :: string
  us_display_name :: "string option"
  us_avatar :: "string option"
  us_banner :: "string option"
  us_accent_color :: "int option"
  us_bio :: "string option"
  us_bot :: bool
  us_system :: bool
  us_is_admin :: bool
  us_mfa_enabled :: bool
  us_disabled :: bool
  us_flags :: int
  us_public_flags :: int
  us_created_at :: string
  us_origin :: "string option"

record SpaceRow =
  sp_id :: string
  sp_name :: string
  sp_slug :: string
  sp_description :: "string option"
  sp_icon :: "string option"
  sp_banner :: "string option"
  sp_splash :: "string option"
  sp_owner_id :: string
  sp_verification_level :: string
  sp_default_notifications :: string
  sp_explicit_content_filter :: string
  sp_vanity_url_code :: "string option"
  sp_preferred_locale :: string
  sp_afk_channel_id :: "string option"
  sp_afk_timeout :: int
  sp_system_channel_id :: "string option"
  sp_rules_channel_id :: "string option"
  sp_nsfw_level :: string
  sp_premium_tier :: string
  sp_public :: bool
  sp_allow_guest_access :: bool
  sp_premium_subscription_count :: int
  sp_max_members :: int
  sp_created_at :: string

record RoleRow =
  ro_id :: string
  ro_space_id :: string
  ro_name :: string
  ro_color :: int
  ro_hoist :: bool
  ro_icon :: "string option"
  ro_position :: int
  ro_permissions :: json_column
  ro_managed :: bool
  ro_mentionable :: bool

text \<open>\<open>mb_origin\<close> is the column \<open>origin\<close> of the members table, the home domain of a federated
  member, which the code does not select into its \<open>MemberRow\<close>.\<close>

record MemberRow =
  mb_user_id :: string
  mb_space_id :: string
  mb_nickname :: "string option"
  mb_avatar :: "string option"
  mb_joined_at :: string
  mb_premium_since :: "string option"
  mb_deaf :: bool
  mb_mute :: bool
  mb_pending :: bool
  mb_timed_out_until :: "string option"
  mb_origin :: "string option"

record ChannelRow =
  ch_id :: string
  ch_type :: string
  ch_space_id :: "string option"
  ch_name :: "string option"
  ch_description :: string
  ch_topic :: "string option"
  ch_position :: int
  ch_parent_id :: "string option"
  ch_nsfw :: bool
  ch_rate_limit :: int
  ch_bitrate :: "int option"
  ch_user_limit :: "int option"
  ch_owner_id :: "string option"
  ch_last_message_id :: "string option"
  ch_archived :: bool
  ch_auto_archive_after :: "int option"
  ch_allow_anonymous_read :: bool
  ch_created_at :: string

record PermissionOverwrite =
  ow_id :: string
  ow_type :: string
  ow_allow :: "string list"
  ow_deny :: "string list"

text \<open>The stored overwrite, its two lists still JSON text.\<close>

record OverwriteRecord =
  owr_channel_id :: string
  owr_id :: string
  owr_type :: string
  owr_allow :: json_column
  owr_deny :: json_column

record BanRow =
  ba_user_id :: string
  ba_space_id :: string
  ba_reason :: "string option"
  ba_banned_by :: "string option"
  ba_created_at :: string

record UserToken =
  ut_token_hash :: string
  ut_user_id :: string
  ut_expires_at :: string
  ut_created_at :: string

text \<open>The columns of the users table that no \<open>User\<close> holds.  A user without a row of this list has no
  password, no second factor and no pending reset.\<close>

record Credentials =
  cr_password_hash :: "string option"
  cr_force_password_reset :: bool
  cr_totp_secret :: "string option"

record BackupCode =
  bk_id :: int
  bk_user_id :: string
  bk_code_hash :: string
  bk_used :: bool

record GuestToken =
  gt_token_hash :: string
  gt_space_id :: string
  gt_expires_at :: string

text \<open>\<open>embeds\<close> is JSON text: the values of the array it should hold, or nothing when it is malformed.\<close>

record MessageRow =
  ms_id :: string
  ms_channel_id :: string
  ms_space_id :: "string option"
  ms_author_id :: string
  ms_content :: string
  ms_type :: string
  ms_created_at :: string
  ms_edited_at :: "string option"
  ms_tts :: bool
  ms_pinned :: bool
  ms_mention_everyone :: bool
  ms_mentions :: json_column
  ms_mention_roles :: json_column
  ms_embeds :: "json list option"
  ms_reply_to :: "string option"
  ms_flags :: int
  ms_webhook_id :: "string option"
  ms_thread_id :: "string option"
  ms_title :: "string option"
  ms_origin :: "string option"

record Attachment =
  at_id :: string
  at_filename :: string
  at_description :: "string option"
  at_content_type :: "string option"
  at_size :: int
  at_content_hash :: "string option"
  at_url :: string
  at_width :: "int option"
  at_height :: "int option"

text \<open>A file automod holds or held.  Times are in seconds.\<close>

record Upload =
  up_id :: string
  up_message_id :: string
  up_channel_id :: string
  up_space_id :: "string option"
  up_author_id :: string
  up_filename :: string
  up_content_type :: string
  up_size :: int
  up_hash :: string
  up_status :: string
  up_reason :: string
  up_result :: "string option"
  up_rule_id :: "string option"
  up_created_at :: int
  up_expires_at :: int
  up_next_attempt :: int
  up_attempts :: int

record Reaction =
  re_message_id :: string
  re_user_id :: string
  re_emoji_name :: string
  re_created_at :: string

record Pin =
  pi_channel_id :: string
  pi_message_id :: string
  pi_pinned_at :: string

record ReadState =
  rs_user_id :: string
  rs_channel_id :: string
  rs_last_read_message_id :: "string option"
  rs_mention_count :: int

record Relationship =
  rl_user_id :: string
  rl_target_user_id :: string
  rl_type :: int
  rl_created_at :: string

record ChannelMute =
  mu_user_id :: string
  mu_channel_id :: string
  mu_created_at :: string

text \<open>Times of expiry are the text the code formats, \<open>YYYY-MM-DDTHH:MM:SS+00:00\<close>, compared as text.\<close>

record Invite =
  in_code :: string
  in_space_id :: string
  in_channel_id :: "string option"
  in_inviter_id :: "string option"
  in_max_uses :: "int option"
  in_uses :: int
  in_max_age :: "int option"
  in_temporary :: bool
  in_created_at :: string
  in_expires_at :: "string option"

record AuditLogRow =
  al_id :: string
  al_space_id :: string
  al_user_id :: string
  al_action_type :: string
  al_target_id :: "string option"
  al_target_type :: "string option"
  al_reason :: "string option"
  al_changes :: "json option"
  al_created_at :: string

text \<open>A custom emoji; \<open>em_origin\<close> is the home domain of a mirrored one.\<close>

record EmojiRow =
  em_id :: string
  em_space_id :: string
  em_name :: string
  em_animated :: bool
  em_managed :: bool
  em_available :: bool
  em_require_colons :: bool
  em_creator_id :: "string option"
  em_image_path :: "string option"
  em_origin :: "string option"

record ReportRow =
  rp_id :: string
  rp_space_id :: "string option"
  rp_reporter_id :: string
  rp_target_type :: string
  rp_target_id :: string
  rp_channel_id :: "string option"
  rp_category :: string
  rp_description :: "string option"
  rp_status :: string
  rp_actioned_by :: "string option"
  rp_action_taken :: "string option"
  rp_created_at :: string
  rp_resolved_at :: "string option"

record ServerSettings =
  sv_max_emoji_size :: int
  sv_max_avatar_size :: int
  sv_max_sound_size :: int
  sv_max_attachment_size :: int
  sv_max_attachments_per_message :: int
  sv_upload_requests_per_minute :: int
  sv_upload_bytes_per_minute :: int
  sv_server_name :: string
  sv_registration_policy :: string
  sv_max_spaces :: int
  sv_max_members_per_space :: int
  sv_motd :: "string option"
  sv_public_listing :: bool
  sv_tos_enabled :: bool
  sv_tos_text :: "string option"
  sv_tos_version :: int
  sv_tos_url :: "string option"
  sv_updated_at :: "string option"

record Peer =
  pe_domain :: string
  pe_public_key :: string
  pe_inbox_url :: string
  pe_trust_state :: string

text \<open>A federation event and the outbox that delivers it; the random ids are left out.\<close>

record FederationEnvelope =
  fe_origin :: string
  fe_space_id :: "string option"
  fe_type :: string
  fe_payload :: json

record db =
  db_ok :: bool
  db_is_postgres :: bool
  users :: "User list"
  spaces :: "SpaceRow list"
  roles :: "RoleRow list"
  members :: "MemberRow list"
  member_roles :: "(string \<times> string \<times> string) list"    \<comment> \<open>user, space, role\<close>
  channels :: "ChannelRow list"
  permission_overwrites :: "OverwriteRecord list"
  dm_participants :: "(string \<times> string) list"              \<comment> \<open>channel, user\<close>
  bans :: "BanRow list"
  user_tokens :: "UserToken list"
  bot_tokens :: "(string \<times> string) list"                   \<comment> \<open>hash, user\<close>
  guest_tokens :: "GuestToken list"
  voice_evictions :: "(string \<times> string) list"              \<comment> \<open>channel, user\<close>
  channel_mutes :: "ChannelMute list"
  plugin_sessions :: "(string \<times> string) list"              \<comment> \<open>session, channel\<close>
  relationships :: "Relationship list"
  space_origins :: "(string \<times> string) list"                \<comment> \<open>a remote space, its home domain\<close>
  federation_outbox :: "(string \<times> FederationEnvelope) list" \<comment> \<open>target domain, payload\<close>
  messages :: "MessageRow list"
  attachments :: "(string \<times> Attachment) list"              \<comment> \<open>message, attachment\<close>
  attachment_deletions :: "string list"                  \<comment> \<open>urls of files to delete\<close>
  reactions :: "Reaction list"
  pinned_messages :: "Pin list"
  read_states :: "ReadState list"
  message_cooldowns :: "((string \<times> string) \<times> int) list"   \<comment> \<open>channel and user, last sent in ms\<close>
  automod_uploads :: "Upload list"
  channel_origins :: "(string \<times> string) list"              \<comment> \<open>a remote channel, its home domain\<close>
  invites :: "Invite list"
  space_introductions :: "(string \<times> string) list"          \<comment> \<open>space, user\<close>
  audit_log :: "AuditLogRow list"
  emojis :: "EmojiRow list"
  emoji_roles :: "(string \<times> string) list"                  \<comment> \<open>emoji, role\<close>
  user_credentials :: "(string \<times> Credentials) list"       \<comment> \<open>by user\<close>
  backup_codes :: "BackupCode list"
  reports :: "ReportRow list"
  server_settings :: ServerSettings
  federation_peers :: "Peer list"
  inbox_dedup :: "(string \<times> string) list"                  \<comment> \<open>event, origin\<close>

section \<open>Queries and statements\<close>

definition query :: "db \<Rightarrow> 'a \<Rightarrow> AppError + 'a" where
  "query d rows = (if db_ok d then Inr rows else Inl (from_sqlx (DriverError ''unavailable'')))"

definition execute :: "db \<Rightarrow> (db \<Rightarrow> db) \<Rightarrow> db \<times> (AppError + unit)" where
  "execute d f =
     (if db_ok d then (f d, Inr ()) else (d, Inl (from_sqlx (DriverError ''unavailable''))))"

text \<open>The codes of a constraint violation on either backend.  SQLite reports a duplicate primary key
  with its own code, which \<open>from_sqlx\<close> does not know.\<close>

definition primary_key_violation :: "db \<Rightarrow> sqlx_error" where
  "primary_key_violation d =
     DatabaseError (Some (if db_is_postgres d then ''23505'' else ''1555'')) ''duplicate key''"

definition foreign_key_violation :: "db \<Rightarrow> sqlx_error" where
  "foreign_key_violation d =
     DatabaseError (Some (if db_is_postgres d then ''23503'' else ''787'')) ''foreign key''"

text \<open>A statement a constraint may refuse: nothing is written then.\<close>

definition execute_checked ::
    "db \<Rightarrow> (db \<Rightarrow> sqlx_error option) \<Rightarrow> (db \<Rightarrow> db) \<Rightarrow> db \<times> (AppError + unit)" where
  "execute_checked d violation f =
     (if \<not> db_ok d then (d, Inl (from_sqlx (DriverError ''unavailable'')))
      else case violation d of Some e \<Rightarrow> (d, Inl (from_sqlx e)) | None \<Rightarrow> (f d, Inr ()))"

lemma query_simps [simp]:
  "db_ok d \<Longrightarrow> query d rows = Inr rows"
  "\<not> db_ok d \<Longrightarrow> query d rows = Inl (Database (DriverError ''unavailable''))"
  "query d rows = Inr r \<longleftrightarrow> db_ok d \<and> rows = r"
  by (simp_all add: query_def)

lemma execute_simps [simp]:
  "db_ok d \<Longrightarrow> execute d f = (f d, Inr ())"
  "\<not> db_ok d \<Longrightarrow> execute d f = (d, Inl (Database (DriverError ''unavailable'')))"
  "execute d f = (d', Inr r) \<longleftrightarrow> db_ok d \<and> d' = f d"
  by (auto simp: execute_def)

lemma execute_checked_simps:
  "db_ok d \<Longrightarrow> violation d = None \<Longrightarrow> execute_checked d violation f = (f d, Inr ())"
  "db_ok d \<Longrightarrow> violation d = Some e \<Longrightarrow> execute_checked d violation f = (d, Inl (from_sqlx e))"
  "\<not> db_ok d \<Longrightarrow> execute_checked d violation f = (d, Inl (Database (DriverError ''unavailable'')))"
  by (simp_all add: execute_checked_def)

lemma execute_checked_fst:
  "fst (execute_checked d violation f) = (if db_ok d \<and> violation d = None then f d else d)"
  by (simp add: execute_checked_def split: option.split)

definition get_user :: "db \<Rightarrow> string \<Rightarrow> AppError + User" where
  "get_user d user_id =
     and_then (query d (find (\<lambda>r. us_id r = user_id) (users d)))
       (ok_or (NotFound ''unknown_user''))"

definition get_space_row :: "db \<Rightarrow> string \<Rightarrow> AppError + SpaceRow" where
  "get_space_row d space_id =
     and_then (query d (find (\<lambda>r. sp_id r = space_id) (spaces d)))
       (ok_or (NotFound ''unknown_space''))"

definition get_channel_row :: "db \<Rightarrow> string \<Rightarrow> AppError + ChannelRow" where
  "get_channel_row d channel_id =
     and_then (query d (find (\<lambda>r. ch_id r = channel_id) (channels d)))
       (ok_or (NotFound ''unknown_channel''))"

definition get_member_row :: "db \<Rightarrow> string \<Rightarrow> string \<Rightarrow> AppError + MemberRow" where
  "get_member_row d space_id user_id =
     and_then (query d (find (\<lambda>r. mb_space_id r = space_id \<and> mb_user_id r = user_id) (members d)))
       (ok_or (NotFound ''member not found''))"

definition get_role_row :: "db \<Rightarrow> string \<Rightarrow> AppError + RoleRow" where
  "get_role_row d role_id =
     and_then (query d (find (\<lambda>r. ro_id r = role_id) (roles d)))
       (ok_or (NotFound ''unknown_role''))"

definition list_roles :: "db \<Rightarrow> string \<Rightarrow> AppError + RoleRow list" where
  "list_roles d space_id =
     query d (sort_key ro_position (filter (\<lambda>r. ro_space_id r = space_id) (roles d)))"

definition get_member_role_ids :: "db \<Rightarrow> string \<Rightarrow> string \<Rightarrow> AppError + string list" where
  "get_member_role_ids d space_id user_id =
     query d [r. (u, s, r) \<leftarrow> member_roles d, u = user_id, s = space_id]"

definition list_overwrites :: "db \<Rightarrow> string \<Rightarrow> AppError + PermissionOverwrite list" where
  "list_overwrites d channel_id =
     query d (map (\<lambda>r. \<lparr>ow_id = owr_id r, ow_type = owr_type r,
                        ow_allow = from_json_or_default (owr_allow r),
                        ow_deny = from_json_or_default (owr_deny r)\<rparr>)
       (filter (\<lambda>r. owr_channel_id r = channel_id) (permission_overwrites d)))"

definition is_participant :: "db \<Rightarrow> string \<Rightarrow> string \<Rightarrow> AppError + bool" where
  "is_participant d channel_id user_id =
     query d (length (filter (\<lambda>(c, u). c = channel_id \<and> u = user_id) (dm_participants d)) > 0)"

definition list_participant_ids :: "db \<Rightarrow> string \<Rightarrow> AppError + string list" where
  "list_participant_ids d channel_id =
     query d [u. (c, u) \<leftarrow> dm_participants d, c = channel_id]"

definition list_space_ids_for_user :: "db \<Rightarrow> string \<Rightarrow> AppError + string list" where
  "list_space_ids_for_user d user_id =
     query d (map mb_space_id (filter (\<lambda>r. mb_user_id r = user_id) (members d)))"

definition list_member_ids_for_space :: "db \<Rightarrow> string \<Rightarrow> AppError + string list" where
  "list_member_ids_for_space d space_id =
     query d (map mb_user_id (filter (\<lambda>r. mb_space_id r = space_id) (members d)))"

text \<open>Directly muted channels, then those whose parent category is muted.\<close>

definition list_effective_muted_channel_ids :: "db \<Rightarrow> string \<Rightarrow> AppError + string list" where
  "list_effective_muted_channel_ids d user_id =
     and_then (query d (map mu_channel_id (filter (\<lambda>m. mu_user_id m = user_id) (channel_mutes d)))) (\<lambda>direct.
     and_then (query d (map ch_id (filter (\<lambda>ch. \<exists>p \<in> set direct. ch_parent_id ch = Some p) (channels d))))
       (\<lambda>inherited. Inr (push_missing (remdups direct) inherited)))"

text \<open>The channel a plugin session runs in (the rest of the row is not used here).\<close>

definition get_plugin_session_channel :: "db \<Rightarrow> string \<Rightarrow> AppError + string" where
  "get_plugin_session_channel d session_id =
     and_then (query d (find (\<lambda>(i, c). i = session_id) (plugin_sessions d)))
       (\<lambda>r. map_err (\<lambda>_. NotFound ''unknown_session'') (ok_or () (map_option snd r)))"

definition get_friend_ids :: "db \<Rightarrow> string \<Rightarrow> AppError + string list" where
  "get_friend_ids d user_id = 
     query d (map rl_target_user_id (filter (\<lambda>r. rl_user_id r = user_id \<and> rl_type r = 1) (relationships d)))"

definition interested_servers :: "db \<Rightarrow> string \<Rightarrow> AppError + string list" where
  "interested_servers d space_id =
     query d (remdups (List.map_filter mb_origin (filter (\<lambda>r. mb_space_id r = space_id) (members d))))"

section \<open>Facts about the queries\<close>

lemma get_user_Inr: "get_user d u = Inr r \<Longrightarrow> db_ok d \<and> r \<in> set (users d) \<and> us_id r = u"
  by (auto simp: get_user_def dest: find_SomeD)

lemma get_space_row_Inr: "get_space_row d s = Inr r \<Longrightarrow> db_ok d \<and> r \<in> set (spaces d) \<and> sp_id r = s"
  by (auto simp: get_space_row_def dest: find_SomeD)

lemma get_channel_row_Inr:
  "get_channel_row d c = Inr r \<Longrightarrow> db_ok d \<and> r \<in> set (channels d) \<and> ch_id r = c"
  by (auto simp: get_channel_row_def dest: find_SomeD)

lemma get_member_row_Inr:
  "get_member_row d s u = Inr r \<Longrightarrow>
   db_ok d \<and> r \<in> set (members d) \<and> mb_space_id r = s \<and> mb_user_id r = u"
  by (auto simp: get_member_row_def dest: find_SomeD)

lemma get_role_row_Inr: "get_role_row d i = Inr r \<Longrightarrow> db_ok d \<and> r \<in> set (roles d) \<and> ro_id r = i"
  by (auto simp: get_role_row_def dest: find_SomeD)

lemma list_roles_Inr:
  "list_roles d s = Inr rs \<Longrightarrow> db_ok d \<and> set rs = {r \<in> set (roles d). ro_space_id r = s} \<and>
     sorted (map ro_position rs)"
  by (auto simp: list_roles_def)

lemma get_member_role_ids_Inr:
  "get_member_role_ids d s u = Inr is \<Longrightarrow> db_ok d \<and> set is = {i. (u, s, i) \<in> set (member_roles d)}"
  by (auto simp: get_member_role_ids_def)

lemma queries_unavailable:
  assumes "\<not> db_ok d"
  shows "\<not> is_ok (get_user d u)" "\<not> is_ok (get_space_row d s)" "\<not> is_ok (get_channel_row d c)"
    "\<not> is_ok (get_member_row d s u)" "\<not> is_ok (list_roles d s)" "\<not> is_ok (get_member_role_ids d s u)"
    "\<not> is_ok (list_overwrites d c)" "\<not> is_ok (is_participant d c u)"
  using assms
  by (simp_all add: get_user_def get_space_row_def get_channel_row_def get_member_row_def
      list_roles_def get_member_role_ids_def list_overwrites_def is_participant_def)

lemmas query_defs = get_user_def get_space_row_def get_channel_row_def get_member_row_def
  get_role_row_def list_roles_def get_member_role_ids_def list_overwrites_def is_participant_def
  list_participant_ids_def list_space_ids_for_user_def

section \<open>Concrete rows\<close>

text \<open>Rows the examples of the other theories are built from.\<close>

definition default_settings :: ServerSettings where
  "default_settings = \<lparr>sv_max_emoji_size = 262144, sv_max_avatar_size = 2097152, sv_max_sound_size = 2097152,
     sv_max_attachment_size = 1073741824, sv_max_attachments_per_message = 10, sv_upload_requests_per_minute = 6,
     sv_upload_bytes_per_minute = 2 * 1073741824, sv_server_name = ''Accord Server'',
     sv_registration_policy = ''open'', sv_max_spaces = 0, sv_max_members_per_space = 0, sv_motd = None,
     sv_public_listing = False, sv_tos_enabled = True, sv_tos_text = None, sv_tos_version = 1, sv_tos_url = None,
     sv_updated_at = None\<rparr>"

definition no_rows :: db where
  "no_rows = \<lparr>db_ok = True, db_is_postgres = False, users = [], spaces = [], roles = [], members = [],
     member_roles = [], channels = [], permission_overwrites = [], dm_participants = [], bans = [],
     user_tokens = [], bot_tokens = [], guest_tokens = [], voice_evictions = [], channel_mutes = [],
     plugin_sessions = [], relationships = [], space_origins = [], federation_outbox = [],
     messages = [], attachments = [], attachment_deletions = [], reactions = [], pinned_messages = [],
     read_states = [], message_cooldowns = [], automod_uploads = [], channel_origins = [],
     invites = [], space_introductions = [], audit_log = [], emojis = [], emoji_roles = [],
     user_credentials = [], backup_codes = [], reports = [], server_settings = default_settings,
     federation_peers = [], inbox_dedup = []\<rparr>"

definition a_user :: "string \<Rightarrow> User" where
  "a_user i = \<lparr>us_id = i, us_username = i, us_display_name = None, us_avatar = None, us_banner = None,
     us_accent_color = None, us_bio = None, us_bot = False, us_system = False, us_is_admin = False,
     us_mfa_enabled = False, us_disabled = False, us_flags = 0, us_public_flags = 0,
     us_created_at = [], us_origin = None\<rparr>"

definition a_space :: "string \<Rightarrow> string \<Rightarrow> SpaceRow" where
  "a_space i owner = \<lparr>sp_id = i, sp_name = i, sp_slug = i, sp_description = None, sp_icon = None,
     sp_banner = None, sp_splash = None, sp_owner_id = owner, sp_verification_level = [],
     sp_default_notifications = [], sp_explicit_content_filter = [], sp_vanity_url_code = None,
     sp_preferred_locale = [], sp_afk_channel_id = None, sp_afk_timeout = 0,
     sp_system_channel_id = None, sp_rules_channel_id = None, sp_nsfw_level = [],
     sp_premium_tier = [], sp_public = False, sp_allow_guest_access = False,
     sp_premium_subscription_count = 0, sp_max_members = 0, sp_created_at = []\<rparr>"

definition a_role :: "string \<Rightarrow> string \<Rightarrow> int \<Rightarrow> string list \<Rightarrow> RoleRow" where
  "a_role i s pos perms = \<lparr>ro_id = i, ro_space_id = s, ro_name = i, ro_color = 0, ro_hoist = False,
     ro_icon = None, ro_position = pos, ro_permissions = JsonStrings perms, ro_managed = False,
     ro_mentionable = False\<rparr>"

definition a_member :: "string \<Rightarrow> string \<Rightarrow> MemberRow" where
  "a_member u s = \<lparr>mb_user_id = u, mb_space_id = s, mb_nickname = None, mb_avatar = None,
     mb_joined_at = [], mb_premium_since = None, mb_deaf = False, mb_mute = False, mb_pending = False,
     mb_timed_out_until = None, mb_origin = None\<rparr>"

definition a_channel :: "string \<Rightarrow> string option \<Rightarrow> string \<Rightarrow> ChannelRow" where
  "a_channel i s ty = \<lparr>ch_id = i, ch_type = ty, ch_space_id = s, ch_name = None, ch_description = [],
     ch_topic = None, ch_position = 0, ch_parent_id = None, ch_nsfw = False, ch_rate_limit = 0,
     ch_bitrate = None, ch_user_limit = None, ch_owner_id = None, ch_last_message_id = None,
     ch_archived = False, ch_auto_archive_after = None, ch_allow_anonymous_read = False,
     ch_created_at = []\<rparr>"

text \<open>A space \<open>s\<close> owned by \<open>own\<close>, with the members \<open>mod\<close> (a role at position 2), \<open>mem\<close> (position 1)
  and \<open>pat\<close> (no role), and the text channel \<open>c\<close>.\<close>

definition a_db :: db where
  "a_db = no_rows
     \<lparr>users := [a_user ''own'', a_user ''mod'', a_user ''mem'', a_user ''pat''],
      spaces := [a_space ''s'' ''own''],
      roles := [a_role ''all'' ''s'' 0 [''view_channel'', ''send_messages''],
                a_role ''helper'' ''s'' 1 [], 
                a_role ''moderator'' ''s'' 2 [''kick_members'', ''manage_roles'']],
      members := [a_member ''own'' ''s'', a_member ''mod'' ''s'', a_member ''mem'' ''s'', a_member ''pat'' ''s''],
      member_roles := [(''mod'', ''s'', ''moderator''), (''mem'', ''s'', ''helper'')],
      channels := [a_channel ''c'' (Some ''s'') ''text'']\<rparr>"

lemmas sample_defs = no_rows_def a_user_def a_space_def a_role_def a_member_def a_channel_def a_db_def

end
