(* ===== verification/Auth.thy ===== *)
theory Auth
  imports Database
begin

text \<open>
  Token resolution, \<open>Server/src/middleware/auth.rs\<close>, and its use by the gateway
  (\<open>resolve_token\<close> of \<open>Server/src/gateway/mod.rs\<close>).

  The crates it calls are arguments: \<open>sha256_hex\<close> is the hex SHA-256 of the token, and the fields
  of \<open>chrono\<close> are chrono's parsers (format, text) to instants and the current time, instants being
  counted in any fixed unit.
\<close>

record chrono =
  parse_from_str :: "string \<Rightarrow> string \<Rightarrow> int option"         \<comment> \<open>\<open>DateTime::parse_from_str\<close>\<close>
  parse_naive_from_str :: "string \<Rightarrow> string \<Rightarrow> int option"   \<comment> \<open>\<open>NaiveDateTime::parse_from_str\<close>\<close>
  parse_from_rfc3339 :: "string \<Rightarrow> int option"
  utc_now :: int
  format_utc :: "int \<Rightarrow> string \<Rightarrow> string"                   \<comment> \<open>\<open>with_timezone(Utc).format\<close>\<close>

record AuthUser =
  au_user_id :: string
  au_is_bot :: bool
  au_is_admin :: bool
  au_is_guest :: bool
  au_guest_space_id :: "string option"

text \<open>The three formats a backend may return an expiry in, tried in this order.\<close>

definition parse_expiry :: "chrono \<Rightarrow> string \<Rightarrow> int option" where
  "parse_expiry ch expires_at =
     (case parse_from_str ch ''%Y-%m-%dT%H:%M:%S%z'' expires_at of
        Some t \<Rightarrow> Some t
      | None \<Rightarrow>
          (case parse_naive_from_str ch ''%Y-%m-%dT%H:%M:%S'' expires_at of
             Some t \<Rightarrow> Some t
           | None \<Rightarrow> parse_from_str ch ''%Y-%m-%d %H:%M:%S%z'' expires_at))"

definition resolve_bot_hash :: "db \<Rightarrow> string \<Rightarrow> AuthUser option" where
  "resolve_bot_hash d token_hash =
     (case ok (query d (find (\<lambda>((h, uid), u). uid = us_id u \<and> h = token_hash)
                 [(bt, u). bt \<leftarrow> bot_tokens d, u \<leftarrow> users d])) of
        None \<Rightarrow> None
      | Some None \<Rightarrow> None
      | Some (Some (bt, u)) \<Rightarrow>
          if us_disabled u then None
          else Some \<lparr>au_user_id = us_id u, au_is_bot = True, au_is_admin = us_is_admin u,
                     au_is_guest = False, au_guest_space_id = None\<rparr>)"

definition resolve_bearer_hash :: "chrono \<Rightarrow> db \<Rightarrow> string \<Rightarrow> AuthUser option" where
  "resolve_bearer_hash ch d token_hash =
     (case ok (query d (find (\<lambda>(t, u). ut_user_id t = us_id u \<and> ut_token_hash t = token_hash)
                 [(t, u). t \<leftarrow> user_tokens d, u \<leftarrow> users d])) of
        None \<Rightarrow> None
      | Some None \<Rightarrow> None
      | Some (Some (t, u)) \<Rightarrow>
          (case parse_expiry ch (ut_expires_at t) of
             None \<Rightarrow> None
           | Some expires_utc \<Rightarrow>
               if expires_utc < utc_now ch then None
               else if us_disabled u then None
               else Some \<lparr>au_user_id = us_id u, au_is_bot = False, au_is_admin = us_is_admin u,
                          au_is_guest = False, au_guest_space_id = None\<rparr>))"

definition resolve_guest_hash :: "chrono \<Rightarrow> db \<Rightarrow> string \<Rightarrow> AuthUser option" where
  "resolve_guest_hash ch d token_hash =
     (case ok (query d (find (\<lambda>(t, s). sp_id s = gt_space_id t \<and> gt_token_hash t = token_hash \<and>
                                sp_allow_guest_access s)
                 [(t, s). t \<leftarrow> guest_tokens d, s \<leftarrow> spaces d])) of
        None \<Rightarrow> None
      | Some None \<Rightarrow> None
      | Some (Some (t, s)) \<Rightarrow>
          (case parse_expiry ch (gt_expires_at t) of
             None \<Rightarrow> None
           | Some expires_utc \<Rightarrow>
               if expires_utc < utc_now ch then None
               else Some \<lparr>au_user_id = ''guest:'' @ take 16 token_hash, au_is_bot = False,
                          au_is_admin = False, au_is_guest = True,
                          au_guest_space_id = Some (gt_space_id t)\<rparr>))"

definition resolve_bot_token :: "(string \<Rightarrow> string) \<Rightarrow> db \<Rightarrow> string \<Rightarrow> AuthUser option" where
  "resolve_bot_token sha256_hex d token = resolve_bot_hash d (sha256_hex token)"

definition resolve_bearer_token ::
    "(string \<Rightarrow> string) \<Rightarrow> chrono \<Rightarrow> db \<Rightarrow> string \<Rightarrow> AuthUser option" where
  "resolve_bearer_token sha256_hex ch d token = resolve_bearer_hash ch d (sha256_hex token)"

definition resolve_guest_token ::
    "(string \<Rightarrow> string) \<Rightarrow> chrono \<Rightarrow> db \<Rightarrow> string \<Rightarrow> AuthUser option" where
  "resolve_guest_token sha256_hex ch d token = resolve_guest_hash ch d (sha256_hex token)"

text \<open>The \<open>Authorization\<close> header of a request; \<open>None\<close> is the rejection (401).\<close>

definition auth_from_request ::
    "(string \<Rightarrow> string) \<Rightarrow> chrono \<Rightarrow> db \<Rightarrow> string option \<Rightarrow> AuthUser option" where
  "auth_from_request sha256_hex ch d auth_header =
     (case auth_header of
        None \<Rightarrow> None
      | Some header \<Rightarrow>
          if starts_with header ''Bot '' then resolve_bot_token sha256_hex d (drop 4 header)
          else if starts_with header ''Bearer '' then
            (let token = drop 7 header in
             case resolve_bearer_token sha256_hex ch d token of
               Some user \<Rightarrow> Some user
             | None \<Rightarrow> resolve_guest_token sha256_hex ch d token)
          else None)"

text \<open>Revalidation of a gateway credential from its stored hash.\<close>

definition resolve_hash :: "chrono \<Rightarrow> db \<Rightarrow> string \<Rightarrow> bool \<Rightarrow> bool \<Rightarrow> AuthUser option" where
  "resolve_hash ch d hash is_bot is_guest =
     (if is_bot then resolve_bot_hash d hash
      else if is_guest then resolve_guest_hash ch d hash
      else resolve_bearer_hash ch d hash)"

record ResolvedAuth =
  ra_token_hash :: string
  ra_user_id :: string
  ra_is_bot :: bool
  ra_is_guest :: bool
  ra_guest_space_id :: "string option"

definition resolved_of :: "string \<Rightarrow> AuthUser \<Rightarrow> ResolvedAuth" where
  "resolved_of hash user =
     \<lparr>ra_token_hash = hash, ra_user_id = au_user_id user, ra_is_bot = au_is_bot user,
      ra_is_guest = au_is_guest user, ra_guest_space_id = au_guest_space_id user\<rparr>"

text \<open>The token of an IDENTIFY or RESUME frame.\<close>

definition resolve_token ::
    "(string \<Rightarrow> string) \<Rightarrow> chrono \<Rightarrow> db \<Rightarrow> string \<Rightarrow> ResolvedAuth option" where
  "resolve_token sha256_hex ch d token =
     (if length token > 256 then None
      else case (case strip_prefix token ''Bot '' of
                   Some raw \<Rightarrow> Some (raw, True)
                 | None \<Rightarrow> map_option (\<lambda>raw. (raw, False)) (strip_prefix token ''Bearer '')) of
        None \<Rightarrow> None
      | Some (raw, is_bot) \<Rightarrow>
          (let hash = sha256_hex raw in
           map_option (resolved_of hash)
             (case resolve_hash ch d hash is_bot False of
                Some user \<Rightarrow> Some user
              | None \<Rightarrow> if \<not> is_bot then resolve_hash ch d hash False True else None)))"

section \<open>Facts\<close>

lemma resolve_bot_hash_Some:
  assumes "resolve_bot_hash d h = Some a"
  shows "\<exists>u \<in> set (users d). db_ok d \<and> au_user_id a = us_id u \<and> \<not> us_disabled u \<and>
    au_is_admin a = us_is_admin u \<and> \<not> au_is_guest a \<and> au_is_bot a \<and>
    (h, us_id u) \<in> set (bot_tokens d)"
  using assms
  by (fastforce simp: resolve_bot_hash_def split: option.splits if_splits dest!: find_SomeD)

lemma resolve_bearer_hash_Some:
  assumes "resolve_bearer_hash ch d h = Some a"
  shows "\<exists>t \<in> set (user_tokens d). \<exists>u \<in> set (users d). \<exists>e. db_ok d \<and>
    ut_token_hash t = h \<and> ut_user_id t = us_id u \<and> au_user_id a = us_id u \<and> \<not> us_disabled u \<and>
    au_is_admin a = us_is_admin u \<and> \<not> au_is_guest a \<and> \<not> au_is_bot a \<and>
    parse_expiry ch (ut_expires_at t) = Some e \<and> utc_now ch \<le> e"
  using assms
  by (fastforce simp: resolve_bearer_hash_def split: option.splits if_splits dest!: find_SomeD)

lemma resolve_guest_hash_Some:
  assumes "resolve_guest_hash ch d h = Some a"
  shows "\<exists>t \<in> set (guest_tokens d). \<exists>s \<in> set (spaces d). \<exists>e. db_ok d \<and>
    gt_token_hash t = h \<and> sp_id s = gt_space_id t \<and> sp_allow_guest_access s \<and>
    au_is_guest a \<and> \<not> au_is_admin a \<and> \<not> au_is_bot a \<and> au_guest_space_id a = Some (sp_id s) \<and>
    au_user_id a = ''guest:'' @ take 16 h \<and>
    parse_expiry ch (gt_expires_at t) = Some e \<and> utc_now ch \<le> e"
  using assms
  by (fastforce simp: resolve_guest_hash_def split: option.splits if_splits dest!: find_SomeD)


text \<open>A clock at 100 whose texts all mean the instant 200.\<close>

definition a_chrono :: chrono where
  "a_chrono = \<lparr>parse_from_str = (\<lambda>_ _. Some 200), parse_naive_from_str = (\<lambda>_ _. Some 200),
     parse_from_rfc3339 = (\<lambda>_. Some 200), utc_now = 100,
     format_utc = (\<lambda>_ _. ''2026-01-01T00:00:00+00:00'')\<rparr>"


lemma from_request_bot:
  "auth_from_request sha256_hex ch d (Some (''Bot '' @ raw)) = resolve_bot_hash d (sha256_hex raw)"
  by (simp add: auth_from_request_def resolve_bot_token_def starts_with_def)

lemma from_request_bearer:
  "auth_from_request sha256_hex ch d (Some (''Bearer '' @ raw)) =
     (case resolve_bearer_hash ch d (sha256_hex raw) of
        Some user \<Rightarrow> Some user | None \<Rightarrow> resolve_guest_hash ch d (sha256_hex raw))"
  by (simp add: auth_from_request_def resolve_bearer_token_def resolve_guest_token_def
      starts_with_def Let_def split: option.split)

text \<open>The gateway handshake authenticates a token exactly as an HTTP request with that
  \<open>Authorization\<close> header, except that it refuses one longer than 256 bytes.\<close>

theorem gateway_auth_agrees_with_http:
  "resolve_token sha256_hex ch d token =
     (if length token > 256 then None
      else map_option (\<lambda>a. resolved_of (sha256_hex (drop (if au_is_bot a then 4 else 7) token)) a)
             (auth_from_request sha256_hex ch d (Some token)))"
proof (cases "length token > 256")
  case True
  then show ?thesis by (simp add: resolve_token_def)
next
  case len: False
  have is_bot: "au_is_bot a" if "resolve_bot_hash d h = Some a" for a h
    using that by (auto simp: resolve_bot_hash_def split: option.splits if_splits)
  have bearer_not_bot: "\<not> au_is_bot a" if "resolve_bearer_hash ch d h = Some a" for a h
    using resolve_bearer_hash_Some [OF that] by auto
  have guest_not_bot: "\<not> au_is_bot a" if "resolve_guest_hash ch d h = Some a" for a h
    using resolve_guest_hash_Some [OF that] by auto
  consider (bot_token) raw where "token = ''Bot '' @ raw" | (bearer) raw where "token = ''Bearer '' @ raw"
    | (other) "strip_prefix token ''Bot '' = None" "strip_prefix token ''Bearer '' = None"
    by (metis not_None_eq strip_prefix_eq_Some)
  then show ?thesis
  proof cases
    case (bot_token raw)
    show ?thesis
      using len unfolding bot_token from_request_bot
      by (auto simp: resolve_token_def resolve_hash_def Let_def strip_prefix_def starts_with_def
          dest: is_bot split: option.splits)
  next
    case (bearer raw)
    show ?thesis
      using len unfolding bearer from_request_bearer
      by (cases "resolve_bearer_hash ch d (sha256_hex raw)";
          cases "resolve_guest_hash ch d (sha256_hex raw)")
        (simp_all add: resolve_token_def resolve_hash_def Let_def strip_prefix_def starts_with_def
          bearer_not_bot guest_not_bot)
  next
    case other
    then show ?thesis
      using len by (auto simp: resolve_token_def auth_from_request_def strip_prefix_def
          split: if_splits)
  qed
qed

end
