(* ===== verification/Permissions.thy ===== *)
theory Permissions
  imports Auth
begin

text \<open>
  The permission layer, \<open>Server/src/middleware/permissions.rs\<close> and
  \<open>Server/src/models/permission.rs\<close>: effective permissions of a member in a space and in a
  channel, the checks the handlers call, the role hierarchy and the read policy.

  Every check is a function of the database and the caller to a result; \<open>and_then\<close> is the
  \<open>?\<close> of the code.
\<close>

section \<open>Constants\<close>

definition ALL_PERMISSIONS :: "string list" where
  "ALL_PERMISSIONS =
     [''create_invites'', ''kick_members'', ''ban_members'', ''administrator'', ''manage_channels'',
      ''manage_space'', ''add_reactions'', ''view_audit_log'', ''priority_speaker'', ''stream'',
      ''view_channel'', ''send_messages'', ''send_tts'', ''manage_messages'', ''embed_links'',
      ''attach_files'', ''read_history'', ''mention_everyone'', ''use_external_emojis'', ''connect'',
      ''speak'', ''mute_members'', ''deafen_members'', ''move_members'', ''use_vad'',
      ''change_nickname'', ''manage_nicknames'', ''manage_roles'', ''manage_webhooks'',
      ''manage_emojis'', ''manage_soundboard'', ''use_soundboard'', ''use_commands'',
      ''manage_events'', ''manage_threads'', ''create_threads'', ''use_external_stickers'',
      ''send_in_threads'', ''moderate_members'']"

definition DEFAULT_EVERYONE_PERMISSIONS :: "string list" where
  "DEFAULT_EVERYONE_PERMISSIONS =
     [''view_channel'', ''send_messages'', ''read_history'', ''add_reactions'', ''create_invites'',
      ''change_nickname'', ''connect'', ''speak'', ''use_vad'', ''embed_links'', ''attach_files'',
      ''use_external_emojis'', ''stream'', ''use_soundboard'', ''create_threads'', ''send_in_threads'']"

definition MODERATOR_PERMISSIONS :: "string list" where
  "MODERATOR_PERMISSIONS =
     [''view_channel'', ''send_messages'', ''read_history'', ''add_reactions'', ''create_invites'',
      ''change_nickname'', ''connect'', ''speak'', ''use_vad'', ''embed_links'', ''attach_files'',
      ''use_external_emojis'', ''stream'',
      ''kick_members'', ''ban_members'', ''manage_messages'', ''mute_members'', ''deafen_members'',
      ''move_members'', ''manage_nicknames'', ''moderate_members'', ''mention_everyone'',
      ''manage_threads'', ''manage_events'']"

definition ADMIN_PERMISSIONS :: "string list" where
  "ADMIN_PERMISSIONS =
     [''view_channel'', ''send_messages'', ''read_history'', ''add_reactions'', ''create_invites'',
      ''change_nickname'', ''connect'', ''speak'', ''use_vad'', ''embed_links'', ''attach_files'',
      ''use_external_emojis'', ''stream'',
      ''kick_members'', ''ban_members'', ''manage_messages'', ''mute_members'', ''deafen_members'',
      ''move_members'', ''manage_nicknames'', ''moderate_members'', ''mention_everyone'',
      ''manage_threads'', ''manage_events'',
      ''manage_channels'', ''manage_space'', ''manage_roles'', ''manage_webhooks'', ''manage_emojis'',
      ''manage_soundboard'', ''view_audit_log'', ''priority_speaker'']"

definition GUEST_PERMISSIONS :: "string list" where
  "GUEST_PERMISSIONS = [''view_channel'', ''read_history'']"

definition I64_MAX :: int where
  "I64_MAX = 2 ^ 63 - 1"

definition has_permission :: "string list \<Rightarrow> string \<Rightarrow> bool" where
  "has_permission perms perm \<longleftrightarrow> list_ex (\<lambda>p. p = ''administrator'' \<or> p = perm) perms"

lemma has_permission_iff:
  "has_permission perms perm \<longleftrightarrow> ''administrator'' \<in> set perms \<or> perm \<in> set perms"
  by (auto simp: has_permission_def list_ex_iff)

section \<open>Permissions in a space\<close>

definition require_server_admin :: "AuthUser \<Rightarrow> AppError + unit" where
  "require_server_admin auth =
     (if \<not> au_is_admin auth then Inl (Forbidden ''server admin privileges required'') else Inr ())"

definition not_a_member :: "AppError \<Rightarrow> AppError" where
  "not_a_member e =
     (case e of NotFound _ \<Rightarrow> Forbidden ''you are not a member of this space'' | other \<Rightarrow> other)"

text \<open>The @everyone role is the one at position 0.\<close>

definition everyone_role :: "RoleRow list \<Rightarrow> RoleRow option" where
  "everyone_role rs = find (\<lambda>r. ro_position r = 0) rs"

definition resolve_member_permissions_inner ::
    "db \<Rightarrow> string \<Rightarrow> string \<Rightarrow> bool \<Rightarrow> AppError + string list" where
  "resolve_member_permissions_inner d space_id user_id is_server_admin =
     (if is_server_admin then Inr [''administrator''] else
      and_then (get_space_row d space_id) (\<lambda>space.
      if sp_owner_id space = user_id then Inr [''administrator''] else
      and_then (map_err not_a_member (get_member_row d space_id user_id)) (\<lambda>_.
      and_then (list_roles d space_id) (\<lambda>rs.
      let perms = (case everyone_role rs of
                     Some r \<Rightarrow> from_json_or_default (ro_permissions r) | None \<Rightarrow> []) in
      and_then (get_member_role_ids d space_id user_id) (\<lambda>role_ids.
      Inr (foldl (\<lambda>acc r. if ro_id r \<in> set role_ids
                          then push_missing acc (from_json_or_default (ro_permissions r)) else acc)
             perms rs))))))"

definition resolve_member_permissions :: "db \<Rightarrow> string \<Rightarrow> string \<Rightarrow> AppError + string list" where
  "resolve_member_permissions d space_id user_id =
     resolve_member_permissions_inner d space_id user_id False"

definition resolve_member_permissions_with_admin ::
    "db \<Rightarrow> string \<Rightarrow> string \<Rightarrow> bool \<Rightarrow> AppError + string list" where
  "resolve_member_permissions_with_admin d space_id user_id is_server_admin =
     resolve_member_permissions_inner d space_id user_id is_server_admin"

definition require_guest_space_permission ::
    "AuthUser \<Rightarrow> string \<Rightarrow> string \<Rightarrow> AppError + unit" where
  "require_guest_space_permission auth space_id perm =
     (if au_guest_space_id auth \<noteq> Some space_id
      then Inl (Forbidden ''guest token not valid for this space'')
      else if perm \<notin> set GUEST_PERMISSIONS
      then Inl (Forbidden ''guest accounts cannot perform this action'')
      else Inr ())"

definition missing_permission :: "string \<Rightarrow> AppError" where
  "missing_permission perm = Forbidden (''missing permission: '' @ perm)"

definition require_permission :: "db \<Rightarrow> string \<Rightarrow> AuthUser \<Rightarrow> string \<Rightarrow> AppError + unit" where
  "require_permission d space_id auth perm =
     (if au_is_guest auth then require_guest_space_permission auth space_id perm
      else and_then (resolve_member_permissions_with_admin d space_id (au_user_id auth) (au_is_admin auth))
        (\<lambda>perms. if \<not> has_permission perms perm then Inl (missing_permission perm) else Inr ()))"

definition require_membership :: "db \<Rightarrow> string \<Rightarrow> string \<Rightarrow> AppError + unit" where
  "require_membership d space_id user_id =
     and_then (resolve_member_permissions d space_id user_id)
       (\<lambda>perms. if \<not> has_permission perms ''view_channel''
                then Inl (missing_permission ''view_channel'') else Inr ())"

section \<open>Permissions in a channel\<close>

text \<open>One overwrite: its denials are removed, then its allowances added.\<close>

definition apply_overwrite :: "string list \<Rightarrow> string list \<Rightarrow> string list \<Rightarrow> string list" where
  "apply_overwrite perms deny allow = push_missing (retain_not_in perms deny) allow"

text \<open>The three steps of the resolution.\<close>

definition apply_everyone_overwrite ::
    "string option \<Rightarrow> PermissionOverwrite list \<Rightarrow> string list \<Rightarrow> string list" where
  "apply_everyone_overwrite everyone_role_id overwrites perms =
     (case everyone_role_id of
        None \<Rightarrow> perms
      | Some eid \<Rightarrow>
          (case find (\<lambda>ow. ow_type ow = ''role'' \<and> ow_id ow = eid) overwrites of
             None \<Rightarrow> perms
           | Some ow \<Rightarrow> apply_overwrite perms (ow_deny ow) (ow_allow ow)))"

definition apply_role_overwrites ::
    "string option \<Rightarrow> string list \<Rightarrow> PermissionOverwrite list \<Rightarrow> string list \<Rightarrow> string list" where
  "apply_role_overwrites everyone_role_id role_ids overwrites perms =
     (let role_overwrites =
            filter (\<lambda>ow. ow_type ow = ''role'' \<and> ow_id ow \<in> set role_ids \<and>
                         everyone_role_id \<noteq> Some (ow_id ow)) overwrites
      in if role_overwrites = [] then perms
         else let role_allow = push_missing [] (concat (map ow_allow role_overwrites));
                  role_deny = filter (\<lambda>p. p \<notin> set role_allow)
                                (push_missing [] (concat (map ow_deny role_overwrites)))
              in apply_overwrite perms role_deny role_allow)"

definition apply_member_overwrite ::
    "string \<Rightarrow> PermissionOverwrite list \<Rightarrow> string list \<Rightarrow> string list" where
  "apply_member_overwrite user_id overwrites perms =
     (case find (\<lambda>ow. ow_type ow = ''member'' \<and> ow_id ow = user_id) overwrites of
        None \<Rightarrow> perms
      | Some ow \<Rightarrow> apply_overwrite perms (ow_deny ow) (ow_allow ow))"

definition resolve_channel_permissions ::
    "db \<Rightarrow> string \<Rightarrow> string \<Rightarrow> string \<Rightarrow> AppError + string list" where
  "resolve_channel_permissions d channel_id space_id user_id =
     and_then (resolve_member_permissions d space_id user_id) (\<lambda>perms.
     if ''administrator'' \<in> set perms then Inr perms else
     and_then (get_channel_row d channel_id) (\<lambda>channel.
     if ch_space_id channel \<noteq> Some space_id
     then Inl (Forbidden ''channel belongs to another space'') else
     and_then (list_overwrites d channel_id) (\<lambda>overwrites.
     if overwrites = [] then Inr perms else
     and_then (list_roles d space_id) (\<lambda>rs.
     let everyone_role_id = map_option ro_id (everyone_role rs);
         perms1 = apply_everyone_overwrite everyone_role_id overwrites perms in
     and_then (get_member_role_ids d space_id user_id) (\<lambda>role_ids.
     Inr (filter (\<lambda>p. p \<noteq> ''administrator'')
            (apply_member_overwrite user_id overwrites
               (apply_role_overwrites everyone_role_id role_ids overwrites perms1))))))))"

section \<open>Timeouts, slow mode, direct messages\<close>

definition is_timed_out :: "chrono \<Rightarrow> string option \<Rightarrow> bool" where
  "is_timed_out ch timed_out_until =
     (case timed_out_until of
        Some ts \<Rightarrow> (case parse_from_rfc3339 ch ts of Some t \<Rightarrow> t > utc_now ch | None \<Rightarrow> False)
      | None \<Rightarrow> False)"

definition require_not_timed_out :: "chrono \<Rightarrow> db \<Rightarrow> string \<Rightarrow> AuthUser \<Rightarrow> AppError + unit" where
  "require_not_timed_out ch d space_id auth =
     (if au_is_admin auth then Inr () else
      case get_member_row d space_id (au_user_id auth) of
        Inl (NotFound _) \<Rightarrow> Inr ()
      | Inl e \<Rightarrow> Inl e
      | Inr member \<Rightarrow>
          if is_timed_out ch (mb_timed_out_until member)
          then Inl (Forbidden ''you are timed out in this space'') else Inr ())"

definition slowmode_cooldown_ms :: "db \<Rightarrow> ChannelRow \<Rightarrow> AuthUser \<Rightarrow> AppError + int" where
  "slowmode_cooldown_ms d channel auth =
     (let cooldown_ms = max 0 (min 21600 (ch_rate_limit channel)) * 1000 in
      if cooldown_ms = 0 \<or> au_is_admin auth then Inr 0 else
      case ch_space_id channel of
        None \<Rightarrow> Inr cooldown_ms
      | Some space_id \<Rightarrow>
          and_then (resolve_channel_permissions d (ch_id channel) space_id (au_user_id auth)) (\<lambda>perms.
          if has_permission perms ''manage_messages'' \<or> has_permission perms ''manage_channels''
          then Inr 0 else Inr cooldown_ms))"

definition require_dm_access :: "db \<Rightarrow> string \<Rightarrow> string \<Rightarrow> AppError + unit" where
  "require_dm_access d channel_id user_id =
     and_then (is_participant d channel_id user_id) (\<lambda>p.
       if \<not> p then Inl (Forbidden ''you are not a participant in this DM'') else Inr ())"

definition is_dm_channel :: "string \<Rightarrow> bool" where
  "is_dm_channel channel_type \<longleftrightarrow> channel_type = ''dm'' \<or> channel_type = ''group_dm''"

definition require_channel_permission ::
    "db \<Rightarrow> string \<Rightarrow> AuthUser \<Rightarrow> string \<Rightarrow> AppError + string" where
  "require_channel_permission d channel_id auth perm =
     and_then (get_channel_row d channel_id) (\<lambda>channel.
     if au_is_guest auth then
       (if is_dm_channel (ch_type channel) then Inl (Forbidden ''guest accounts cannot access DMs'') else
        and_then (ok_or (BadRequest ''channel has no space'') (ch_space_id channel)) (\<lambda>space_id.
        if au_guest_space_id auth \<noteq> Some space_id
        then Inl (Forbidden ''guest token not valid for this space'')
        else if \<not> ch_allow_anonymous_read channel
        then Inl (Forbidden ''this channel is not publicly readable'')
        else if perm \<notin> set GUEST_PERMISSIONS
        then Inl (Forbidden ''guest accounts cannot perform this action'')
        else Inr space_id))
     else if is_dm_channel (ch_type channel) then
       and_then (require_dm_access d channel_id (au_user_id auth)) (\<lambda>_. Inr [])
     else
       and_then (ok_or (BadRequest ''channel has no space'') (ch_space_id channel)) (\<lambda>space_id.
       if au_is_admin auth then Inr space_id else
       and_then (resolve_channel_permissions d channel_id space_id (au_user_id auth)) (\<lambda>perms.
       if \<not> has_permission perms ''view_channel'' \<or> \<not> has_permission perms perm
       then Inl (missing_permission perm) else Inr space_id)))"

definition plain_user :: "string \<Rightarrow> AuthUser" where
  "plain_user user_id =
     \<lparr>au_user_id = user_id, au_is_bot = False, au_is_admin = False, au_is_guest = False,
      au_guest_space_id = None\<rparr>"

definition require_channel_membership :: "db \<Rightarrow> string \<Rightarrow> string \<Rightarrow> AppError + string" where
  "require_channel_membership d channel_id user_id =
     require_channel_permission d channel_id (plain_user user_id) ''view_channel''"

section \<open>The role hierarchy\<close>

definition get_highest_role_position :: "db \<Rightarrow> string \<Rightarrow> string \<Rightarrow> AppError + int" where
  "get_highest_role_position d space_id user_id =
     and_then (get_space_row d space_id) (\<lambda>space.
     if sp_owner_id space = user_id then Inr I64_MAX else
     and_then (get_member_role_ids d space_id user_id) (\<lambda>role_ids.
     if role_ids = [] then Inr 0 else
     and_then (list_roles d space_id) (\<lambda>rs.
     let ps = map ro_position (filter (\<lambda>r. ro_id r \<in> set role_ids) rs)
     in Inr (if ps = [] then 0 else Max (set ps)))))"

definition require_hierarchy :: "db \<Rightarrow> string \<Rightarrow> AuthUser \<Rightarrow> string \<Rightarrow> AppError + unit" where
  "require_hierarchy d space_id auth target_id =
     (if au_is_admin auth then Inr () else
      and_then (get_highest_role_position d space_id (au_user_id auth)) (\<lambda>actor_pos.
      and_then (get_highest_role_position d space_id target_id) (\<lambda>target_pos.
      if actor_pos \<le> target_pos
      then Inl (Forbidden ''you cannot act on a member with an equal or higher role'')
      else Inr ())))"

definition require_role_hierarchy :: "db \<Rightarrow> string \<Rightarrow> string \<Rightarrow> int \<Rightarrow> AppError + unit" where
  "require_role_hierarchy d space_id actor_id role_position =
     and_then (get_highest_role_position d space_id actor_id) (\<lambda>actor_pos.
     if actor_pos \<le> role_position
     then Inl (Forbidden ''you cannot manage a role at or above your highest role'')
     else Inr ())"

section \<open>Reading a channel\<close>

definition require_channel_read_access ::
    "db \<Rightarrow> ChannelRow \<Rightarrow> AuthUser option \<Rightarrow> bool \<Rightarrow> AppError + unit" where
  "require_channel_read_access d channel auth_opt history =
     (case auth_opt of
        Some auth \<Rightarrow>
          and_then
            (if au_is_guest auth then
               and_then (ok_or (Forbidden ''guests cannot access DMs'') (ch_space_id channel)) (\<lambda>space_id.
               and_then (get_space_row d space_id) (\<lambda>space.
               if \<not> sp_allow_guest_access space then Inl (Forbidden ''guest access is disabled'')
               else Inr ()))
             else Inr ()) (\<lambda>_.
          and_then (require_channel_permission d (ch_id channel) auth ''view_channel'') (\<lambda>_.
          if history
          then and_then (require_channel_permission d (ch_id channel) auth ''read_history'') (\<lambda>_. Inr ())
          else Inr ()))
      | None \<Rightarrow>
          if ch_allow_anonymous_read channel then
            (case ch_space_id channel of
               Some space_id \<Rightarrow>
                 and_then (get_space_row d space_id) (\<lambda>space.
                 if sp_public space then Inr () else Inl (Unauthorized ''authentication required''))
             | None \<Rightarrow> Inl (Unauthorized ''authentication required''))
          else Inl (Unauthorized ''authentication required''))"

section \<open>Facts about space permissions\<close>

lemma foldl_role_permissions:
  "set (foldl (\<lambda>acc r. if P r then push_missing acc (f r) else acc) ps rs) =
     set ps \<union> (\<Union>r \<in> {r \<in> set rs. P r}. set (f r))"
  by (induction rs arbitrary: ps) auto

text \<open>What the roles of a space grant a user: the @everyone role and the roles assigned to them.\<close>

definition granted :: "db \<Rightarrow> string \<Rightarrow> string \<Rightarrow> string set" where
  "granted d s u =
     (case everyone_role (sort_key ro_position (filter (\<lambda>r. ro_space_id r = s) (roles d))) of
        Some r \<Rightarrow> set (from_json_or_default (ro_permissions r)) | None \<Rightarrow> {}) \<union>
     (\<Union>r \<in> {r \<in> set (roles d). ro_space_id r = s \<and> (u, s, ro_id r) \<in> set (member_roles d)}.
        set (from_json_or_default (ro_permissions r)))"

definition owns_space :: "db \<Rightarrow> string \<Rightarrow> string \<Rightarrow> bool" where
  "owns_space d s u \<longleftrightarrow>
     (case find (\<lambda>r. sp_id r = s) (spaces d) of Some r \<Rightarrow> sp_owner_id r = u | None \<Rightarrow> False)"

definition space_exists :: "db \<Rightarrow> string \<Rightarrow> bool" where
  "space_exists d s \<longleftrightarrow> find (\<lambda>r. sp_id r = s) (spaces d) \<noteq> None"

definition is_member :: "db \<Rightarrow> string \<Rightarrow> string \<Rightarrow> bool" where
  "is_member d s u \<longleftrightarrow> find (\<lambda>r. mb_space_id r = s \<and> mb_user_id r = u) (members d) \<noteq> None"

lemma resolve_inner_admin [simp]:
  "resolve_member_permissions_inner d s u True = Inr [''administrator'']"
  by (simp add: resolve_member_permissions_inner_def)

lemma resolve_member_cases:
  "resolve_member_permissions_inner d s u False = Inr ps \<Longrightarrow>
     db_ok d \<and> space_exists d s \<and>
     (owns_space d s u \<and> ps = [''administrator''] \<or>
      \<not> owns_space d s u \<and> is_member d s u \<and> set ps = granted d s u)"
  by (auto simp: resolve_member_permissions_inner_def query_defs owns_space_def space_exists_def
      is_member_def granted_def foldl_role_permissions not_a_member_def
      split: if_splits option.splits)

lemma resolve_member_ok:
  "db_ok d \<Longrightarrow> space_exists d s \<Longrightarrow> owns_space d s u \<or> is_member d s u \<Longrightarrow>
     \<exists>ps. resolve_member_permissions_inner d s u False = Inr ps"
  by (auto simp: resolve_member_permissions_inner_def query_defs owns_space_def space_exists_def
      is_member_def split: option.splits)

lemma resolve_member_not_ok:
  "\<not> (db_ok d \<and> space_exists d s \<and> (owns_space d s u \<or> is_member d s u)) \<Longrightarrow>
     \<exists>e. resolve_member_permissions_inner d s u False = Inl e"
  using resolve_member_cases by (cases "resolve_member_permissions_inner d s u False") blast+

text \<open>Does the space let this user do \<open>perm\<close>?\<close>

definition space_allows :: "db \<Rightarrow> string \<Rightarrow> string \<Rightarrow> string \<Rightarrow> bool" where
  "space_allows d s u perm \<longleftrightarrow>
     db_ok d \<and> space_exists d s \<and>
     (owns_space d s u \<or>
      is_member d s u \<and> (''administrator'' \<in> granted d s u \<or> perm \<in> granted d s u))"

lemma resolve_then_has_permission:
  "(\<exists>ps. resolve_member_permissions_inner d s u False = Inr ps \<and> has_permission ps perm) \<longleftrightarrow>
     space_allows d s u perm"
proof
  assume "\<exists>ps. resolve_member_permissions_inner d s u False = Inr ps \<and> has_permission ps perm"
  then show "space_allows d s u perm"
    by (auto simp: space_allows_def has_permission_iff dest!: resolve_member_cases)
next
  assume a: "space_allows d s u perm"
  then obtain ps where ps: "resolve_member_permissions_inner d s u False = Inr ps"
    using resolve_member_ok [of d s u] by (auto simp: space_allows_def)
  with a resolve_member_cases [OF ps] show
    "\<exists>ps. resolve_member_permissions_inner d s u False = Inr ps \<and> has_permission ps perm"
    by (auto simp: space_allows_def has_permission_iff)
qed

text \<open>May this caller do \<open>perm\<close> in the space?\<close>

definition permitted :: "db \<Rightarrow> string \<Rightarrow> AuthUser \<Rightarrow> string \<Rightarrow> bool" where
  "permitted d s auth perm \<longleftrightarrow>
     (if au_is_guest auth
      then au_guest_space_id auth = Some s \<and> perm \<in> {''view_channel'', ''read_history''}
      else au_is_admin auth \<or> space_allows d s (au_user_id auth) perm)"

lemma require_permission_permitted:
  "require_permission d s auth perm = Inr () \<longleftrightarrow> permitted d s auth perm"
proof (cases "au_is_guest auth")
  case True
  then show ?thesis
    by (auto simp: require_permission_def require_guest_space_permission_def GUEST_PERMISSIONS_def
        permitted_def)
next
  case guest: False
  show ?thesis
  proof (cases "au_is_admin auth")
    case True
    with guest show ?thesis
      by (simp add: require_permission_def resolve_member_permissions_with_admin_def
          has_permission_def permitted_def)
  next
    case False
    with guest show ?thesis
      using resolve_then_has_permission [of d s "au_user_id auth" perm]
      by (auto simp: require_permission_def resolve_member_permissions_with_admin_def permitted_def
          split: if_splits)
  qed
qed

text \<open>C1.  \<open>require_permission\<close> lets a request through exactly when it should: a guest only to read
  its own space; an instance admin always; anybody else when the space exists and they own it, or
  are a member to whom @everyone and their assigned roles together grant the permission or
  \<open>administrator\<close>.\<close>

theorem require_permission_iff:
  "require_permission d s auth perm = Inr () \<longleftrightarrow>
     (if au_is_guest auth
      then au_guest_space_id auth = Some s \<and> perm \<in> {''view_channel'', ''read_history''}
      else au_is_admin auth \<or>
           db_ok d \<and> space_exists d s \<and>
           (owns_space d s (au_user_id auth) \<or>
            is_member d s (au_user_id auth) \<and>
            (''administrator'' \<in> granted d s (au_user_id auth) \<or> perm \<in> granted d s (au_user_id auth))))"
  unfolding require_permission_permitted permitted_def space_allows_def ..

lemma require_membership_iff:
  "require_membership d s u = Inr () \<longleftrightarrow> space_allows d s u ''view_channel''"
  using resolve_then_has_permission [of d s u "''view_channel''"]
  by (auto simp: require_membership_def resolve_member_permissions_def split: if_splits)

section \<open>Facts about channel permissions\<close>

text \<open>
  The specification of the overwrites: each layer either speaks about a permission or does not
  (an allowance outweighs a denial of the same layer), and the most specific layer that speaks
  decides -- the member's own overwrite, the overwrites of their roles taken together, the
  @everyone overwrite, and last the space permissions.  \<open>administrator\<close> is never decided here.
\<close>

definition verdict :: "string set \<Rightarrow> string set \<Rightarrow> string \<Rightarrow> bool option" where
  "verdict allow deny p = (if p \<in> allow then Some True else if p \<in> deny then Some False else None)"

definition first_verdict :: "bool option list \<Rightarrow> bool \<Rightarrow> bool" where
  "first_verdict vs otherwise = (case find (\<lambda>v. v \<noteq> None) vs of Some (Some b) \<Rightarrow> b | _ \<Rightarrow> otherwise)"

definition overwrite_verdict :: "PermissionOverwrite option \<Rightarrow> string \<Rightarrow> bool option" where
  "overwrite_verdict w p =
     (case w of None \<Rightarrow> None | Some ow \<Rightarrow> verdict (set (ow_allow ow)) (set (ow_deny ow)) p)"

definition channel_overwrites :: "db \<Rightarrow> string \<Rightarrow> PermissionOverwrite list" where
  "channel_overwrites d c =
     map (\<lambda>r. \<lparr>ow_id = owr_id r, ow_type = owr_type r, ow_allow = from_json_or_default (owr_allow r),
               ow_deny = from_json_or_default (owr_deny r)\<rparr>)
       (filter (\<lambda>r. owr_channel_id r = c) (permission_overwrites d))"

definition everyone_id :: "db \<Rightarrow> string \<Rightarrow> string option" where
  "everyone_id d s =
     map_option ro_id (everyone_role (sort_key ro_position (filter (\<lambda>r. ro_space_id r = s) (roles d))))"

definition everyone_overwrite :: "db \<Rightarrow> string \<Rightarrow> string \<Rightarrow> PermissionOverwrite option" where
  "everyone_overwrite d c s =
     find (\<lambda>w. ow_type w = ''role'' \<and> Some (ow_id w) = everyone_id d s) (channel_overwrites d c)"

definition member_overwrite :: "db \<Rightarrow> string \<Rightarrow> string \<Rightarrow> PermissionOverwrite option" where
  "member_overwrite d c u =
     find (\<lambda>w. ow_type w = ''member'' \<and> ow_id w = u) (channel_overwrites d c)"

definition role_overwrites_of :: "db \<Rightarrow> string \<Rightarrow> string \<Rightarrow> string \<Rightarrow> PermissionOverwrite set" where
  "role_overwrites_of d c s u =
     {w \<in> set (channel_overwrites d c). ow_type w = ''role'' \<and>
        (u, s, ow_id w) \<in> set (member_roles d) \<and> everyone_id d s \<noteq> Some (ow_id w)}"

definition channel_verdicts :: "db \<Rightarrow> string \<Rightarrow> string \<Rightarrow> string \<Rightarrow> string \<Rightarrow> bool option list" where
  "channel_verdicts d c s u p =
     [overwrite_verdict (member_overwrite d c u) p,
      verdict (\<Union>w \<in> role_overwrites_of d c s u. set (ow_allow w))
              (\<Union>w \<in> role_overwrites_of d c s u. set (ow_deny w)) p,
      overwrite_verdict (everyone_overwrite d c s) p]"

lemma set_apply_overwrite [simp]:
  "set (apply_overwrite perms deny allow) = set perms - set deny \<union> set allow"
  by (simp add: apply_overwrite_def)

lemma mem_apply_overwrite_verdict:
  "p \<in> set (apply_overwrite perms deny allow) \<longleftrightarrow>
     (case verdict (set allow) (set deny) p of Some b \<Rightarrow> b | None \<Rightarrow> p \<in> set perms)"
  by (auto simp: verdict_def)

lemma first_verdict_simps [simp]:
  "first_verdict [] b = b"
  "first_verdict (None # vs) b = first_verdict vs b"
  "first_verdict (Some v # vs) b = v"
  by (simp_all add: first_verdict_def)

lemma first_verdict_Cons:
  "first_verdict (v # vs) b = (case v of Some x \<Rightarrow> x | None \<Rightarrow> first_verdict vs b)"
  by (cases v) simp_all

lemma list_overwrites_query: "list_overwrites d c = query d (channel_overwrites d c)"
  by (simp add: list_overwrites_def channel_overwrites_def)

lemma no_overwrites_no_verdict:
  "channel_overwrites d c = [] \<Longrightarrow> first_verdict (channel_verdicts d c s u p) b = b"
  by (simp add: channel_verdicts_def overwrite_verdict_def everyone_overwrite_def
      member_overwrite_def role_overwrites_of_def verdict_def)

text \<open>Each step is the layer of the specification.\<close>

lemma everyone_step:
  "p \<in> set (apply_everyone_overwrite (everyone_id d s) (channel_overwrites d c) perms) \<longleftrightarrow>
     first_verdict [overwrite_verdict (everyone_overwrite d c s) p] (p \<in> set perms)"
  by (cases "everyone_id d s")
    (auto simp: apply_everyone_overwrite_def everyone_overwrite_def overwrite_verdict_def
      first_verdict_Cons mem_apply_overwrite_verdict verdict_def split: option.split)

lemma role_step:
  assumes "set ids = {i. (u, s, i) \<in> set (member_roles d)}"
  shows "p \<in> set (apply_role_overwrites (everyone_id d s) ids (channel_overwrites d c) perms) \<longleftrightarrow>
     first_verdict [verdict (\<Union>w \<in> role_overwrites_of d c s u. set (ow_allow w))
                      (\<Union>w \<in> role_overwrites_of d c s u. set (ow_deny w)) p] (p \<in> set perms)"
proof -
  define ows where "ows = filter (\<lambda>w. ow_type w = ''role'' \<and> ow_id w \<in> set ids \<and>
      everyone_id d s \<noteq> Some (ow_id w)) (channel_overwrites d c)"
  have "role_overwrites_of d c s u = set ows"
    by (auto simp: ows_def role_overwrites_of_def assms)
  moreover have "apply_role_overwrites (everyone_id d s) ids (channel_overwrites d c) perms =
      (if ows = [] then perms
       else let allow = push_missing [] (concat (map ow_allow ows));
                deny = filter (\<lambda>p. p \<notin> set allow) (push_missing [] (concat (map ow_deny ows)))
            in apply_overwrite perms deny allow)"
    unfolding apply_role_overwrites_def ows_def Let_def ..
  ultimately show ?thesis
    by (auto simp: first_verdict_Cons verdict_def Let_def)
qed

lemma member_step:
  "p \<in> set (apply_member_overwrite u (channel_overwrites d c) perms) \<longleftrightarrow>
     first_verdict [overwrite_verdict (member_overwrite d c u) p] (p \<in> set perms)"
  by (auto simp: apply_member_overwrite_def member_overwrite_def overwrite_verdict_def
      first_verdict_Cons mem_apply_overwrite_verdict verdict_def split: option.split)

lemma resolve_channel_cases:
  assumes "resolve_channel_permissions d c s u = Inr ps"
  shows "\<exists>base. resolve_member_permissions d s u = Inr base \<and>
    (if ''administrator'' \<in> set base then ps = base
     else (\<forall>p. p \<in> set ps \<longleftrightarrow> p \<noteq> ''administrator'' \<and>
                first_verdict (channel_verdicts d c s u p) (p \<in> set base)))"
proof -
  from assms obtain base where base: "resolve_member_permissions d s u = Inr base"
    by (auto simp: resolve_channel_permissions_def)
  show ?thesis
  proof (cases "''administrator'' \<in> set base \<or> channel_overwrites d c = []")
    case True
    with assms base show ?thesis
      by (auto simp: resolve_channel_permissions_def list_overwrites_query no_overwrites_no_verdict
          split: if_splits)
  next
    case False
    from assms base False obtain ids where ids: "get_member_role_ids d s u = Inr ids"
      and ps: "ps = filter (\<lambda>p. p \<noteq> ''administrator'') (apply_member_overwrite u (channel_overwrites d c)
        (apply_role_overwrites (everyone_id d s) ids (channel_overwrites d c)
          (apply_everyone_overwrite (everyone_id d s) (channel_overwrites d c) base)))"
      by (auto simp: resolve_channel_permissions_def list_overwrites_query list_roles_def
          everyone_id_def Let_def split: if_splits)
    have ids_set: "set ids = {i. (u, s, i) \<in> set (member_roles d)}"
      using get_member_role_ids_Inr [OF ids] by blast
    have "p \<in> set ps \<longleftrightarrow> p \<noteq> ''administrator'' \<and>
        first_verdict (channel_verdicts d c s u p) (p \<in> set base)" for p
      by (simp only: ps set_filter mem_Collect_eq member_step role_step [OF ids_set] everyone_step
          channel_verdicts_def first_verdict_Cons first_verdict_simps) blast
    with base False show ?thesis by auto
  qed
qed

lemma resolve_channel_ok:
  assumes "db_ok d" "resolve_member_permissions d s u = Inr base"
    "get_channel_row d c = Inr ch" "ch_space_id ch = Some s"
  shows "\<exists>ps. resolve_channel_permissions d c s u = Inr ps"
proof -
  obtain rs ids where rs: "list_roles d s = Inr rs" and ids: "get_member_role_ids d s u = Inr ids"
    using assms(1) by (simp add: list_roles_def get_member_role_ids_def)
  show ?thesis
    by (simp only: resolve_channel_permissions_def and_then_simps assms list_overwrites_query
        query_simps rs ids Let_def) simp
qed

text \<open>Does the channel let this member of its space do \<open>perm\<close>?\<close>

definition channel_allows :: "db \<Rightarrow> string \<Rightarrow> string \<Rightarrow> string \<Rightarrow> string \<Rightarrow> bool" where
  "channel_allows d c s u perm \<longleftrightarrow>
     db_ok d \<and> space_exists d s \<and>
     (owns_space d s u \<or>
      is_member d s u \<and>
      (''administrator'' \<in> granted d s u \<or>
       perm \<noteq> ''administrator'' \<and> first_verdict (channel_verdicts d c s u perm) (perm \<in> granted d s u)))"

lemma resolve_channel_has_permission:
  assumes "resolve_channel_permissions d c s u = Inr ps"
  shows "has_permission ps perm \<longleftrightarrow> channel_allows d c s u perm"
proof -
  from resolve_channel_cases [OF assms] obtain base where
    base: "resolve_member_permissions_inner d s u False = Inr base" and
    layers: "if ''administrator'' \<in> set base then ps = base
      else (\<forall>p. p \<in> set ps \<longleftrightarrow> p \<noteq> ''administrator'' \<and>
             first_verdict (channel_verdicts d c s u p) (p \<in> set base))"
    by (auto simp: resolve_member_permissions_def)
  show ?thesis
  proof (cases "owns_space d s u")
    case True
    with resolve_member_cases [OF base] layers show ?thesis
      by (simp add: channel_allows_def has_permission_iff)
  next
    case False
    with resolve_member_cases [OF base] layers show ?thesis
      by (cases "''administrator'' \<in> granted d s u") (simp_all add: channel_allows_def has_permission_iff)
  qed
qed

lemma resolve_channel_allowed:
  assumes "channel_allows d c s u perm" "get_channel_row d c = Inr ch" "ch_space_id ch = Some s"
  shows "\<exists>ps. resolve_channel_permissions d c s u = Inr ps"
proof -
  from assms(1) have "db_ok d" by (simp add: channel_allows_def)
  moreover from assms(1) obtain base where "resolve_member_permissions d s u = Inr base"
    using resolve_member_ok [of d s u] by (auto simp: channel_allows_def resolve_member_permissions_def)
  ultimately show ?thesis using resolve_channel_ok assms by blast
qed

text \<open>May this caller do \<open>perm\<close> in the channel, and in which space?\<close>

definition channel_permitted :: "db \<Rightarrow> ChannelRow \<Rightarrow> AuthUser \<Rightarrow> string \<Rightarrow> string \<Rightarrow> bool" where
  "channel_permitted d ch auth perm r \<longleftrightarrow>
     (let dm = ch_type ch = ''dm'' \<or> ch_type ch = ''group_dm'' in
      if au_is_guest auth
      then \<not> dm \<and> ch_space_id ch = Some r \<and> au_guest_space_id auth = Some r \<and>
           ch_allow_anonymous_read ch \<and> perm \<in> {''view_channel'', ''read_history''}
      else if dm then (ch_id ch, au_user_id auth) \<in> set (dm_participants d) \<and> r = []
      else ch_space_id ch = Some r \<and>
           (au_is_admin auth \<or>
            channel_allows d (ch_id ch) r (au_user_id auth) ''view_channel'' \<and>
            channel_allows d (ch_id ch) r (au_user_id auth) perm))"

lemma require_channel_permission_permitted:
  assumes row: "get_channel_row d c = Inr ch"
  shows "require_channel_permission d c auth perm = Inr r \<longleftrightarrow> channel_permitted d ch auth perm r"
proof -
  from row have c: "ch_id ch = c" and db: "db_ok d" by (auto dest: get_channel_row_Inr)
  have participant: "is_participant d c u = Inr ((c, u) \<in> set (dm_participants d))" for u
    using db by (auto simp: is_participant_def filter_empty_conv)
  consider (guest) "au_is_guest auth" | (dm) "\<not> au_is_guest auth" "is_dm_channel (ch_type ch)"
    | (admin) "\<not> au_is_guest auth" "\<not> is_dm_channel (ch_type ch)" "au_is_admin auth"
    | (member) "\<not> au_is_guest auth" "\<not> is_dm_channel (ch_type ch)" "\<not> au_is_admin auth"
    by blast
  then show ?thesis
  proof cases
    case guest
    with row show ?thesis
      by (auto simp: require_channel_permission_def is_dm_channel_def GUEST_PERMISSIONS_def
          channel_permitted_def split: if_splits)
  next
    case dm
    with row c show ?thesis
      by (auto simp: require_channel_permission_def require_dm_access_def participant
          is_dm_channel_def channel_permitted_def split: if_splits)
  next
    case admin
    with row show ?thesis
      by (auto simp: require_channel_permission_def is_dm_channel_def channel_permitted_def
          split: if_splits)
  next
    case member
    then have "require_channel_permission d c auth perm = Inr r \<longleftrightarrow> ch_space_id ch = Some r \<and>
      (\<exists>ps. resolve_channel_permissions d c r (au_user_id auth) = Inr ps \<and>
            has_permission ps ''view_channel'' \<and> has_permission ps perm)"
      using row by (auto simp: require_channel_permission_def split: if_splits)
    then have "require_channel_permission d c auth perm = Inr r \<longleftrightarrow> ch_space_id ch = Some r \<and>
        channel_allows d c r (au_user_id auth) ''view_channel'' \<and>
        channel_allows d c r (au_user_id auth) perm"
      using resolve_channel_has_permission resolve_channel_allowed [OF _ row] by blast
    with member c show ?thesis by (auto simp: is_dm_channel_def channel_permitted_def)
  qed
qed

lemma require_channel_permission_unknown:
  "get_channel_row d c = Inl e \<Longrightarrow> require_channel_permission d c auth perm = Inl e"
  by (simp add: require_channel_permission_def)

text \<open>C2.  \<open>require_channel_permission\<close> decides exactly by this policy, for every caller, channel and
  permission.  A guest may only read, in a channel of its own space published for anonymous reading,
  never in a direct message; a direct message is open to its participants only, instance admins
  included; in a space channel an instance admin passes, and anybody else needs \<open>view_channel\<close> as
  well as the permission itself, each decided by the most specific overwrite that speaks about it.
  The result is the channel's space (empty for a direct message).\<close>

theorem require_channel_permission_iff:
  "require_channel_permission d c auth perm = Inr r \<longleftrightarrow>
     db_ok d \<and>
     (case find (\<lambda>ch. ch_id ch = c) (channels d) of
        None \<Rightarrow> False
      | Some ch \<Rightarrow>
          let dm = ch_type ch = ''dm'' \<or> ch_type ch = ''group_dm'' in
          if au_is_guest auth
          then \<not> dm \<and> ch_space_id ch = Some r \<and> au_guest_space_id auth = Some r \<and>
               ch_allow_anonymous_read ch \<and> perm \<in> {''view_channel'', ''read_history''}
          else if dm then (c, au_user_id auth) \<in> set (dm_participants d) \<and> r = []
          else ch_space_id ch = Some r \<and>
               (au_is_admin auth \<or>
                channel_allows d c r (au_user_id auth) ''view_channel'' \<and>
                channel_allows d c r (au_user_id auth) perm))"
proof (cases "get_channel_row d c")
  case (Inl e)
  then show ?thesis
    by (auto simp: require_channel_permission_unknown get_channel_row_def split: option.split)
next
  case (Inr ch)
  then have "find (\<lambda>ch. ch_id ch = c) (channels d) = Some ch" "db_ok d" "ch_id ch = c"
    by (auto simp: get_channel_row_def dest: find_SomeD)
  then show ?thesis
    unfolding require_channel_permission_permitted [OF Inr] channel_permitted_def by simp
qed

text \<open>Channel overwrites never make an administrator: whatever they say, \<open>administrator\<close> is among
  the permissions of a user in a channel exactly when the space grants it.\<close>

theorem overwrites_never_make_administrator:
  assumes "resolve_channel_permissions d c s u = Inr ps"
    and "resolve_member_permissions d s u = Inr base"
  shows "''administrator'' \<in> set ps \<longleftrightarrow> ''administrator'' \<in> set base"
  using resolve_channel_cases [OF assms(1)] assms(2) by (auto split: if_splits)

definition overwritten_db :: db where
  "overwritten_db = a_db
     \<lparr>permission_overwrites :=
        [\<lparr>owr_channel_id = ''c'', owr_id = ''all'', owr_type = ''role'',
          owr_allow = JsonStrings [''administrator''], owr_deny = JsonStrings [''send_messages'']\<rparr>,
         \<lparr>owr_channel_id = ''c'', owr_id = ''helper'', owr_type = ''role'',
          owr_allow = JsonStrings [''send_messages'', ''administrator''], owr_deny = JsonStrings []\<rparr>,
         \<lparr>owr_channel_id = ''c'', owr_id = ''mem'', owr_type = ''member'',
          owr_allow = JsonStrings [''administrator''], owr_deny = JsonStrings [''view_channel'']\<rparr>]\<rparr>"

theorem overwrites_never_make_administrator_witness:
  "resolve_channel_permissions overwritten_db ''c'' ''s'' ''mem'' = Inr [''send_messages''] \<and>
   (''administrator'' \<in> set [''send_messages''] \<longleftrightarrow>
    ''administrator'' \<in> set [''view_channel'', ''send_messages''])"
proof -
  have channel: "resolve_channel_permissions overwritten_db ''c'' ''s'' ''mem'' = Inr [''send_messages'']"
    by code_simp
  have base: "resolve_member_permissions overwritten_db ''s'' ''mem'' = Inr [''view_channel'', ''send_messages'']"
    by code_simp
  from channel overwrites_never_make_administrator [OF channel base] show ?thesis by (rule conjI)
qed

text \<open>The read policy: a channel of the database is readable without credentials only when it is
  published for anonymous reading in a public space; by a guest only when it is published for
  anonymous reading in the guest's own space and that space still admits guests; and by anybody
  else exactly when the channel policy grants them \<open>view_channel\<close>, and \<open>read_history\<close> when history
  is asked for.\<close>

theorem channel_read_access_iff:
  assumes "get_channel_row d (ch_id ch) = Inr ch"
  shows "require_channel_read_access d ch auth history = Inr () \<longleftrightarrow>
    (case auth of
       None \<Rightarrow> ch_allow_anonymous_read ch \<and>
         (\<exists>s sp. ch_space_id ch = Some s \<and> get_space_row d s = Inr sp \<and> sp_public sp)
     | Some a \<Rightarrow>
         (if au_is_guest a
          then \<not> is_dm_channel (ch_type ch) \<and> ch_allow_anonymous_read ch \<and>
            (\<exists>s sp. ch_space_id ch = Some s \<and> au_guest_space_id a = Some s \<and>
               get_space_row d s = Inr sp \<and> sp_allow_guest_access sp)
          else \<exists>r. channel_permitted d ch a ''view_channel'' r \<and>
                  (history \<longrightarrow> channel_permitted d ch a ''read_history'' r)))"
proof (cases auth)
  case None
  then show ?thesis
    by (auto simp: require_channel_read_access_def split: option.splits if_splits)
next
  case (Some a)
  note permitted = require_channel_permission_permitted [OF assms]
  have same_space: "r = r'"
    if "channel_permitted d ch a p r" "channel_permitted d ch a q r'" for p q r r'
    using that by (auto simp: channel_permitted_def Let_def split: if_splits)
  have decided: "require_channel_read_access d ch auth history = Inr () \<longleftrightarrow>
      (au_is_guest a \<longrightarrow> (\<exists>s sp. ch_space_id ch = Some s \<and> get_space_row d s = Inr sp \<and>
         sp_allow_guest_access sp)) \<and>
      (\<exists>r. channel_permitted d ch a ''view_channel'' r) \<and>
      (history \<longrightarrow> (\<exists>r. channel_permitted d ch a ''read_history'' r))"
    using Some by (auto simp: require_channel_read_access_def permitted split: if_splits)
  show ?thesis
  proof (cases "au_is_guest a")
    case True
    then have "channel_permitted d ch a p r \<longleftrightarrow> \<not> is_dm_channel (ch_type ch) \<and> ch_space_id ch = Some r \<and>
        au_guest_space_id a = Some r \<and> ch_allow_anonymous_read ch"
      if "p \<in> {''view_channel'', ''read_history''}" for p r
      using that by (auto simp: channel_permitted_def is_dm_channel_def)
    with True Some decided show ?thesis by auto
  next
    case False
    with Some decided same_space show ?thesis by auto metis+
  qed
qed

theorem channel_read_access_witness:
  "require_channel_read_access a_db (a_channel ''c'' (Some ''s'') ''text'') (Some (plain_user ''mem'')) False = Inr () \<and>
   \<not> require_channel_read_access a_db (a_channel ''c'' (Some ''s'') ''text'') None False = Inr ()"
proof -
  have row: "get_channel_row a_db (ch_id (a_channel ''c'' (Some ''s'') ''text'')) =
      Inr (a_channel ''c'' (Some ''s'') ''text'')"
    by code_simp
  have "require_channel_read_access a_db (a_channel ''c'' (Some ''s'') ''text'') (Some (plain_user ''mem'')) False = Inr ()"
    by code_simp
  with channel_read_access_iff [OF row, of None False] show ?thesis
    by (simp add: a_channel_def)
qed

section \<open>Facts about slow mode and the hierarchy\<close>

text \<open>Slow mode: a cooldown is between 0 and six hours whatever the stored rate limit, and it is
  waived exactly for instance admins and for those the channel allows to manage messages or
  channels.\<close>

theorem slowmode_bounds:
  assumes "slowmode_cooldown_ms d ch auth = Inr ms"
  shows "0 \<le> ms \<and> ms \<le> 21600000 \<and>
    (ms = 0 \<longleftrightarrow> ch_rate_limit ch \<le> 0 \<or> au_is_admin auth \<or>
       (\<exists>s. ch_space_id ch = Some s \<and>
          (channel_allows d (ch_id ch) s (au_user_id auth) ''manage_messages'' \<or>
           channel_allows d (ch_id ch) s (au_user_id auth) ''manage_channels''))) \<and>
    (ms \<noteq> 0 \<longrightarrow> ms = 1000 * min 21600 (ch_rate_limit ch))"
  using assms
  by (auto simp: slowmode_cooldown_ms_def Let_def resolve_channel_has_permission max_def min_def
      split: if_splits option.splits)

theorem slowmode_bounds_witness:
  "slowmode_cooldown_ms a_db ((a_channel ''c'' (Some ''s'') ''text'') \<lparr>ch_rate_limit := 99999\<rparr>)
     (plain_user ''mem'') = Inr 21600000 \<and> (21600000::int) \<le> 21600000"
proof -
  have r: "slowmode_cooldown_ms a_db ((a_channel ''c'' (Some ''s'') ''text'') \<lparr>ch_rate_limit := 99999\<rparr>)
     (plain_user ''mem'') = Inr 21600000"
    by code_simp
  from r slowmode_bounds [OF r] show ?thesis by blast
qed

text \<open>The rank the hierarchy compares.\<close>

definition rank :: "db \<Rightarrow> string \<Rightarrow> string \<Rightarrow> int" where
  "rank d s u =
     (if owns_space d s u then I64_MAX
      else let ps = ro_position ` {r \<in> set (roles d). ro_space_id r = s \<and>
                      (u, s, ro_id r) \<in> set (member_roles d)}
           in if ps = {} then 0 else Max ps)"

lemma highest_role_position_eq:
  assumes "db_ok d" and "space_exists d s"
  shows "get_highest_role_position d s u = Inr (rank d s u)"
proof -
  from assms obtain sp where sp: "find (\<lambda>r. sp_id r = s) (spaces d) = Some sp"
    by (auto simp: space_exists_def)
  then have space: "get_space_row d s = Inr sp" using assms by (simp add: get_space_row_def)
  define ids where "ids = [r. (u', s', r) \<leftarrow> member_roles d, u' = u, s' = s]"
  have ids: "get_member_role_ids d s u = Inr ids" using assms by (simp add: get_member_role_ids_def ids_def)
  have set_ids: "set ids = {i. (u, s, i) \<in> set (member_roles d)}"
    using get_member_role_ids_Inr [OF ids] by simp
  define ps where "ps = map ro_position (filter (\<lambda>r. ro_id r \<in> set ids)
      (sort_key ro_position (filter (\<lambda>r. ro_space_id r = s) (roles d))))"
  have set_ps: "set ps = ro_position ` {r \<in> set (roles d). ro_space_id r = s \<and>
      (u, s, ro_id r) \<in> set (member_roles d)}"
    by (auto simp: ps_def set_ids)
  show ?thesis
  proof (cases "sp_owner_id sp = u")
    case True
    with space sp show ?thesis
      by (simp add: get_highest_role_position_def rank_def owns_space_def)
  next
    case False
    then have "rank d s u = (if ps = [] then 0 else Max (set ps))"
      by (simp add: rank_def owns_space_def sp flip: set_ps)
    moreover have "ps = []" if "ids = []" using that by (simp add: ps_def)
    moreover have "get_highest_role_position d s u =
        (if ids = [] then Inr 0 else Inr (if ps = [] then 0 else Max (set ps)))"
      using False assms
      by (simp add: get_highest_role_position_def space ids list_roles_def Let_def ps_def)
    ultimately show ?thesis by simp
  qed
qed

lemma highest_role_position:
  "get_highest_role_position d s u = Inr p \<longleftrightarrow> db_ok d \<and> space_exists d s \<and> p = rank d s u"
proof (cases "db_ok d \<and> space_exists d s")
  case True
  then show ?thesis using highest_role_position_eq by auto
next
  case False
  then show ?thesis
    by (auto simp: get_highest_role_position_def get_space_row_def space_exists_def)
qed

lemma require_hierarchy_iff:
  "require_hierarchy d s auth t = Inr () \<longleftrightarrow>
     au_is_admin auth \<or> (db_ok d \<and> space_exists d s \<and> rank d s t < rank d s (au_user_id auth))"
  by (auto simp: require_hierarchy_def highest_role_position split: if_splits)

lemma require_role_hierarchy_iff:
  "require_role_hierarchy d s u pos = Inr () \<longleftrightarrow>
     db_ok d \<and> space_exists d s \<and> pos < rank d s u"
  by (auto simp: require_role_hierarchy_def highest_role_position split: if_splits)

lemma rank_le_max:
  assumes "\<forall>r \<in> set (roles d). ro_position r \<le> I64_MAX"
  shows "rank d s u \<le> I64_MAX"
  using assms by (auto simp: rank_def Let_def I64_MAX_def)

text \<open>The hierarchy is a strict order below the owner (role positions are \<open>i64\<close>): among callers who
  are not instance admins, acting on somebody rules out being acted on by them, is transitive, and
  nobody acts on themselves or on the owner.\<close>

theorem hierarchy_strict_order:
  assumes "\<forall>r \<in> set (roles d). ro_position r \<le> I64_MAX"
    and "\<not> au_is_admin a" and "\<not> au_is_admin b"
    and "require_hierarchy d s a (au_user_id b) = Inr ()"
  shows "require_hierarchy d s b (au_user_id a) \<noteq> Inr () \<and>
    (require_hierarchy d s b t = Inr () \<longrightarrow> require_hierarchy d s a t = Inr ()) \<and>
    au_user_id a \<noteq> au_user_id b \<and> \<not> owns_space d s (au_user_id b)"
proof -
  have "\<not> owns_space d s (au_user_id b)"
    using assms rank_le_max [OF assms(1), of s "au_user_id a"]
    by (auto simp: require_hierarchy_iff rank_def [of d s "au_user_id b"])
  with assms show ?thesis by (auto simp: require_hierarchy_iff)
qed

theorem hierarchy_strict_order_witness:
  "require_hierarchy a_db ''s'' (plain_user ''mod'') ''mem'' = Inr () \<and>
   require_hierarchy a_db ''s'' (plain_user ''mem'') ''mod'' \<noteq> Inr () \<and>
   \<not> owns_space a_db ''s'' ''mem''"
proof -
  have h: "require_hierarchy a_db ''s'' (plain_user ''mod'') (au_user_id (plain_user ''mem'')) = Inr ()"
    by code_simp
  have "\<forall>r \<in> set (roles a_db). ro_position r \<le> I64_MAX"
    by (simp add: sample_defs I64_MAX_def)
  then show ?thesis
    using h hierarchy_strict_order [OF _ _ _ h] by (simp add: plain_user_def)
qed

text \<open>The checks fail closed: while the database does not answer, only the bypasses of instance
  admins and a guest reading its own space pass; no channel, membership or role check does.\<close>

theorem checks_fail_closed:
  assumes "\<not> db_ok d"
  shows "(require_permission d s auth perm = Inr () \<longrightarrow>
      au_is_admin auth \<or> au_is_guest auth \<and> perm \<in> {''view_channel'', ''read_history''}) \<and>
    \<not> is_ok (require_channel_permission d c auth perm) \<and>
    \<not> is_ok (require_membership d s u) \<and>
    \<not> is_ok (require_channel_membership d c u) \<and>
    (require_hierarchy d s auth t = Inr () \<longrightarrow> au_is_admin auth) \<and>
    \<not> is_ok (require_role_hierarchy d s u pos) \<and>
    (require_not_timed_out chr d s auth = Inr () \<longrightarrow> au_is_admin auth) \<and>
    \<not> is_ok (require_channel_read_access d ch (Some auth) history) \<and>
    \<not> is_ok (require_channel_read_access d ch None history)"
proof -
  have row: "get_channel_row d c = Inl (Database (DriverError ''unavailable''))" for c
    using assms by (simp add: get_channel_row_def)
  have space: "get_space_row d s = Inl (Database (DriverError ''unavailable''))" for s
    using assms by (simp add: get_space_row_def)
  have member: "get_member_row d s u = Inl (Database (DriverError ''unavailable''))" for s u
    using assms by (simp add: get_member_row_def)
  have channel: "\<not> is_ok (require_channel_permission d c auth perm)" for c auth perm
    by (simp add: require_channel_permission_unknown [OF row])
  have "\<not> is_ok (require_channel_read_access d ch auth history)" for auth
    using channel
    by (auto simp: require_channel_read_access_def is_ok_iff space split: option.splits if_splits)
  moreover have "require_not_timed_out chr d s auth = Inr () \<longrightarrow> au_is_admin auth"
    by (simp add: require_not_timed_out_def member)
  moreover have "\<not> is_ok (require_membership d s u)" "\<not> is_ok (require_role_hierarchy d s u pos)"
    using assms by (simp_all add: is_ok_iff require_membership_iff require_role_hierarchy_iff space_allows_def)
  ultimately show ?thesis
    using assms channel
    by (auto simp: require_permission_permitted permitted_def space_allows_def require_hierarchy_iff
        require_channel_membership_def)
qed

theorem checks_fail_closed_witness:
  "\<not> is_ok (require_channel_permission (a_db \<lparr>db_ok := False\<rparr>) ''c'' (plain_user ''own'') ''view_channel'')"
  using checks_fail_closed [of "a_db \<lparr>db_ok := False\<rparr>"] by simp

text \<open>A timeout in force stops anybody but an instance admin.\<close>

lemma timed_out_refused:
  "require_not_timed_out chr d s auth = Inr () \<Longrightarrow> \<not> au_is_admin auth \<Longrightarrow>
   get_member_row d s (au_user_id auth) = Inr m \<Longrightarrow>
   parse_from_rfc3339 chr ts = Some t \<Longrightarrow> mb_timed_out_until m = Some ts \<Longrightarrow> t \<le> utc_now chr"
  by (auto simp: require_not_timed_out_def is_timed_out_def split: if_splits)

end
