(* ===== verification/AppState.thy ===== *)
theory AppState
  imports Permissions
begin

text \<open>
  The shared state of the server: \<open>AppState\<close> of \<open>Server/src/state.rs\<close> with the values it holds
  (\<open>models/voice.rs\<close>, \<open>models/presence.rs\<close>, \<open>gateway/events.rs\<close>, \<open>gateway/session.rs\<close>,
  \<open>gateway/resume.rs\<close>) and the registries of \<open>voice/state.rs\<close> and \<open>presence.rs\<close>.

  What the server sends is recorded in the order it is sent: \<open>outbox\<close> holds the messages put on the
  gateway's broadcast channel and \<open>lk_log\<close> the requests made to LiveKit.  A task the code spawns
  is recorded where it is spawned.  \<open>gateway_tx\<close> and the dispatcher are taken as present.
\<close>

section \<open>Values\<close>

record VoiceState =
  vs_user_id :: string
  vs_space_id :: "string option"
  vs_channel_id :: "string option"
  vs_session_id :: string
  vs_deaf :: bool
  vs_mute :: bool
  vs_self_deaf :: bool
  vs_self_mute :: bool
  vs_self_stream :: bool
  vs_self_video :: bool
  vs_suppress :: bool

record ClientStatus =
  cs_desktop :: "string option"
  cs_mobile :: "string option"
  cs_web :: "string option"

record Presence =
  pr_user_id :: string
  pr_status :: string
  pr_client_status :: ClientStatus
  pr_activities :: "json list"
  pr_space_id :: "string option"

record GatewayBroadcast =
  gb_space_id :: "string option"
  gb_target_user_ids :: "string list option"
  gb_event :: json
  gb_intent :: string
  gb_required_permission :: "string option"

record GatewaySession =
  gs_session_id :: string
  gs_user_id :: string
  gs_intents :: "string list"
  gs_space_ids :: "string list"
  gs_sequence :: nat

text \<open>The registry entry of a dropped session; the channel to the task behind it is implicit.\<close>

record ParkedSession =
  ps_user_id :: string
  ps_intents :: "string list"

datatype lk_call =
    RemoveParticipant string string       \<comment> \<open>channel, user\<close>
  | DeleteRoomIfEmpty string
  | EnsureRoom string
  | UpdateParticipant string string "nat list"

record VideoGrants =
  vg_room_join :: bool
  vg_room :: string
  vg_can_publish :: bool
  vg_can_publish_sources :: "string list"
  vg_can_subscribe :: bool
  vg_can_publish_data :: bool

text \<open>
  The LiveKit client.  What the service answers may depend on everything asked so far: whether a
  participant is removed (or was not there), whether its permissions are updated, and the error of
  a room that cannot be created.  \<open>lk_to_jwt\<close> signs an access token for an identity and a name.
\<close>

record livekit =
  lk_external_url :: string
  lk_removes :: "lk_call list \<Rightarrow> string \<Rightarrow> string \<Rightarrow> bool"
  lk_updates :: "lk_call list \<Rightarrow> string \<Rightarrow> string \<Rightarrow> bool"
  lk_ensures :: "lk_call list \<Rightarrow> string \<Rightarrow> string + unit"
  lk_to_jwt :: "string \<Rightarrow> string \<Rightarrow> VideoGrants \<Rightarrow> string + string"

text \<open>\<open>LoginFailureTracker\<close>, \<open>TotpAttemptTracker\<close>, \<open>RegisterAttemptTracker\<close> and \<open>GuestAttemptTracker\<close>:
  what was counted since the window began, on a clock in milliseconds.\<close>

record AttemptTracker =
  tk_count :: nat
  tk_window_start :: nat

record MfaTicket =
  mt_user_id :: string
  mt_expires_at :: int

record app =
  ap_db :: db
  voice_states :: "(string, VoiceState) hmap"
  presences :: "(string, Presence) hmap"
  sessions :: "(string, GatewaySession) hmap"
  resumable_sessions :: "(string, ParkedSession) hmap"
  guest_counts :: "(string, nat) hmap"
  outbox :: "GatewayBroadcast list"
  lk_log :: "lk_call list"
  test_mode :: bool
  livekit_client :: "livekit option"
  voice_cleanup :: bool                    \<comment> \<open>another task holds the cleanup lock\<close>
  federation_domain :: "string option"     \<comment> \<open>this server's domain, when it federates\<close>
  unfurl_jobs :: "(string \<times> string option \<times> string) list"
      \<comment> \<open>link previews spawned: message, space, content\<close>
  settings :: ServerSettings
  mfa_tickets :: "(string, MfaTicket) hmap"            \<comment> \<open>by hash\<close>
  login_failures :: "(string, AttemptTracker) hmap"
  totp_attempts :: "(string, AttemptTracker) hmap"
  register_attempts :: "(string, AttemptTracker) hmap"
  guest_attempts :: "(string, AttemptTracker) hmap"
  totp_key :: "string option"

definition send :: "GatewayBroadcast \<Rightarrow> app \<Rightarrow> app" where
  "send b s = s\<lparr>outbox := outbox s @ [b]\<rparr>"

definition log_lk :: "lk_call \<Rightarrow> app \<Rightarrow> app" where
  "log_lk c s = s\<lparr>lk_log := lk_log s @ [c]\<rparr>"

text \<open>A statement run on the database of the application.\<close>

definition on_db :: "(db \<Rightarrow> db \<times> (AppError + 'a)) \<Rightarrow> app \<Rightarrow> app \<times> (AppError + 'a)" where
  "on_db f s = (let r = f (ap_db s) in (s\<lparr>ap_db := fst r\<rparr>, snd r))"

text \<open>What holds of the tables at every step of a handler holds when it ends.\<close>

lemma keep_try_in:
  "I (ap_db s) \<Longrightarrow> (\<And>x. m = Inr x \<Longrightarrow> I (ap_db (fst (k x)))) \<Longrightarrow> I (ap_db (fst (try_in s m k)))"
  by (cases m) auto

lemma keep_try_run:
  "I (ap_db (fst p)) \<Longrightarrow> (\<And>t x. I (ap_db t) \<Longrightarrow> I (ap_db (fst (k t x)))) \<Longrightarrow> I (ap_db (fst (try_run p k)))"
  by (cases "snd p") (auto simp: try_run_def)

lemma keep_on_db: "I (fst (f (ap_db s))) \<Longrightarrow> I (ap_db (fst (on_db f s)))"
  by (simp add: on_db_def Let_def)

lemma send_simps [simp]:
  "ap_db (send b s) = ap_db s" "voice_states (send b s) = voice_states s"
  "presences (send b s) = presences s" "sessions (send b s) = sessions s"
  "resumable_sessions (send b s) = resumable_sessions s" "guest_counts (send b s) = guest_counts s"
  "outbox (send b s) = outbox s @ [b]" "lk_log (send b s) = lk_log s"
  "test_mode (send b s) = test_mode s" "livekit_client (send b s) = livekit_client s"
  "voice_cleanup (send b s) = voice_cleanup s" "federation_domain (send b s) = federation_domain s"
  "unfurl_jobs (send b s) = unfurl_jobs s" "settings (send b s) = settings s" "mfa_tickets (send b s) = mfa_tickets s" "login_failures (send b s) = login_failures s"
  "totp_attempts (send b s) = totp_attempts s" "register_attempts (send b s) = register_attempts s"
  "guest_attempts (send b s) = guest_attempts s" "totp_key (send b s) = totp_key s"
  by (simp_all add: send_def)

lemma log_lk_simps [simp]:
  "ap_db (log_lk c s) = ap_db s" "voice_states (log_lk c s) = voice_states s"
  "presences (log_lk c s) = presences s" "sessions (log_lk c s) = sessions s"
  "resumable_sessions (log_lk c s) = resumable_sessions s" "guest_counts (log_lk c s) = guest_counts s"
  "outbox (log_lk c s) = outbox s" "lk_log (log_lk c s) = lk_log s @ [c]"
  "test_mode (log_lk c s) = test_mode s" "livekit_client (log_lk c s) = livekit_client s"
  "voice_cleanup (log_lk c s) = voice_cleanup s" "federation_domain (log_lk c s) = federation_domain s"
  "unfurl_jobs (log_lk c s) = unfurl_jobs s" "settings (log_lk c s) = settings s" "mfa_tickets (log_lk c s) = mfa_tickets s" "login_failures (log_lk c s) = login_failures s"
  "totp_attempts (log_lk c s) = totp_attempts s" "register_attempts (log_lk c s) = register_attempts s"
  "guest_attempts (log_lk c s) = guest_attempts s" "totp_key (log_lk c s) = totp_key s"
  by (simp_all add: log_lk_def)

section \<open>Voice states\<close>

definition join_voice_channel ::
    "app \<Rightarrow> string \<Rightarrow> string option \<Rightarrow> string \<Rightarrow> string \<Rightarrow> bool \<Rightarrow> bool \<Rightarrow> bool \<Rightarrow> bool \<Rightarrow>
     app \<times> VoiceState \<times> string option" where
  "join_voice_channel s user_id space_id channel_id session_id self_mute self_deaf self_video self_stream =
     (let previous_channel = Option.bind (hm_get (voice_states s) user_id) vs_channel_id;
          voice_state =
            \<lparr>vs_user_id = user_id, vs_space_id = space_id, vs_channel_id = Some channel_id,
             vs_session_id = session_id, vs_deaf = False, vs_mute = False, vs_self_deaf = self_deaf,
             vs_self_mute = self_mute, vs_self_stream = self_stream, vs_self_video = self_video,
             vs_suppress = False\<rparr>
      in (s\<lparr>voice_states := hm_insert user_id voice_state (voice_states s)\<rparr>, voice_state, previous_channel))"

definition update_voice_state ::
    "app \<Rightarrow> string \<Rightarrow> bool \<Rightarrow> bool \<Rightarrow> bool \<Rightarrow> bool \<Rightarrow> app \<times> VoiceState option" where
  "update_voice_state s user_id self_mute self_deaf self_video self_stream =
     (case hm_get (voice_states s) user_id of
        None \<Rightarrow> (s, None)
      | Some vs \<Rightarrow>
          let vs' = vs\<lparr>vs_self_mute := self_mute, vs_self_deaf := self_deaf,
                       vs_self_video := self_video, vs_self_stream := self_stream\<rparr>
          in (s\<lparr>voice_states := hm_insert user_id vs' (voice_states s)\<rparr>, Some vs'))"

definition take_membership ::
    "(string, VoiceState) hmap \<Rightarrow> string \<Rightarrow> string option \<Rightarrow>
     (string, VoiceState) hmap \<times> VoiceState option" where
  "take_membership states user_id only_if_channel =
     (case only_if_channel of
        Some channel_id \<Rightarrow>
          (case hm_get states user_id of
             Some vs \<Rightarrow> if vs_channel_id vs = Some channel_id
                        then (hm_remove user_id states, Some vs) else (states, None)
           | None \<Rightarrow> (states, None))
      | None \<Rightarrow> (hm_remove user_id states, hm_get states user_id))"

definition leave_voice_channel :: "app \<Rightarrow> string \<Rightarrow> app \<times> VoiceState option" where
  "leave_voice_channel s user_id =
     (let (states, old) = take_membership (voice_states s) user_id None
      in (s\<lparr>voice_states := states\<rparr>, old))"

definition leave_voice_channel_if_current :: "app \<Rightarrow> string \<Rightarrow> string \<Rightarrow> app \<times> VoiceState option" where
  "leave_voice_channel_if_current s user_id channel_id =
     (let (states, old) = take_membership (voice_states s) user_id (Some channel_id)
      in (s\<lparr>voice_states := states\<rparr>, old))"

definition get_channel_voice_states :: "app \<Rightarrow> string \<Rightarrow> VoiceState list" where
  "get_channel_voice_states s channel_id =
     filter (\<lambda>vs. vs_channel_id vs = Some channel_id) (hm_values (voice_states s))"

definition get_space_voice_states :: "app \<Rightarrow> string \<Rightarrow> VoiceState list" where
  "get_space_voice_states s space_id =
     filter (\<lambda>vs. vs_space_id vs = Some space_id) (hm_values (voice_states s))"

definition get_user_voice_state :: "app \<Rightarrow> string \<Rightarrow> VoiceState option" where
  "get_user_voice_state s user_id = hm_get (voice_states s) user_id"

text \<open>The registry of voice states: every entry is filed under its own user and names a channel.\<close>

definition voice_wf :: "app \<Rightarrow> bool" where
  "voice_wf s \<longleftrightarrow> hm_wf (voice_states s) \<and>
     (\<forall>u vs. hm_get (voice_states s) u = Some vs \<longrightarrow> vs_user_id vs = u \<and> vs_channel_id vs \<noteq> None)"

lemma voice_wf_cong: "voice_states s = voice_states t \<Longrightarrow> voice_wf s = voice_wf t"
  by (simp add: voice_wf_def)

lemma voice_wf_join: "voice_wf s \<Longrightarrow> voice_wf (fst (join_voice_channel s u sp c sid m d v t))"
  by (auto simp: voice_wf_def join_voice_channel_def Let_def)

lemma voice_wf_update: "voice_wf s \<Longrightarrow> voice_wf (fst (update_voice_state s u m d v t))"
  by (auto simp: voice_wf_def update_voice_state_def Let_def split: option.split)

lemma voice_wf_leave: "voice_wf s \<Longrightarrow> voice_wf (fst (leave_voice_channel s u))"
  by (auto simp: voice_wf_def leave_voice_channel_def take_membership_def)

lemma voice_wf_leave_if: "voice_wf s \<Longrightarrow> voice_wf (fst (leave_voice_channel_if_current s u c))"
  by (auto simp: voice_wf_def leave_voice_channel_if_current_def take_membership_def
      split: option.split)

section \<open>Presence\<close>

definition set_presence :: "app \<Rightarrow> string \<Rightarrow> string \<Rightarrow> json list \<Rightarrow> app \<times> Presence option" where
  "set_presence s user_id new_status activities =
     (s\<lparr>presences := hm_insert user_id
          \<lparr>pr_user_id = user_id, pr_status = new_status,
           pr_client_status = \<lparr>cs_desktop = Some new_status, cs_mobile = None, cs_web = None\<rparr>,
           pr_activities = activities, pr_space_id = None\<rparr> (presences s)\<rparr>,
      hm_get (presences s) user_id)"

definition remove_presence :: "app \<Rightarrow> string \<Rightarrow> app \<times> Presence option" where
  "remove_presence s user_id =
     (s\<lparr>presences := hm_remove user_id (presences s)\<rparr>, hm_get (presences s) user_id)"

definition get_user_presence :: "app \<Rightarrow> string \<Rightarrow> Presence option" where
  "get_user_presence s user_id = hm_get (presences s) user_id"

definition get_space_presences :: "app \<Rightarrow> string list \<Rightarrow> Presence list" where
  "get_space_presences s member_ids =
     map snd (filter (\<lambda>(k, p). k \<in> set member_ids) (presences s))"

definition user_has_other_sessions :: "app \<Rightarrow> string \<Rightarrow> string \<Rightarrow> bool" where
  "user_has_other_sessions s user_id exclude_session_id =
     list_ex (\<lambda>g. gs_user_id g = user_id \<and> gs_session_id g \<noteq> exclude_session_id) (hm_values (sessions s))"

section \<open>The dispatcher\<close>

definition register_session :: "GatewaySession \<Rightarrow> app \<Rightarrow> app" where
  "register_session g s = s\<lparr>sessions := hm_insert (gs_session_id g) g (sessions s)\<rparr>"

definition remove_session :: "string \<Rightarrow> app \<Rightarrow> app" where
  "remove_session session_id s = s\<lparr>sessions := hm_remove session_id (sessions s)\<rparr>"

text \<open>A leave that arrives late changes nothing: once a user has joined another channel, leaving
  the previous one keeps the new membership, and leaving the new one removes exactly that user's
  entry.\<close>

theorem delayed_leave_keeps_new_channel:
  "c \<noteq> c' \<Longrightarrow>
   let s' = fst (join_voice_channel s u sp c' sid m d v t) in
   leave_voice_channel_if_current s' u c = (s', None) \<and>
   (let (s'', old) = leave_voice_channel_if_current s' u c' in
      Option.bind old vs_channel_id = Some c' \<and>
      (\<forall>u'. hm_get (voice_states s'') u' = (if u' = u then None else hm_get (voice_states s) u')))"
  by (simp add: join_voice_channel_def leave_voice_channel_if_current_def take_membership_def Let_def)

definition an_app :: app where
  "an_app = \<lparr>ap_db = a_db, voice_states = [], presences = [], sessions = [], resumable_sessions = [],
     guest_counts = [], outbox = [], lk_log = [], test_mode = True, livekit_client = None,
     voice_cleanup = False, federation_domain = None, unfurl_jobs = [], settings = default_settings,
     mfa_tickets = [], login_failures = [], totp_attempts = [], register_attempts = [], guest_attempts = [],
     totp_key = None\<rparr>"

theorem delayed_leave_keeps_new_channel_witness:
  "let s' = fst (join_voice_channel an_app ''mem'' (Some ''s'') ''b'' ''1'' False False False False) in
   leave_voice_channel_if_current s' ''mem'' ''a'' = (s', None)"
  using delayed_leave_keeps_new_channel
    [of "''a''" "''b''" an_app "''mem''" "Some ''s''" "''1''" False False False False]
  by (simp add: Let_def)

end
