(* ===== verification/Voice.thy ===== *)
theory Voice
  imports AppState
begin

text \<open>
  Voice: the handlers of \<open>Server/src/routes/voice.rs\<close>, the grants of \<open>Server/src/voice/livekit.rs\<close>
  and the revocation of voice access in \<open>Server/src/security.rs\<close>.

  \<open>chr\<close> is the clock and date parser, \<open>new_id\<close> the snowflake a handler draws.
\<close>

section \<open>Broadcasts\<close>

definition voice_state_json :: "VoiceState \<Rightarrow> json" where
  "voice_state_json vs = JObj
     [(''user_id'', JStr (vs_user_id vs)), (''space_id'', jstr_opt (vs_space_id vs)),
      (''channel_id'', jstr_opt (vs_channel_id vs)), (''session_id'', JStr (vs_session_id vs)),
      (''deaf'', JBool (vs_deaf vs)), (''mute'', JBool (vs_mute vs)),
      (''self_deaf'', JBool (vs_self_deaf vs)), (''self_mute'', JBool (vs_self_mute vs)),
      (''self_stream'', JBool (vs_self_stream vs)), (''self_video'', JBool (vs_self_video vs)),
      (''suppress'', JBool (vs_suppress vs))]"

definition or_default :: "'e + 'a list \<Rightarrow> 'a list" where
  "or_default r = (case r of Inl _ \<Rightarrow> [] | Inr xs \<Rightarrow> xs)"

definition broadcast_voice_state_update :: "app \<Rightarrow> string \<Rightarrow> string option \<Rightarrow> VoiceState \<Rightarrow> app" where
  "broadcast_voice_state_update s channel_id space_id vs =
     (let event = JObj [(''op'', JNum 0), (''type'', JStr ''voice.state_update''),
                        (''data'', voice_state_json vs)];
          (space, targets) =
            (case space_id of
               Some sid \<Rightarrow> (Some sid, None)
             | None \<Rightarrow> (None, Some (or_default (list_participant_ids (ap_db s) channel_id))))
      in send \<lparr>gb_space_id = space, gb_target_user_ids = targets, gb_event = event,
               gb_intent = ''voice_states'', gb_required_permission = None\<rparr> s)"

definition broadcast_call_event :: "app \<Rightarrow> string \<Rightarrow> string \<Rightarrow> json \<Rightarrow> app" where
  "broadcast_call_event s channel_id event_type data =
     (let participant_ids = or_default (list_participant_ids (ap_db s) channel_id) in
      if participant_ids = [] then s
      else send \<lparr>gb_space_id = None, gb_target_user_ids = Some participant_ids,
                 gb_event = JObj [(''op'', JNum 0), (''type'', JStr event_type), (''data'', data)],
                 gb_intent = ''voice_states'', gb_required_permission = None\<rparr> s)"

definition call_user_json :: "string \<Rightarrow> string \<Rightarrow> json" where
  "call_user_json channel_id user_id =
     JObj [(''channel_id'', JStr channel_id), (''user_id'', JStr user_id)]"

text \<open>The departure announced for a membership that ended.\<close>

definition left_state :: "string \<Rightarrow> VoiceState \<Rightarrow> string \<Rightarrow> VoiceState" where
  "left_state user_id old session_id =
     \<lparr>vs_user_id = user_id, vs_space_id = vs_space_id old, vs_channel_id = None,
      vs_session_id = session_id, vs_deaf = False, vs_mute = False, vs_self_deaf = False,
      vs_self_mute = False, vs_self_stream = False, vs_self_video = False, vs_suppress = False\<rparr>"

section \<open>LiveKit grants\<close>

definition publishing_permissions :: "chrono \<Rightarrow> db \<Rightarrow> string \<Rightarrow> AuthUser \<Rightarrow> bool \<times> bool" where
  "publishing_permissions chr d channel_id auth =
     (let speak = is_ok (require_channel_permission d channel_id auth ''speak'');
          stream = is_ok (require_channel_permission d channel_id auth ''stream'')
      in case get_channel_row d channel_id of
           Inl _ \<Rightarrow> (speak, stream)
         | Inr channel \<Rightarrow>
             (case ch_space_id channel of
                None \<Rightarrow> (speak, stream)
              | Some space_id \<Rightarrow>
                  (case get_member_row d space_id (au_user_id auth) of
                     Inl _ \<Rightarrow> (speak, stream)
                   | Inr member \<Rightarrow>
                       if is_timed_out chr (mb_timed_out_until member) then (False, False)
                       else (speak \<and> \<not> mb_mute member, stream))))"

definition publishing_sources :: "bool \<Rightarrow> bool \<Rightarrow> (nat \<times> string) list" where
  "publishing_sources speak stream =
     (if speak then [(2, ''microphone'')] else []) @
     (if stream then [(1, ''camera''), (3, ''screen_share''), (4, ''screen_share_audio'')] else [])"

definition room_name :: "string \<Rightarrow> string" where
  "room_name channel_id = ''channel_'' @ channel_id"

definition token_grants :: "chrono \<Rightarrow> db \<Rightarrow> AuthUser \<Rightarrow> string \<Rightarrow> VideoGrants" where
  "token_grants chr d auth channel_id =
     (let (speak, stream) = publishing_permissions chr d channel_id auth;
          sources = publishing_sources speak stream
      in \<lparr>vg_room_join = True, vg_room = room_name channel_id, vg_can_publish = (sources \<noteq> []),
          vg_can_publish_sources = map snd sources, vg_can_subscribe = True,
          vg_can_publish_data = True\<rparr>)"

definition generate_token ::
    "livekit \<Rightarrow> chrono \<Rightarrow> db \<Rightarrow> AuthUser \<Rightarrow> string \<Rightarrow> string \<Rightarrow> AppError + string" where
  "generate_token lk chr d auth display_name channel_id =
     map_err (\<lambda>e. Internal (''failed to generate livekit token: '' @ e))
       (lk_to_jwt lk (au_user_id auth) display_name (token_grants chr d auth channel_id))"

section \<open>Handlers\<close>

record JoinVoiceRequest =
  jv_self_mute :: "bool option"
  jv_self_deaf :: "bool option"

record JoinVoiceResponse =
  jr_voice_state :: VoiceState
  jr_livekit_url :: string
  jr_token :: string

definition or_false :: "bool option \<Rightarrow> bool" where
  "or_false b = (b = Some True)"

definition list_voice_regions :: "app \<Rightarrow> string \<Rightarrow> AuthUser \<Rightarrow> AppError + json" where
  "list_voice_regions s space_id auth =
     and_then (require_membership (ap_db s) space_id (au_user_id auth)) (\<lambda>_.
     Inr (JArr [JObj [(''id'', JStr ''livekit''), (''name'', JStr ''LiveKit''), (''optimal'', JBool True),
                      (''custom'', JBool False)]]))"

definition voice_info :: "app \<Rightarrow> string" where
  "voice_info s = (if livekit_client s \<noteq> None then ''livekit'' else ''none'')"

definition get_voice_status :: "app \<Rightarrow> string \<Rightarrow> AuthUser \<Rightarrow> AppError + VoiceState list" where
  "get_voice_status s channel_id auth =
     and_then (require_channel_permission (ap_db s) channel_id auth ''view_channel'')
       (\<lambda>_. Inr (get_channel_voice_states s channel_id))"

text \<open>The space of a call: none for a direct message, otherwise the space of a voice channel in which
  the caller is not timed out.\<close>

definition join_scope :: "chrono \<Rightarrow> db \<Rightarrow> ChannelRow \<Rightarrow> AuthUser \<Rightarrow> AppError + string option" where
  "join_scope chr d channel auth =
     (if is_dm_channel (ch_type channel) then Inr None
      else if ch_type channel \<noteq> ''voice'' then Inl (BadRequest ''channel_not_voice'')
      else and_then (ok_or (BadRequest ''channel_has_no_space'') (ch_space_id channel)) (\<lambda>sid.
           and_then (require_not_timed_out chr d sid auth) (\<lambda>_. Inr (Some sid))))"

text \<open>The cleanup of a room a user left, spawned after the answer.\<close>

definition spawn_room_cleanup :: "string \<Rightarrow> string \<Rightarrow> app \<Rightarrow> app" where
  "spawn_room_cleanup channel_id user_id s =
     log_lk (DeleteRoomIfEmpty channel_id) (log_lk (RemoveParticipant channel_id user_id) s)"

definition display_name_of :: "User \<Rightarrow> string" where
  "display_name_of user = (case us_display_name user of Some n \<Rightarrow> n | None \<Rightarrow> us_username user)"

text \<open>The rest of a join, once the membership is recorded: the previous room, the announcement, the
  LiveKit room and the token.\<close>

definition answer_join ::
    "chrono \<Rightarrow> app \<Rightarrow> string \<Rightarrow> AuthUser \<Rightarrow> string option \<Rightarrow> VoiceState \<Rightarrow> string option \<Rightarrow>
     app \<times> (AppError + JoinVoiceResponse)" where
  "answer_join chr s1 channel_id auth space_id voice_state previous_channel =
     try_in s1 (ok_or (BadRequest ''voice_not_configured'') (livekit_client s1)) (\<lambda>lk.
     let s2 = (case previous_channel of
                 Some prev_ch \<Rightarrow>
                   if prev_ch \<noteq> channel_id \<and> \<not> test_mode s1
                   then spawn_room_cleanup prev_ch (au_user_id auth) s1 else s1
               | None \<Rightarrow> s1);
         s3 = broadcast_voice_state_update s2 channel_id space_id voice_state;
         s4 = (if test_mode s3 then s3 else log_lk (EnsureRoom channel_id) s3);
         room = (if test_mode s3 then Inr ()
                 else map_err (\<lambda>e. Internal (''failed to create livekit room: '' @ e))
                        (lk_ensures lk (lk_log s3) channel_id)) in
     try_in s4 room (\<lambda>_.
     try_in s4 (get_user (ap_db s4) (au_user_id auth)) (\<lambda>user.
     try_in s4 (generate_token lk chr (ap_db s4) auth (display_name_of user) channel_id) (\<lambda>token.
     (s4, Inr \<lparr>jr_voice_state = voice_state, jr_livekit_url = lk_external_url lk, jr_token = token\<rparr>)))))"

definition join_voice ::
    "chrono \<Rightarrow> string \<Rightarrow> app \<Rightarrow> string \<Rightarrow> AuthUser \<Rightarrow> JoinVoiceRequest \<Rightarrow>
     app \<times> (AppError + JoinVoiceResponse)" where
  "join_voice chr new_id s channel_id auth input =
     try_in s (require_channel_permission (ap_db s) channel_id auth ''connect'') (\<lambda>_.
     try_in s (get_channel_row (ap_db s) channel_id) (\<lambda>channel.
     try_in s (join_scope chr (ap_db s) channel auth) (\<lambda>space_id.
     let (s1, voice_state, previous_channel) =
           join_voice_channel s (au_user_id auth) space_id channel_id new_id
             (or_false (jv_self_mute input)) (or_false (jv_self_deaf input)) False False
     in answer_join chr s1 channel_id auth space_id voice_state previous_channel)))"

definition leave_voice :: "app \<Rightarrow> string \<Rightarrow> AuthUser \<Rightarrow> app \<times> (AppError + unit)" where
  "leave_voice s channel_id auth =
     try_in s (require_channel_permission (ap_db s) channel_id auth ''connect'') (\<lambda>_.
     let (s1, old_state) = leave_voice_channel_if_current s (au_user_id auth) channel_id in
     case old_state of
       None \<Rightarrow> (s1, Inr ())
     | Some vs \<Rightarrow>
         (case vs_channel_id vs of
            None \<Rightarrow> (s1, Inr ())
          | Some left_channel \<Rightarrow>
              let s2 = broadcast_voice_state_update s1 left_channel (vs_space_id vs)
                         (left_state (au_user_id auth) vs (vs_session_id vs));
                  s3 = (if \<not> test_mode s2 \<and> livekit_client s2 \<noteq> None
                        then spawn_room_cleanup left_channel (au_user_id auth) s2 else s2);
                  s4 = (if vs_space_id vs = None \<and> get_channel_voice_states s3 left_channel = []
                        then broadcast_call_event s3 left_channel ''call.end''
                               (call_user_json left_channel (au_user_id auth))
                        else s3)
              in (s4, Inr ())))"

definition require_dm_call_channel :: "db \<Rightarrow> string \<Rightarrow> string \<Rightarrow> AppError + string list" where
  "require_dm_call_channel d channel_id user_id =
     and_then (get_channel_row d channel_id) (\<lambda>channel.
     if \<not> is_dm_channel (ch_type channel) then Inl (BadRequest ''channel_not_dm'') else
     and_then (require_dm_access d channel_id user_id) (\<lambda>_.
     list_participant_ids d channel_id))"

definition ring_call :: "app \<Rightarrow> string \<Rightarrow> AuthUser \<Rightarrow> json option \<Rightarrow> app \<times> (AppError + unit)" where
  "ring_call s channel_id auth metadata =
     try_in s (require_dm_call_channel (ap_db s) channel_id (au_user_id auth)) (\<lambda>participants.
     (broadcast_call_event s channel_id ''call.ring''
        (JObj [(''channel_id'', JStr channel_id), (''caller_id'', JStr (au_user_id auth)),
               (''participants'', jstrs participants),
               (''metadata'', case metadata of Some m \<Rightarrow> m | None \<Rightarrow> JNull)]), Inr ()))"

definition decline_call :: "app \<Rightarrow> string \<Rightarrow> AuthUser \<Rightarrow> app \<times> (AppError + unit)" where
  "decline_call s channel_id auth =
     try_in s (require_dm_call_channel (ap_db s) channel_id (au_user_id auth)) (\<lambda>_.
     (broadcast_call_event s channel_id ''call.decline'' (call_user_json channel_id (au_user_id auth)), Inr ()))"

definition cancel_call :: "app \<Rightarrow> string \<Rightarrow> AuthUser \<Rightarrow> app \<times> (AppError + unit)" where
  "cancel_call s channel_id auth =
     try_in s (require_dm_call_channel (ap_db s) channel_id (au_user_id auth)) (\<lambda>_.
     (broadcast_call_event s channel_id ''call.cancel'' (call_user_json channel_id (au_user_id auth)), Inr ()))"

definition move_member ::
    "chrono \<Rightarrow> string \<Rightarrow> app \<Rightarrow> string \<Rightarrow> AuthUser \<Rightarrow> string \<Rightarrow> string \<Rightarrow> app \<times> (AppError + unit)" where
  "move_member chr new_id s channel_id auth user_id source_channel_id =
     (if livekit_client s = None then (s, Inl (BadRequest ''voice_not_configured'')) else
      try_in s (require_channel_permission (ap_db s) channel_id auth ''move_members'') (\<lambda>space_id.
      try_in s (get_channel_row (ap_db s) channel_id) (\<lambda>destination.
      if ch_type destination \<noteq> ''voice'' \<or> space_id = []
      then (s, Inl (BadRequest ''destination must be a domain voice channel'')) else
      try_in s (ok_or (BadRequest ''member is not in voice'') (hm_get (voice_states s) user_id)) (\<lambda>source.
      if vs_space_id source \<noteq> Some space_id \<or> vs_channel_id source \<noteq> Some source_channel_id
      then (s, Inl (BadRequest ''member moved or belongs to another domain'')) else
      try_in s (require_channel_permission (ap_db s) source_channel_id auth ''move_members'') (\<lambda>_.
      try_in s (if user_id \<noteq> au_user_id auth then require_hierarchy (ap_db s) space_id auth user_id
                else Inr ()) (\<lambda>_.
      try_in s (get_user (ap_db s) user_id) (\<lambda>user.
      if us_disabled user then (s, Inl (Forbidden ''account disabled'')) else
      let target = \<lparr>au_user_id = user_id, au_is_bot = us_bot user, au_is_admin = us_is_admin user,
                    au_is_guest = False, au_guest_space_id = None\<rparr> in
      try_run (join_voice chr new_id s channel_id target
                 \<lparr>jv_self_mute = Some (vs_self_mute source), jv_self_deaf = Some (vs_self_deaf source)\<rparr>)
        (\<lambda>s' _. (s', Inr ())))))))))"

section \<open>Revocation\<close>

definition attempt_voice_eviction :: "app \<Rightarrow> string \<Rightarrow> string \<Rightarrow> app \<times> (AppError + unit)" where
  "attempt_voice_eviction s channel user =
     (let (s1, removed) =
            (if test_mode s then (s, True)
             else case livekit_client s of
                    Some lk \<Rightarrow> (log_lk (RemoveParticipant channel user) s,
                                lk_removes lk (lk_log s) channel user)
                  | None \<Rightarrow> (s, False))
      in if removed
         then on_db (\<lambda>d. execute d (\<lambda>d. d\<lparr>voice_evictions :=
                filter (\<lambda>e. e \<noteq> (channel, user)) (voice_evictions d)\<rparr>)) s1
         else (s1, Inr ()))"

definition evict_voice_participant :: "app \<Rightarrow> string \<Rightarrow> string \<Rightarrow> app \<times> (AppError + unit)" where
  "evict_voice_participant s channel user =
     try_run (on_db (\<lambda>d. execute d (\<lambda>d. d\<lparr>voice_evictions :=
                push_missing (voice_evictions d) [(channel, user)]\<rparr>)) s)
       (\<lambda>s _. attempt_voice_eviction s channel user)"

fun drain_rows :: "(string \<times> string) list \<Rightarrow> app \<Rightarrow> app \<times> (AppError + unit)" where
  "drain_rows [] s = (s, Inr ())"
| "drain_rows ((channel, user) # rows) s =
     try_run (attempt_voice_eviction s channel user) (\<lambda>s _. drain_rows rows s)"

definition drain_voice_evictions :: "app \<Rightarrow> app \<times> (AppError + unit)" where
  "drain_voice_evictions s =
     try_in s (query (ap_db s) (take 100 (voice_evictions (ap_db s)))) (\<lambda>rows. drain_rows rows s)"

definition drop_voice_session :: "app \<Rightarrow> VoiceState \<Rightarrow> app" where
  "drop_voice_session s old =
     (case vs_channel_id old of
        None \<Rightarrow> s
      | Some channel \<Rightarrow>
          (case evict_voice_participant s channel (vs_user_id old) of
             (s1, Inl _) \<Rightarrow> s1
           | (s1, Inr _) \<Rightarrow>
               (case hm_get (voice_states s1) (vs_user_id old) of
                  None \<Rightarrow> s1
                | Some current \<Rightarrow>
                    if vs_channel_id current = vs_channel_id old \<and> vs_session_id current = vs_session_id old
                    then broadcast_voice_state_update
                           (s1\<lparr>voice_states := hm_remove (vs_user_id old) (voice_states s1)\<rparr>)
                           channel (vs_space_id old) (old\<lparr>vs_channel_id := None\<rparr>)
                    else s1)))"

definition revoke_voice_sessions :: "(VoiceState \<Rightarrow> bool) \<Rightarrow> app \<Rightarrow> app" where
  "revoke_voice_sessions matches s =
     foldl drop_voice_session s (filter matches (hm_values (voice_states s)))"

definition targets_user :: "string option \<Rightarrow> string \<Rightarrow> bool" where
  "targets_user user_id candidate = (case user_id of Some i \<Rightarrow> candidate = i | None \<Rightarrow> True)"

definition revoke_space_voice_access :: "app \<Rightarrow> string \<Rightarrow> string option \<Rightarrow> app" where
  "revoke_space_voice_access s space_id user_id =
     revoke_voice_sessions (\<lambda>vs. vs_space_id vs = Some space_id \<and> targets_user user_id (vs_user_id vs)) s"

definition revoke_channel_voice_access :: "app \<Rightarrow> string \<Rightarrow> string option \<Rightarrow> app" where
  "revoke_channel_voice_access s channel_id user_id =
     revoke_voice_sessions (\<lambda>vs. vs_channel_id vs = Some channel_id \<and> targets_user user_id (vs_user_id vs)) s"

definition revoke_user_voice_access :: "app \<Rightarrow> string \<Rightarrow> app" where
  "revoke_user_voice_access s user_id = revoke_voice_sessions (\<lambda>vs. vs_user_id vs = user_id) s"

text \<open>May this user still be in this channel?\<close>

definition voice_allowed :: "db \<Rightarrow> string \<Rightarrow> string \<Rightarrow> bool" where
  "voice_allowed d user_id channel =
     (case get_user d user_id of
        Inr user \<Rightarrow>
          \<not> us_disabled user \<and>
          is_ok (require_channel_permission d channel
                   ((plain_user user_id)\<lparr>au_is_admin := us_is_admin user\<rparr>) ''connect'')
      | Inl _ \<Rightarrow> False)"

definition reconcile_one :: "app \<Rightarrow> VoiceState \<Rightarrow> app" where
  "reconcile_one s old =
     (case vs_channel_id old of
        None \<Rightarrow> s
      | Some channel \<Rightarrow>
          if voice_allowed (ap_db s) (vs_user_id old) channel then s else drop_voice_session s old)"

definition reconcile_voice_access :: "app \<Rightarrow> app" where
  "reconcile_voice_access s =
     (if voice_cleanup s then s
      else let s1 = fst (drain_voice_evictions s)
           in foldl reconcile_one s1 (hm_values (voice_states s1)))"

definition refresh_participant :: "chrono \<Rightarrow> livekit \<Rightarrow> string \<Rightarrow> app \<Rightarrow> string \<Rightarrow> app" where
  "refresh_participant chr lk channel_id s user_id =
     (let is_admin = (case get_user (ap_db s) user_id of
                        Inr user \<Rightarrow> us_is_admin user \<and> \<not> us_disabled user | Inl _ \<Rightarrow> False);
          auth = (plain_user user_id)\<lparr>au_is_admin := is_admin\<rparr>;
          (speak, stream) = publishing_permissions chr (ap_db s) channel_id auth;
          sources = map fst (publishing_sources speak stream);
          s1 = log_lk (UpdateParticipant channel_id user_id sources) s
      in if lk_updates lk (lk_log s) channel_id user_id then s1
         else revoke_channel_voice_access s1 channel_id (Some user_id))"

text \<open>Up to eight participants at a time in the code, one after the other here.\<close>

definition refresh_channel_permissions :: "chrono \<Rightarrow> livekit \<Rightarrow> app \<Rightarrow> string \<Rightarrow> app" where
  "refresh_channel_permissions chr lk s channel_id =
     foldl (refresh_participant chr lk channel_id) s
       (map vs_user_id (get_channel_voice_states s channel_id))"

definition refresh_domain_voice_permissions :: "chrono \<Rightarrow> app \<Rightarrow> string \<Rightarrow> app" where
  "refresh_domain_voice_permissions chr s space_id =
     (let s1 = reconcile_voice_access s in
      if test_mode s1 then s1
      else case livekit_client s1 of
             None \<Rightarrow> s1
           | Some lk \<Rightarrow>
               foldl (refresh_channel_permissions chr lk) s1
                 (remdups (List.map_filter vs_channel_id (get_space_voice_states s1 space_id))))"

section \<open>The eviction queue is all that revocation changes in the database\<close>

lemma queries_evictions [simp]:
  "get_user (d\<lparr>voice_evictions := e\<rparr>) u = get_user d u"
  "get_space_row (d\<lparr>voice_evictions := e\<rparr>) i = get_space_row d i"
  "get_channel_row (d\<lparr>voice_evictions := e\<rparr>) c = get_channel_row d c"
  "get_member_row (d\<lparr>voice_evictions := e\<rparr>) i u = get_member_row d i u"
  "list_roles (d\<lparr>voice_evictions := e\<rparr>) i = list_roles d i"
  "get_member_role_ids (d\<lparr>voice_evictions := e\<rparr>) i u = get_member_role_ids d i u"
  "list_overwrites (d\<lparr>voice_evictions := e\<rparr>) c = list_overwrites d c"
  "is_participant (d\<lparr>voice_evictions := e\<rparr>) c u = is_participant d c u"
  "list_participant_ids (d\<lparr>voice_evictions := e\<rparr>) c = list_participant_ids d c"
  by (simp_all add: query_defs query_def)

lemma resolve_member_evictions [simp]:
  "resolve_member_permissions (d\<lparr>voice_evictions := e\<rparr>) i u = resolve_member_permissions d i u"
  by (simp add: resolve_member_permissions_def resolve_member_permissions_inner_def cong: if_cong)

lemma resolve_channel_evictions [simp]:
  "resolve_channel_permissions (d\<lparr>voice_evictions := e\<rparr>) c i u = resolve_channel_permissions d c i u"
  by (simp add: resolve_channel_permissions_def cong: if_cong)

lemma require_channel_evictions [simp]:
  "require_channel_permission (d\<lparr>voice_evictions := e\<rparr>) c a p = require_channel_permission d c a p"
  by (simp add: require_channel_permission_def require_dm_access_def cong: if_cong)

lemma voice_allowed_evictions [simp]:
  "voice_allowed (d\<lparr>voice_evictions := e\<rparr>) u c = voice_allowed d u c"
  by (simp add: voice_allowed_def cong: sum.case_cong)

definition evictions_only :: "db \<Rightarrow> db \<Rightarrow> bool" where
  "evictions_only d d' \<longleftrightarrow> (\<exists>e. d' = d\<lparr>voice_evictions := e\<rparr>)"

lemma evictions_only_refl [simp]: "evictions_only d d"
  unfolding evictions_only_def by (rule exI [of _ "voice_evictions d"]) simp

lemma evictions_only_update [simp]: "evictions_only d (d\<lparr>voice_evictions := e\<rparr>)"
  by (auto simp: evictions_only_def)

lemma evictions_only_from_update [simp]:
  "evictions_only (d\<lparr>voice_evictions := e\<rparr>) d' \<longleftrightarrow> evictions_only d d'"
  by (simp add: evictions_only_def)

lemma evictions_only_trans: "evictions_only d d' \<Longrightarrow> evictions_only d' d'' \<Longrightarrow> evictions_only d d''"
  by (auto simp: evictions_only_def)

lemma evictions_only_allowed: "evictions_only d d' \<Longrightarrow> voice_allowed d' u c = voice_allowed d u c"
  by (auto simp: evictions_only_def)

lemma evictions_only_db_ok: "evictions_only d d' \<Longrightarrow> db_ok d' = db_ok d"
  by (auto simp: evictions_only_def)

section \<open>Facts about evictions\<close>

lemma attempt_result:
  assumes "db_ok (ap_db s)"
  shows "snd (attempt_voice_eviction s c u) = Inr () \<and>
    voice_states (fst (attempt_voice_eviction s c u)) = voice_states s \<and>
    test_mode (fst (attempt_voice_eviction s c u)) = test_mode s \<and>
    livekit_client (fst (attempt_voice_eviction s c u)) = livekit_client s \<and>
    evictions_only (ap_db s) (ap_db (fst (attempt_voice_eviction s c u)))"
  using assms
  by (auto simp: attempt_voice_eviction_def on_db_def Let_def split: option.split)

lemma evict_result:
  assumes "db_ok (ap_db s)"
  shows "snd (evict_voice_participant s c u) = Inr () \<and>
    voice_states (fst (evict_voice_participant s c u)) = voice_states s \<and>
    evictions_only (ap_db s) (ap_db (fst (evict_voice_participant s c u)))"
proof -
  let ?s = "s\<lparr>ap_db := (ap_db s)\<lparr>voice_evictions := push_missing (voice_evictions (ap_db s)) [(c, u)]\<rparr>\<rparr>"
  have run: "evict_voice_participant s c u = attempt_voice_eviction ?s c u"
    using assms by (simp add: evict_voice_participant_def on_db_def)
  have "evictions_only (ap_db s) (ap_db ?s)" by (auto simp: evictions_only_def)
  then show ?thesis
    using attempt_result [of ?s c u] assms unfolding run by (auto intro: evictions_only_trans)
qed

lemma evict_failure:
  assumes "\<not> db_ok (ap_db s)"
  shows "evict_voice_participant s c u = (s, Inl (Database (DriverError ''unavailable'')))"
  using assms by (simp add: evict_voice_participant_def on_db_def try_run_def)

lemma broadcast_voice_simps [simp]:
  "ap_db (broadcast_voice_state_update s c sp vs) = ap_db s"
  "voice_states (broadcast_voice_state_update s c sp vs) = voice_states s"
  "presences (broadcast_voice_state_update s c sp vs) = presences s"
  "sessions (broadcast_voice_state_update s c sp vs) = sessions s"
  "test_mode (broadcast_voice_state_update s c sp vs) = test_mode s"
  "livekit_client (broadcast_voice_state_update s c sp vs) = livekit_client s"
  "lk_log (broadcast_voice_state_update s c sp vs) = lk_log s"
  "voice_cleanup (broadcast_voice_state_update s c sp vs) = voice_cleanup s"
  by (simp_all add: broadcast_voice_state_update_def Let_def split: option.split)

lemma broadcast_call_simps [simp]:
  "ap_db (broadcast_call_event s c ty data) = ap_db s"
  "voice_states (broadcast_call_event s c ty data) = voice_states s"
  "presences (broadcast_call_event s c ty data) = presences s"
  "sessions (broadcast_call_event s c ty data) = sessions s"
  by (simp_all add: broadcast_call_event_def Let_def)

text \<open>Dropping a session removes the user's entry when it is still that session, and nothing else.\<close>

definition same_session :: "VoiceState \<Rightarrow> VoiceState \<Rightarrow> bool" where
  "same_session a b \<longleftrightarrow> vs_channel_id a = vs_channel_id b \<and> vs_session_id a = vs_session_id b"

lemma drop_result:
  assumes "db_ok (ap_db s)" and "vs_channel_id old \<noteq> None"
  shows "evictions_only (ap_db s) (ap_db (drop_voice_session s old)) \<and>
    voice_states (drop_voice_session s old) =
      (case hm_get (voice_states s) (vs_user_id old) of
         Some cur \<Rightarrow> if same_session cur old then hm_remove (vs_user_id old) (voice_states s)
                     else voice_states s
       | None \<Rightarrow> voice_states s)"
proof -
  obtain c where c: "vs_channel_id old = Some c" using assms(2) by auto
  obtain s1 r where run: "evict_voice_participant s c (vs_user_id old) = (s1, r)" by fastforce
  from evict_result [OF assms(1), of c "vs_user_id old"] run
  have "r = Inr ()" "voice_states s1 = voice_states s" "evictions_only (ap_db s) (ap_db s1)" by auto
  with run c show ?thesis
    by (auto simp: drop_voice_session_def same_session_def split: option.split)
qed

lemma drop_no_channel [simp]: "vs_channel_id old = None \<Longrightarrow> drop_voice_session s old = s"
  by (simp add: drop_voice_session_def)

lemma drop_get:
  assumes "db_ok (ap_db s)" and "hm_get (voice_states (drop_voice_session s old)) u = Some vs"
  shows "hm_get (voice_states s) u = Some vs \<and>
    (u = vs_user_id old \<longrightarrow> vs_channel_id old \<noteq> None \<longrightarrow> \<not> same_session vs old)"
proof (cases "vs_channel_id old")
  case None
  with assms show ?thesis by simp
next
  case (Some c)
  with assms show ?thesis
    using drop_result [of s old] by (auto split: option.splits if_splits)
qed

lemma drop_evictions_only: "evictions_only (ap_db s) (ap_db (drop_voice_session s old))"
proof (cases "db_ok (ap_db s)")
  case True
  then show ?thesis using drop_result [of s old] by (cases "vs_channel_id old") auto
next
  case False
  then show ?thesis
    by (auto simp: drop_voice_session_def evict_failure split: option.split)
qed

text \<open>A pass over the observed sessions with any such step.\<close>

definition drops_some :: "(app \<Rightarrow> VoiceState \<Rightarrow> app) \<Rightarrow> bool" where
  "drops_some step \<longleftrightarrow> (\<forall>s old. step s old = s \<or> step s old = drop_voice_session s old)"

lemma drops_some_step:
  assumes "drops_some step" and "db_ok (ap_db s)"
  shows "db_ok (ap_db (step s old)) \<and> evictions_only (ap_db s) (ap_db (step s old)) \<and>
    (\<forall>u vs. hm_get (voice_states (step s old)) u = Some vs \<longrightarrow> hm_get (voice_states s) u = Some vs)"
proof -
  from assms(1) have "step s old = s \<or> step s old = drop_voice_session s old"
    by (simp add: drops_some_def)
  then show ?thesis
    using assms(2) drop_get [OF assms(2)] drop_evictions_only [of s old] evictions_only_db_ok
    by (elim disjE) auto
qed

lemma foldl_drops:
  assumes "drops_some step" and "db_ok (ap_db s)"
  shows "evictions_only (ap_db s) (ap_db (foldl step s olds)) \<and>
    (\<forall>u vs. hm_get (voice_states (foldl step s olds)) u = Some vs \<longrightarrow>
       hm_get (voice_states s) u = Some vs \<and>
       (\<forall>old \<in> set olds. \<exists>t. evictions_only (ap_db s) (ap_db t) \<and>
          hm_get (voice_states (step t old)) u = Some vs))"
  using assms(2)
proof (induction olds arbitrary: s)
  case Nil
  then show ?case by simp
next
  case (Cons old olds)
  note step = drops_some_step [OF assms(1) Cons.prems, of old]
  note IH = Cons.IH [of "step s old"]
  from step IH have eo: "evictions_only (ap_db s) (ap_db (foldl step (step s old) olds))"
    using evictions_only_trans by blast
  have "hm_get (voice_states s) u = Some vs \<and>
       (\<forall>o' \<in> set (old # olds). \<exists>t. evictions_only (ap_db s) (ap_db t) \<and>
          hm_get (voice_states (step t o')) u = Some vs)"
    if "hm_get (voice_states (foldl step (step s old) olds)) u = Some vs" for u vs
  proof -
    from step IH that have "hm_get (voice_states (step s old)) u = Some vs" by blast
    moreover from step IH that have "\<forall>o' \<in> set olds. \<exists>t. evictions_only (ap_db s) (ap_db t) \<and>
        hm_get (voice_states (step t o')) u = Some vs"
      by (meson evictions_only_trans)
    ultimately show ?thesis using step by (auto intro: exI [of _ s])
  qed
  with eo show ?case by simp
qed

lemma drain_rows_result:
  assumes "db_ok (ap_db s)"
  shows "snd (drain_rows rows s) = Inr () \<and> voice_states (fst (drain_rows rows s)) = voice_states s \<and>
    evictions_only (ap_db s) (ap_db (fst (drain_rows rows s)))"
  using assms
proof (induction rows arbitrary: s)
  case (Cons row rows)
  obtain c u where row: "row = (c, u)" by fastforce
  obtain s1 r where run: "attempt_voice_eviction s c u = (s1, r)" by fastforce
  from attempt_result [OF Cons.prems, of c u] run
  have "r = Inr ()" "voice_states s1 = voice_states s" "evictions_only (ap_db s) (ap_db s1)" by auto
  with Cons.IH [of s1] Cons.prems run row show ?case
    by (auto simp: evictions_only_db_ok intro: evictions_only_trans)
qed simp

lemma drop_drops_some: "drops_some drop_voice_session"
  by (simp add: drops_some_def)

lemma reconcile_drops_some: "drops_some reconcile_one"
  by (auto simp: drops_some_def reconcile_one_def split: option.split)

lemma foldl_drop_other:
  assumes "db_ok (ap_db s)" and "\<forall>old \<in> set olds. vs_user_id old \<noteq> k"
  shows "hm_get (voice_states (foldl drop_voice_session s olds)) k = hm_get (voice_states s) k"
  using assms
proof (induction olds arbitrary: s)
  case (Cons old olds)
  have "hm_get (voice_states (drop_voice_session s old)) k = hm_get (voice_states s) k"
    using drop_result [OF Cons.prems(1), of old] Cons.prems(2)
    by (cases "vs_channel_id old") (auto split: option.splits)
  moreover have "db_ok (ap_db (drop_voice_session s old))"
    using drop_evictions_only evictions_only_db_ok Cons.prems(1) by blast
  ultimately show ?case using Cons by simp
qed simp

lemma foldl_drop_get:
  assumes "voice_wf s" and "db_ok (ap_db s)" and "set olds \<subseteq> set (hm_values (voice_states s))"
  shows "hm_get (voice_states (foldl drop_voice_session s olds)) k =
    (case hm_get (voice_states s) k of
       Some vs \<Rightarrow> if vs \<in> set olds then None else Some vs | None \<Rightarrow> None)"
proof -
  have own: "vs_user_id vs = u" "vs_channel_id vs \<noteq> None" if "hm_get (voice_states s) u = Some vs" for u vs
    using that assms(1) by (auto simp: voice_wf_def)
  have filed: "hm_get (voice_states s) (vs_user_id old) = Some old" if "old \<in> set olds" for old
  proof -
    from that assms(3) have "old \<in> set (hm_values (voice_states s))" by blast
    then obtain u where "hm_get (voice_states s) u = Some old"
      using assms(1) by (auto simp: set_hm_values voice_wf_def)
    with own show ?thesis by metis
  qed
  note result = foldl_drops [OF drop_drops_some assms(2), of olds]
  show ?thesis
  proof (cases "\<exists>old \<in> set olds. vs_user_id old = k")
    case True
    then obtain old where old: "old \<in> set olds" "vs_user_id old = k" by blast
    then have k: "hm_get (voice_states s) k = Some old" using filed by blast
    have "hm_get (voice_states (foldl drop_voice_session s olds)) k = None"
    proof (rule ccontr)
      assume "\<not> ?thesis"
      then obtain vs where "hm_get (voice_states (foldl drop_voice_session s olds)) k = Some vs" by blast
      with result k old obtain t where "evictions_only (ap_db s) (ap_db t)"
        "hm_get (voice_states (drop_voice_session t old)) k = Some old" by fastforce
      then show False
        using drop_get [of t old k old] old own [OF k] assms(2)
        by (auto simp: evictions_only_db_ok same_session_def)
    qed
    with k old show ?thesis by simp
  next
    case False
    then have "vs \<notin> set olds" if "hm_get (voice_states s) k = Some vs" for vs
      using own [OF that] by auto
    with foldl_drop_other [OF assms(2), of olds k] False show ?thesis
      by (auto split: option.split)
  qed
qed

lemma revoke_get:
  assumes "voice_wf s" and "db_ok (ap_db s)"
  shows "hm_get (voice_states (revoke_voice_sessions matches s)) k =
    (case hm_get (voice_states s) k of
       Some vs \<Rightarrow> if matches vs then None else Some vs | None \<Rightarrow> None)"
proof -
  have "hm_wf (voice_states s)" using assms(1) by (simp add: voice_wf_def)
  then have "vs \<in> set (filter matches (hm_values (voice_states s))) \<longleftrightarrow> matches vs"
    if "hm_get (voice_states s) k = Some vs" for vs
    using that by (auto simp: set_hm_values)
  then show ?thesis
    using foldl_drop_get [OF assms, of "filter matches (hm_values (voice_states s))" k]
    by (simp add: revoke_voice_sessions_def split: option.split)
qed

section \<open>Properties\<close>

text \<open>After a reconciliation with the database up, everybody still in voice may be there: their
  account exists and is not disabled, and the channel they are in grants them \<open>connect\<close> now.
  Nobody is moved or added by it.\<close>

theorem reconcile_leaves_only_allowed:
  assumes "voice_wf s" and "db_ok (ap_db s)" and "\<not> voice_cleanup s"
    and "hm_get (voice_states (reconcile_voice_access s)) u = Some vs"
  shows "hm_get (voice_states s) u = Some vs \<and>
    (\<exists>c. vs_channel_id vs = Some c \<and> voice_allowed (ap_db s) u c)"
proof -
  define s1 where "s1 = fst (drain_voice_evictions s)"
  have s1: "voice_states s1 = voice_states s" "evictions_only (ap_db s) (ap_db s1)"
    using assms(2) drain_rows_result [OF assms(2)] by (auto simp: s1_def drain_voice_evictions_def)
  then have s1_ok: "db_ok (ap_db s1)" using evictions_only_db_ok assms(2) by blast
  have "reconcile_voice_access s = foldl reconcile_one s1 (hm_values (voice_states s1))"
    using assms(3) by (simp add: reconcile_voice_access_def s1_def Let_def)
  with foldl_drops [OF reconcile_drops_some s1_ok] assms(4) s1(1)
  have here: "hm_get (voice_states s) u = Some vs" and
    seen: "\<forall>old \<in> set (hm_values (voice_states s)). \<exists>t. evictions_only (ap_db s1) (ap_db t) \<and>
      hm_get (voice_states (reconcile_one t old)) u = Some vs"
    by auto
  from here assms(1) obtain c where u: "vs_user_id vs = u" and c: "vs_channel_id vs = Some c"
    by (auto simp: voice_wf_def)
  have "vs \<in> set (hm_values (voice_states s))"
    using here assms(1) by (auto simp: set_hm_values voice_wf_def)
  with seen obtain t where t: "evictions_only (ap_db s1) (ap_db t)"
    "hm_get (voice_states (reconcile_one t vs)) u = Some vs" by blast
  then have db: "db_ok (ap_db t)" "voice_allowed (ap_db t) u c = voice_allowed (ap_db s) u c"
    using s1 s1_ok by (auto simp: evictions_only_db_ok evictions_only_allowed)
  have "voice_allowed (ap_db s) u c"
  proof (rule ccontr)
    assume "\<not> voice_allowed (ap_db s) u c"
    with db t(2) c u have "hm_get (voice_states (drop_voice_session t vs)) u = Some vs"
      by (simp add: reconcile_one_def)
    with drop_get [OF db(1)] u c show False by (auto simp: same_session_def)
  qed
  with here c show ?thesis by blast
qed

text \<open>A member of the space without a role, in a voice channel that no longer lets them connect.\<close>

definition voice_app :: app where
  "voice_app =
     (let d = a_db \<lparr>channels := [a_channel ''v'' (Some ''s'') ''voice''],
                   roles := [a_role ''all'' ''s'' 0 [''view_channel''],
                             a_role ''moderator'' ''s'' 2 [''connect'']]\<rparr>;
          s = an_app \<lparr>ap_db := d\<rparr>;
          s1 = fst (join_voice_channel s ''pat'' (Some ''s'') ''v'' ''1'' False False False False)
      in fst (join_voice_channel s1 ''mod'' (Some ''s'') ''v'' ''2'' False False False False))"

lemma voice_app_wf: "voice_wf voice_app"
  unfolding voice_app_def Let_def
  by (intro voice_wf_join) (simp add: voice_wf_def an_app_def)

theorem reconcile_leaves_only_allowed_witness:
  "map fst (voice_states voice_app) = [''pat'', ''mod''] \<and>
   map fst (voice_states (reconcile_voice_access voice_app)) = [''mod''] \<and>
   (\<exists>c. voice_allowed (ap_db voice_app) ''mod'' c)"
proof -
  have pre: "db_ok (ap_db voice_app)" "\<not> voice_cleanup voice_app" by code_simp+
  have "hm_get (voice_states (reconcile_voice_access voice_app)) ''mod'' \<noteq> None" by code_simp
  then obtain vs where "hm_get (voice_states (reconcile_voice_access voice_app)) ''mod'' = Some vs" by blast
  from reconcile_leaves_only_allowed [OF voice_app_wf pre this] have
    "\<exists>c. voice_allowed (ap_db voice_app) ''mod'' c" by blast
  moreover have "map fst (voice_states voice_app) = [''pat'', ''mod'']" by code_simp
  moreover have "map fst (voice_states (reconcile_voice_access voice_app)) = [''mod'']" by code_simp
  ultimately show ?thesis by blast
qed

text \<open>An eviction is never forgotten: with the database up it always succeeds, and afterwards the
  participant has been removed from LiveKit or is in the durable queue the sweep drains.\<close>

theorem eviction_done_or_queued:
  assumes "db_ok (ap_db s)" and "evict_voice_participant s c u = (s', r)"
  shows "r = Inr () \<and>
    ((c, u) \<in> set (voice_evictions (ap_db s')) \<or> test_mode s \<or>
     (\<exists>lk. livekit_client s = Some lk \<and> lk_removes lk (lk_log s) c u \<and>
           lk_log s' = lk_log s @ [RemoveParticipant c u]))"
  using assms
  by (auto simp: evict_voice_participant_def attempt_voice_eviction_def on_db_def Let_def
      split: option.splits if_splits)

definition no_livekit :: livekit where
  "no_livekit = \<lparr>lk_external_url = [], lk_removes = (\<lambda>_ _ _. False), lk_updates = (\<lambda>_ _ _. False),
     lk_ensures = (\<lambda>_ _. Inl []), lk_to_jwt = (\<lambda>_ _ _. Inl [])\<rparr>"

theorem eviction_done_or_queued_witness:
  "\<exists>s'. evict_voice_participant (an_app \<lparr>test_mode := False, livekit_client := Some no_livekit\<rparr>) ''c'' ''mem'' =
      (s', Inr ()) \<and> (''c'', ''mem'') \<in> set (voice_evictions (ap_db s'))"
proof -
  let ?s = "an_app \<lparr>test_mode := False, livekit_client := Some no_livekit\<rparr>"
  obtain s' r where run: "evict_voice_participant ?s ''c'' ''mem'' = (s', r)" by fastforce
  have "db_ok (ap_db ?s)" by (simp add: an_app_def sample_defs)
  from eviction_done_or_queued [OF this run] run show ?thesis
    by (auto simp: an_app_def no_livekit_def)
qed

text \<open>Revoking a member's access to a space (a kick, ban or leave), or everybody's when the space
  goes, takes effect at once: with the database up, no such membership is left and every other
  membership is untouched.\<close>

theorem revoke_space_complete:
  assumes "voice_wf s" and "db_ok (ap_db s)"
  shows "hm_get (voice_states (revoke_space_voice_access s sp u)) k =
    (case hm_get (voice_states s) k of
       Some vs \<Rightarrow> if vs_space_id vs = Some sp \<and> (u = None \<or> u = Some k) then None else Some vs
     | None \<Rightarrow> None)"
proof -
  have "vs_user_id vs = k" if "hm_get (voice_states s) k = Some vs" for vs
    using that assms(1) by (auto simp: voice_wf_def)
  then show ?thesis
    by (auto simp: revoke_space_voice_access_def revoke_get [OF assms] targets_user_def
        split: option.splits)
qed

theorem revoke_space_complete_witness:
  "hm_get (voice_states (revoke_space_voice_access voice_app ''s'' (Some ''pat''))) ''pat'' = None \<and>
   hm_get (voice_states (revoke_space_voice_access voice_app ''s'' (Some ''pat''))) ''mod'' \<noteq> None"
proof -
  have db: "db_ok (ap_db voice_app)" by code_simp
  have "hm_get (voice_states voice_app) ''mod'' \<noteq> None" by code_simp
  moreover have "map_option vs_space_id (hm_get (voice_states voice_app) ''pat'') = Some (Some ''s'')"
    by code_simp
  ultimately show ?thesis
    by (auto simp: revoke_space_complete [OF voice_app_wf db] split: option.splits)
qed

text \<open>What a LiveKit token lets its holder publish follows the channel's policy at that moment: a
  microphone only with \<open>speak\<close>, camera and screen only with \<open>stream\<close>, and publishing at all only
  with one of them; a member of the channel's space who is server-muted gets no microphone, and one
  who is timed out can publish nothing.\<close>

theorem token_grants_follow_policy:
  assumes "get_channel_row d c = Inr ch"
  shows "let g = token_grants chr d auth c in
    (''microphone'' \<in> set (vg_can_publish_sources g) \<longrightarrow> (\<exists>r. channel_permitted d ch auth ''speak'' r)) \<and>
    (\<forall>src \<in> {''camera'', ''screen_share'', ''screen_share_audio''}.
       src \<in> set (vg_can_publish_sources g) \<longrightarrow> (\<exists>r. channel_permitted d ch auth ''stream'' r)) \<and>
    (vg_can_publish g \<longleftrightarrow> vg_can_publish_sources g \<noteq> []) \<and>
    (\<forall>sp m. ch_space_id ch = Some sp \<and> get_member_row d sp (au_user_id auth) = Inr m \<longrightarrow>
       (mb_mute m \<longrightarrow> ''microphone'' \<notin> set (vg_can_publish_sources g)) \<and>
       (is_timed_out chr (mb_timed_out_until m) \<longrightarrow> \<not> vg_can_publish g))"
  using assms
  by (auto simp: token_grants_def publishing_permissions_def publishing_sources_def Let_def
      require_channel_permission_permitted [OF assms] is_ok_iff
      split: sum.splits option.splits if_splits)

theorem token_grants_follow_policy_witness:
  "vg_can_publish_sources (token_grants a_chrono
     (a_db \<lparr>channels := [a_channel ''v'' (Some ''s'') ''voice'']\<rparr>)
     ((plain_user ''own'')\<lparr>au_is_admin := True\<rparr>) ''v'') = 
     [''microphone'', ''camera'', ''screen_share'', ''screen_share_audio''] \<and>
   (\<exists>r. channel_permitted (a_db \<lparr>channels := [a_channel ''v'' (Some ''s'') ''voice'']\<rparr>)
     (a_channel ''v'' (Some ''s'') ''voice'') ((plain_user ''own'')\<lparr>au_is_admin := True\<rparr>) ''speak'' r)"
proof -
  let ?d = "a_db \<lparr>channels := [a_channel ''v'' (Some ''s'') ''voice'']\<rparr>"
  let ?u = "(plain_user ''own'')\<lparr>au_is_admin := True\<rparr>"
  have row: "get_channel_row ?d ''v'' = Inr (a_channel ''v'' (Some ''s'') ''voice'')" by code_simp
  have g: "vg_can_publish_sources (token_grants a_chrono ?d ?u ''v'') =
      [''microphone'', ''camera'', ''screen_share'', ''screen_share_audio'']" by code_simp
  show ?thesis
    using token_grants_follow_policy [OF row, of a_chrono ?u] g by (simp add: Let_def)
qed

section \<open>Joining\<close>

lemma try_in_voice:
  assumes "\<And>x. voice_states (fst (k x)) = voice_states s"
  shows "voice_states (fst (try_in s m k)) = voice_states s"
  using assms by (cases m) auto

lemma answer_join_voice [simp]:
  "voice_states (fst (answer_join chr s c auth sp vs prev)) = voice_states s"
proof -
  have "voice_states (fst (try_in t m k)) = voice_states s"
    if "voice_states t = voice_states s" "\<And>x. voice_states (fst (k x)) = voice_states s"
    for t m and k :: "'y \<Rightarrow> app \<times> (AppError + JoinVoiceResponse)"
    using that by (cases m) auto
  note step = this
  show ?thesis
    unfolding answer_join_def Let_def
    by (intro step) (auto simp: spawn_room_cleanup_def split: option.split)
qed

lemma join_voice_cases:
  assumes "join_voice chr i s c auth input = (s', r)"
  shows "s' = s \<or>
    (\<exists>sp ch scope. require_channel_permission (ap_db s) c auth ''connect'' = Inr sp \<and>
       get_channel_row (ap_db s) c = Inr ch \<and> join_scope chr (ap_db s) ch auth = Inr scope \<and>
       voice_states s' = voice_states (fst (join_voice_channel s (au_user_id auth) scope c i
         (or_false (jv_self_mute input)) (or_false (jv_self_deaf input)) False False)))"
proof -
  from assms have s': "s' = fst (join_voice chr i s c auth input)" by simp
  show ?thesis
    unfolding s' join_voice_def
    by (cases "require_channel_permission (ap_db s) c auth ''connect''";
        cases "get_channel_row (ap_db s) c")
      (auto simp: try_in_def Let_def join_voice_channel_def split: sum.split)
qed

text \<open>A \<open>POST /voice/join\<close> puts into voice only the caller, only into the channel named, and only
  after every check passed: \<open>connect\<close> in the channel (participation for a direct message) and, in a
  space, that the channel is a voice channel and the caller is not timed out.  Nobody else's
  membership changes, and a refused join changes no membership at all.\<close>

theorem join_voice_only_authorised:
  assumes "join_voice chr i s c auth input = (s', r)"
  shows "(\<forall>u. u \<noteq> au_user_id auth \<longrightarrow> hm_get (voice_states s') u = hm_get (voice_states s) u) \<and>
    (hm_get (voice_states s') (au_user_id auth) \<noteq> hm_get (voice_states s) (au_user_id auth) \<longrightarrow>
       Option.bind (hm_get (voice_states s') (au_user_id auth)) vs_channel_id = Some c \<and>
       (\<exists>sp ch. require_channel_permission (ap_db s) c auth ''connect'' = Inr sp \<and>
          get_channel_row (ap_db s) c = Inr ch \<and>
          (is_dm_channel (ch_type ch) \<or>
           ch_type ch = ''voice'' \<and>
           (\<exists>sid. ch_space_id ch = Some sid \<and> require_not_timed_out chr (ap_db s) sid auth = Inr ()))))"
  using join_voice_cases [OF assms]
  by (auto simp: join_voice_channel_def Let_def join_scope_def split: if_splits)

theorem join_voice_only_authorised_witness:
  "(let s' = fst (join_voice a_chrono ''9'' voice_app ''v'' (plain_user ''own'')
                    \<lparr>jv_self_mute = None, jv_self_deaf = None\<rparr>) in
    Option.bind (hm_get (voice_states s') ''own'') vs_channel_id = Some ''v'' \<and>
    hm_get (voice_states s') ''mod'' = hm_get (voice_states voice_app) ''mod'')"
proof -
  let ?p = "join_voice a_chrono ''9'' voice_app ''v'' (plain_user ''own'')
    \<lparr>jv_self_mute = None, jv_self_deaf = None\<rparr>"
  have run: "?p = (fst ?p, snd ?p)" by simp
  have moved: "hm_get (voice_states (fst ?p)) ''own'' \<noteq> hm_get (voice_states voice_app) ''own''" by code_simp
  show ?thesis
    using join_voice_only_authorised [OF run] moved unfolding Let_def by (simp add: plain_user_def)
qed

text \<open>On a server without LiveKit an authorised join is refused with \<open>voice_not_configured\<close>, yet
  the caller is left registered in the channel, and nobody is told.\<close>

theorem join_voice_unconfigured_registers:
  assumes "require_channel_permission (ap_db s) c auth ''connect'' = Inr sp"
    and "get_channel_row (ap_db s) c = Inr ch" and "join_scope chr (ap_db s) ch auth = Inr scope"
    and "livekit_client s = None"
  shows "\<exists>s'. join_voice chr i s c auth input = (s', Inl (BadRequest ''voice_not_configured'')) \<and>
    Option.bind (hm_get (voice_states s') (au_user_id auth)) vs_channel_id = Some c \<and>
    outbox s' = outbox s"
  using assms by (simp add: join_voice_def join_voice_channel_def answer_join_def Let_def)

theorem join_voice_unconfigured_registers_witness:
  "\<exists>s'. join_voice a_chrono ''9'' voice_app ''v'' (plain_user ''own'') \<lparr>jv_self_mute = None, jv_self_deaf = None\<rparr> =
      (s', Inl (BadRequest ''voice_not_configured'')) \<and>
    Option.bind (hm_get (voice_states s') ''own'') vs_channel_id = Some ''v''"
proof -
  have c: "require_channel_permission (ap_db voice_app) ''v'' (plain_user ''own'') ''connect'' = Inr ''s''"
    by code_simp
  have row: "get_channel_row (ap_db voice_app) ''v'' = Inr (a_channel ''v'' (Some ''s'') ''voice'')"
    by code_simp
  have sc: "join_scope a_chrono (ap_db voice_app) (a_channel ''v'' (Some ''s'') ''voice'') (plain_user ''own'') =
      Inr (Some ''s'')" by code_simp
  have lk: "livekit_client voice_app = None" by code_simp
  show ?thesis
    using join_voice_unconfigured_registers [OF c row sc lk] by (auto simp: plain_user_def)
qed

end
