(* ===== verification/Security.thy ===== *)
theory Security
  imports Voice
begin

text \<open>
  Bounded admission and rate limiting: \<open>Server/src/security.rs\<close> and
  \<open>Server/src/middleware/rate_limit.rs\<close>.

  A semaphore is an address with the permits left on it; a \<open>Weak\<close> reference can be upgraded while
  some live permit holds the semaphore.  Instants are milliseconds.
\<close>

section \<open>Admission\<close>

record admission =
  ad_global :: nat                          \<comment> \<open>permits left on the global semaphore\<close>
  ad_keys :: "(string, nat) hmap"           \<comment> \<open>key to the (weak) address of its semaphore\<close>
  ad_available :: "nat \<Rightarrow> nat"              \<comment> \<open>permits left on the semaphore at an address\<close>
  ad_next :: nat                            \<comment> \<open>the next unused address\<close>
  ad_permits :: "(string \<times> nat) list"       \<comment> \<open>the live permits: key and address\<close>
  ad_per_key :: nat

definition admission_new :: "nat \<Rightarrow> nat \<Rightarrow> admission" where
  "admission_new global per_key =
     \<lparr>ad_global = global, ad_keys = [], ad_available = (\<lambda>_. 0), ad_next = 0, ad_permits = [],
      ad_per_key = per_key\<rparr>"

definition holders :: "admission \<Rightarrow> nat \<Rightarrow> nat" where
  "holders g a = length (filter (\<lambda>p. snd p = a) (ad_permits g))"

definition busy :: AppError where
  "busy = RateLimited 5"

text \<open>The semaphore of a key, after dropping the dead keys: the live one, or a fresh one.\<close>

definition key_semaphore :: "string \<Rightarrow> admission \<Rightarrow> admission \<times> nat" where
  "key_semaphore key g =
     (let ks = hm_retain (\<lambda>_ a. holders g a > 0) (ad_keys g) in
      case hm_get ks key of
        Some a \<Rightarrow> (g\<lparr>ad_keys := ks\<rparr>, a)
      | None \<Rightarrow> (g\<lparr>ad_keys := hm_insert key (ad_next g) ks,
                   ad_available := (ad_available g)(ad_next g := ad_per_key g),
                   ad_next := ad_next g + 1\<rparr>, ad_next g))"

text \<open>A refusal gives the global permit back.\<close>

definition enter :: "string \<Rightarrow> admission \<Rightarrow> admission \<times> (AppError + nat)" where
  "enter key g =
     (if ad_global g = 0 then (g, Inl busy)
      else let (g1, a) = key_semaphore key g in
        if ad_available g1 a = 0 then (g1, Inl busy)
        else (g1\<lparr>ad_global := ad_global g1 - 1,
                 ad_available := (ad_available g1)(a := ad_available g1 a - 1),
                 ad_permits := ad_permits g1 @ [(key, a)]\<rparr>, Inr a))"

text \<open>Dropping a permit gives both back.\<close>

definition drop_permit :: "string \<times> nat \<Rightarrow> admission \<Rightarrow> admission" where
  "drop_permit p g = g\<lparr>ad_global := ad_global g + 1,
     ad_available := (ad_available g)(snd p := ad_available g (snd p) + 1),
     ad_permits := remove1 p (ad_permits g)\<rparr>"

inductive admission_step :: "admission \<Rightarrow> admission \<Rightarrow> bool" where
  entering: "admission_step g (fst (enter key g))"
| dropping: "p \<in> set (ad_permits g) \<Longrightarrow> admission_step g (drop_permit p g)"

inductive_cases admission_step_cases: "admission_step g g'"

section \<open>Trackers\<close>

definition MAX_TRACKERS :: nat where
  "MAX_TRACKERS = 10000"

definition reserve_tracker ::
    "(string, 'v) hmap \<Rightarrow> string \<Rightarrow> ('v \<Rightarrow> bool) \<Rightarrow> 'v \<Rightarrow> (string, 'v) hmap \<times> (AppError + unit)" where
  "reserve_tracker m key expired initial =
     (let m1 = hm_retain (\<lambda>_ v. \<not> expired v) m in
      if hm_get m1 key = None
      then (if length m1 \<ge> MAX_TRACKERS then (m1, Inl (RateLimited 60))
            else (hm_insert key initial m1, Inr ()))
      else (m1, Inr ()))"

section \<open>Rate limiting\<close>

definition RATE_LIMIT :: nat where "RATE_LIMIT = 60"
definition BURST :: nat where "BURST = 10"
definition CAPACITY :: nat where "CAPACITY = RATE_LIMIT + BURST"
definition WINDOW_SECS :: nat where "WINDOW_SECS = 60"

record RateLimitBucket =
  rl_remaining :: nat
  rl_last_refill :: nat

definition as_secs :: "nat \<Rightarrow> nat" where
  "as_secs ms = ms div 1000"

text \<open>The code computes the refill in \<open>f64\<close> and truncates; for the elapsed times that reach it,
  1 to 59 seconds, that is the integer quotient.\<close>

definition refill :: "nat \<Rightarrow> nat" where
  "refill elapsed = elapsed * CAPACITY div WINDOW_SECS"

definition refilled :: "nat \<Rightarrow> RateLimitBucket \<Rightarrow> RateLimitBucket" where
  "refilled now bucket =
     (let elapsed = as_secs (now - rl_last_refill bucket) in
      if elapsed \<ge> WINDOW_SECS then \<lparr>rl_remaining = CAPACITY, rl_last_refill = now\<rparr>
      else if elapsed > 0
      then \<lparr>rl_remaining = min (rl_remaining bucket + refill elapsed) CAPACITY, rl_last_refill = now\<rparr>
      else bucket)"

definition take_token :: "nat \<Rightarrow> RateLimitBucket \<Rightarrow> RateLimitBucket \<times> (AppError + nat)" where
  "take_token now bucket =
     (let b = refilled now bucket in
      if rl_remaining b = 0
      then (b, Inl (RateLimited (max 1 (WINDOW_SECS - as_secs (now - rl_last_refill b)))))
      else (b\<lparr>rl_remaining := rl_remaining b - 1\<rparr>, Inr (rl_remaining b - 1)))"

definition rate_limit_key :: "AuthUser option \<Rightarrow> string \<Rightarrow> string" where
  "rate_limit_key auth ip =
     (case auth of
        Some a \<Rightarrow> if \<not> au_is_guest a then ''user:'' @ au_user_id a else ''ip:'' @ ip
      | None \<Rightarrow> ''ip:'' @ ip)"

definition rate_limit_check ::
    "nat \<Rightarrow> string \<Rightarrow> (string, RateLimitBucket) hmap \<Rightarrow>
     (string, RateLimitBucket) hmap \<times> (AppError + nat)" where
  "rate_limit_check now key limits =
     try_run (reserve_tracker limits key (\<lambda>b. as_secs (now - rl_last_refill b) \<ge> WINDOW_SECS)
                \<lparr>rl_remaining = CAPACITY, rl_last_refill = now\<rparr>)
       (\<lambda>limits _.
          case hm_get limits key of
            None \<Rightarrow> (limits, Inl (RateLimited WINDOW_SECS))
          | Some bucket \<Rightarrow>
              let (b, r) = take_token now bucket in (hm_insert key b limits, r))"

text \<open>The whole middleware: \<open>run\<close> is the handler behind it and \<open>drain_deletions\<close> the attachment
  cleanup of \<open>storage.rs\<close>.  A mutation is followed by both sweeps, whatever its outcome.\<close>

definition rate_limit_middleware ::
    "(app \<Rightarrow> app) \<Rightarrow> nat \<Rightarrow> AuthUser option \<Rightarrow> string \<Rightarrow> bool \<Rightarrow> (app \<Rightarrow> app \<times> 'r) \<Rightarrow>
     (string, RateLimitBucket) hmap \<Rightarrow> app \<Rightarrow>
     (string, RateLimitBucket) hmap \<times> app \<times> (AppError + 'r \<times> nat)" where
  "rate_limit_middleware drain_deletions now auth ip mutation run limits s =
     (case rate_limit_check now (rate_limit_key auth ip) limits of
        (limits', Inl e) \<Rightarrow> (limits', s, Inl e)
      | (limits', Inr remaining) \<Rightarrow>
          let (s1, response) = run s;
              s2 = (if mutation then reconcile_voice_access (drain_deletions s1) else s1)
          in (limits', s2, Inr (response, remaining)))"

section \<open>Facts about admission\<close>

definition admission_inv :: "nat \<Rightarrow> admission \<Rightarrow> bool" where
  "admission_inv cap g \<longleftrightarrow>
     ad_global g + length (ad_permits g) = cap \<and>
     hm_wf (ad_keys g) \<and>
     (\<forall>k a. (k, a) \<in> set (ad_permits g) \<longrightarrow>
        hm_get (ad_keys g) k = Some a \<and> ad_available g a + holders g a = ad_per_key g) \<and>
     (\<forall>k a. hm_get (ad_keys g) k = Some a \<longrightarrow> a < ad_next g) \<and>
     (\<forall>k k' a. hm_get (ad_keys g) k = Some a \<longrightarrow> hm_get (ad_keys g) k' = Some a \<longrightarrow> k = k')"

lemma admission_inv_new: "admission_inv cap (admission_new cap per_key)"
  by (simp add: admission_inv_def admission_new_def)

lemma holders_pos: "0 < holders g a \<longleftrightarrow> (\<exists>k. (k, a) \<in> set (ad_permits g))"
  by (force simp: holders_def filter_empty_conv)

lemma holders_keys [simp]: "holders (g\<lparr>ad_keys := ks\<rparr>) = holders g"
  by (simp add: holders_def fun_eq_iff)

lemma holders_cong: "ad_permits g = ad_permits g' \<Longrightarrow> holders g = holders g'"
  by (simp add: holders_def fun_eq_iff)

lemma key_semaphore_inv:
  assumes "admission_inv cap g" and "key_semaphore key g = (g1, a)"
  shows "admission_inv cap g1 \<and> hm_get (ad_keys g1) key = Some a \<and>
    ad_available g1 a + holders g1 a = ad_per_key g1 \<and>
    ad_permits g1 = ad_permits g \<and> ad_global g1 = ad_global g \<and> ad_per_key g1 = ad_per_key g"
proof -
  define ks where "ks = hm_retain (\<lambda>_ a. holders g a > 0) (ad_keys g)"
  from assms(1) have wf: "hm_wf (ad_keys g)" by (simp add: admission_inv_def)
  have ks: "hm_get ks k = (case hm_get (ad_keys g) k of
      Some b \<Rightarrow> if holders g b > 0 then Some b else None | None \<Rightarrow> None)" for k
    by (simp add: ks_def hm_get_retain [OF wf])
  have ksD: "hm_get (ad_keys g) k = Some b \<and> holders g b > 0" if "hm_get ks k = Some b" for k b
    using that by (auto simp: ks split: option.splits if_splits)
  have kept: "hm_get ks k = Some b" if "(k, b) \<in> set (ad_permits g)" for k b
    using that assms(1) holders_pos [of g b] by (auto simp: admission_inv_def ks)
  have wf_ks: "hm_wf ks" using wf by (simp add: ks_def)
  show ?thesis
  proof (cases "hm_get ks key")
    case (Some b)
    with assms(2) have g1: "g1 = g\<lparr>ad_keys := ks\<rparr>" and a: "a = b"
      by (auto simp: key_semaphore_def ks_def Let_def)
    have h: "holders g1 = holders g" by (rule holders_cong) (simp add: g1)
    from ksD [OF Some] obtain k where k: "(k, b) \<in> set (ad_permits g)" using holders_pos by blast
    have "admission_inv cap g1"
      using assms(1) wf_ks kept unfolding admission_inv_def h g1
      by (auto dest!: ksD)
    with Some k assms(1) h show ?thesis unfolding a by (simp add: g1 admission_inv_def)
  next
    case None
    with assms(2) have a: "a = ad_next g"
      and g1: "g1 = g\<lparr>ad_keys := hm_insert key (ad_next g) ks,
                   ad_available := (ad_available g)(ad_next g := ad_per_key g),
                   ad_next := ad_next g + 1\<rparr>"
      by (auto simp: key_semaphore_def ks_def Let_def)
    have h: "holders g1 = holders g" by (rule holders_cong) (simp add: g1)
    have less: "b < ad_next g" if "(k, b) \<in> set (ad_permits g)" for k b
      using that assms(1) by (auto simp: admission_inv_def)
    then have "holders g (ad_next g) = 0"
      using holders_pos [of g "ad_next g"] by fastforce
    moreover have "admission_inv cap g1"
      unfolding admission_inv_def h
    proof (intro conjI allI impI)
      show "ad_global g1 + length (ad_permits g1) = cap" using assms(1) by (simp add: g1 admission_inv_def)
      show "hm_wf (ad_keys g1)" using wf_ks by (simp add: g1)
    next
      fix k b assume "(k, b) \<in> set (ad_permits g1)"
      then have p: "(k, b) \<in> set (ad_permits g)" by (simp add: g1)
      from kept [OF p] None have "k \<noteq> key" by auto
      with kept [OF p] show "hm_get (ad_keys g1) k = Some b" by (simp add: g1)
      from less [OF p] p assms(1) show "ad_available g1 b + holders g b = ad_per_key g1"
        by (auto simp: g1 admission_inv_def)
    next
      fix k b assume "hm_get (ad_keys g1) k = Some b"
      then show "b < ad_next g1"
        using assms(1) by (auto simp: g1 admission_inv_def dest!: ksD intro: less_SucI split: if_splits)
    next
      fix k k' b assume "hm_get (ad_keys g1) k = Some b" "hm_get (ad_keys g1) k' = Some b"
      moreover have "hm_get ks j \<noteq> Some (ad_next g)" for j
        using assms(1) by (auto simp: admission_inv_def dest!: ksD)
      ultimately show "k = k'"
        using assms(1) by (auto simp: g1 admission_inv_def dest!: ksD split: if_splits)
    qed
    ultimately show ?thesis using a h by (simp add: g1)
  qed
qed

lemma enter_inv:
  assumes inv: "admission_inv cap g"
  shows "admission_inv cap (fst (enter key g)) \<and> ad_per_key (fst (enter key g)) = ad_per_key g"
proof (cases "ad_global g = 0")
  case True
  then show ?thesis using inv by (simp add: enter_def)
next
  case global: False
  obtain g1 a where sem: "key_semaphore key g = (g1, a)" by fastforce
  note g1 = key_semaphore_inv [OF inv sem]
  show ?thesis
  proof (cases "ad_available g1 a = 0")
    case True
    then show ?thesis using global g1 by (simp add: enter_def sem)
  next
    case False
    define g2 where "g2 = g1\<lparr>ad_global := ad_global g1 - 1,
      ad_available := (ad_available g1)(a := ad_available g1 a - 1),
      ad_permits := ad_permits g1 @ [(key, a)]\<rparr>"
    have g2: "fst (enter key g) = g2" using global False by (simp add: enter_def sem g2_def)
    have h: "holders g2 b = holders g1 b + (if b = a then 1 else 0)" for b
      by (simp add: holders_def g2_def)
    have old: "hm_get (ad_keys g1) k = Some b \<and> ad_available g1 b + holders g1 b = ad_per_key g1"
      if "(k, b) \<in> set (ad_permits g2)" for k b
      using that g1 by (auto simp: g2_def admission_inv_def)
    have "hm_get (ad_keys g2) k = Some b \<and> ad_available g2 b + holders g2 b = ad_per_key g2"
      if "(k, b) \<in> set (ad_permits g2)" for k b
      using old [OF that] False unfolding h by (cases "b = a") (auto simp: g2_def)
    moreover have "ad_global g2 + length (ad_permits g2) = cap"
    proof -
      from g1 have "ad_global g1 + length (ad_permits g1) = cap" "ad_global g1 \<noteq> 0"
        using global by (auto simp only: admission_inv_def)
      then show ?thesis by (simp add: g2_def)
    qed
    moreover have "ad_keys g2 = ad_keys g1" "ad_next g2 = ad_next g1" by (simp_all add: g2_def)
    ultimately have "admission_inv cap g2"
      using g1 unfolding admission_inv_def by simp
    then show ?thesis using g1 by (simp add: g2) (simp add: g2_def)
  qed
qed

lemma drop_inv:
  assumes inv: "admission_inv cap g" and p: "p \<in> set (ad_permits g)"
  shows "admission_inv cap (drop_permit p g) \<and> ad_per_key (drop_permit p g) = ad_per_key g"
proof -
  obtain k a where ka: "p = (k, a)" by fastforce
  have split: "length (filter Q xs) = length (filter Q (remove1 p xs)) + (if Q p then 1 else 0)"
    if "p \<in> set xs" for Q and xs :: "(string \<times> nat) list"
    using that by (induction xs) auto
  from split [OF p, of "\<lambda>q. snd q = b" for b]
  have h: "holders g b = holders (drop_permit p g) b + (if b = a then 1 else 0)" for b
    by (auto simp: holders_def drop_permit_def ka)
  have len: "length (ad_permits g) = length (remove1 p (ad_permits g)) + 1"
    using split [OF p, of "\<lambda>_. True"] by simp
  have "ad_available (drop_permit p g) b + holders (drop_permit p g) b = ad_per_key (drop_permit p g)"
    if "(j, b) \<in> set (ad_permits (drop_permit p g))" for j b
  proof -
    from that have "(j, b) \<in> set (ad_permits g)"
      using notin_set_remove1 by (fastforce simp: drop_permit_def)
    with inv have "ad_available g b + holders g b = ad_per_key g" by (auto simp: admission_inv_def)
    with h [of b] show ?thesis by (auto simp: drop_permit_def ka split: if_splits)
  qed
  moreover have "hm_get (ad_keys (drop_permit p g)) j = Some b"
    if "(j, b) \<in> set (ad_permits (drop_permit p g))" for j b
    using that inv notin_set_remove1 by (fastforce simp: drop_permit_def admission_inv_def)
  ultimately show ?thesis
    using inv len unfolding admission_inv_def by (auto simp: drop_permit_def)
qed

lemma admission_reachable_inv:
  assumes "rtranclp admission_step (admission_new cap per_key) g"
  shows "admission_inv cap g \<and> ad_per_key g = per_key"
  using assms
proof (induction rule: rtranclp_induct)
  case base
  then show ?case by (simp add: admission_inv_new) (simp add: admission_new_def)
next
  case (step g g')
  from step.hyps(2) show ?case
    by (rule admission_step_cases) (use step.IH enter_inv drop_inv in auto)
qed

text \<open>Admission control: however callers come and go, at most \<open>cap\<close> permits are live, at most
  \<open>per_key\<close> of them for any one key, and a dropped permit makes room again -- an attempt is refused
  exactly when its key or the whole gate is full.\<close>

theorem admission_bounded:
  assumes "rtranclp admission_step (admission_new cap per_key) g"
  shows "length (ad_permits g) \<le> cap \<and>
    length (filter (\<lambda>p. fst p = key) (ad_permits g)) \<le> per_key \<and>
    (is_ok (snd (enter key g)) \<longleftrightarrow>
       length (ad_permits g) < cap \<and> length (filter (\<lambda>p. fst p = key) (ad_permits g)) < per_key)"
proof -
  from admission_reachable_inv [OF assms] have inv: "admission_inv cap g" and pk: "ad_per_key g = per_key"
    by auto
  obtain g1 a where sem: "key_semaphore key g = (g1, a)" by fastforce
  note g1 = key_semaphore_inv [OF inv sem]
  have same: "fst p = key \<longleftrightarrow> snd p = a" if "p \<in> set (ad_permits g)" for p
  proof -
    from that g1 have "hm_get (ad_keys g1) (fst p) = Some (snd p)"
      by (cases p) (auto simp: admission_inv_def)
    with g1 show ?thesis by (auto simp: admission_inv_def)
  qed
  have count: "length (filter (\<lambda>p. fst p = key) (ad_permits g)) = holders g1 a"
    using g1 same by (simp add: holders_def cong: filter_cong)
  have bound: "ad_available g1 a + holders g1 a = per_key" using g1 pk by simp
  have "ad_global g + length (ad_permits g) = cap" using inv by (simp add: admission_inv_def)
  moreover have "is_ok (snd (enter key g)) \<longleftrightarrow> ad_global g > 0 \<and> ad_available g1 a > 0"
    by (simp add: enter_def sem)
  ultimately show ?thesis using bound count by auto
qed

theorem admission_bounded_witness:
  "\<exists>g. rtranclp admission_step (admission_new 2 1) g \<and> length (ad_permits g) = 2 \<and>
       \<not> is_ok (snd (enter ''c'' g))"
proof -
  let ?g = "fst (enter ''b'' (fst (enter ''a'' (admission_new 2 1))))"
  have r: "rtranclp admission_step (admission_new 2 1) ?g"
    by (rule converse_rtranclp_into_rtranclp, rule admission_step.entering, rule r_into_rtranclp,
        rule admission_step.entering)
  have l: "length (ad_permits ?g) = 2"
    by code_simp
  from admission_bounded [OF r, of "''c''"] l have "\<not> is_ok (snd (enter ''c'' ?g))" by simp
  with r l show ?thesis by blast
qed

section \<open>Facts about trackers and buckets\<close>

text \<open>A tracker map never outgrows its limit, and a caller already tracked is never refused for
  lack of room; a refusal means \<open>MAX_TRACKERS\<close> other keys hold unexpired trackers.\<close>

theorem trackers_bounded:
  assumes "hm_wf m" and "length m \<le> MAX_TRACKERS"
    and "reserve_tracker m key expired initial = (m', r)"
  shows "hm_wf m' \<and> length m' \<le> MAX_TRACKERS \<and>
    (r = Inr () \<longleftrightarrow> hm_get m' key \<noteq> None) \<and>
    (r \<noteq> Inr () \<longrightarrow> length m' = MAX_TRACKERS \<and> (\<forall>(k, v) \<in> set m'. \<not> expired v \<and> k \<noteq> key)) \<and>
    (\<forall>v. hm_get m key = Some v \<and> \<not> expired v \<longrightarrow> r = Inr () \<and> hm_get m' key = Some v)"
proof -
  define m1 where "m1 = hm_retain (\<lambda>_ v. \<not> expired v) m"
  have wf: "hm_wf m1" using assms(1) by (simp add: m1_def)
  have len: "length m1 \<le> MAX_TRACKERS" using assms(2) length_hm_retain [of _ m] by (auto simp: m1_def intro: le_trans)
  have kept: "hm_get m1 key = Some v" if "hm_get m key = Some v" "\<not> expired v" for v
    using that by (simp add: m1_def hm_get_retain [OF assms(1)])
  have fresh: "\<not> expired v" if "(k, v) \<in> set m1" for k v
    using that by (auto simp: m1_def hm_retain_def)
  show ?thesis
  proof (cases "hm_get m1 key")
    case None
    then have out: "key \<notin> fst ` set m1" by (simp add: hm_get_None)
    show ?thesis
    proof (cases "length m1 \<ge> MAX_TRACKERS")
      case True
      with assms(3) None have "m' = m1" "r = Inl (RateLimited 60)"
        by (auto simp: reserve_tracker_def m1_def Let_def)
      moreover have "\<forall>(k, v) \<in> set m1. \<not> expired v \<and> k \<noteq> key"
        using fresh out by force
      ultimately show ?thesis using True None wf len kept by auto
    next
      case False
      with assms(3) None have "m' = hm_insert key initial m1" "r = Inr ()"
        by (auto simp: reserve_tracker_def m1_def Let_def)
      with False None wf kept show ?thesis by (auto simp: length_hm_insert)
    qed
  next
    case (Some v)
    with assms(3) have "m' = m1" "r = Inr ()" by (auto simp: reserve_tracker_def m1_def Let_def)
    with Some wf len kept show ?thesis by auto
  qed
qed

theorem trackers_bounded_witness:
  "let m' = fst (reserve_tracker [(''a'', 5::nat)] ''b'' (\<lambda>v. v < 3) 9)
   in length m' \<le> MAX_TRACKERS \<and> hm_get m' ''a'' = Some 5"
proof -
  let ?m = "[(''a'', 5::nat)]"
  have "hm_wf ?m" by (simp add: hm_wf_def)
  moreover have "length ?m \<le> MAX_TRACKERS" by (simp add: MAX_TRACKERS_def)
  ultimately have "length (fst (reserve_tracker ?m ''b'' (\<lambda>v. v < 3) 9)) \<le> MAX_TRACKERS"
    using trackers_bounded [of ?m "''b''" "\<lambda>v. v < 3" 9] by (metis prod.collapse)
  then show ?thesis by (simp add: reserve_tracker_def hm_retain_def hm_get_def hm_insert_def MAX_TRACKERS_def)
qed

text \<open>
  The credit of a key in units of a 60000th of a token: what its bucket holds and what has accrued
  since, at 70 tokens a minute; past the first second the capacity caps it.
\<close>

definition credit :: "nat \<Rightarrow> RateLimitBucket option \<Rightarrow> nat" where
  "credit now b =
     (case b of
        None \<Rightarrow> 60000 * CAPACITY
      | Some b \<Rightarrow>
          let c = 60000 * rl_remaining b + CAPACITY * (now - rl_last_refill b)
          in if now - rl_last_refill b < 1000 then c else min (60000 * CAPACITY) c)"

definition limits_ok :: "nat \<Rightarrow> (string, RateLimitBucket) hmap \<Rightarrow> bool" where
  "limits_ok now m \<longleftrightarrow> hm_wf m \<and>
     (\<forall>k b. hm_get m k = Some b \<longrightarrow> rl_remaining b \<le> CAPACITY \<and> rl_last_refill b \<le> now)"

lemmas rate_constants = CAPACITY_def RATE_LIMIT_def BURST_def WINDOW_SECS_def

lemma credit_bound:
  "limits_ok now m \<Longrightarrow> credit now (hm_get m k) \<le> 60000 * CAPACITY + CAPACITY * 999"
  by (fastforce simp: credit_def limits_ok_def Let_def rate_constants split: option.split)

lemma credit_later:
  assumes "limits_ok t m" and "t \<le> now"
  shows "credit now (hm_get m k) \<le> credit t (hm_get m k) + CAPACITY * (now - t)"
proof (cases "hm_get m k")
  case (Some b)
  with assms(1) have "rl_last_refill b \<le> t" by (auto simp: limits_ok_def)
  with Some assms(2) show ?thesis by (auto simp: credit_def Let_def rate_constants)
qed (simp add: credit_def)

lemma refill_amount: "60000 * refill e \<le> CAPACITY * (e * 1000)"
  by (simp add: refill_def rate_constants)

lemma refilled_credit:
  assumes "rl_remaining b \<le> CAPACITY" and "rl_last_refill b \<le> now"
  shows "60000 * rl_remaining (refilled now b) + CAPACITY * (now - rl_last_refill (refilled now b))
       \<le> credit now (Some b) \<and>
    now - rl_last_refill (refilled now b) < 1000 \<and>
    rl_remaining (refilled now b) \<le> CAPACITY \<and> rl_last_refill (refilled now b) \<le> now"
proof -
  define e where "e = as_secs (now - rl_last_refill b)"
  have e: "e * 1000 \<le> now - rl_last_refill b" by (simp add: e_def as_secs_def)
  consider (full) "e \<ge> WINDOW_SECS" | (part) "0 < e" "e < WINDOW_SECS" | (same) "e = 0" by linarith
  then show ?thesis
  proof cases
    case full
    then have "refilled now b = \<lparr>rl_remaining = CAPACITY, rl_last_refill = now\<rparr>"
      by (simp add: refilled_def Let_def e_def)
    moreover from full e have "\<not> now - rl_last_refill b < 1000" "60000 \<le> now - rl_last_refill b"
      by (auto simp: rate_constants)
    ultimately show ?thesis by (auto simp: credit_def Let_def rate_constants)
  next
    case part
    then have b': "refilled now b =
        \<lparr>rl_remaining = min (rl_remaining b + refill e) CAPACITY, rl_last_refill = now\<rparr>"
      by (simp add: refilled_def Let_def flip: e_def)
    from part e have late: "\<not> now - rl_last_refill b < 1000" by simp
    have "60000 * refill e \<le> CAPACITY * (now - rl_last_refill b)"
      using refill_amount [of e] e by (meson le_trans mult_le_mono2)
    moreover have "60000 * min (rl_remaining b + refill e) CAPACITY \<le> 60000 * rl_remaining b + 60000 * refill e"
      by (simp add: min_def)
    ultimately show ?thesis using late by (auto simp: b' credit_def Let_def)
  next
    case same
    then have "refilled now b = b" by (simp add: refilled_def Let_def rate_constants flip: e_def)
    moreover from same have "now - rl_last_refill b < 1000" by (simp add: e_def as_secs_def div_eq_0_iff)
    ultimately show ?thesis using assms by (simp add: credit_def Let_def)
  qed
qed

lemma take_token_credit:
  assumes "rl_remaining b \<le> CAPACITY" and "rl_last_refill b \<le> now" and "take_token now b = (b', r)"
  shows "credit now (Some b') + (if is_ok r then 60000 else 0) \<le> credit now (Some b) \<and>
    rl_remaining b' \<le> CAPACITY \<and> rl_last_refill b' \<le> now"
  using refilled_credit [OF assms(1,2)] assms(3)
  by (auto simp: take_token_def Let_def credit_def [of now "Some b'"] split: if_splits)

lemma reserve_credit:
  assumes ok: "limits_ok now m"
    and m': "reserve_tracker m key (\<lambda>b. as_secs (now - rl_last_refill b) \<ge> WINDOW_SECS)
      \<lparr>rl_remaining = CAPACITY, rl_last_refill = now\<rparr> = (m', r)"
  shows "limits_ok now m' \<and> credit now (hm_get m' k) \<le> credit now (hm_get m k)"
proof -
  let ?expired = "\<lambda>b. as_secs (now - rl_last_refill b) \<ge> WINDOW_SECS"
  define m1 where "m1 = hm_retain (\<lambda>_ b. \<not> ?expired b) m"
  have wf: "hm_wf m" using ok by (simp add: limits_ok_def)
  have m1: "hm_get m1 j = (case hm_get m j of Some b \<Rightarrow> if ?expired b then None else Some b | None \<Rightarrow> None)"
    for j by (auto simp: m1_def hm_get_retain [OF wf] split: option.split)
  have ok1: "limits_ok now m1"
    using ok wf by (auto simp: limits_ok_def m1 m1_def [symmetric] hm_wf_retain split: option.splits if_splits)
      (simp add: m1_def)
  have "credit now (Some b) = 60000 * CAPACITY" if "?expired b" for b
    using that by (auto simp: credit_def Let_def as_secs_def rate_constants)
  then have c1: "credit now (hm_get m1 j) \<le> credit now (hm_get m j)" for j
    by (auto simp: m1 credit_def [of now None] split: option.split)
  have new: "credit now (Some \<lparr>rl_remaining = CAPACITY, rl_last_refill = now\<rparr>) = credit now None"
    by (simp add: credit_def)
  from m' have "m' = m1 \<or> hm_get m1 key = None \<and> m' = hm_insert key \<lparr>rl_remaining = CAPACITY, rl_last_refill = now\<rparr> m1"
    by (auto simp: reserve_tracker_def Let_def m1_def split: if_splits)
  then show ?thesis
  proof (elim disjE conjE)
    assume "m' = m1"
    with ok1 c1 show ?thesis by simp
  next
    assume key: "hm_get m1 key = None"
      and "m' = hm_insert key \<lparr>rl_remaining = CAPACITY, rl_last_refill = now\<rparr> m1"
    then show ?thesis using ok1 c1 [of k] c1 [of key] new by (auto simp: limits_ok_def)
  qed
qed

lemma check_credit:
  assumes "limits_ok now m" and "rate_limit_check now key m = (m', r)"
  shows "limits_ok now m' \<and>
    credit now (hm_get m' k) + (if key = k \<and> is_ok r then 60000 else 0) \<le> credit now (hm_get m k)"
proof -
  let ?res = "reserve_tracker m key (\<lambda>b. as_secs (now - rl_last_refill b) \<ge> WINDOW_SECS)
      \<lparr>rl_remaining = CAPACITY, rl_last_refill = now\<rparr>"
  obtain m1 r1 where res: "?res = (m1, r1)" by fastforce
  note c = reserve_credit [OF assms(1) res]
  show ?thesis
  proof (cases r1)
    case (Inl e)
    with assms(2) res c show ?thesis by (auto simp: rate_limit_check_def)
  next
    case (Inr x)
    show ?thesis
    proof (cases "hm_get m1 key")
      case None
      with assms(2) res Inr c show ?thesis by (auto simp: rate_limit_check_def)
    next
      case (Some b)
      obtain b' r' where tok: "take_token now b = (b', r')" by fastforce
      with assms(2) res Inr Some have m': "m' = hm_insert key b' m1" "r = r'"
        by (auto simp: rate_limit_check_def)
      from c Some have "rl_remaining b \<le> CAPACITY" "rl_last_refill b \<le> now"
        by (auto simp: limits_ok_def)
      from take_token_credit [OF this tok] c [of k] c [of key] Some show ?thesis
        by (auto simp: m' limits_ok_def)
    qed
  qed
qed

text \<open>How many of a sequence of requests \<open>(instant, key)\<close> are let through for a key.\<close>

fun accepted :: "string \<Rightarrow> (nat \<times> string) list \<Rightarrow> (string, RateLimitBucket) hmap \<Rightarrow> nat" where
  "accepted k [] m = 0"
| "accepted k ((now, key) # reqs) m =
     (let (m', r) = rate_limit_check now key m
      in (if key = k \<and> is_ok r then 1 else 0) + accepted k reqs m')"

lemma accepted_credit:
  assumes "limits_ok t m" and "sorted (map fst reqs)" and "\<forall>q \<in> set reqs. t \<le> fst q \<and> fst q \<le> t1" and "t \<le> t1"
  shows "60000 * accepted k reqs m \<le> credit t (hm_get m k) + CAPACITY * (t1 - t)"
  using assms
proof (induction reqs arbitrary: t m)
  case (Cons q reqs)
  obtain now key where q: "q = (now, key)" by fastforce
  obtain m' r where chk: "rate_limit_check now key m = (m', r)" by fastforce
  from Cons.prems q have t: "t \<le> now" "now \<le> t1" by auto
  have ok: "limits_ok now m" using Cons.prems(1) t by (auto simp: limits_ok_def intro: le_trans)
  note step = check_credit [OF ok chk]
  have "60000 * accepted k reqs m' \<le> credit now (hm_get m' k) + CAPACITY * (t1 - now)"
    using Cons.prems q t step by (intro Cons.IH) auto
  moreover have "credit now (hm_get m k) \<le> credit t (hm_get m k) + CAPACITY * (now - t)"
    using credit_later [OF Cons.prems(1) t(1)] .
  moreover have "CAPACITY * (now - t) + CAPACITY * (t1 - now) = CAPACITY * (t1 - t)"
    using t by (simp flip: distrib_left)
  ultimately show ?case using step [of k] by (auto simp: q chk split: if_splits)
qed simp

text \<open>The rate limit holds over every span of time: whatever requests arrive between \<open>t\<close> and
  \<open>t1\<close> (milliseconds), from any keys, a key gets through at most its capacity of 70, plus 70 a minute
  for the span, plus what may accrue within a second before it.\<close>

theorem rate_limit_bound:
  assumes "limits_ok t m" and "sorted (map fst reqs)"
    and "\<forall>q \<in> set reqs. t \<le> fst q \<and> fst q \<le> t1" and "t \<le> t1"
  shows "60000 * accepted k reqs m \<le> 60000 * 70 + 70 * 999 + 70 * (t1 - t)"
  using accepted_credit [OF assms, of k] credit_bound [OF assms(1), of k]
  by (simp add: rate_constants)

theorem rate_limit_bound_witness:
  "accepted ''user:a'' (replicate 80 (5, ''user:a'')) [] = 70 \<and>
   60000 * accepted ''user:a'' (replicate 80 (5, ''user:a'')) [] \<le> 60000 * 70 + 70 * 999 + 70 * (5 - 5)"
proof
  show "accepted ''user:a'' (replicate 80 (5, ''user:a'')) [] = 70" by code_simp
  show "60000 * accepted ''user:a'' (replicate 80 (5, ''user:a'')) [] \<le> 60000 * 70 + 70 * 999 + 70 * (5 - 5)"
    by (rule rate_limit_bound [where t = 5])
      (simp_all add: limits_ok_def sorted_replicate)
qed

end
