(* ===== verification/Resume.thy ===== *)
theory Resume
  imports Prelude
begin

text \<open>
  Gateway intents and the replay buffer: \<open>Server/src/gateway/intents.rs\<close> and
  \<open>Server/src/gateway/resume.rs\<close>.

  What a resuming client relies on is the locale \<open>replay_log\<close>: a bounded buffer that answers
  which events followed a sequence number, exactly or not at all.
\<close>

section \<open>Intents\<close>

definition ALL_INTENTS :: "string list" where
  "ALL_INTENTS =
     [''spaces'', ''moderation'', ''emojis'', ''soundboard'', ''voice_states'', ''messages'',
      ''message_reactions'', ''message_typing'', ''direct_messages'', ''dm_reactions'', ''dm_typing'',
      ''scheduled_events'', ''plugins'', ''relationships'', ''members'', ''presences'', ''message_content'']"

definition PRIVILEGED_INTENTS :: "string list" where
  "PRIVILEGED_INTENTS = [''members'', ''presences'', ''message_content'']"

definition intent_for_event :: "string \<Rightarrow> string option" where
  "intent_for_event ty =
     (if ty \<in> {''message.create'', ''message.update'', ''message.delete'', ''message.delete_bulk''}
      then Some ''messages''
      else if ty \<in> {''member.join'', ''member.leave'', ''member.update'', ''member.chunk''}
      then Some ''members''
      else if ty \<in> {''space.create'', ''space.update'', ''space.delete''} then Some ''spaces''
      else if ty \<in> {''channel.create'', ''channel.update'', ''channel.delete'', ''channel.reorder'',
                     ''channel.pins_update''} then Some ''spaces''
      else if ty \<in> {''role.create'', ''role.update'', ''role.delete''} then Some ''spaces''
      else if ty \<in> {''reaction.add'', ''reaction.remove'', ''reaction.clear'', ''reaction.clear_emoji''}
      then Some ''message_reactions''
      else if ty = ''typing.start'' then Some ''message_typing''
      else if ty = ''presence.update'' then Some ''presences''
      else if ty \<in> {''voice.state_update'', ''voice.server_update'', ''voice.signal''}
      then Some ''voice_states''
      else if ty \<in> {''call.ring'', ''call.accept'', ''call.decline'', ''call.cancel'', ''call.end''}
      then Some ''voice_states''
      else if ty \<in> {''ban.create'', ''ban.delete'', ''audit_log.create'', ''automod.upload_update''}
      then Some ''moderation''
      else if ty = ''automod.upload_status'' then Some ''messages''
      else if ty \<in> {''invite.create'', ''invite.delete''} then Some ''spaces''
      else if ty \<in> {''emoji.create'', ''emoji.update'', ''emoji.delete''} then Some ''emojis''
      else if ty \<in> {''soundboard.create'', ''soundboard.update'', ''soundboard.delete'', ''soundboard.play''}
      then Some ''soundboard''
      else if ty \<in> {''relationship.add'', ''relationship.update'', ''relationship.remove''}
      then Some ''relationships''
      else if ty \<in> {''plugin.installed'', ''plugin.uninstalled'', ''plugin.event'',
                     ''plugin.session_state'', ''plugin.role_changed''} then Some ''plugins''
      else None)"

definition has_intent :: "string list \<Rightarrow> string \<Rightarrow> bool" where
  "has_intent intents event_type =
     (case intent_for_event event_type of
        Some required \<Rightarrow> list_ex (\<lambda>i. i = required) intents
      | None \<Rightarrow> True)"

section \<open>The replay buffer\<close>

definition REPLAY_BUFFER_LIMIT :: nat where
  "REPLAY_BUFFER_LIMIT = 256"

text \<open>\<open>while buffer.len() > LIMIT { buffer.pop_front(); }\<close>\<close>

fun evict_oldest :: "'a list \<Rightarrow> 'a list" where
  "evict_oldest [] = []"
| "evict_oldest (x # xs) = (if length (x # xs) > REPLAY_BUFFER_LIMIT then evict_oldest xs else x # xs)"

definition push :: "(nat \<times> 'p) list \<Rightarrow> nat \<Rightarrow> 'p \<Rightarrow> (nat \<times> 'p) list" where
  "push buffer seq payload = evict_oldest (buffer @ [(seq, payload)])"

definition missed_since :: "(nat \<times> 'p) list \<Rightarrow> nat \<Rightarrow> nat \<Rightarrow> 'p list option" where
  "missed_since buffer current_seq after_seq =
     (if after_seq > current_seq then None
      else if after_seq = current_seq then Some []
      else case buffer of
             (oldest, _) # _ \<Rightarrow>
               if oldest \<le> after_seq + 1
               then Some (map snd (filter (\<lambda>(seq, _). seq > after_seq) buffer))
               else None
           | [] \<Rightarrow> None)"

section \<open>The interface\<close>

text \<open>
  \<open>keeps base log b\<close>: the buffer \<open>b\<close> belongs to a session whose first sequence number was \<open>base\<close> and
  which has dispatched the events \<open>log\<close> since, numbered from \<open>base + 1\<close>.
\<close>

locale replay_log =
  fixes empty :: 'b
    and append :: "'b \<Rightarrow> nat \<Rightarrow> 'p \<Rightarrow> 'b"
    and since :: "'b \<Rightarrow> nat \<Rightarrow> nat \<Rightarrow> 'p list option"
    and keeps :: "nat \<Rightarrow> 'p list \<Rightarrow> 'b \<Rightarrow> bool"
    and capacity :: nat
  assumes keeps_empty: "keeps base [] empty"
    and keeps_append: "keeps base log b \<Longrightarrow> keeps base (log @ [p]) (append b (base + length log + 1) p)"
    and since_sound: "keeps base log b \<Longrightarrow> base \<le> n \<Longrightarrow> since b (base + length log) n = Some ps \<Longrightarrow>
      n \<le> base + length log \<and> ps = drop (n - base) log"
    and since_complete: "keeps base log b \<Longrightarrow> base \<le> n \<Longrightarrow> n \<le> base + length log \<Longrightarrow>
      base + length log \<le> n + capacity \<Longrightarrow> since b (base + length log) n \<noteq> None"
begin

text \<open>Dispatching a list of events.\<close>

fun append_all :: "'b \<Rightarrow> nat \<Rightarrow> 'p list \<Rightarrow> 'b" where
  "append_all b seq [] = b"
| "append_all b seq (p # ps) = append_all (append b (seq + 1) p) (seq + 1) ps"

lemma keeps_append_all:
  "keeps base log b \<Longrightarrow> keeps base (log @ ps) (append_all b (base + length log) ps)"
proof (induction ps arbitrary: log b)
  case (Cons p ps)
  from Cons.IH [OF keeps_append [OF Cons.prems], of p] show ?case by (simp add: add.assoc)
qed simp

text \<open>A client that has processed everything up to \<open>n\<close> and is told it resumed has then processed
  everything, once and in order.\<close>

lemma resume_completes:
  assumes "keeps base log b" and "base \<le> n" and "since b (base + length log) n = Some ps"
  shows "take (n - base) log @ ps = log"
  using since_sound [OF assms] by simp

text \<open>A client no more than \<open>capacity\<close> events behind is always told.\<close>

lemma resume_within_capacity:
  assumes "keeps base log b" and "base \<le> n" and "n \<le> base + length log"
    and "base + length log \<le> n + capacity"
  shows "since b (base + length log) n = Some (drop (n - base) log)"
  using since_complete [OF assms] since_sound [OF assms(1,2)] by fastforce

text \<open>Going away for a while and resuming gives the client what it would have seen connected.\<close>

lemma away_and_back:
  assumes "keeps base log b" and "length ps \<le> capacity"
  shows "since (append_all b (base + length log) ps) (base + length log + length ps) (base + length log) = Some ps"
  using resume_within_capacity [OF keeps_append_all [OF assms(1)], of "base + length log" ps] assms(2)
  by (simp add: add.assoc)

end

section \<open>The buffer implements it\<close>

fun numbered :: "nat \<Rightarrow> 'p list \<Rightarrow> (nat \<times> 'p) list" where
  "numbered a [] = []"
| "numbered a (x # xs) = (a, x) # numbered (Suc a) xs"

lemma length_numbered [simp]: "length (numbered a xs) = length xs"
  by (induction xs arbitrary: a) simp_all

lemma numbered_snoc: "numbered a (xs @ [x]) = numbered a xs @ [(a + length xs, x)]"
  by (induction xs arbitrary: a) simp_all

lemma drop_numbered: "drop k (numbered a xs) = numbered (a + k) (drop k xs)"
proof (induction xs arbitrary: a k)
  case (Cons x xs)
  then show ?case by (cases k) simp_all
qed simp

lemma filter_numbered:
  "map snd (filter (\<lambda>(s, _). s > n) (numbered a xs)) = drop (Suc n - a) xs"
proof (induction xs arbitrary: a)
  case (Cons x xs)
  from Cons.IH [of "Suc a"] show ?case by (cases "a > n") (simp_all add: Suc_diff_le not_less)
qed simp

lemma numbered_range: "(n, p) \<in> set (numbered a xs) \<Longrightarrow> a \<le> n \<and> n < a + length xs"
  by (induction xs arbitrary: a) force+

text \<open>Asked for the event after the last one kept, the buffer has nothing to add.\<close>

lemma missed_since_beyond:
  assumes "b \<noteq> []" and "fst (hd b) \<le> n + 1" and "\<forall>q \<in> set b. fst q \<le> n"
  shows "missed_since b (n + 1) n = Some []"
proof -
  obtain k x ys where "b = (k, x) # ys" using assms(1) by (cases b) auto
  with assms(2,3) show ?thesis by (auto simp: missed_since_def filter_empty_conv)
qed

definition buffer_keeps :: "nat \<Rightarrow> 'p list \<Rightarrow> (nat \<times> 'p) list \<Rightarrow> bool" where
  "buffer_keeps base log buffer \<longleftrightarrow>
     buffer = drop (length log - REPLAY_BUFFER_LIMIT) (numbered (base + 1) log)"

lemma evict_oldest_drop: "evict_oldest xs = drop (length xs - REPLAY_BUFFER_LIMIT) xs"
proof (induction xs)
  case (Cons x xs)
  then show ?case
    by (cases "length xs + 1 > REPLAY_BUFFER_LIMIT") (auto simp: Suc_diff_le)
qed simp

lemma length_evict_oldest: "length (evict_oldest xs) \<le> REPLAY_BUFFER_LIMIT"
  by (simp add: evict_oldest_drop)

lemma buffer_keeps_append:
  assumes "buffer_keeps base log b"
  shows "buffer_keeps base (log @ [p]) (push b (base + length log + 1) p)"
proof -
  let ?k = "length log - REPLAY_BUFFER_LIMIT"
  let ?z = "numbered (base + 1) (log @ [p])"
  have b: "b @ [(base + length log + 1, p)] = drop ?k ?z"
    using assms by (simp add: buffer_keeps_def numbered_snoc)
  have "push b (base + length log + 1) p = drop (length (drop ?k ?z) - REPLAY_BUFFER_LIMIT + ?k) ?z"
    unfolding push_def evict_oldest_drop b by simp
  also have "length (drop ?k ?z) - REPLAY_BUFFER_LIMIT + ?k = length (log @ [p]) - REPLAY_BUFFER_LIMIT"
    by (simp add: REPLAY_BUFFER_LIMIT_def)
  finally show ?thesis by (simp only: buffer_keeps_def)
qed

lemma buffer_since:
  assumes "buffer_keeps base log b" and "base \<le> n"
  shows "missed_since b (base + length log) n =
    (if n \<le> base + length log \<and> base + length log \<le> n + REPLAY_BUFFER_LIMIT
     then Some (drop (n - base) log) else None)"
proof -
  let ?k = "length log - REPLAY_BUFFER_LIMIT"
  have b: "b = numbered (base + 1 + ?k) (drop ?k log)"
    using assms(1) by (simp add: buffer_keeps_def drop_numbered)
  show ?thesis
  proof (cases "n < base + length log")
    case False
    with assms(2) show ?thesis by (auto simp: missed_since_def)
  next
    case True
    then have "drop ?k log \<noteq> []" using assms(2) by (auto simp: REPLAY_BUFFER_LIMIT_def)
    then obtain x xs where x: "drop ?k log = x # xs" by (cases "drop ?k log") auto
    then have front: "b = (base + 1 + ?k, x) # numbered (Suc (base + 1 + ?k)) xs"
      unfolding b by simp
    have rest: "map snd (filter (\<lambda>(s, _). s > n) b) = drop (Suc n - (base + 1 + ?k)) (drop ?k log)"
      unfolding b by (rule filter_numbered)
    have old: "missed_since b (base + length log) n =
        (if base + 1 + ?k \<le> n + 1 then Some (map snd (filter (\<lambda>(s, _). s > n) b)) else None)"
      using True by (simp add: missed_since_def front)
    show ?thesis
    proof (cases "base + ?k \<le> n")
      case True
      with \<open>n < base + length log\<close> assms(2) have "base + length log \<le> n + REPLAY_BUFFER_LIMIT" by linarith
      moreover have "drop (Suc n - (base + 1 + ?k)) (drop ?k log) = drop (n - base) log"
        using True by simp
      ultimately show ?thesis using \<open>n < base + length log\<close> True by (simp only: old rest) simp
    next
      case False
      with \<open>n < base + length log\<close> assms(2) have "\<not> base + length log \<le> n + REPLAY_BUFFER_LIMIT" by linarith
      with False \<open>n < base + length log\<close> show ?thesis by (simp add: old)
    qed
  qed
qed

interpretation buffer: replay_log "[]" push missed_since buffer_keeps REPLAY_BUFFER_LIMIT
proof unfold_locales
  fix base n :: nat and log ps :: "'p list" and b :: "(nat \<times> 'p) list"
  assume k: "buffer_keeps base log b" and n: "base \<le> n"
  note eq = buffer_since [OF k n]
  show "n \<le> base + length log \<and> ps = drop (n - base) log"
    if "missed_since b (base + length log) n = Some ps"
    using that unfolding eq by (auto split: if_splits)
  show "missed_since b (base + length log) n \<noteq> None"
    if "n \<le> base + length log" "base + length log \<le> n + REPLAY_BUFFER_LIMIT"
    using that unfolding eq by simp
qed (simp_all only: buffer_keeps_append, simp add: buffer_keeps_def)

section \<open>Properties\<close>

text \<open>A RESUME is answered with exactly the missed events or not at all: for a session that
  started at \<open>base\<close> and dispatched \<open>log\<close> since, a client that has processed the events up to \<open>n\<close> gets
  precisely the rest, in order, when it is at most 256 events behind, and is told to start over
  otherwise.\<close>

theorem missed_since_exact:
  assumes "buffer_keeps base log b" and "base \<le> n"
  shows "missed_since b (base + length log) n =
    (if n \<le> base + length log \<and> base + length log \<le> n + 256 then Some (drop (n - base) log) else None)"
  using buffer_since [OF assms] by (auto simp: REPLAY_BUFFER_LIMIT_def)

theorem missed_since_exact_witness:
  "missed_since (push (push [] 2 ''a'') 3 ''b'') 3 2 = Some [''b''] \<and>
   missed_since (push (push [] 2 ''a'') 3 ''b'') 3 4 = None"
proof -
  have k: "buffer_keeps 1 [''a'', ''b''] (push (push [] 2 ''a'') 3 ''b'')"
    by (simp add: buffer_keeps_def push_def REPLAY_BUFFER_LIMIT_def)
  show ?thesis
    using missed_since_exact [OF k, of 2] missed_since_exact [OF k, of 4] by (simp add: numeral_3_eq_3)
qed

text \<open>Being away is invisible: whatever up to 256 events a parked session collects, the client that
  comes back having seen everything before gets exactly those.\<close>

theorem parked_events_replayed:
  assumes "buffer_keeps base log b" and "length ps \<le> 256"
  shows "missed_since (buffer.append_all b (base + length log) ps)
      (base + length log + length ps) (base + length log) = Some ps"
  using buffer.away_and_back [OF assms(1)] assms(2) by (simp add: REPLAY_BUFFER_LIMIT_def)

theorem parked_events_replayed_witness:
  "missed_since (buffer.append_all [] 1 [''x'', ''y'']) 3 1 = Some [''x'', ''y'']"
proof -
  have "buffer_keeps 1 [] ([] :: (nat \<times> string) list)" by (simp add: buffer_keeps_def)
  from parked_events_replayed [OF this, of "[''x'', ''y'']"] show ?thesis by (simp add: numeral_3_eq_3)
qed

text \<open>A client that names no sequence number (0) never resumes a session, not even one that has
  dispatched nothing since READY.\<close>

lemma resume_without_seq:
  assumes "buffer_keeps 1 log b"
  shows "missed_since b (1 + length log) 0 = None"
proof -
  have "b = [] \<or> (\<exists>n x xs. b = (n + 2, x) # xs)"
  proof (cases "drop (length log - REPLAY_BUFFER_LIMIT) log")
    case Nil
    with assms show ?thesis by (simp add: buffer_keeps_def drop_numbered)
  next
    case (Cons x xs)
    with assms have "b = (length log - REPLAY_BUFFER_LIMIT + 2, x) #
        numbered (Suc (length log - REPLAY_BUFFER_LIMIT + 2)) xs"
      by (simp add: buffer_keeps_def drop_numbered)
    then show ?thesis by blast
  qed
  then show ?thesis by (auto simp: missed_since_def)
qed

end
