(* ===== verification/Gateway.thy ===== *)
theory Gateway
  imports Voice Resume
begin

text \<open>
  What the gateway does with one broadcast and one presence: the filtering, stamping and presence
  helpers of \<open>Server/src/gateway/mod.rs\<close>.  A \<open>HashSet\<close> of ids is a list; only membership in it
  matters, except for the scoped space of a guest, its one element.
\<close>

section \<open>Broadcast filtering\<close>

datatype Delivery =
    Skip
  | RefreshMutes
  | RefreshSpaces "json option"
  | SendEvent json

text \<open>\<open>value[key]\<close>, null when absent, and \<open>value.get(key)?.as_str()\<close>.\<close>

definition json_index :: "string \<Rightarrow> json \<Rightarrow> json" where
  "json_index k j = (case jget k j of Some v \<Rightarrow> v | None \<Rightarrow> JNull)"

definition get_str :: "string \<Rightarrow> json \<Rightarrow> string option" where
  "get_str k j = Option.bind (jget k j) as_str"

definition event_type_of :: "json \<Rightarrow> string" where
  "event_type_of event = (case get_str ''type'' event of Some t \<Rightarrow> t | None \<Rightarrow> [])"

definition membership_event_subject :: "json \<Rightarrow> string option" where
  "membership_event_subject event =
     (case jget ''data'' event of
        None \<Rightarrow> None
      | Some data \<Rightarrow>
          (case get_str ''user_id'' data of
             Some u \<Rightarrow> Some u
           | None \<Rightarrow> Option.bind (jget ''user'' data) (get_str ''id'')))"

definition can_receive_channel :: "db \<Rightarrow> string \<Rightarrow> string list \<Rightarrow> string \<Rightarrow> bool \<Rightarrow> bool" where
  "can_receive_channel d user_id space_ids channel_id history =
     (case get_channel_row d channel_id of
        Inl _ \<Rightarrow> False
      | Inr channel \<Rightarrow>
          let is_guest = starts_with user_id ''guest:'';
              auth = \<lparr>au_user_id = user_id, au_is_bot = False, au_is_admin = False,
                      au_is_guest = is_guest,
                      au_guest_space_id =
                        (if is_guest then (case space_ids of [] \<Rightarrow> None | s # _ \<Rightarrow> Some s) else None)\<rparr>
          in is_ok (require_channel_read_access d channel (Some auth) history))"

text \<open>The filter of plugin events: the space they are for, and the channel of the event or of the
  plugin session it names, must admit the user.\<close>

definition plugin_channel :: "db \<Rightarrow> json \<Rightarrow> string option" where
  "plugin_channel d event =
     (let data = json_index ''data'' event in
      case as_str (json_index ''channel_id'' data) of
        Some i \<Rightarrow> Some i
      | None \<Rightarrow>
          (case as_str (json_index ''session_id'' data) of
             Some i \<Rightarrow> ok (get_plugin_session_channel d i)
           | None \<Rightarrow> None))"

definition plugin_hidden :: "db \<Rightarrow> GatewayBroadcast \<Rightarrow> string \<Rightarrow> bool" where
  "plugin_hidden d b user_id \<longleftrightarrow>
     starts_with (event_type_of (gb_event b)) ''plugin.'' \<and>
     ((case gb_space_id b of
         Some space_id \<Rightarrow> \<not> is_ok (require_membership d space_id user_id) | None \<Rightarrow> False) \<or>
      (case plugin_channel d (gb_event b) of
         Some channel \<Rightarrow> \<not> is_ok (require_channel_membership d channel user_id) | None \<Rightarrow> False))"

definition should_receive :: "GatewayBroadcast \<Rightarrow> string \<Rightarrow> string list \<Rightarrow> bool" where
  "should_receive b user_id space_ids =
     (case gb_target_user_ids b of
        Some targets \<Rightarrow> list_ex (\<lambda>t. t = user_id) targets
      | None \<Rightarrow> (case gb_space_id b of Some sid \<Rightarrow> sid \<in> set space_ids | None \<Rightarrow> True))"

text \<open>The channel an event is about: its \<open>channel_id\<close>, or the \<open>id\<close> of a channel event, except for the
  tombstone of a deleted channel.\<close>

definition event_channel :: "json \<Rightarrow> string option" where
  "event_channel event =
     (let event_type = event_type_of event in
      case jget ''data'' event of
        None \<Rightarrow> None
      | Some data \<Rightarrow>
          if event_type = ''channel.delete'' then None
          else (case get_str ''channel_id'' data of
                  Some i \<Rightarrow> Some i
                | None \<Rightarrow> if starts_with event_type ''channel.'' then get_str ''id'' data else None))"

text \<open>The current permission behind an event that carries one.\<close>

definition holds_permission :: "db \<Rightarrow> GatewayBroadcast \<Rightarrow> string \<Rightarrow> bool" where
  "holds_permission d b user_id =
     (case gb_required_permission b of
        None \<Rightarrow> True
      | Some perm \<Rightarrow>
          (case get_user d user_id of
             Inl _ \<Rightarrow> False
           | Inr user \<Rightarrow>
               \<not> us_disabled user \<and>
               (let auth = \<lparr>au_user_id = user_id, au_is_bot = us_bot user, au_is_admin = us_is_admin user,
                            au_is_guest = False, au_guest_space_id = None\<rparr>
                in case gb_space_id b of
                     Some space \<Rightarrow> is_ok (require_permission d space auth perm)
                   | None \<Rightarrow> au_is_admin auth)))"

definition classify_broadcast ::
    "db \<Rightarrow> GatewayBroadcast \<Rightarrow> string \<Rightarrow> string list \<Rightarrow> string list \<Rightarrow> string list \<Rightarrow> Delivery" where
  "classify_broadcast d b user_id space_ids muted_channel_ids intents =
     (let event = gb_event b; event_type = event_type_of event in
      if plugin_hidden d b user_id then Skip
      else if event_type \<in> {''member.join'', ''member.leave''} \<and>
              membership_event_subject event = Some user_id
      then RefreshSpaces (if has_intent intents event_type then Some event else None)
      else if \<not> should_receive b user_id space_ids then Skip
      else if (case event_channel event of
                 Some channel_id \<Rightarrow>
                   \<not> can_receive_channel d user_id space_ids channel_id (starts_with event_type ''message.'')
               | None \<Rightarrow> False)
      then Skip
      else if event_type = ''channel_mute.create'' \<or> event_type = ''channel_mute.delete'' then RefreshMutes
      else if \<not> has_intent intents event_type then Skip
      else if \<not> holds_permission d b user_id then Skip
      else SendEvent event)"

section \<open>Spaces and sequence numbers\<close>

definition reload_space_ids :: "db \<Rightarrow> string \<Rightarrow> bool \<Rightarrow> string list \<Rightarrow> string list" where
  "reload_space_ids d user_id is_guest_session current =
     (if is_guest_session then current
      else case list_space_ids_for_user d user_id of Inr sids \<Rightarrow> remdups sids | Inl _ \<Rightarrow> current)"

definition sync_session_spaces :: "app \<Rightarrow> string \<Rightarrow> string list \<Rightarrow> app" where
  "sync_session_spaces s session_id space_ids =
     (case hm_get (sessions s) session_id of
        None \<Rightarrow> s
      | Some g \<Rightarrow> s\<lparr>sessions := hm_insert session_id (g\<lparr>gs_space_ids := space_ids\<rparr>) (sessions s)\<rparr>)"

definition stamp_seq :: "json \<Rightarrow> nat \<Rightarrow> json" where
  "stamp_seq event seq = jinsert ''seq'' (JNum (int seq)) event"

section \<open>Presence\<close>

definition VALID_STATUSES :: "string list" where
  "VALID_STATUSES = [''online'', ''idle'', ''dnd'', ''invisible'']"

definition parse_presence_payload :: "json \<Rightarrow> string option \<times> json list option" where
  "parse_presence_payload value =
     ((case get_str ''status'' value of
         Some st \<Rightarrow> if st \<in> set VALID_STATUSES then Some st else None | None \<Rightarrow> None),
      (case Option.bind (jget ''activities'' value) as_array of
         Some xs \<Rightarrow> Some xs
       | None \<Rightarrow>
           (case jget ''activity'' value of
              Some a \<Rightarrow> if a \<noteq> JNull then Some [a] else None | None \<Rightarrow> None)))"

definition presence_event :: "string \<Rightarrow> string \<Rightarrow> json list \<Rightarrow> json" where
  "presence_event user_id new_status activities =
     (let visible = (if new_status = ''invisible'' then ''offline'' else new_status);
          client_status = (if visible = ''offline'' then JObj [] else JObj [(''desktop'', JStr visible)])
      in JObj [(''op'', JNum 0), (''type'', JStr ''presence.update''),
               (''data'', JObj [(''user_id'', JStr user_id), (''status'', JStr visible),
                               (''client_status'', client_status), (''activities'', JArr activities)])])"

definition broadcast_presence ::
    "app \<Rightarrow> string \<Rightarrow> string list \<Rightarrow> string list \<Rightarrow> string \<Rightarrow> json list \<Rightarrow> app" where
  "broadcast_presence s user_id space_ids friend_ids new_status activities =
     (let event = presence_event user_id new_status activities;
          s1 = foldl (\<lambda>s sid. send \<lparr>gb_space_id = Some sid, gb_target_user_ids = None, gb_event = event,
                 gb_intent = ''presences'', gb_required_permission = None\<rparr> s) s space_ids
      in if friend_ids = [] then s1
         else send \<lparr>gb_space_id = None, gb_target_user_ids = Some friend_ids, gb_event = event,
                gb_intent = ''presences'', gb_required_permission = None\<rparr> s1)"

text \<open>The presences of READY: those stored for the members of the session's spaces.\<close>

definition presence_json :: "Presence \<Rightarrow> json" where
  "presence_json p = JObj
     [(''user_id'', JStr (pr_user_id p)), (''status'', JStr (pr_status p)),
      (''client_status'', JObj [(''desktop'', jstr_opt (cs_desktop (pr_client_status p))),
                                (''mobile'', jstr_opt (cs_mobile (pr_client_status p))),
                                (''web'', jstr_opt (cs_web (pr_client_status p)))]),
      (''activities'', JArr (pr_activities p)), (''space_id'', jstr_opt (pr_space_id p))]"

definition ready_presences :: "app \<Rightarrow> bool \<Rightarrow> string list \<Rightarrow> json list" where
  "ready_presences s is_guest_session space_ids =
     (if is_guest_session then []
      else map presence_json (get_space_presences s
             (push_missing [] (concat (map (\<lambda>sid. or_default (list_member_ids_for_space (ap_db s) sid)) space_ids)))))"

definition end_dm_call_if_empty :: "app \<Rightarrow> VoiceState \<Rightarrow> string \<Rightarrow> string \<Rightarrow> app" where
  "end_dm_call_if_empty s old_vs channel_id user_id =
     (if vs_space_id old_vs \<noteq> None \<or> get_channel_voice_states s channel_id \<noteq> [] then s
      else broadcast_call_event s channel_id ''call.end'' (call_user_json channel_id user_id))"

section \<open>Properties\<close>

lemma classify_SendEvent:
  "classify_broadcast d b u sids muted intents = SendEvent e \<Longrightarrow>
     e = gb_event b \<and> \<not> plugin_hidden d b u \<and> should_receive b u sids \<and>
     (\<forall>c. event_channel e = Some c \<longrightarrow>
        can_receive_channel d u sids c (starts_with (event_type_of e) ''message.'')) \<and>
     has_intent intents (event_type_of e) \<and> holds_permission d b u"
  unfolding classify_broadcast_def Let_def
  by (cases "event_channel (gb_event b)") (simp_all split: if_splits)

lemma should_receive_iff:
  "should_receive b u sids \<longleftrightarrow>
     (case gb_target_user_ids b of
        Some targets \<Rightarrow> u \<in> set targets
      | None \<Rightarrow> (case gb_space_id b of Some sid \<Rightarrow> sid \<in> set sids | None \<Rightarrow> True))"
  by (auto simp: should_receive_def list_ex_iff split: option.split)

lemma has_intent_iff:
  "has_intent intents ty \<longleftrightarrow> (\<forall>i. intent_for_event ty = Some i \<longrightarrow> i \<in> set intents)"
  by (auto simp: has_intent_def list_ex_iff split: option.split)

lemma holds_permissionD:
  "holds_permission d b u \<Longrightarrow> gb_required_permission b = Some perm \<Longrightarrow>
     \<exists>user. get_user d u = Inr user \<and> \<not> us_disabled user \<and>
       (us_is_admin user \<or> (\<exists>sp. gb_space_id b = Some sp \<and> space_allows d sp u perm))"
  by (auto simp: holds_permission_def is_ok_iff require_permission_permitted permitted_def
      split: sum.splits option.splits)


definition moderation_event :: GatewayBroadcast where
  "moderation_event = \<lparr>gb_space_id = Some ''s'', gb_target_user_ids = None,
     gb_event = JObj [(''op'', JNum 0), (''type'', JStr ''ban.create''), (''data'', JObj [])],
     gb_intent = ''moderation'', gb_required_permission = Some ''kick_members''\<rparr>"


text \<open>A session never goes deaf to its own memberships: an event that the user joined or left a
  space always reloads the spaces of the session, whatever the session was subscribed to before
  (a plugin event cannot be one of these).\<close>

theorem own_membership_refreshes:
  assumes "event_type_of (gb_event b) = ''member.join'' \<or> event_type_of (gb_event b) = ''member.leave''"
    and "membership_event_subject (gb_event b) = Some u"
  shows "\<exists>e. classify_broadcast d b u sids muted intents = RefreshSpaces e \<and>
    (e = None \<or> e = Some (gb_event b)) \<and> (e \<noteq> None \<longleftrightarrow> ''members'' \<in> set intents)"
proof -
  have "\<not> plugin_hidden d b u"
    using assms(1) by (auto simp: plugin_hidden_def starts_with_def)
  moreover have "intent_for_event (event_type_of (gb_event b)) = Some ''members''"
  proof -
    have "intent_for_event ''member.join'' = Some ''members''"
      "intent_for_event ''member.leave'' = Some ''members''" by code_simp+
    with assms(1) show ?thesis by auto
  qed
  then have "has_intent intents (event_type_of (gb_event b)) \<longleftrightarrow> ''members'' \<in> set intents"
    by (simp add: has_intent_iff)
  ultimately show ?thesis
    using assms by (simp add: classify_broadcast_def Let_def)
qed

theorem own_membership_refreshes_witness:
  "\<exists>e. classify_broadcast no_rows \<lparr>gb_space_id = Some ''s'', gb_target_user_ids = None,
      gb_event = JObj [(''type'', JStr ''member.join''), (''data'', JObj [(''user_id'', JStr ''u'')])],
      gb_intent = ''members'', gb_required_permission = None\<rparr> ''u'' [] [] [] = RefreshSpaces e"
proof -
  let ?b = "\<lparr>gb_space_id = Some ''s'', gb_target_user_ids = None,
      gb_event = JObj [(''type'', JStr ''member.join''), (''data'', JObj [(''user_id'', JStr ''u'')])],
      gb_intent = ''members'', gb_required_permission = None\<rparr>"
  have "event_type_of (gb_event ?b) = ''member.join'' \<or> event_type_of (gb_event ?b) = ''member.leave''"
    by (simp add: event_type_of_def get_str_def)
  moreover have "membership_event_subject (gb_event ?b) = Some ''u''"
    by (simp add: membership_event_subject_def get_str_def)
  ultimately show ?thesis using own_membership_refreshes by blast
qed

lemma foldl_send:
  "foldl (\<lambda>s x. send (f x) s) s xs = s\<lparr>outbox := outbox s @ map f xs\<rparr>"
  by (induction xs arbitrary: s) (simp_all add: send_def)

lemma broadcast_presence_eq:
  "broadcast_presence s u sids friends st acts = s\<lparr>outbox := outbox s @
     map (\<lambda>sid. \<lparr>gb_space_id = Some sid, gb_target_user_ids = None,
            gb_event = presence_event u st acts, gb_intent = ''presences'', gb_required_permission = None\<rparr>) sids @
     (if friends = [] then [] else
        [\<lparr>gb_space_id = None, gb_target_user_ids = Some friends, gb_event = presence_event u st acts,
          gb_intent = ''presences'', gb_required_permission = None\<rparr>])\<rparr>"
  unfolding broadcast_presence_def Let_def foldl_send by (simp add: send_def)

lemma broadcast_presence_simps [simp]:
  "ap_db (broadcast_presence s u sids friends st acts) = ap_db s"
  "voice_states (broadcast_presence s u sids friends st acts) = voice_states s"
  "presences (broadcast_presence s u sids friends st acts) = presences s"
  "sessions (broadcast_presence s u sids friends st acts) = sessions s"
  "resumable_sessions (broadcast_presence s u sids friends st acts) = resumable_sessions s"
  "lk_log (broadcast_presence s u sids friends st acts) = lk_log s"
  "livekit_client (broadcast_presence s u sids friends st acts) = livekit_client s"
  "test_mode (broadcast_presence s u sids friends st acts) = test_mode s"
  by (simp_all add: broadcast_presence_eq)

text \<open>An update never says that a user is invisible: every message published for one who asked to
  be, to every space and every friend, gives the status \<open>offline\<close> and no client.\<close>

theorem invisible_published_offline:
  "b \<in> set (outbox (broadcast_presence s u sids friends ''invisible'' acts)) \<Longrightarrow>
   b \<in> set (outbox s) \<or>
   Option.bind (jget ''data'' (gb_event b)) (get_str ''status'') = Some ''offline'' \<and>
   Option.bind (jget ''data'' (gb_event b)) (jget ''client_status'') = Some (JObj [])"
  by (auto simp: broadcast_presence_eq presence_event_def get_str_def split: if_splits)

theorem invisible_published_offline_witness:
  "Option.bind (jget ''data'' (gb_event (outbox (broadcast_presence an_app ''mem'' [''s''] [] ''invisible'' []) ! 0)))
     (get_str ''status'') = Some ''offline''"
  using invisible_published_offline
    [of "outbox (broadcast_presence an_app ''mem'' [''s''] [] ''invisible'' []) ! 0" an_app "''mem''" "[''s'']" "[]" "[]"]
  by (simp add: broadcast_presence_eq an_app_def)

text \<open>READY says it all the same: to any session that shares a space with an invisible user, the
  presences of READY carry the stored status \<open>invisible\<close> (and \<open>desktop: invisible\<close>), where the
  updates say \<open>offline\<close>.\<close>

theorem ready_reveals_invisible:
  assumes "db_ok (ap_db s)" and "sid \<in> set sids" and "m \<in> set (members (ap_db s))"
    and "mb_space_id m = sid" and "hm_get (presences s) (mb_user_id m) = Some p"
    and "pr_status p = ''invisible''"
  shows "\<exists>j \<in> set (ready_presences s False sids).
    get_str ''user_id'' j = Some (pr_user_id p) \<and> get_str ''status'' j = Some ''invisible''"
proof -
  have "mb_user_id m \<in> set (or_default (list_member_ids_for_space (ap_db s) sid))"
    using assms(1,3,4) by (auto simp: list_member_ids_for_space_def or_default_def)
  then have "mb_user_id m \<in> set (push_missing []
      (concat (map (\<lambda>sid. or_default (list_member_ids_for_space (ap_db s) sid)) sids)))"
    using assms(2) by auto
  with hm_get_in [OF assms(5)] have "presence_json p \<in> set (ready_presences s False sids)"
    by (force simp: ready_presences_def get_space_presences_def)
  moreover have "get_str ''user_id'' (presence_json p) = Some (pr_user_id p)"
    "get_str ''status'' (presence_json p) = Some ''invisible''"
    using assms(6) by (simp_all add: presence_json_def get_str_def)
  ultimately show ?thesis by blast
qed

theorem ready_reveals_invisible_witness:
  "\<exists>j \<in> set (ready_presences (fst (set_presence an_app ''pat'' ''invisible'' [])) False [''s'']).
     get_str ''user_id'' j = Some ''pat'' \<and> get_str ''status'' j = Some ''invisible''"
proof -
  let ?s = "fst (set_presence an_app ''pat'' ''invisible'' [])"
  let ?p = "\<lparr>pr_user_id = ''pat'', pr_status = ''invisible'',
      pr_client_status = \<lparr>cs_desktop = Some ''invisible'', cs_mobile = None, cs_web = None\<rparr>,
      pr_activities = [], pr_space_id = None\<rparr>"
  have db: "ap_db ?s = a_db" by (simp add: set_presence_def an_app_def)
  have "db_ok (ap_db ?s)" "''s'' \<in> set [''s'']" "a_member ''pat'' ''s'' \<in> set (members (ap_db ?s))"
    "mb_space_id (a_member ''pat'' ''s'') = ''s''" unfolding db by (simp_all add: sample_defs)
  moreover have "hm_get (presences ?s) (mb_user_id (a_member ''pat'' ''s'')) = Some ?p"
    by (simp add: set_presence_def a_member_def)
  ultimately have "\<exists>j \<in> set (ready_presences ?s False [''s'']).
      get_str ''user_id'' j = Some (pr_user_id ?p) \<and> get_str ''status'' j = Some ''invisible''"
    by (rule ready_reveals_invisible) simp
  then show ?thesis by simp
qed

end
