(* ===== verification/Session.thy ===== *)
theory Session
  imports Gateway
begin

text \<open>
  A gateway connection, from the handshake to the end of the resume window:
  \<open>await_handshake\<close>, \<open>handle_socket\<close> and \<open>claim_parked_session\<close> of \<open>Server/src/gateway/mod.rs\<close>.

  A connection is a local state \<open>session\<close> beside the shared \<open>app\<close>; one turn of its \<open>select!\<close> loop
  is \<open>session_step\<close> on what woke it.  \<open>sent_ok\<close> says whether the socket took the frame of that turn,
  \<open>now\<close> is in milliseconds.  A text frame arrives parsed (\<open>None\<close>: not a gateway message); the
  payload decoders derived by serde, SHA-256, the READY payload and the answer of the task behind a
  parked session are fields of \<open>gateway_env\<close>.
\<close>

section \<open>Messages\<close>

record GatewayMessage =
  gm_op :: nat
  gm_data :: "json option"

record IdentifyData =
  id_token :: string
  id_intents :: "string list"
  id_presence :: "json option"

record ResumeData =
  rd_token :: string
  rd_session_id :: string
  rd_seq :: nat

record PresenceUpdateData =
  pu_status :: string
  pu_activity :: "json option"
  pu_activities :: "json list option"

record VoiceStateUpdateData =
  vu_space_id :: "string option"
  vu_channel_id :: "string option"
  vu_self_mute :: "bool option"
  vu_self_deaf :: "bool option"
  vu_self_video :: "bool option"
  vu_self_stream :: "bool option"

datatype ws_msg =
    WsText "GatewayMessage option"
  | WsOther                        \<comment> \<open>ping, pong, binary\<close>
  | WsClose
  | WsGone                         \<comment> \<open>an error, or the end of the stream\<close>

datatype frame = FText json | FClose nat string

record Handover =
  ho_seq :: nat
  ho_buffer :: "(nat \<times> json) list"

datatype Handshake =
    Identify ResolvedAuth "string list" "json option"
  | Resume ResolvedAuth string "string list" Handover "json list"

record session =
  se_session_id :: string
  se_user_id :: string
  se_token_hash :: string
  se_is_bot :: bool
  se_guest :: bool
  se_intents :: "string list"
  se_space_ids :: "string list"
  se_muted :: "string list"
  se_friends :: "string list"
  se_seq :: nat
  se_buffer :: "(nat \<times> json) list"
  se_tx :: "json list"                   \<comment> \<open>frames queued for this session alone\<close>
  se_resumable :: bool
  se_last_heartbeat :: nat
  se_ws_msg_count :: nat
  se_ws_window_start :: nat
  se_control_count :: nat
  se_heartbeat_count :: nat
  se_control_window :: nat

record gateway_env =
  ge_sha256 :: "string \<Rightarrow> string"
  ge_chrono :: chrono
  ge_identify :: "json \<Rightarrow> IdentifyData option"
  ge_resume :: "json \<Rightarrow> ResumeData option"
  ge_presence :: "json \<Rightarrow> PresenceUpdateData option"
  ge_voice :: "json \<Rightarrow> VoiceStateUpdateData option"
  ge_ready :: "app \<Rightarrow> session \<Rightarrow> json"
  ge_reply :: "string \<Rightarrow> Handover option"

abbreviation "RATE_LIMITED \<equiv> 4008 :: nat"
abbreviation "ALREADY_AUTHENTICATED \<equiv> 4005 :: nat"

definition invalid_session :: frame where
  "invalid_session = FText (JObj [(''op'', JNum 7), (''data'', JObj [(''resumable'', JBool False)])])"

definition heartbeat_ack :: frame where
  "heartbeat_ack = FText (JObj [(''op'', JNum 4)])"

section \<open>Handshake\<close>

definition claim_parked_session ::
    "gateway_env \<Rightarrow> app \<Rightarrow> string \<Rightarrow> string \<Rightarrow> app \<times> (string list \<times> Handover) option" where
  "claim_parked_session env s session_id user_id =
     (case hm_get (resumable_sessions s) session_id of
        None \<Rightarrow> (s, None)
      | Some parked \<Rightarrow>
          if ps_user_id parked \<noteq> user_id then (s, None)
          else (s\<lparr>resumable_sessions := hm_remove session_id (resumable_sessions s)\<rparr>,
                map_option (\<lambda>handover. (ps_intents parked, handover)) (ge_reply env session_id)))"

text \<open>An event is replayed only to somebody who may still read its channel.\<close>

definition replayable :: "db \<Rightarrow> string \<Rightarrow> string list \<Rightarrow> json \<Rightarrow> bool" where
  "replayable d user_id current_spaces event =
     (case Option.bind (jget ''data'' event) (get_str ''channel_id'') of
        Some channel_id \<Rightarrow> can_receive_channel d user_id current_spaces channel_id True
      | None \<Rightarrow> True)"

definition on_identify :: "gateway_env \<Rightarrow> app \<Rightarrow> json option \<Rightarrow> app \<times> frame list \<times> Handshake option" where
  "on_identify env s data =
     (case Option.bind data (ge_identify env) of
        None \<Rightarrow> (s, [invalid_session], None)
      | Some identify \<Rightarrow>
          (case resolve_token (ge_sha256 env) (ge_chrono env) (ap_db s) (id_token identify) of
             None \<Rightarrow> (s, [invalid_session], None)
           | Some auth \<Rightarrow> (s, [], Some (Identify auth (id_intents identify) (id_presence identify)))))"

definition on_resume :: "gateway_env \<Rightarrow> app \<Rightarrow> json option \<Rightarrow> app \<times> frame list \<times> Handshake option" where
  "on_resume env s data =
     (case Option.bind data (ge_resume env) of
        None \<Rightarrow> (s, [invalid_session], None)
      | Some resume_data \<Rightarrow>
          (case resolve_token (ge_sha256 env) (ge_chrono env) (ap_db s) (rd_token resume_data) of
             None \<Rightarrow> (s, [invalid_session], None)
           | Some auth \<Rightarrow>
               (case claim_parked_session env s (rd_session_id resume_data) (ra_user_id auth) of
                  (s1, None) \<Rightarrow> (s1, [invalid_session], None)
                | (s1, Some (intents, handover)) \<Rightarrow>
                    (case missed_since (ho_buffer handover) (ho_seq handover) (rd_seq resume_data) of
                       None \<Rightarrow> (s1, [invalid_session], None)
                     | Some missed \<Rightarrow>
                         (case list_space_ids_for_user (ap_db s1) (ra_user_id auth) of
                            Inl _ \<Rightarrow> (s1, [], None)
                          | Inr current_spaces \<Rightarrow>
                              if list_all (replayable (ap_db s1) (ra_user_id auth) current_spaces) missed
                              then (s1, [], Some (Resume auth (rd_session_id resume_data) intents handover missed))
                              else (s1, [invalid_session], None))))))"

datatype handshake_input = HsTimeout | HsMsg ws_msg

text \<open>The frames of a client before it is authenticated, each with whether the socket took an answer;
  \<open>frames\<close> counts those before.\<close>

fun await_handshake ::
    "gateway_env \<Rightarrow> nat \<Rightarrow> (handshake_input \<times> bool) list \<Rightarrow> app \<Rightarrow> app \<times> frame list \<times> Handshake option" where
  "await_handshake env frames [] s = (s, [], None)"
| "await_handshake env frames ((HsTimeout, sent_ok) # ins) s = (s, [invalid_session], None)"
| "await_handshake env frames ((HsMsg msg, sent_ok) # ins) s =
     (if frames + 1 > 10 then (s, [FClose RATE_LIMITED ''handshake rate exceeded''], None)
      else case msg of
        WsText None \<Rightarrow> (s, [invalid_session], None)
      | WsText (Some m) \<Rightarrow>
          if gm_op m = 1 then
            (if sent_ok
             then (case await_handshake env (frames + 1) ins s of
                     (s', out, h) \<Rightarrow> (s', heartbeat_ack # out, h))
             else (s, [heartbeat_ack], None))
          else if gm_op m = 2 then on_identify env s (gm_data m)
          else if gm_op m = 3 then on_resume env s (gm_data m)
          else (s, [invalid_session], None)
      | WsClose \<Rightarrow> (s, [], None)
      | WsGone \<Rightarrow> (s, [], None)
      | WsOther \<Rightarrow> await_handshake env (frames + 1) ins s)"

section \<open>Starting\<close>

definition is_guest_session :: "string \<Rightarrow> bool" where
  "is_guest_session user_id = starts_with user_id ''guest:''"

definition load_muted :: "db \<Rightarrow> string \<Rightarrow> string list" where
  "load_muted d user_id = or_default (list_effective_muted_channel_ids d user_id)"

definition new_session ::
    "db \<Rightarrow> ResolvedAuth \<Rightarrow> string \<Rightarrow> string list \<Rightarrow> nat \<Rightarrow> (nat \<times> json) list \<Rightarrow> nat \<Rightarrow> session" where
  "new_session d auth session_id intents seq buffer now =
     \<lparr>se_session_id = session_id, se_user_id = ra_user_id auth, se_token_hash = ra_token_hash auth,
      se_is_bot = ra_is_bot auth, se_guest = ra_is_guest auth, se_intents = intents,
      se_space_ids =
        (if ra_is_guest auth
         then (case ra_guest_space_id auth of Some sp \<Rightarrow> [sp] | None \<Rightarrow> [])
         else remdups (or_default (list_space_ids_for_user d (ra_user_id auth)))),
      se_muted = (if ra_is_guest auth then [] else load_muted d (ra_user_id auth)),
      se_friends =
        (if is_guest_session (ra_user_id auth) then []
         else remdups (or_default (get_friend_ids d (ra_user_id auth)))),
      se_seq = seq, se_buffer = buffer, se_tx = [], se_resumable = True, se_last_heartbeat = now,
      se_ws_msg_count = 0, se_ws_window_start = now, se_control_count = 0, se_heartbeat_count = 0,
      se_control_window = now\<rparr>"

text \<open>The presence a connection publishes, and whether it has to be announced.\<close>

definition start_presence ::
    "app \<Rightarrow> string \<Rightarrow> Handshake \<Rightarrow> app \<times> (string \<times> json list) option" where
  "start_presence s user_id handshake =
     (if is_guest_session user_id then (s, None)
      else case handshake of
        Resume _ _ _ _ _ \<Rightarrow>
          if get_user_presence s user_id = None
          then (fst (set_presence s user_id ''online'' []), Some (''online'', []))
          else (s, None)
      | Identify _ _ presence \<Rightarrow>
          let (wanted_status, wanted_activities) =
                (case presence of Some v \<Rightarrow> parse_presence_payload v | None \<Rightarrow> (None, None));
              prior = get_user_presence s user_id;
              new_status = (case wanted_status of Some st \<Rightarrow> st
                | None \<Rightarrow> (case prior of Some p \<Rightarrow> pr_status p | None \<Rightarrow> ''online''));
              activities = (case wanted_activities of Some xs \<Rightarrow> xs
                | None \<Rightarrow> (case prior of Some p \<Rightarrow> pr_activities p | None \<Rightarrow> []))
          in (fst (set_presence s user_id new_status activities), Some (new_status, activities)))"

definition handshake_auth :: "Handshake \<Rightarrow> ResolvedAuth" where
  "handshake_auth h = (case h of Identify a _ _ \<Rightarrow> a | Resume a _ _ _ _ \<Rightarrow> a)"

text \<open>READY, or the replay and RESUMED.\<close>

definition opening_frames :: "gateway_env \<Rightarrow> app \<Rightarrow> session \<Rightarrow> Handshake \<Rightarrow> frame list" where
  "opening_frames env s se h =
     (case h of
        Identify _ _ _ \<Rightarrow> [FText (ge_ready env s se)]
      | Resume _ _ _ _ missed \<Rightarrow>
          map FText missed @
          [FText (JObj [(''op'', JNum 0), (''seq'', JNum (int (se_seq se))), (''type'', JStr ''resumed''),
             (''data'', JObj [(''session_id'', JStr (se_session_id se)), (''seq'', JNum (int (se_seq se))),
                              (''replayed'', JNum (int (length missed)))])])])"

definition count_event :: "string \<Rightarrow> nat \<Rightarrow> GatewayBroadcast" where
  "count_event sid n =
     \<lparr>gb_space_id = Some sid, gb_target_user_ids = None,
      gb_event = JObj [(''op'', JNum 0), (''type'', JStr ''anonymous_count_updated''),
                       (''data'', JObj [(''count'', JNum (int n)), (''space_id'', JStr sid)])],
      gb_intent = ''members'', gb_required_permission = None\<rparr>"

definition guest_count :: "app \<Rightarrow> string \<Rightarrow> nat" where
  "guest_count s sid = (case hm_get (guest_counts s) sid of Some n \<Rightarrow> n | None \<Rightarrow> 0)"

text \<open>From an authenticated handshake to the session loop.  The result is the state, the frames sent
  and the session; \<open>None\<close> when the user has too many sessions.  The session loop runs when
  \<open>sent_ok\<close>; otherwise the cleanup does at once, with \<open>se_resumable\<close> false.\<close>

definition start_session ::
    "gateway_env \<Rightarrow> bool \<Rightarrow> bool \<Rightarrow> nat \<Rightarrow> string \<Rightarrow> app \<Rightarrow> Handshake \<Rightarrow> app \<times> frame list \<times> session option" where
  "start_session env permit sent_ok now new_id s h =
     (if \<not> permit then (s, [FClose RATE_LIMITED ''too many sessions''], None)
      else
        let se = (case h of
              Identify auth intents _ \<Rightarrow> new_session (ap_db s) auth new_id intents 1 [] now
            | Resume auth prior_id intents handover _ \<Rightarrow>
                new_session (ap_db s) auth prior_id intents (ho_seq handover) (ho_buffer handover) now);
            user_id = se_user_id se;
            (s1, announce) = start_presence s user_id h;
            out = opening_frames env s1 se h
        in if \<not> sent_ok then (s1, out, Some (se\<lparr>se_resumable := False\<rparr>))
           else
             let s2 = register_session
                        \<lparr>gs_session_id = se_session_id se, gs_user_id = user_id,
                         gs_intents = se_intents se, gs_space_ids = se_space_ids se,
                         gs_sequence = se_seq se\<rparr> s1;
                 s3 = (if is_guest_session user_id
                       then foldl (\<lambda>s sid. send (count_event sid (guest_count s sid)) s) s2 (se_space_ids se)
                       else s2);
                 s4 = (case announce of
                         Some (st, activities) \<Rightarrow>
                           broadcast_presence s3 user_id (se_space_ids se) (se_friends se) st activities
                       | None \<Rightarrow> s3)
             in (s4, out, Some se))"

section \<open>The session loop\<close>

text \<open>Is the credential of the session still good, and whose is it now?\<close>

definition current_user :: "gateway_env \<Rightarrow> app \<Rightarrow> session \<Rightarrow> AuthUser option" where
  "current_user env s se =
     resolve_hash (ge_chrono env) (ap_db s) (se_token_hash se) (se_is_bot se) (se_guest se)"

text \<open>What a delivery does to the session, before anything is sent: the spaces and mutes it reloads,
  and the stamped event to dispatch, if any.\<close>

definition take_delivery :: "app \<Rightarrow> session \<Rightarrow> Delivery \<Rightarrow> app \<times> session \<times> json option" where
  "take_delivery s se del =
     (case del of
        Skip \<Rightarrow> (s, se, None)
      | RefreshMutes \<Rightarrow> (s, se\<lparr>se_muted := load_muted (ap_db s) (se_user_id se)\<rparr>, None)
      | RefreshSpaces event \<Rightarrow>
          let sids = reload_space_ids (ap_db s) (se_user_id se) (is_guest_session (se_user_id se))
                       (se_space_ids se);
              s1 = sync_session_spaces s (se_session_id se) sids;
              se1 = se\<lparr>se_space_ids := sids\<rparr>
          in (case event of
                None \<Rightarrow> (s1, se1, None)
              | Some e \<Rightarrow> (s1, se1\<lparr>se_seq := se_seq se + 1\<rparr>, Some (stamp_seq e (se_seq se + 1))))
      | SendEvent e \<Rightarrow> (s, se\<lparr>se_seq := se_seq se + 1\<rparr>, Some (stamp_seq e (se_seq se + 1))))"

definition record_event :: "session \<Rightarrow> json \<Rightarrow> session" where
  "record_event se payload = se\<lparr>se_buffer := push (se_buffer se) (se_seq se) payload\<rparr>"

definition classify_for :: "app \<Rightarrow> session \<Rightarrow> GatewayBroadcast \<Rightarrow> Delivery" where
  "classify_for s se b =
     classify_broadcast (ap_db s) b (se_user_id se) (se_space_ids se) (se_muted se) (se_intents se)"

type_synonym turn = "app \<times> session \<times> frame list \<times> bool"      \<comment> \<open>the last: carry on\<close>

definition on_broadcast :: "gateway_env \<Rightarrow> bool \<Rightarrow> GatewayBroadcast \<Rightarrow> app \<Rightarrow> session \<Rightarrow> turn" where
  "on_broadcast env sent_ok b s se =
     (if current_user env s se = None then (s, se\<lparr>se_resumable := False\<rparr>, [], False)
      else case take_delivery s se (classify_for s se b) of
        (s1, se1, None) \<Rightarrow> (s1, se1, [], True)
      | (s1, se1, Some payload) \<Rightarrow>
          if sent_ok then (s1, record_event se1 payload, [FText payload], True)
          else (s1, se1, [], False))"

definition update_presence :: "PresenceUpdateData \<Rightarrow> app \<Rightarrow> session \<Rightarrow> app" where
  "update_presence psu s se =
     (let new_status = (if pu_status psu \<in> set VALID_STATUSES then pu_status psu else ''online'');
          activities = (case pu_activities psu of
                          Some xs \<Rightarrow> xs
                        | None \<Rightarrow> (case pu_activity psu of Some a \<Rightarrow> [a] | None \<Rightarrow> []));
          s1 = fst (set_presence s (se_user_id se) new_status activities)
      in broadcast_presence s1 (se_user_id se) (se_space_ids se) (se_friends se) new_status activities)"

text \<open>The LiveKit side of leaving a room.\<close>

definition evict_and_close :: "string \<Rightarrow> string \<Rightarrow> app \<Rightarrow> app" where
  "evict_and_close channel user_id s =
     (if \<not> test_mode s \<and> livekit_client s \<noteq> None
      then log_lk (DeleteRoomIfEmpty channel) (fst (evict_voice_participant s channel user_id)) else s)"

definition leave_voice_and_announce :: "string \<Rightarrow> string \<Rightarrow> app \<Rightarrow> app" where
  "leave_voice_and_announce user_id session_id s =
     (case leave_voice_channel s user_id of
        (s1, None) \<Rightarrow> s1
      | (s1, Some old_vs) \<Rightarrow>
          (case vs_channel_id old_vs of
             None \<Rightarrow> s1
           | Some channel \<Rightarrow>
               let s2 = broadcast_voice_state_update s1 channel (vs_space_id old_vs)
                          (left_state user_id old_vs session_id);
                   s3 = evict_and_close channel user_id s2
               in end_dm_call_if_empty s3 old_vs channel user_id))"

definition server_update_json :: "string option \<Rightarrow> string \<Rightarrow> livekit \<Rightarrow> AppError + string \<Rightarrow> json" where
  "server_update_json space_id channel_id lk token =
     JObj [(''op'', JNum 0), (''type'', JStr ''voice.server_update''),
       (''data'', JObj ([(''space_id'', jstr_opt space_id), (''channel_id'', JStr channel_id),
                         (''backend'', JStr ''livekit'')] @
          (case token of
             Inr t \<Rightarrow> [(''url'', JStr (lk_external_url lk)), (''token'', JStr t)]
           | Inl _ \<Rightarrow> [(''error'', JStr ''failed to generate token'')])))]"

text \<open>The session's own queue holds 64 frames; what does not fit is dropped.\<close>

definition try_send_tx :: "json \<Rightarrow> session \<Rightarrow> session" where
  "try_send_tx j se = (if length (se_tx se) < 64 then se\<lparr>se_tx := se_tx se @ [j]\<rparr> else se)"

text \<open>The scope of a voice update: \<open>None\<close> when it is ignored, the space of the channel otherwise (none
  for a direct message).\<close>

definition voice_scope :: "ChannelRow \<Rightarrow> string list \<Rightarrow> string option \<Rightarrow> string option option" where
  "voice_scope channel space_ids claimed =
     (let scope = (if is_dm_channel (ch_type channel) then Some None
                   else case ch_space_id channel of
                          Some sid \<Rightarrow> if sid \<in> set space_ids then Some (Some sid) else None
                        | None \<Rightarrow> None)
      in case scope of
           None \<Rightarrow> None
         | Some sp \<Rightarrow> (case claimed of
                         Some c \<Rightarrow> if sp \<noteq> Some c then None else Some sp
                       | None \<Rightarrow> Some sp))"

text \<open>May this update enter a channel the user is not in already?\<close>

definition may_enter :: "chrono \<Rightarrow> db \<Rightarrow> ChannelRow \<Rightarrow> string option \<Rightarrow> AuthUser \<Rightarrow> bool" where
  "may_enter chr d channel scope auth =
     (is_dm_channel (ch_type channel) \<or>
      ch_type channel = ''voice'' \<and>
      (case scope of Some sid \<Rightarrow> is_ok (require_not_timed_out chr d sid auth) | None \<Rightarrow> False))"

definition session_auth :: "session \<Rightarrow> bool \<Rightarrow> AuthUser" where
  "session_auth se is_admin =
     \<lparr>au_user_id = se_user_id se, au_is_bot = se_is_bot se, au_is_admin = is_admin,
      au_is_guest = is_guest_session (se_user_id se), au_guest_space_id = None\<rparr>"

definition enter_voice ::
    "gateway_env \<Rightarrow> AuthUser \<Rightarrow> VoiceStateUpdateData \<Rightarrow> string \<Rightarrow> string option \<Rightarrow> app \<Rightarrow> session \<Rightarrow> app \<times> session" where
  "enter_voice env auth_user vsu channel_id scope s se =
     (let (s1, voice_state, previous) =
            join_voice_channel s (se_user_id se) scope channel_id (se_session_id se)
              (or_false (vu_self_mute vsu)) (or_false (vu_self_deaf vsu))
              (or_false (vu_self_video vsu)) (or_false (vu_self_stream vsu));
          s2 = (case previous of Some ch \<Rightarrow> evict_and_close ch (se_user_id se) s1 | None \<Rightarrow> s1);
          s3 = broadcast_voice_state_update s2 channel_id scope voice_state
      in case livekit_client s3 of
           None \<Rightarrow> (s3, se)
         | Some lk \<Rightarrow>
             let s4 = (if test_mode s3 then s3 else log_lk (EnsureRoom channel_id) s3);
                 display_name = (case get_user (ap_db s4) (se_user_id se) of
                                   Inr u \<Rightarrow> display_name_of u | Inl _ \<Rightarrow> se_user_id se)
             in (s4, try_send_tx (server_update_json scope channel_id lk
                       (generate_token lk (ge_chrono env) (ap_db s4) auth_user display_name channel_id)) se))"

definition update_voice ::
    "gateway_env \<Rightarrow> bool \<Rightarrow> VoiceStateUpdateData \<Rightarrow> app \<Rightarrow> session \<Rightarrow> app \<times> session" where
  "update_voice env is_admin vsu s se =
     (case vu_channel_id vsu of
        None \<Rightarrow> (leave_voice_and_announce (se_user_id se) (se_session_id se) s, se)
      | Some channel_id \<Rightarrow>
          (case get_channel_row (ap_db s) channel_id of
             Inl _ \<Rightarrow> (s, se)
           | Inr channel \<Rightarrow>
               (case voice_scope channel (se_space_ids se) (vu_space_id vsu) of
                  None \<Rightarrow> (s, se)
                | Some scope \<Rightarrow>
                    let auth_user = session_auth se is_admin in
                    if \<not> is_ok (require_channel_permission (ap_db s) channel_id auth_user ''connect'')
                    then (s, se)
                    else if Option.bind (get_user_voice_state s (se_user_id se)) vs_channel_id = Some channel_id
                    then (case update_voice_state s (se_user_id se) (or_false (vu_self_mute vsu))
                                 (or_false (vu_self_deaf vsu)) (or_false (vu_self_video vsu))
                                 (or_false (vu_self_stream vsu)) of
                            (s1, None) \<Rightarrow> (s1, se)
                          | (s1, Some vs) \<Rightarrow> (broadcast_voice_state_update s1 channel_id scope vs, se))
                    else if \<not> may_enter (ge_chrono env) (ap_db s) channel scope auth_user then (s, se)
                    else enter_voice env auth_user vsu channel_id scope s se)))"

text \<open>A parsed message of an authenticated session.\<close>

definition on_message ::
    "gateway_env \<Rightarrow> nat \<Rightarrow> bool \<Rightarrow> bool \<Rightarrow> GatewayMessage \<Rightarrow> app \<Rightarrow> session \<Rightarrow> turn" where
  "on_message env now sent_ok is_admin m s se =
     (if gm_op m = 1 then
        let se1 = se\<lparr>se_heartbeat_count := se_heartbeat_count se + 1\<rparr> in
        if se_heartbeat_count se1 > 10
        then (s, se1\<lparr>se_resumable := False\<rparr>, [FClose RATE_LIMITED ''heartbeat rate exceeded''], False)
        else (s, se1\<lparr>se_last_heartbeat := now\<rparr>, [heartbeat_ack], sent_ok)
      else if gm_op m = 2 \<or> gm_op m = 3
      then (s, se\<lparr>se_resumable := False\<rparr>, [FClose ALREADY_AUTHENTICATED ''already authenticated''], False)
      else if gm_op m = 8 then
        (case Option.bind (gm_data m) (ge_presence env) of
           Some psu \<Rightarrow> (update_presence psu s se, se, [], True)
         | None \<Rightarrow> (s, se, [], True))
      else if gm_op m = 9 then
        (case Option.bind (gm_data m) (ge_voice env) of
           Some vsu \<Rightarrow> (let (s1, se1) = update_voice env is_admin vsu s se in (s1, se1, [], True))
         | None \<Rightarrow> (s, se, [], True))
      else (s, se, [], True))"

text \<open>The flood control of every frame: the 10-second window of all frames, then the 60-second window
  of application messages.\<close>

definition count_frame :: "nat \<Rightarrow> session \<Rightarrow> session" where
  "count_frame now se =
     (let se1 = (if now - se_control_window se \<ge> 10000
                 then se\<lparr>se_control_window := now, se_control_count := 0, se_heartbeat_count := 0\<rparr> else se)
      in se1\<lparr>se_control_count := se_control_count se1 + 1\<rparr>)"

definition count_message :: "nat \<Rightarrow> session \<Rightarrow> session" where
  "count_message now se =
     (let se1 = (if now - se_ws_window_start se \<ge> 60000
                 then se\<lparr>se_ws_msg_count := 0, se_ws_window_start := now\<rparr> else se)
      in se1\<lparr>se_ws_msg_count := se_ws_msg_count se1 + 1\<rparr>)"

definition on_incoming :: "gateway_env \<Rightarrow> nat \<Rightarrow> bool \<Rightarrow> ws_msg \<Rightarrow> app \<Rightarrow> session \<Rightarrow> turn" where
  "on_incoming env now sent_ok msg s se =
     (let se1 = count_frame now se in
      if se_control_count se1 > 150
      then (s, se1\<lparr>se_resumable := False\<rparr>, [FClose RATE_LIMITED ''frame rate exceeded''], False)
      else case current_user env s se1 of
        None \<Rightarrow> (s, se1\<lparr>se_resumable := False\<rparr>, [FClose 4004 ''credential revoked or expired''], False)
      | Some current \<Rightarrow>
          (case msg of
             WsText parsed \<Rightarrow>
               let is_heartbeat = (map_option gm_op parsed = Some 1);
                   se2 = (if is_heartbeat then se1 else count_message now se1)
               in if \<not> is_heartbeat \<and> se_ws_msg_count se2 > 120
                  then (s, se2\<lparr>se_resumable := False\<rparr>, [FClose RATE_LIMITED ''rate limit exceeded''], False)
                  else (case parsed of
                          None \<Rightarrow> (s, se2, [], True)
                        | Some m \<Rightarrow> on_message env now sent_ok (au_is_admin current) m s se2)
           | WsClose \<Rightarrow> (s, se1\<lparr>se_resumable := False\<rparr>, [], False)
           | WsGone \<Rightarrow> (s, se1, [], False)
           | WsOther \<Rightarrow> (s, se1, [], True)))"

datatype wakeup =
    AuthTick
  | Outgoing                         \<comment> \<open>a frame of the session's own queue\<close>
  | Broadcast GatewayBroadcast
  | Lagged                           \<comment> \<open>the receiver failed: overrun or closed\<close>
  | HeartbeatTick
  | Incoming ws_msg

definition session_step :: "gateway_env \<Rightarrow> nat \<Rightarrow> bool \<Rightarrow> wakeup \<Rightarrow> app \<Rightarrow> session \<Rightarrow> turn" where
  "session_step env now sent_ok w s se =
     (case w of
        AuthTick \<Rightarrow>
          if current_user env s se = None
          then (s, se\<lparr>se_resumable := False\<rparr>, [FClose 4004 ''credential revoked or expired''], False)
          else (s, se, [], True)
      | Outgoing \<Rightarrow>
          (case se_tx se of
             [] \<Rightarrow> (s, se, [], True)
           | j # js \<Rightarrow> (s, se\<lparr>se_tx := js\<rparr>, [FText j], sent_ok))
      | Broadcast b \<Rightarrow> on_broadcast env sent_ok b s se
      | Lagged \<Rightarrow> (s, se, [], True)
      | HeartbeatTick \<Rightarrow> (s, se, [], \<not> now - se_last_heartbeat se > 90000)
      | Incoming msg \<Rightarrow> on_incoming env now sent_ok msg s se)"

section \<open>After the loop\<close>

definition release_guest :: "string list \<Rightarrow> app \<Rightarrow> app" where
  "release_guest sids s =
     foldl (\<lambda>s sid.
        let n = guest_count s sid - 1
        in send (count_event sid n) (s\<lparr>guest_counts := hm_insert sid n (guest_counts s)\<rparr>)) s sids"

definition go_offline :: "app \<Rightarrow> session \<Rightarrow> app" where
  "go_offline s se =
     (if user_has_other_sessions s (se_user_id se) (se_session_id se) then s
      else broadcast_presence (fst (remove_presence s (se_user_id se))) (se_user_id se)
             (se_space_ids se) (se_friends se) ''offline'' [])"

text \<open>The cleanup when the loop ends; the result says whether the session is parked.\<close>

definition end_session :: "app \<Rightarrow> session \<Rightarrow> app \<times> bool" where
  "end_session s se =
     (let user_id = se_user_id se;
          s1 = leave_voice_and_announce user_id (se_session_id se) s;
          s2 = remove_session (se_session_id se) s1;
          s3 = (if is_guest_session user_id then release_guest (se_space_ids se) s2 else s2)
      in if \<not> se_resumable se \<or> is_guest_session user_id
         then (if is_guest_session user_id then s3 else go_offline s3 se, False)
         else (s3\<lparr>resumable_sessions := hm_insert (se_session_id se)
                    \<lparr>ps_user_id = user_id, ps_intents = se_intents se\<rparr> (resumable_sessions s3)\<rparr>, True))"

datatype parked_wakeup =
    ParkAuthTick
  | ParkClaim                        \<comment> \<open>a resuming socket asks for the handover\<close>
  | ParkDeadline                     \<comment> \<open>\<open>RESUME_WINDOW\<close>, 60 seconds, has passed\<close>
  | ParkBroadcast GatewayBroadcast
  | ParkLagged

datatype parked_outcome = Waiting | HandedOver Handover | Expired

definition on_parked_broadcast :: "GatewayBroadcast \<Rightarrow> app \<Rightarrow> session \<Rightarrow> app \<times> session" where
  "on_parked_broadcast b s se =
     (case take_delivery s se (classify_for s se b) of
        (s1, se1, None) \<Rightarrow> (s1, se1)
      | (s1, se1, Some payload) \<Rightarrow> (s1, record_event se1 payload))"

text \<open>The window closed unclaimed.\<close>

definition expire_parked :: "app \<Rightarrow> session \<Rightarrow> app" where
  "expire_parked s se =
     go_offline (s\<lparr>resumable_sessions := hm_remove (se_session_id se) (resumable_sessions s)\<rparr>) se"

definition parked_step ::
    "gateway_env \<Rightarrow> parked_wakeup \<Rightarrow> app \<Rightarrow> session \<Rightarrow> app \<times> session \<times> parked_outcome" where
  "parked_step env w s se =
     (case w of
        ParkDeadline \<Rightarrow> (expire_parked s se, se, Expired)
      | ParkLagged \<Rightarrow> (s, se, Waiting)
      | _ \<Rightarrow>
          if current_user env s se = None then (expire_parked s se, se, Expired)
          else (case w of
                  ParkClaim \<Rightarrow> (s, se, HandedOver \<lparr>ho_seq = se_seq se, ho_buffer = se_buffer se\<rparr>)
                | ParkBroadcast b \<Rightarrow> (let (s1, se1) = on_parked_broadcast b s se in (s1, se1, Waiting))
                | _ \<Rightarrow> (s, se, Waiting)))"

section \<open>The event log of a connection\<close>

lemma take_delivery_seq:
  assumes "take_delivery s se del = (s1, se1, payload)"
  shows "se_buffer se1 = se_buffer se \<and>
    se_seq se1 = se_seq se + (case payload of None \<Rightarrow> 0 | Some _ \<Rightarrow> 1)"
  using assms by (auto simp: take_delivery_def Let_def split: Delivery.splits option.splits)

lemma update_voice_session:
  "update_voice env adm vsu s se = (s1, se1) \<Longrightarrow> se_seq se1 = se_seq se \<and> se_buffer se1 = se_buffer se"
  by (auto simp: update_voice_def enter_voice_def try_send_tx_def Let_def
      split: option.splits sum.splits prod.splits if_splits)

lemma on_message_session:
  "on_message env now sent_ok adm m s se = (s1, se1, out, go) \<Longrightarrow>
     se_seq se1 = se_seq se \<and> se_buffer se1 = se_buffer se"
  by (auto simp: on_message_def Let_def dest: update_voice_session
      split: option.splits prod.splits if_splits)

lemma count_frame_simps [simp]:
  "se_seq (count_frame now se) = se_seq se" "se_buffer (count_frame now se) = se_buffer se"
  "se_user_id (count_frame now se) = se_user_id se" "se_space_ids (count_frame now se) = se_space_ids se"
  "se_token_hash (count_frame now se) = se_token_hash se" "se_is_bot (count_frame now se) = se_is_bot se"
  "se_guest (count_frame now se) = se_guest se" "se_session_id (count_frame now se) = se_session_id se"
  by (simp_all add: count_frame_def Let_def)

lemma count_message_simps [simp]:
  "se_seq (count_message now se) = se_seq se" "se_buffer (count_message now se) = se_buffer se"
  "se_user_id (count_message now se) = se_user_id se" "se_space_ids (count_message now se) = se_space_ids se"
  "se_control_count (count_message now se) = se_control_count se"
  "se_heartbeat_count (count_message now se) = se_heartbeat_count se"
  by (simp_all add: count_message_def Let_def)

lemma on_incoming_session:
  "on_incoming env now sent_ok msg s se = (s1, se1, out, go) \<Longrightarrow>
     se_seq se1 = se_seq se \<and> se_buffer se1 = se_buffer se"
  by (auto simp: on_incoming_def Let_def dest!: on_message_session
      split: if_splits option.splits ws_msg.splits)

text \<open>The events of the frames of a turn.\<close>

fun texts :: "frame list \<Rightarrow> json list" where
  "texts [] = []"
| "texts (FText j # fs) = j # texts fs"
| "texts (FClose c r # fs) = texts fs"

text \<open>
  \<open>conn env base se log\<close>: a session that started with sequence number \<open>base\<close> has come to \<open>se\<close> and
  has dispatched \<open>log\<close>.  Between its turns the application is whatever the other tasks made of it.
  It goes through turns of its loop, may end on a turn that is not a failed broadcast, collects
  events while parked, and is carried over to the socket that resumes it.
\<close>

inductive conn :: "gateway_env \<Rightarrow> nat \<Rightarrow> session \<Rightarrow> json list \<Rightarrow> bool" for env base where
  started: "se_seq se = base \<Longrightarrow> se_buffer se = [] \<Longrightarrow> conn env base se []"
| dispatching: "conn env base se log \<Longrightarrow> session_step env now sent_ok (Broadcast b) s se = (s', se', out, True) \<Longrightarrow>
    conn env base se' (log @ texts out)"
| other_turn: "conn env base se log \<Longrightarrow> session_step env now sent_ok w s se = (s', se', out, go) \<Longrightarrow>
    (\<And>b. w \<noteq> Broadcast b) \<Longrightarrow> conn env base se' log"
| parked: "conn env base se log \<Longrightarrow> parked_step env (ParkBroadcast b) s se = (s', se', Waiting) \<Longrightarrow>
    take_delivery s se (classify_for s se b) = (s1, se1, payload) \<Longrightarrow>
    conn env base se' (log @ (case payload of Some p \<Rightarrow> [p] | None \<Rightarrow> []))"
| resumed: "conn env base se log \<Longrightarrow> se_seq se' = se_seq se \<Longrightarrow> se_buffer se' = se_buffer se \<Longrightarrow>
    conn env base se' log"

lemma step_other:
  assumes "session_step env now sent_ok w s se = (s', se', out, go)" and "\<And>b. w \<noteq> Broadcast b"
  shows "se_seq se' = se_seq se \<and> se_buffer se' = se_buffer se"
proof (cases w)
  case (Incoming msg)
  with assms(1) on_incoming_session show ?thesis by (auto simp: session_step_def)
qed (use assms in \<open>auto simp: session_step_def split: if_splits list.splits\<close>)

lemma step_broadcast:
  assumes "session_step env now sent_ok (Broadcast b) s se = (s', se', out, True)"
  shows "(\<exists>p. texts out = [p] \<and> out = [FText p] \<and> se_seq se' = se_seq se + 1 \<and>
            se_buffer se' = push (se_buffer se) (se_seq se + 1) p) \<or>
         (out = [] \<and> se_seq se' = se_seq se \<and> se_buffer se' = se_buffer se)"
  using assms
  by (auto simp: session_step_def on_broadcast_def record_event_def dest!: take_delivery_seq
      split: if_splits prod.splits option.splits)

lemma step_parked:
  assumes "parked_step env (ParkBroadcast b) s se = (s', se', Waiting)"
    and "take_delivery s se (classify_for s se b) = (s1, se1, payload)"
  shows "(\<exists>p. payload = Some p \<and> se_seq se' = se_seq se + 1 \<and>
            se_buffer se' = push (se_buffer se) (se_seq se + 1) p) \<or>
         (payload = None \<and> se_seq se' = se_seq se \<and> se_buffer se' = se_buffer se)"
  using assms take_delivery_seq [OF assms(2)]
  by (auto simp: parked_step_def on_parked_broadcast_def record_event_def Let_def
      split: if_splits option.splits)

lemma conn_keeps:
  "conn env base se log \<Longrightarrow> buffer_keeps base log (se_buffer se) \<and> se_seq se = base + length log"
proof (induction rule: conn.induct)
  case (started se)
  then show ?case using buffer.keeps_empty [of base] by simp
next
  case (dispatching se log now sent_ok b s s' se' out)
  from step_broadcast [OF dispatching.hyps(2)] dispatching.IH show ?case
    using buffer.keeps_append [of base log "se_buffer se"] by (auto simp: add.assoc)
next
  case (other_turn se log now sent_ok w s s' se' out go)
  from step_other [OF other_turn.hyps(2,3)] other_turn.IH show ?case by simp
next
  case (parked se log b s s' se' s1 se1 payload)
  from step_parked [OF parked.hyps(2,3)] parked.IH show ?case
    using buffer.keeps_append [of base log "se_buffer se"] by (auto simp: add.assoc)
next
  case (resumed se log se')
  then show ?case by simp
qed


text \<open>An environment, a session of the member \<open>mem\<close>, and an event it receives.\<close>

definition an_env :: gateway_env where
  "an_env = \<lparr>ge_sha256 = id, ge_chrono = a_chrono, ge_identify = (\<lambda>_. None), ge_resume = (\<lambda>_. None),
     ge_presence = (\<lambda>_. Some \<lparr>pu_status = ''dnd'', pu_activity = None, pu_activities = None\<rparr>),
     ge_voice = (\<lambda>_. None), ge_ready = (\<lambda>_ _. JNull), ge_reply = (\<lambda>_. None)\<rparr>"

definition a_session :: session where
  "a_session = new_session a_db \<lparr>ra_token_hash = ''t'', ra_user_id = ''mem'', ra_is_bot = False,
     ra_is_guest = False, ra_guest_space_id = None\<rparr> ''7'' [''spaces''] 1 [] 0"

definition live_app :: app where
  "live_app = an_app \<lparr>ap_db := a_db \<lparr>user_tokens :=
     [\<lparr>ut_token_hash = ''t'', ut_user_id = ''mem'', ut_expires_at = ''e'', ut_created_at = ''c''\<rparr>]\<rparr>\<rparr>"

definition space_event :: GatewayBroadcast where
  "space_event = \<lparr>gb_space_id = Some ''s'', gb_target_user_ids = None,
     gb_event = JObj [(''type'', JStr ''role.create'')], gb_intent = ''spaces'',
     gb_required_permission = None\<rparr>"


text \<open>When the socket fails while an event is being sent, the event takes its sequence number but
  is not kept: the session is parked, and a client that resumes with the last number it saw is told
  that it missed nothing, so the event is lost for good.\<close>

theorem failed_send_loses_event:
  assumes "conn env base se log" and "log \<noteq> []" and "current_user env s se \<noteq> None"
    and "classify_for s se b = SendEvent e" and "se_resumable se"
  shows "\<exists>se'. session_step env now False (Broadcast b) s se = (s, se', [], False) \<and>
    se_resumable se' \<and> se_seq se' = se_seq se + 1 \<and>
    missed_since (se_buffer se') (se_seq se') (se_seq se) = Some []"
proof -
  from conn_keeps [OF assms(1)] have k: "buffer_keeps base log (se_buffer se)"
    and seq: "se_seq se = base + length log" by auto
  let ?k = "length log - REPLAY_BUFFER_LIMIT"
  from k have buf: "se_buffer se = numbered (base + 1 + ?k) (drop ?k log)"
    by (simp add: buffer_keeps_def drop_numbered)
  have "?k < length log" using assms(2) by (simp add: REPLAY_BUFFER_LIMIT_def)
  then have "drop ?k log \<noteq> []" by simp
  then obtain x xs where x: "drop ?k log = x # xs" by (cases "drop ?k log") auto
  have "missed_since (se_buffer se) (se_seq se + 1) (se_seq se) = Some []"
  proof (rule missed_since_beyond)
    show "se_buffer se \<noteq> []" by (simp add: buf x)
    show "fst (hd (se_buffer se)) \<le> se_seq se + 1" using \<open>?k < length log\<close> by (simp add: buf x seq)
    show "\<forall>q \<in> set (se_buffer se). fst q \<le> se_seq se"
    proof
      fix q assume "q \<in> set (se_buffer se)"
      then have "fst q < base + 1 + ?k + length (drop ?k log)"
        using numbered_range [of "fst q" "snd q" "base + 1 + ?k" "drop ?k log"] by (simp add: buf)
      then show "fst q \<le> se_seq se" using \<open>?k < length log\<close> by (simp add: seq)
    qed
  qed
  then show ?thesis
    using assms(3-5)
    by (auto simp: session_step_def on_broadcast_def take_delivery_def)
qed

theorem failed_send_loses_event_witness:
  "\<exists>se se'. session_step an_env 0 False (Broadcast space_event) live_app se = (live_app, se', [], False) \<and>
     missed_since (se_buffer se') (se_seq se') (se_seq se) = Some []"
proof -
  define r where "r = session_step an_env 0 True (Broadcast space_event) live_app a_session"
  obtain s' se out go where r': "r = (s', se, out, go)" by (cases r) auto
  have go: "snd (snd (snd r))" "length (texts (fst (snd (snd r)))) = 1"
    "current_user an_env live_app (fst (snd r)) \<noteq> None"
    "classify_for live_app (fst (snd r)) space_event = SendEvent (gb_event space_event)"
    "se_resumable (fst (snd r))"
    unfolding r_def by code_simp+
  then have "conn an_env 1 se (texts out)"
    using conn.dispatching [of an_env 1 a_session "[]" 0 True space_event live_app s' se out] r'
      conn.started [of a_session 1 an_env]
    by (simp add: r_def a_session_def new_session_def)
  moreover have "texts out \<noteq> []" using go r' by auto
  moreover have "current_user an_env live_app se \<noteq> None" "se_resumable se"
    "classify_for live_app se space_event = SendEvent (gb_event space_event)"
    using go r' by simp_all
  ultimately show ?thesis using failed_send_loses_event by blast
qed

section \<open>Credentials, floods, presence\<close>

lemma current_user_count_frame [simp]: "current_user env s (count_frame now se) = current_user env s se"
  by (simp add: current_user_def)

text \<open>C22.  A revoked, expired or disabled credential ends the session at its next turn: whatever woke it,
  a broadcast, a frame of the client or the timer, nothing is delivered, nothing of the application
  changes, and the session cannot be resumed.\<close>

theorem revoked_session_ends:
  assumes "current_user env s se = None"
    and "w = AuthTick \<or> (\<exists>b. w = Broadcast b) \<or> (\<exists>msg. w = Incoming msg)"
    and "session_step env now sent_ok w s se = (s', se', out, go)"
  shows "\<not> go \<and> \<not> se_resumable se' \<and> s' = s \<and> texts out = []"
  using assms
  by (auto simp: session_step_def on_broadcast_def on_incoming_def Let_def split: if_splits)

theorem revoked_session_ends_witness:
  "\<exists>se' out. session_step an_env 0 True (Broadcast space_event) an_app a_session = (an_app, se', out, False) \<and>
     \<not> se_resumable se'"
proof -
  have none: "current_user an_env an_app a_session = None" by code_simp
  obtain s' se' out go where
    step: "session_step an_env 0 True (Broadcast space_event) an_app a_session = (s', se', out, go)"
    by (cases "session_step an_env 0 True (Broadcast space_event) an_app a_session") auto
  from revoked_session_ends [OF none _ step] step show ?thesis by auto
qed

text \<open>The flood budgets of a session.\<close>

definition within_budget :: "session \<Rightarrow> bool" where
  "within_budget se \<longleftrightarrow> se_control_count se \<le> 150 \<and> se_heartbeat_count se \<le> 10 \<and> se_ws_msg_count se \<le> 120"

lemma on_message_budget:
  assumes "on_message env now sent_ok adm m s se = (s1, se1, out, True)" and "within_budget se"
  shows "within_budget se1"
proof -
  have v: "within_budget se2" if "update_voice env adm vsu s se = (s2, se2)" for s2 se2 vsu
    using that assms(2)
    by (auto simp: update_voice_def enter_voice_def try_send_tx_def Let_def within_budget_def
        split: option.splits sum.splits prod.splits if_splits)
  show ?thesis
    using assms v
    by (auto simp: on_message_def Let_def within_budget_def split: option.splits prod.splits if_splits)
qed

lemma on_message_control:
  "on_message env now sent_ok adm m s se = (s1, se1, out, go) \<Longrightarrow> se_control_count se1 = se_control_count se"
proof -
  have v: "se_control_count se2 = se_control_count se"
    if "update_voice env adm vsu s se = (s2, se2)" for s2 se2 vsu
    using that
    by (auto simp: update_voice_def enter_voice_def try_send_tx_def Let_def
        split: option.splits sum.splits prod.splits if_splits)
  assume "on_message env now sent_ok adm m s se = (s1, se1, out, go)"
  then show ?thesis
    by (auto simp: on_message_def Let_def dest: v split: option.splits prod.splits if_splits)
qed

text \<open>Floods end the session: while it carries on, a connection stays within 150 frames and 10
  heartbeats per 10-second window and 120 application messages per 60-second window, and every
  frame counts: the frame counter goes up by one, or restarts at one when its window is over.\<close>

theorem floods_end_session:
  assumes "within_budget se" and "session_step env now sent_ok w s se = (s', se', out, True)"
  shows "within_budget se' \<and>
    (\<forall>msg. w = Incoming msg \<longrightarrow>
       se_control_count se' =
         (if now - se_control_window se \<ge> 10000 then 1 else se_control_count se + 1))"
proof (cases w)
  case (Incoming msg)
  let ?se1 = "count_frame now se"
  from assms(2) Incoming have step: "on_incoming env now sent_ok msg s se = (s', se', out, True)"
    by (simp add: session_step_def)
  have count: "se_control_count ?se1 =
      (if now - se_control_window se \<ge> 10000 then 1 else se_control_count se + 1)"
    by (simp add: count_frame_def Let_def)
  from step have ok: "se_control_count ?se1 \<le> 150" by (auto simp: on_incoming_def Let_def split: if_splits)
  then have b1: "within_budget ?se1" using assms(1) by (auto simp: within_budget_def count_frame_def Let_def)
  have "within_budget se' \<and> se_control_count se' = se_control_count ?se1"
  proof (cases "\<exists>m se2. within_budget se2 \<and> se_control_count se2 = se_control_count ?se1 \<and>
      (\<exists>adm. on_message env now sent_ok adm m s se2 = (s', se', out, True))")
    case True
    then obtain m se2 adm where m: "within_budget se2" "se_control_count se2 = se_control_count ?se1"
      "on_message env now sent_ok adm m s se2 = (s', se', out, True)" by blast
    then show ?thesis using on_message_budget on_message_control by metis
  next
    case False
    from step obtain cur where cur: "current_user env s ?se1 = Some cur"
      using ok by (auto simp: on_incoming_def Let_def split: option.splits)
    show ?thesis
    proof (cases msg)
      case (WsText parsed)
      define hb where "hb \<longleftrightarrow> map_option gm_op parsed = Some 1"
      define se2 where "se2 = (if hb then ?se1 else count_message now ?se1)"
      have c2: "se_control_count se2 = se_control_count ?se1" by (simp add: se2_def)
      from step ok cur WsText have rest: "hb \<or> se_ws_msg_count se2 \<le> 120"
        "(case parsed of None \<Rightarrow> (s, se2, [], True)
          | Some m \<Rightarrow> on_message env now sent_ok (au_is_admin cur) m s se2) = (s', se', out, True)"
        by (auto simp: on_incoming_def Let_def hb_def se2_def split: if_splits option.splits)
      have b2: "within_budget se2"
        using b1 rest(1) by (cases hb) (auto simp: se2_def within_budget_def)
      show ?thesis
      proof (cases parsed)
        case None
        with rest(2) b2 c2 show ?thesis by simp
      next
        case (Some m)
        with rest(2) b2 c2 False show ?thesis by auto
      qed
    qed (use step ok cur b1 in \<open>auto simp: on_incoming_def Let_def\<close>)
  qed
  with count Incoming show ?thesis by simp
next
  case (Broadcast b)
  have "within_budget se1" if "take_delivery s se del = (s1, se1, p)" for s1 se1 p del
    using that assms(1)
    by (auto simp: take_delivery_def within_budget_def Let_def split: Delivery.splits option.splits)
  then show ?thesis
    using assms Broadcast
    by (auto simp: session_step_def on_broadcast_def record_event_def within_budget_def
        split: if_splits prod.splits option.splits)
qed (use assms in \<open>auto simp: session_step_def within_budget_def split: if_splits list.splits\<close>)

theorem floods_end_session_witness:
  "let (s', se', out, go) = session_step an_env 0 True (Incoming WsOther) live_app a_session
   in go \<and> se_control_count se' = 1"
proof -
  obtain s' se' out go where
    step: "session_step an_env 0 True (Incoming WsOther) live_app a_session = (s', se', out, go)"
    by (cases "session_step an_env 0 True (Incoming WsOther) live_app a_session") auto
  have "snd (snd (snd (session_step an_env 0 True (Incoming WsOther) live_app a_session)))" by code_simp
  with step have go by simp
  moreover have "within_budget a_session" by (simp add: within_budget_def a_session_def new_session_def)
  moreover have "se_control_count a_session = 0" "se_control_window a_session = 0"
    by (simp_all add: a_session_def new_session_def)
  ultimately show ?thesis
    using floods_end_session [of a_session an_env 0 True "Incoming WsOther" live_app s' se' out] step by simp
qed

lemma evict_fields [simp]:
  "sessions (fst (evict_voice_participant s c u)) = sessions s"
  "presences (fst (evict_voice_participant s c u)) = presences s"
  "resumable_sessions (fst (evict_voice_participant s c u)) = resumable_sessions s"
  "outbox (fst (evict_voice_participant s c u)) = outbox s"
  "voice_states (fst (evict_voice_participant s c u)) = voice_states s"
  by (simp_all add: evict_voice_participant_def attempt_voice_eviction_def on_db_def execute_def
      Let_def try_run_def split: option.split)

lemma evict_and_close_fields [simp]:
  "sessions (evict_and_close c u s) = sessions s"
  "presences (evict_and_close c u s) = presences s"
  "resumable_sessions (evict_and_close c u s) = resumable_sessions s"
  "outbox (evict_and_close c u s) = outbox s"
  "voice_states (evict_and_close c u s) = voice_states s"
  by (simp_all add: evict_and_close_def)

lemma broadcast_resumable [simp]:
  "resumable_sessions (broadcast_voice_state_update s c sp vs) = resumable_sessions s"
  "resumable_sessions (broadcast_call_event s c ty data) = resumable_sessions s"
  by (simp_all add: broadcast_voice_state_update_def broadcast_call_event_def Let_def split: option.split)

lemma end_dm_call_fields [simp]:
  "sessions (end_dm_call_if_empty s vs c u) = sessions s"
  "presences (end_dm_call_if_empty s vs c u) = presences s"
  "resumable_sessions (end_dm_call_if_empty s vs c u) = resumable_sessions s"
  "voice_states (end_dm_call_if_empty s vs c u) = voice_states s"
  by (simp_all add: end_dm_call_if_empty_def)

lemma leave_announce_fields [simp]:
  "sessions (leave_voice_and_announce u i s) = sessions s"
  "presences (leave_voice_and_announce u i s) = presences s"
  "resumable_sessions (leave_voice_and_announce u i s) = resumable_sessions s"
  "voice_states (leave_voice_and_announce u i s) = hm_remove u (voice_states s)"
  by (simp_all add: leave_voice_and_announce_def leave_voice_channel_def take_membership_def Let_def
      split: option.split)

lemma release_guest_fields [simp]:
  "sessions (release_guest sids s) = sessions s"
  "presences (release_guest sids s) = presences s"
  "resumable_sessions (release_guest sids s) = resumable_sessions s"
  "voice_states (release_guest sids s) = voice_states s"
proof -
  have "sessions (release_guest sids s) = sessions s \<and> presences (release_guest sids s) = presences s \<and>
    resumable_sessions (release_guest sids s) = resumable_sessions s \<and>
    voice_states (release_guest sids s) = voice_states s"
    unfolding release_guest_def by (induction sids arbitrary: s) (simp_all add: Let_def)
  then show "sessions (release_guest sids s) = sessions s" "presences (release_guest sids s) = presences s"
    "resumable_sessions (release_guest sids s) = resumable_sessions s"
    "voice_states (release_guest sids s) = voice_states s" by auto
qed

lemma other_sessions_remove:
  "\<not> user_has_other_sessions s u i \<Longrightarrow> sessions t = hm_remove k (sessions s) \<Longrightarrow>
   \<not> user_has_other_sessions t u i"
  by (auto simp: user_has_other_sessions_def list_ex_iff hm_values_def hm_remove_def AList.delete_eq)

lemma broadcast_presence_reaches:
  assumes "sid \<in> set sids"
  shows "\<exists>b \<in> set (outbox (broadcast_presence s u sids friends st acts)).
    gb_space_id b = Some sid \<and> gb_event b = presence_event u st acts \<and> gb_intent b = ''presences''"
  using assms by (auto simp: broadcast_presence_eq intro!: bexI)



text \<open>A parked session is claimed at most once, and only by its owner: a claim of somebody else's
  session, or of one already claimed, gets nothing and leaves everything as it is.\<close>

theorem claim_is_exclusive:
  assumes "claim_parked_session env s i u = (s', r)"
  shows "(r \<noteq> None \<longrightarrow> (\<exists>p. hm_get (resumable_sessions s) i = Some p \<and> ps_user_id p = u)) \<and>
    (\<forall>p. hm_get (resumable_sessions s) i = Some p \<and> ps_user_id p \<noteq> u \<longrightarrow> r = None \<and> s' = s) \<and>
    (r \<noteq> None \<longrightarrow> claim_parked_session env s' i v = (s', None)) \<and>
    (\<forall>j. j \<noteq> i \<longrightarrow> hm_get (resumable_sessions s') j = hm_get (resumable_sessions s) j)"
  using assms by (auto simp: claim_parked_session_def split: option.splits if_splits)

definition parked_app :: app where
  "parked_app = live_app \<lparr>resumable_sessions := [(''7'', \<lparr>ps_user_id = ''mem'', ps_intents = []\<rparr>)]\<rparr>"

definition replying_env :: gateway_env where
  "replying_env = an_env \<lparr>ge_reply := (\<lambda>_. Some \<lparr>ho_seq = 9, ho_buffer = []\<rparr>),
     ge_resume := (\<lambda>_. Some \<lparr>rd_token = ''Bearer t'', rd_session_id = ''7'', rd_seq = 1\<rparr>)\<rparr>"

theorem claim_is_exclusive_witness:
  "\<exists>s' r. claim_parked_session replying_env parked_app ''7'' ''mem'' = (s', Some r) \<and>
     claim_parked_session replying_env s' ''7'' ''mem'' = (s', None)"
proof -
  obtain s' r where run: "claim_parked_session replying_env parked_app ''7'' ''mem'' = (s', r)" by fastforce
  then have "r \<noteq> None"
    by (auto simp: claim_parked_session_def parked_app_def replying_env_def hm_get_def)
  with claim_is_exclusive [OF run] run show ?thesis by auto
qed

text \<open>A resume that comes too late for its buffer destroys the session it names and leaves its
  user online: the task behind it has handed over and is gone, nothing is registered or parked any
  more, and the presence still stands with nobody left to remove it.\<close>

theorem failed_resume_strands_presence:
  assumes "ge_resume env j = Some d"
    and "resolve_token (ge_sha256 env) (ge_chrono env) (ap_db s) (rd_token d) = Some auth"
    and "hm_get (resumable_sessions s) (rd_session_id d) = Some p" and "ps_user_id p = ra_user_id auth"
    and "ge_reply env (rd_session_id d) = Some ho"
    and "missed_since (ho_buffer ho) (ho_seq ho) (rd_seq d) = None"
  shows "\<exists>s'. on_resume env s (Some j) = (s', [invalid_session], None) \<and>
    hm_get (resumable_sessions s') (rd_session_id d) = None \<and>
    presences s' = presences s \<and> sessions s' = sessions s \<and> outbox s' = outbox s \<and>
    (\<forall>t se. current_user env t se \<noteq> None \<longrightarrow>
       parked_step env ParkClaim t se = (t, se, HandedOver \<lparr>ho_seq = se_seq se, ho_buffer = se_buffer se\<rparr>))"
  using assms by (simp add: on_resume_def claim_parked_session_def parked_step_def)

theorem failed_resume_strands_presence_witness:
  "\<exists>s'. on_resume replying_env (fst (set_presence parked_app ''mem'' ''dnd'' [])) (Some JNull) =
      (s', [invalid_session], None) \<and>
     get_user_presence s' ''mem'' \<noteq> None \<and> resumable_sessions s' = [] \<and> sessions s' = []"
proof -
  let ?s = "fst (set_presence parked_app ''mem'' ''dnd'' [])"
  let ?d = "\<lparr>rd_token = ''Bearer t'', rd_session_id = ''7'', rd_seq = 1\<rparr>"
  let ?auth = "\<lparr>ra_token_hash = ''t'', ra_user_id = ''mem'', ra_is_bot = False, ra_is_guest = False,
      ra_guest_space_id = None\<rparr>"
  have a: "ge_resume replying_env JNull = Some ?d" by (simp add: replying_env_def)
  have b: "resolve_token (ge_sha256 replying_env) (ge_chrono replying_env) (ap_db ?s) (rd_token ?d) = Some ?auth"
    by code_simp
  have c: "hm_get (resumable_sessions ?s) (rd_session_id ?d) = Some \<lparr>ps_user_id = ''mem'', ps_intents = []\<rparr>"
    by code_simp
  have e: "ge_reply replying_env (rd_session_id ?d) = Some \<lparr>ho_seq = 9, ho_buffer = []\<rparr>"
    by (simp add: replying_env_def)
  from failed_resume_strands_presence [OF a b c _ e] obtain s' where
    s': "on_resume replying_env ?s (Some JNull) = (s', [invalid_session], None)"
      "presences s' = presences ?s" "sessions s' = sessions ?s"
    by (auto simp: missed_since_def)
  have "resumable_sessions (fst (on_resume replying_env ?s (Some JNull))) = []" by code_simp
  with s' have "resumable_sessions s' = []" by simp
  moreover have "get_user_presence s' ''mem'' \<noteq> None"
    using s'(2) by (simp add: get_user_presence_def set_presence_def)
  moreover have "sessions s' = []" using s'(3) by (simp add: set_presence_def parked_app_def live_app_def an_app_def)
  ultimately show ?thesis using s'(1) by blast
qed

text \<open>Guests are meant to have no presence, yet a PRESENCE_UPDATE of a guest session registers
  one and announces it to its space, and the end of the session does not take it back.\<close>

theorem guest_presence_never_removed:
  assumes "is_guest_session (se_user_id se)" and "gm_op m = 8"
    and "Option.bind (gm_data m) (ge_presence env) = Some psu"
  shows "\<exists>s1. on_message env now sent_ok adm m s se = (s1, se, [], True) \<and>
    (\<forall>sid \<in> set (se_space_ids se). \<exists>b \<in> set (outbox s1). gb_space_id b = Some sid \<and>
       gb_intent b = ''presences'') \<and>
    (\<exists>s2. end_session s1 se = (s2, False) \<and> get_user_presence s2 (se_user_id se) \<noteq> None)"
proof -
  let ?s1 = "update_presence psu s se"
  have "on_message env now sent_ok adm m s se = (?s1, se, [], True)"
    using assms(2,3) by (simp add: on_message_def)
  moreover have "\<forall>sid \<in> set (se_space_ids se). \<exists>b \<in> set (outbox ?s1). gb_space_id b = Some sid \<and>
       gb_intent b = ''presences''"
    using broadcast_presence_reaches unfolding update_presence_def Let_def by blast
  moreover have "get_user_presence ?s1 (se_user_id se) \<noteq> None"
    by (simp add: update_presence_def Let_def get_user_presence_def set_presence_def)
  then have "\<exists>s2. end_session ?s1 se = (s2, False) \<and> get_user_presence s2 (se_user_id se) \<noteq> None"
    using assms(1) by (simp add: end_session_def Let_def get_user_presence_def remove_session_def)
  ultimately show ?thesis by blast
qed

theorem guest_presence_never_removed_witness:
  "\<exists>s1 s2. on_message an_env 0 True False \<lparr>gm_op = 8, gm_data = Some JNull\<rparr> live_app
        (a_session\<lparr>se_user_id := ''guest:1''\<rparr>) = (s1, a_session\<lparr>se_user_id := ''guest:1''\<rparr>, [], True) \<and>
     end_session s1 (a_session\<lparr>se_user_id := ''guest:1''\<rparr>) = (s2, False) \<and>
     get_user_presence s2 ''guest:1'' \<noteq> None"
proof -
  have "is_guest_session (se_user_id (a_session\<lparr>se_user_id := ''guest:1''\<rparr>))" by code_simp
  moreover have "Option.bind (Some JNull) (ge_presence an_env) =
      Some \<lparr>pu_status = ''dnd'', pu_activity = None, pu_activities = None\<rparr>" by (simp add: an_env_def)
  ultimately show ?thesis
    using guest_presence_never_removed [of "a_session\<lparr>se_user_id := ''guest:1''\<rparr>"
        "\<lparr>gm_op = 8, gm_data = Some JNull\<rparr>" an_env] by fastforce
qed

text \<open>C23.  A voice update over the gateway moves only its sender, and only where they may be now: a
  membership it creates names a channel that exists, that grants its sender \<open>connect\<close> at this
  moment, and that is a direct message or a voice channel of a space of the session in which they
  are not timed out.\<close>

theorem voice_update_only_authorised:
  assumes "update_voice env adm vsu s se = (s', se')"
  shows "(\<forall>u. u \<noteq> se_user_id se \<longrightarrow> hm_get (voice_states s') u = hm_get (voice_states s) u) \<and>
    (\<forall>vs c. hm_get (voice_states s') (se_user_id se) = Some vs \<and> vs_channel_id vs = Some c \<and>
        Option.bind (hm_get (voice_states s) (se_user_id se)) vs_channel_id \<noteq> Some c \<longrightarrow>
      (\<exists>ch. get_channel_row (ap_db s) c = Inr ch \<and>
         is_ok (require_channel_permission (ap_db s) c (session_auth se adm) ''connect'') \<and>
         (is_dm_channel (ch_type ch) \<or>
          ch_type ch = ''voice'' \<and>
          (\<exists>sid. ch_space_id ch = Some sid \<and> sid \<in> set (se_space_ids se) \<and>
             is_ok (require_not_timed_out (ge_chrono env) (ap_db s) sid (session_auth se adm))))))"
proof -
  have enter: "voice_states (fst (enter_voice env a vsu c scope s se)) =
      voice_states (fst (join_voice_channel s (se_user_id se) scope c (se_session_id se)
        (or_false (vu_self_mute vsu)) (or_false (vu_self_deaf vsu))
        (or_false (vu_self_video vsu)) (or_false (vu_self_stream vsu))))" for a c scope
    by (simp add: enter_voice_def join_voice_channel_def Let_def split: option.split)
  show ?thesis
  proof (cases "vu_channel_id vsu")
    case None
    with assms show ?thesis by (auto simp: update_voice_def)
  next
    case (Some c)
    show ?thesis
    proof (cases "get_channel_row (ap_db s) c")
      case (Inl e)
      with assms Some show ?thesis by (auto simp: update_voice_def)
    next
      case (Inr ch)
      show ?thesis
      proof (cases "voice_scope ch (se_space_ids se) (vu_space_id vsu)")
        case None
        with assms Some Inr show ?thesis by (auto simp: update_voice_def)
      next
        case scope: (Some scope)
        have scoped: "ch_space_id ch = Some sid \<and> sid \<in> set (se_space_ids se)"
          if "\<not> is_dm_channel (ch_type ch)" "scope = Some sid" for sid
          using scope that by (auto simp: voice_scope_def Let_def split: option.splits if_splits)
        let ?a = "session_auth se adm"
        consider (same) "voice_states s' = voice_states s"
          | (flags) vs where "hm_get (voice_states s) (se_user_id se) = Some vs"
              "voice_states s' = voice_states (fst (update_voice_state s (se_user_id se)
                 (or_false (vu_self_mute vsu)) (or_false (vu_self_deaf vsu))
                 (or_false (vu_self_video vsu)) (or_false (vu_self_stream vsu))))"
          | (entered) "is_ok (require_channel_permission (ap_db s) c ?a ''connect'')"
              "may_enter (ge_chrono env) (ap_db s) ch scope ?a"
              "voice_states s' = voice_states (fst (enter_voice env ?a vsu c scope s se))"
        proof (cases "is_ok (require_channel_permission (ap_db s) c ?a ''connect'')")
          case False
          with assms Some Inr scope that(1) show thesis by (simp add: update_voice_def Let_def)
        next
          case connect: True
          show thesis
          proof (cases "Option.bind (get_user_voice_state s (se_user_id se)) vs_channel_id = Some c")
            case True
            then obtain vs where vs: "hm_get (voice_states s) (se_user_id se) = Some vs"
              by (auto simp: get_user_voice_state_def bind_eq_Some_conv)
            with assms Some Inr scope connect True that(2) show thesis
              by (auto simp: update_voice_def Let_def update_voice_state_def)
          next
            case False
            with assms Some Inr scope connect that(1,3) show thesis
              by (cases "may_enter (ge_chrono env) (ap_db s) ch scope ?a")
                (simp_all add: update_voice_def Let_def)
          qed
        qed
        then show ?thesis
        proof cases
          case same
          then show ?thesis by auto
        next
          case (flags vs)
          then show ?thesis by (auto simp: update_voice_state_def Let_def)
        next
          case entered
          then show ?thesis
            using Inr scoped
            by (auto simp: enter join_voice_channel_def Let_def may_enter_def split: option.splits)
        qed
      qed
    qed
  qed
qed

theorem voice_update_only_authorised_witness:
  "\<exists>s' se'. update_voice an_env False
      \<lparr>vu_space_id = None, vu_channel_id = Some ''v'', vu_self_mute = None, vu_self_deaf = None,
       vu_self_video = None, vu_self_stream = None\<rparr> voice_app (a_session\<lparr>se_user_id := ''own''\<rparr>) = (s', se') \<and>
     (\<exists>ch. get_channel_row (ap_db voice_app) ''v'' = Inr ch \<and>
        is_ok (require_channel_permission (ap_db voice_app) ''v'' (session_auth (a_session\<lparr>se_user_id := ''own''\<rparr>) False) ''connect''))"
proof -
  let ?v = "\<lparr>vu_space_id = None, vu_channel_id = Some ''v'', vu_self_mute = None, vu_self_deaf = None,
       vu_self_video = None, vu_self_stream = None\<rparr> :: VoiceStateUpdateData"
  let ?se = "a_session\<lparr>se_user_id := ''own''\<rparr>"
  obtain s' se' where run: "update_voice an_env False ?v voice_app ?se = (s', se')" by fastforce
  have "Option.bind (hm_get (voice_states (fst (update_voice an_env False ?v voice_app ?se))) ''own'') vs_channel_id = Some ''v''"
    by code_simp
  then obtain vs where "hm_get (voice_states s') (se_user_id ?se) = Some vs" "vs_channel_id vs = Some ''v''"
    using run by (auto simp: bind_eq_Some_conv)
  moreover have "Option.bind (hm_get (voice_states voice_app) (se_user_id ?se)) vs_channel_id \<noteq> Some ''v''"
    by code_simp
  ultimately show ?thesis using voice_update_only_authorised [OF run] run by blast
qed

end
