(* ===== verification/Spaces.thy ===== *)
theory Spaces
  imports Voice
begin

text \<open>
  The metadata a space is served with: \<open>spaces_with_metadata\<close> of \<open>Server/src/routes/spaces.rs\<close> and
  the grouped counts of \<open>Server/src/db/spaces.rs\<close>, which bind at most 500 ids to a query.
\<close>

section \<open>Rows as JSON\<close>

definition space_json :: "SpaceRow \<Rightarrow> json" where
  "space_json r = JObj
     [(''id'', JStr (sp_id r)), (''name'', JStr (sp_name r)), (''slug'', JStr (sp_slug r)),
      (''description'', jstr_opt (sp_description r)), (''icon'', jstr_opt (sp_icon r)),
      (''banner'', jstr_opt (sp_banner r)), (''splash'', jstr_opt (sp_splash r)),
      (''owner_id'', JStr (sp_owner_id r)), (''verification_level'', JStr (sp_verification_level r)),
      (''default_notifications'', JStr (sp_default_notifications r)),
      (''explicit_content_filter'', JStr (sp_explicit_content_filter r)),
      (''vanity_url_code'', jstr_opt (sp_vanity_url_code r)),
      (''preferred_locale'', JStr (sp_preferred_locale r)),
      (''afk_channel_id'', jstr_opt (sp_afk_channel_id r)), (''afk_timeout'', JNum (sp_afk_timeout r)),
      (''system_channel_id'', jstr_opt (sp_system_channel_id r)),
      (''rules_channel_id'', jstr_opt (sp_rules_channel_id r)), (''nsfw_level'', JStr (sp_nsfw_level r)),
      (''premium_tier'', JStr (sp_premium_tier r)), (''public'', JBool (sp_public r)),
      (''allow_guest_access'', JBool (sp_allow_guest_access r)),
      (''premium_subscription_count'', JNum (sp_premium_subscription_count r)),
      (''max_members'', JNum (sp_max_members r)), (''created_at'', JStr (sp_created_at r))]"

section \<open>Grouped counts\<close>

definition CHUNK_SIZE :: nat where
  "CHUNK_SIZE = 500"

text \<open>\<open>slice::chunks\<close>.\<close>

function chunks :: "nat \<Rightarrow> 'a list \<Rightarrow> 'a list list" where
  "chunks n xs = (if n = 0 \<or> xs = [] then [] else take n xs # chunks n (drop n xs))"
  by pat_completeness auto

termination chunks
  by (relation "measure (\<lambda>(n, xs). length xs)") auto

declare chunks.simps [simp del]

text \<open>The memberships of people: \<open>members INNER JOIN users\<close>, without the system user.\<close>

definition human_members :: "db \<Rightarrow> MemberRow list" where
  "human_members d =
     filter (\<lambda>m. list_ex (\<lambda>u. us_id u = mb_user_id m \<and> \<not> us_system u) (users d)) (members d)"

text \<open>\<open>SELECT space_id, COUNT(*) .. GROUP BY space_id\<close>.\<close>

definition group_counts :: "MemberRow list \<Rightarrow> (string \<times> int) list" where
  "group_counts ms =
     map (\<lambda>sid. (sid, int (length (filter (\<lambda>m. mb_space_id m = sid) ms)))) (remdups (map mb_space_id ms))"

definition count_of :: "(string, int) hmap \<Rightarrow> string \<Rightarrow> int" where
  "count_of counts sid = (case hm_get counts sid of Some n \<Rightarrow> n | None \<Rightarrow> 0)"

definition add_counts :: "(string, int) hmap \<Rightarrow> (string \<times> int) list \<Rightarrow> (string, int) hmap" where
  "add_counts counts rows =
     foldl (\<lambda>counts (sid, n). hm_insert sid (count_of counts sid + n) counts) counts rows"

definition put_counts :: "(string, int) hmap \<Rightarrow> (string \<times> int) list \<Rightarrow> (string, int) hmap" where
  "put_counts counts rows = foldl (\<lambda>counts (sid, n). hm_insert sid n counts) counts rows"

definition count_memberships_by_space :: "db \<Rightarrow> string list \<Rightarrow> AppError + (string, int) hmap" where
  "count_memberships_by_space d user_ids =
     foldl (\<lambda>acc ids. and_then acc (\<lambda>counts.
        and_then (query d (group_counts (filter (\<lambda>m. mb_user_id m \<in> set ids) (human_members d))))
          (\<lambda>rows. Inr (add_counts counts rows))))
       (Inr []) (chunks CHUNK_SIZE user_ids)"

definition count_members_by_space :: "db \<Rightarrow> string list \<Rightarrow> AppError + (string, int) hmap" where
  "count_members_by_space d space_ids =
     foldl (\<lambda>acc ids. and_then acc (\<lambda>counts.
        and_then (query d (group_counts (filter (\<lambda>m. mb_space_id m \<in> set ids) (human_members d))))
          (\<lambda>rows. Inr (put_counts counts rows))))
       (Inr []) (chunks CHUNK_SIZE space_ids)"

definition online_user_ids :: "app \<Rightarrow> string list" where
  "online_user_ids s =
     map fst (filter (\<lambda>(k, p). pr_status p \<noteq> ''offline'' \<and> pr_status p \<noteq> ''invisible'') (presences s))"

definition spaces_with_metadata :: "app \<Rightarrow> SpaceRow list \<Rightarrow> AppError + json list" where
  "spaces_with_metadata s rows =
     and_then (count_members_by_space (ap_db s) (map sp_id rows)) (\<lambda>member_counts.
     and_then (count_memberships_by_space (ap_db s) (online_user_ids s)) (\<lambda>presence_counts.
     Inr (map (\<lambda>r. jinsert ''presence_count'' (JNum (count_of presence_counts (sp_id r)))
                    (jinsert ''member_count'' (JNum (count_of member_counts (sp_id r))) (space_json r))) rows)))"

section \<open>The chunked counts are the counts\<close>

lemma concat_chunks: "n > 0 \<Longrightarrow> concat (chunks n xs) = xs"
proof (induction n xs rule: chunks.induct)
  case (1 n xs)
  then show ?case by (subst chunks.simps) auto
qed

lemma count_of_insert [simp]: "count_of (hm_insert k v m) k' = (if k' = k then v else count_of m k')"
  by (simp add: count_of_def)

lemma count_of_Nil [simp]: "count_of [] sid = 0"
  by (simp add: count_of_def)

lemma add_counts_Cons:
  "add_counts counts ((k, n) # rows) = add_counts (hm_insert k (count_of counts k + n) counts) rows"
  by (simp add: add_counts_def)

lemma put_counts_Cons: "put_counts counts ((k, n) # rows) = put_counts (hm_insert k n counts) rows"
  by (simp add: put_counts_def)

lemma count_of_add_counts:
  "distinct (map fst rows) \<Longrightarrow>
     count_of (add_counts counts rows) sid =
       count_of counts sid + (case map_of rows sid of Some n \<Rightarrow> n | None \<Rightarrow> 0)"
proof (induction rows arbitrary: counts)
  case Nil
  then show ?case by (simp add: add_counts_def)
next
  case (Cons r rows)
  obtain k n where r: "r = (k, n)" by (cases r)
  have "map_of rows k = None" using Cons.prems r by (simp add: map_of_eq_None_iff)
  with Cons r show ?case by (simp add: add_counts_Cons)
qed

lemma count_of_put_counts:
  "distinct (map fst rows) \<Longrightarrow>
     count_of (put_counts counts rows) sid =
       (case map_of rows sid of Some n \<Rightarrow> n | None \<Rightarrow> count_of counts sid)"
proof (induction rows arbitrary: counts)
  case Nil
  then show ?case by (simp add: put_counts_def)
next
  case (Cons r rows)
  obtain k n where r: "r = (k, n)" by (cases r)
  have "map_of rows k = None" using Cons.prems r by (simp add: map_of_eq_None_iff)
  with Cons r show ?case by (auto simp: put_counts_Cons split: option.splits)
qed

lemma distinct_group_counts: "distinct (map fst (group_counts ms))"
  by (simp add: group_counts_def comp_def)

lemma map_of_group_counts:
  "(case map_of (group_counts ms) sid of Some n \<Rightarrow> n | None \<Rightarrow> 0) =
     int (length (filter (\<lambda>m. mb_space_id m = sid) ms))"
proof (cases "sid \<in> mb_space_id ` set ms")
  case True
  then have "map_of (group_counts ms) sid = Some (int (length (filter (\<lambda>m. mb_space_id m = sid) ms)))"
    by (auto simp: group_counts_def map_of_map_keys intro!: map_of_is_SomeI simp: comp_def)
  then show ?thesis by simp
next
  case False
  then have "map_of (group_counts ms) sid = None"
    by (auto simp: map_of_eq_None_iff group_counts_def)
  moreover have "filter (\<lambda>m. mb_space_id m = sid) ms = []"
    using False by (auto simp: filter_empty_conv)
  ultimately show ?thesis by simp
qed

lemma length_filter_in_append:
  assumes "distinct (ids @ ids')"
  shows "length (filter (\<lambda>m. P m \<and> f m \<in> set (ids @ ids')) ms) =
    length (filter (\<lambda>m. P m \<and> f m \<in> set ids) ms) + length (filter (\<lambda>m. P m \<and> f m \<in> set ids') ms)"
  using assms by (induction ms) auto

lemma memberships_fold:
  assumes "db_ok d" and "distinct (concat cs)"
  shows "\<exists>counts'. foldl (\<lambda>acc ids. and_then acc (\<lambda>counts.
        and_then (query d (group_counts (filter (\<lambda>m. mb_user_id m \<in> set ids) (human_members d))))
          (\<lambda>rows. Inr (add_counts counts rows)))) (Inr counts) cs = Inr counts' \<and>
     (\<forall>sid. count_of counts' sid = count_of counts sid +
        int (length (filter (\<lambda>m. mb_space_id m = sid \<and> mb_user_id m \<in> set (concat cs)) (human_members d))))"
  using assms(2)
proof (induction cs arbitrary: counts)
  case Nil
  then show ?case by simp
next
  case (Cons ids cs)
  let ?rows = "group_counts (filter (\<lambda>m. mb_user_id m \<in> set ids) (human_members d))"
  from Cons.IH [of "add_counts counts ?rows"] Cons.prems obtain counts' where
    run: "foldl (\<lambda>acc ids. and_then acc (\<lambda>counts.
        and_then (query d (group_counts (filter (\<lambda>m. mb_user_id m \<in> set ids) (human_members d))))
          (\<lambda>rows. Inr (add_counts counts rows)))) (Inr (add_counts counts ?rows)) cs = Inr counts'" and
    cnt: "\<forall>sid. count_of counts' sid = count_of (add_counts counts ?rows) sid +
        int (length (filter (\<lambda>m. mb_space_id m = sid \<and> mb_user_id m \<in> set (concat cs)) (human_members d)))"
    by auto
  have "count_of counts' sid = count_of counts sid +
      int (length (filter (\<lambda>m. mb_space_id m = sid \<and> mb_user_id m \<in> set (concat (ids # cs))) (human_members d)))" for sid
    using cnt Cons.prems
      length_filter_in_append [of ids "concat cs" "\<lambda>m. mb_space_id m = sid" mb_user_id "human_members d"]
    by (simp add: count_of_add_counts distinct_group_counts map_of_group_counts conj_commute)
  with run assms(1) show ?case by auto
qed

lemma members_fold:
  assumes "db_ok d"
    and "\<forall>sid. count_of counts sid \<in> {0, int (length (filter (\<lambda>m. mb_space_id m = sid) (human_members d)))}"
  shows "\<exists>counts'. foldl (\<lambda>acc ids. and_then acc (\<lambda>counts.
        and_then (query d (group_counts (filter (\<lambda>m. mb_space_id m \<in> set ids) (human_members d))))
          (\<lambda>rows. Inr (put_counts counts rows)))) (Inr counts) cs = Inr counts' \<and>
     (\<forall>sid. sid \<in> set (concat cs) \<or>
          count_of counts sid = int (length (filter (\<lambda>m. mb_space_id m = sid) (human_members d))) \<longrightarrow>
        count_of counts' sid = int (length (filter (\<lambda>m. mb_space_id m = sid) (human_members d))))"
  using assms(2)
proof (induction cs arbitrary: counts)
  case Nil
  then show ?case by simp
next
  case (Cons ids cs)
  let ?n = "\<lambda>sid. int (length (filter (\<lambda>m. mb_space_id m = sid) (human_members d)))"
  let ?ms = "filter (\<lambda>m. mb_space_id m \<in> set ids) (human_members d)"
  let ?c = "put_counts counts (group_counts ?ms)"
  have eq: "count_of ?c sid = (if sid \<in> set ids then ?n sid else count_of counts sid)" for sid
  proof (cases "map_of (group_counts ?ms) sid")
    case (Some n)
    then have "sid \<in> set ids" by (auto dest!: map_of_SomeD simp: group_counts_def)
    then have "filter (\<lambda>m. mb_space_id m = sid) ?ms = filter (\<lambda>m. mb_space_id m = sid) (human_members d)"
      by (auto intro: filter_cong)
    with \<open>sid \<in> set ids\<close> Some map_of_group_counts [of ?ms sid] show ?thesis
      by (simp add: count_of_put_counts distinct_group_counts)
  next
    case None
    have same: "count_of ?c sid = count_of counts sid"
      using None by (simp add: count_of_put_counts distinct_group_counts)
    show ?thesis
    proof (cases "sid \<in> set ids")
      case True
      with None map_of_group_counts [of ?ms sid] have "?n sid = 0" by (auto simp: filter_empty_conv)
      with same True Cons.prems show ?thesis by (metis insert_iff singletonD)
    qed (simp add: same)
  qed
  then have "\<forall>sid. count_of ?c sid \<in> {0, ?n sid}" using Cons.prems by simp
  from Cons.IH [OF this] eq assms(1) show ?case by auto
qed

text \<open>How many of the members of a space are people, and how many of those a set of users.\<close>

definition head_count :: "db \<Rightarrow> string \<Rightarrow> (string \<Rightarrow> bool) \<Rightarrow> int" where
  "head_count d sid P =
     int (length (filter (\<lambda>m. mb_space_id m = sid \<and> P (mb_user_id m)) (human_members d)))"

text \<open>Counting in chunks gives the counts: every space is served with the number of its members
  that are people and the number of those whose presence is neither offline nor invisible, however
  many spaces and users are online; the space itself is served unchanged.\<close>

theorem metadata_counts_exact:
  assumes "db_ok (ap_db s)" and "hm_wf (presences s)"
  shows "spaces_with_metadata s rows = Inr (map (\<lambda>r.
      jinsert ''presence_count'' (JNum (head_count (ap_db s) (sp_id r) (\<lambda>u.
          \<exists>p. get_user_presence s u = Some p \<and> pr_status p \<notin> {''offline'', ''invisible''})))
        (jinsert ''member_count'' (JNum (head_count (ap_db s) (sp_id r) (\<lambda>u. True))) (space_json r))) rows)"
proof -
  have online: "u \<in> set (online_user_ids s) \<longleftrightarrow>
      (\<exists>p. get_user_presence s u = Some p \<and> pr_status p \<notin> {''offline'', ''invisible''})" for u
    using assms(2) by (auto simp: online_user_ids_def get_user_presence_def hm_get_iff intro: rev_image_eqI)
  have "distinct (online_user_ids s)"
    using assms(2) by (auto simp: online_user_ids_def hm_wf_def distinct_map_filter)
  then obtain pc where pc: "count_memberships_by_space (ap_db s) (online_user_ids s) = Inr pc"
      "\<And>sid. count_of pc sid = head_count (ap_db s) sid (\<lambda>u. u \<in> set (online_user_ids s))"
    using memberships_fold [OF assms(1), of "chunks CHUNK_SIZE (online_user_ids s)" "[]"]
    unfolding count_memberships_by_space_def head_count_def
    by (auto simp: concat_chunks CHUNK_SIZE_def)
  obtain mc where mc: "count_members_by_space (ap_db s) (map sp_id rows) = Inr mc"
      "\<And>sid. sid \<in> sp_id ` set rows \<Longrightarrow> count_of mc sid = head_count (ap_db s) sid (\<lambda>u. True)"
    using members_fold [OF assms(1), of "[]" "chunks CHUNK_SIZE (map sp_id rows)"]
    unfolding count_members_by_space_def head_count_def
    by (auto simp: concat_chunks CHUNK_SIZE_def simp flip: set_concat)
  show ?thesis
    using mc(2) by (simp add: spaces_with_metadata_def mc(1) pc online)
qed

theorem metadata_counts_exact_witness:
  "spaces_with_metadata (fst (set_presence an_app ''mem'' ''dnd'' [])) [a_space ''s'' ''own''] =
     Inr [jinsert ''presence_count'' (JNum 1) (jinsert ''member_count'' (JNum 4) (space_json (a_space ''s'' ''own'')))]"
proof -
  let ?s = "fst (set_presence an_app ''mem'' ''dnd'' [])"
  have "db_ok (ap_db ?s)" "hm_wf (presences ?s)" by code_simp+
  note eq = metadata_counts_exact [OF this, of "[a_space ''s'' ''own'']"]
  have "(\<lambda>u. \<exists>p. get_user_presence ?s u = Some p \<and> pr_status p \<notin> {''offline'', ''invisible''}) =
      (\<lambda>u. u = ''mem'')"
    by (auto simp: get_user_presence_def set_presence_def an_app_def)
  moreover have "head_count (ap_db ?s) ''s'' (\<lambda>u. u = ''mem'') = 1" by code_simp
  moreover have "head_count (ap_db ?s) ''s'' (\<lambda>u. True) = 4" by code_simp
  moreover have "sp_id (a_space ''s'' ''own'') = ''s''" by (simp add: a_space_def)
  ultimately show ?thesis using eq by simp
qed

end
