(* ===== verification/Roles.thy ===== *)
theory Roles
  imports Spaces
begin

text \<open>
  Roles: \<open>Server/src/routes/roles.rs\<close> over the statements of \<open>Server/src/db/roles.rs\<close>.

  \<open>new_id\<close> is the snowflake a handler draws.  A role's permissions are stored as JSON text, which
  for a list of strings is the column \<open>JsonStrings\<close>; \<open>updated_at\<close> is not modelled.
\<close>

section \<open>Inputs\<close>

record CreateRole =
  cr_name :: string
  cr_color :: "int option"
  cr_hoist :: "bool option"
  cr_permissions :: "string list option"
  cr_mentionable :: "bool option"

record UpdateRole =
  ur_name :: "string option"
  ur_color :: "int option"
  ur_hoist :: "bool option"
  ur_icon :: "string option"
  ur_position :: "int option"
  ur_permissions :: "string list option"
  ur_mentionable :: "bool option"

record RolePositionUpdate =
  rp_id :: string
  rp_position :: int

section \<open>Statements\<close>

definition set_role :: "string \<Rightarrow> (RoleRow \<Rightarrow> RoleRow) \<Rightarrow> db \<Rightarrow> db" where
  "set_role role_id f d = d\<lparr>roles := map (\<lambda>r. if ro_id r = role_id then f r else r) (roles d)\<rparr>"

definition next_position :: "db \<Rightarrow> string \<Rightarrow> int" where
  "next_position d space_id =
     (let ps = map ro_position (filter (\<lambda>r. ro_space_id r = space_id) (roles d))
      in i64_add (if ps = [] then 0 else Max (set ps)) 1)"

definition new_role :: "string \<Rightarrow> string \<Rightarrow> CreateRole \<Rightarrow> int \<Rightarrow> RoleRow" where
  "new_role new_id space_id input pos =
     \<lparr>ro_id = new_id, ro_space_id = space_id, ro_name = cr_name input,
      ro_color = (case cr_color input of Some c \<Rightarrow> c | None \<Rightarrow> 0),
      ro_hoist = or_false (cr_hoist input), ro_icon = None, ro_position = pos,
      ro_permissions = JsonStrings (case cr_permissions input of Some ps \<Rightarrow> ps | None \<Rightarrow> []),
      ro_managed = False, ro_mentionable = or_false (cr_mentionable input)\<rparr>"

definition db_create_role :: "string \<Rightarrow> string \<Rightarrow> CreateRole \<Rightarrow> db \<Rightarrow> db \<times> (AppError + RoleRow)" where
  "db_create_role new_id space_id input d =
     try_in d (query d (next_position d space_id)) (\<lambda>pos.
     try_run
       (execute_checked d
          (\<lambda>d. if list_ex (\<lambda>r. ro_id r = new_id) (roles d) then Some (primary_key_violation d)
               else if \<not> list_ex (\<lambda>r. sp_id r = space_id) (spaces d) then Some (foreign_key_violation d)
               else None)
          (\<lambda>d. d\<lparr>roles := roles d @ [new_role new_id space_id input pos]\<rparr>))
       (\<lambda>d _. (d, get_role_row d new_id)))"

text \<open>The columns an update sets; without any, nothing is executed.\<close>

definition role_columns :: "UpdateRole \<Rightarrow> RoleRow \<Rightarrow> RoleRow" where
  "role_columns input r =
     r\<lparr>ro_name := (case ur_name input of Some x \<Rightarrow> x | None \<Rightarrow> ro_name r),
       ro_icon := (case ur_icon input of Some x \<Rightarrow> Some x | None \<Rightarrow> ro_icon r),
       ro_permissions := (case ur_permissions input of Some x \<Rightarrow> JsonStrings x | None \<Rightarrow> ro_permissions r),
       ro_color := (case ur_color input of Some x \<Rightarrow> x | None \<Rightarrow> ro_color r),
       ro_hoist := (case ur_hoist input of Some x \<Rightarrow> x | None \<Rightarrow> ro_hoist r),
       ro_position := (case ur_position input of Some x \<Rightarrow> x | None \<Rightarrow> ro_position r),
       ro_mentionable := (case ur_mentionable input of Some x \<Rightarrow> x | None \<Rightarrow> ro_mentionable r)\<rparr>"

definition no_columns :: "UpdateRole \<Rightarrow> bool" where
  "no_columns input \<longleftrightarrow>
     ur_name input = None \<and> ur_icon input = None \<and> ur_permissions input = None \<and>
     ur_color input = None \<and> ur_hoist input = None \<and> ur_position input = None \<and>
     ur_mentionable input = None"

definition db_update_role :: "string \<Rightarrow> UpdateRole \<Rightarrow> db \<Rightarrow> db \<times> (AppError + RoleRow)" where
  "db_update_role role_id input d =
     (if no_columns input then (d, get_role_row d role_id)
      else try_run (execute d (set_role role_id (role_columns input)))
             (\<lambda>d _. (d, get_role_row d role_id)))"

text \<open>Deleting a role deletes its assignments and the emoji restrictions to it with it.\<close>

definition db_delete_role :: "string \<Rightarrow> db \<Rightarrow> db \<times> (AppError + unit)" where
  "db_delete_role role_id d =
     execute d (\<lambda>d. d\<lparr>roles := filter (\<lambda>r. ro_id r \<noteq> role_id) (roles d),
                       member_roles := filter (\<lambda>(u, s, i). i \<noteq> role_id) (member_roles d),
                       emoji_roles := filter (\<lambda>(e, i). i \<noteq> role_id) (emoji_roles d)\<rparr>)"

text \<open>One transaction.\<close>

definition move_role :: "string \<Rightarrow> db \<Rightarrow> RolePositionUpdate \<Rightarrow> db" where
  "move_role space_id d u =
     d\<lparr>roles := map (\<lambda>r. if ro_id r = rp_id u \<and> ro_space_id r = space_id
                         then r\<lparr>ro_position := rp_position u\<rparr> else r) (roles d)\<rparr>"

definition db_reorder_roles :: "string \<Rightarrow> RolePositionUpdate list \<Rightarrow> db \<Rightarrow> db \<times> (AppError + unit)" where
  "db_reorder_roles space_id updates d =
     execute d (\<lambda>d. foldl (move_role space_id) d updates)"

section \<open>Handlers\<close>

text \<open>Only known permissions that the actor holds may be granted.\<close>

definition validate_role_permissions ::
    "db \<Rightarrow> string \<Rightarrow> AuthUser \<Rightarrow> string list \<Rightarrow> AppError + unit" where
  "validate_role_permissions d space_id auth permissions =
     (case find (\<lambda>p. p \<notin> set ALL_PERMISSIONS) permissions of
        Some p \<Rightarrow> Inl (BadRequest (''unknown permission: '' @ p))
      | None \<Rightarrow>
          and_then (resolve_member_permissions_with_admin d space_id (au_user_id auth) (au_is_admin auth))
            (\<lambda>actor_perms.
             if ''administrator'' \<in> set actor_perms then Inr ()
             else case find (\<lambda>p. p \<notin> set actor_perms) permissions of
                    Some p \<Rightarrow> Inl (Forbidden (''you cannot grant a permission you do not have: '' @ p))
                  | None \<Rightarrow> Inr ()))"

definition validate_optional :: "db \<Rightarrow> string \<Rightarrow> AuthUser \<Rightarrow> string list option \<Rightarrow> AppError + unit" where
  "validate_optional d space_id auth permissions =
     (case permissions of Some ps \<Rightarrow> validate_role_permissions d space_id auth ps | None \<Rightarrow> Inr ())"

definition role_row_to_json :: "RoleRow \<Rightarrow> json" where
  "role_row_to_json r = JObj
     [(''id'', JStr (ro_id r)), (''name'', JStr (ro_name r)), (''color'', JNum (ro_color r)),
      (''hoist'', JBool (ro_hoist r)), (''icon'', jstr_opt (ro_icon r)),
      (''position'', JNum (ro_position r)),
      (''permissions'', jstrs (from_json_or_default (ro_permissions r))),
      (''managed'', JBool (ro_managed r)), (''mentionable'', JBool (ro_mentionable r))]"

definition space_update_event :: "string \<Rightarrow> json \<Rightarrow> GatewayBroadcast" where
  "space_update_event space_id data =
     \<lparr>gb_space_id = Some space_id, gb_target_user_ids = None,
      gb_event = JObj [(''op'', JNum 0), (''type'', JStr ''space.update''), (''data'', data)],
      gb_intent = ''spaces'', gb_required_permission = None\<rparr>"

text \<open>What every change of roles is followed by: connected voice participants get their new
  permissions, and the space is announced again.\<close>

definition broadcast_roles_changed :: "chrono \<Rightarrow> app \<Rightarrow> string \<Rightarrow> app \<times> (AppError + unit)" where
  "broadcast_roles_changed chr s space_id =
     (let s1 = refresh_domain_voice_permissions chr s space_id in
      try_in s1 (get_space_row (ap_db s1) space_id) (\<lambda>row.
      try_in s1 (spaces_with_metadata s1 [row]) (\<lambda>served.
      (send (space_update_event space_id (hd served)) s1, Inr ()))))"

definition list_space_roles :: "app \<Rightarrow> string \<Rightarrow> AuthUser \<Rightarrow> AppError + json list" where
  "list_space_roles s space_id auth =
     and_then (if \<not> au_is_admin auth then require_membership (ap_db s) space_id (au_user_id auth) else Inr ())
       (\<lambda>_. and_then (list_roles (ap_db s) space_id) (\<lambda>rows. Inr (map role_row_to_json rows)))"

definition bad_role_name :: AppError where
  "bad_role_name = BadRequest ''role name must be between 1 and 100 characters''"

definition not_in_space :: AppError where
  "not_in_space = NotFound ''role not found in this space''"

definition require_role_rank :: "db \<Rightarrow> string \<Rightarrow> AuthUser \<Rightarrow> int \<Rightarrow> AppError + unit" where
  "require_role_rank d space_id auth pos =
     (if \<not> au_is_admin auth then require_role_hierarchy d space_id (au_user_id auth) pos else Inr ())"

text \<open>A handler checks, then writes, then announces.  The checks read the database only.\<close>

definition create_role_checks :: "db \<Rightarrow> string \<Rightarrow> AuthUser \<Rightarrow> CreateRole \<Rightarrow> AppError + unit" where
  "create_role_checks d space_id auth input =
     and_then (require_permission d space_id auth ''manage_roles'') (\<lambda>_.
     let name = trim (cr_name input) in
     if name = [] \<or> length name > 100 then Inl bad_role_name else
     and_then (validate_optional d space_id auth (cr_permissions input)) (\<lambda>_.
     and_then (get_space_row d space_id) (\<lambda>space.
     if \<not> au_is_admin auth \<and> sp_owner_id space \<noteq> au_user_id auth
     then Inl (Forbidden ''only the domain owner can create permission groups'') else Inr ())))"

definition create_role ::
    "chrono \<Rightarrow> string \<Rightarrow> app \<Rightarrow> string \<Rightarrow> AuthUser \<Rightarrow> CreateRole \<Rightarrow> app \<times> (AppError + json)" where
  "create_role chr new_id s space_id auth input =
     try_in s (create_role_checks (ap_db s) space_id auth input) (\<lambda>_.
     try_run (on_db (db_create_role new_id space_id input) s) (\<lambda>s row.
     try_run (broadcast_roles_changed chr s space_id) (\<lambda>s _. (s, Inr (role_row_to_json row)))))"

definition update_role_checks :: "db \<Rightarrow> string \<Rightarrow> string \<Rightarrow> AuthUser \<Rightarrow> UpdateRole \<Rightarrow> AppError + unit" where
  "update_role_checks d space_id role_id auth input =
     and_then (require_permission d space_id auth ''manage_roles'') (\<lambda>_.
     and_then (get_role_row d role_id) (\<lambda>target_role.
     if ro_space_id target_role \<noteq> space_id then Inl not_in_space else
     and_then (require_role_rank d space_id auth (ro_position target_role)) (\<lambda>_.
     and_then (validate_optional d space_id auth (ur_permissions input)) (\<lambda>_.
     case ur_name input of
       Some name \<Rightarrow> if trim name = [] \<or> length name > 100 then Inl bad_role_name else Inr ()
     | None \<Rightarrow> Inr ()))))"

text \<open>The position is stripped: it has an endpoint of its own.\<close>

definition update_role ::
    "chrono \<Rightarrow> app \<Rightarrow> string \<Rightarrow> string \<Rightarrow> AuthUser \<Rightarrow> UpdateRole \<Rightarrow> app \<times> (AppError + json)" where
  "update_role chr s space_id role_id auth input =
     try_in s (update_role_checks (ap_db s) space_id role_id auth input) (\<lambda>_.
     try_run (on_db (db_update_role role_id (input\<lparr>ur_position := None\<rparr>)) s) (\<lambda>s row.
     try_run (broadcast_roles_changed chr s space_id) (\<lambda>s _. (s, Inr (role_row_to_json row)))))"

definition delete_role_checks :: "db \<Rightarrow> string \<Rightarrow> string \<Rightarrow> AuthUser \<Rightarrow> AppError + unit" where
  "delete_role_checks d space_id role_id auth =
     and_then (require_permission d space_id auth ''manage_roles'') (\<lambda>_.
     and_then (get_role_row d role_id) (\<lambda>target_role.
     if ro_space_id target_role \<noteq> space_id then Inl not_in_space else
     if ro_position target_role = 0 then Inl (Forbidden ''cannot delete the @everyone role'') else
     require_role_rank d space_id auth (ro_position target_role)))"

definition delete_role ::
    "chrono \<Rightarrow> app \<Rightarrow> string \<Rightarrow> string \<Rightarrow> AuthUser \<Rightarrow> app \<times> (AppError + unit)" where
  "delete_role chr s space_id role_id auth =
     try_in s (delete_role_checks (ap_db s) space_id role_id auth) (\<lambda>_.
     try_run (on_db (db_delete_role role_id) s) (\<lambda>s _.
     broadcast_roles_changed chr s space_id))"

text \<open>The whole batch is validated against the hierarchy before anything is written.\<close>

fun validate_moves ::
    "db \<Rightarrow> string \<Rightarrow> AuthUser \<Rightarrow> RoleRow list \<Rightarrow> string list \<Rightarrow> RolePositionUpdate list \<Rightarrow> AppError + unit" where
  "validate_moves d space_id auth rs seen [] = Inr ()"
| "validate_moves d space_id auth rs seen (u # us) =
     and_then (ok_or not_in_space (find (\<lambda>r. ro_id r = rp_id u) rs)) (\<lambda>role.
     if rp_id u \<in> set seen \<or> rp_position u < 0 \<or> (ro_position role = 0) \<noteq> (rp_position u = 0)
     then Inl (BadRequest ''invalid role positions; @everyone must remain at zero'') else
     and_then (if ro_position role = rp_position u then Inr ()
               else and_then (require_role_rank d space_id auth (ro_position role))
                      (\<lambda>_. require_role_rank d space_id auth (rp_position u)))
       (\<lambda>_. validate_moves d space_id auth rs (rp_id u # seen) us))"

definition reorder_roles_checks :: "db \<Rightarrow> string \<Rightarrow> AuthUser \<Rightarrow> RolePositionUpdate list \<Rightarrow> AppError + unit" where
  "reorder_roles_checks d space_id auth input =
     and_then (require_permission d space_id auth ''manage_roles'') (\<lambda>_.
     and_then (list_roles d space_id) (\<lambda>rs. validate_moves d space_id auth rs [] input))"

definition reorder_roles ::
    "chrono \<Rightarrow> app \<Rightarrow> string \<Rightarrow> AuthUser \<Rightarrow> RolePositionUpdate list \<Rightarrow> app \<times> (AppError + json list)" where
  "reorder_roles chr s space_id auth input =
     try_in s (reorder_roles_checks (ap_db s) space_id auth input) (\<lambda>_.
     try_run (on_db (db_reorder_roles space_id input) s) (\<lambda>s _.
     try_run (broadcast_roles_changed chr s space_id) (\<lambda>s _.
     try_in s (list_roles (ap_db s) space_id) (\<lambda>rows. (s, Inr (map role_row_to_json rows))))))"

section \<open>What the announcements leave alone\<close>

lemma foldl_evictions_only:
  assumes "\<And>s x. evictions_only (ap_db s) (ap_db (f s x))"
  shows "evictions_only (ap_db s) (ap_db (foldl f s xs))"
  by (induction xs arbitrary: s) (auto intro: evictions_only_trans assms)

lemma attempt_evictions_only: "evictions_only (ap_db s) (ap_db (fst (attempt_voice_eviction s c u)))"
  by (auto simp: attempt_voice_eviction_def on_db_def execute_def Let_def split: option.split)

lemma drain_rows_evictions_only: "evictions_only (ap_db s) (ap_db (fst (drain_rows rows s)))"
proof (induction rows s rule: drain_rows.induct)
  case (2 c u rows s)
  show ?case
  proof (cases "snd (attempt_voice_eviction s c u)")
    case (Inr x)
    with 2 have "evictions_only (ap_db (fst (attempt_voice_eviction s c u)))
        (ap_db (fst (drain_rows rows (fst (attempt_voice_eviction s c u)))))" by blast
    with Inr attempt_evictions_only [of s c u] show ?thesis
      by (auto simp: try_run_def intro: evictions_only_trans)
  qed (simp add: try_run_def attempt_evictions_only)
qed simp

lemma drain_evictions_only: "evictions_only (ap_db s) (ap_db (fst (drain_voice_evictions s)))"
  by (simp add: drain_voice_evictions_def try_in_def drain_rows_evictions_only split: sum.split)

lemma reconcile_one_evictions_only: "evictions_only (ap_db s) (ap_db (reconcile_one s old))"
  by (simp add: reconcile_one_def drop_evictions_only split: option.split)

lemma reconcile_evictions_only: "evictions_only (ap_db s) (ap_db (reconcile_voice_access s))"
  unfolding reconcile_voice_access_def Let_def
  by (auto intro: evictions_only_trans [OF drain_evictions_only] foldl_evictions_only
      reconcile_one_evictions_only)

lemma revoke_evictions_only: "evictions_only (ap_db s) (ap_db (revoke_voice_sessions P s))"
  unfolding revoke_voice_sessions_def by (intro foldl_evictions_only drop_evictions_only)

lemma refresh_participant_evictions_only:
  "evictions_only (ap_db s) (ap_db (refresh_participant chr lk c s u))"
proof -
  have "evictions_only (ap_db s) (ap_db (revoke_channel_voice_access (log_lk x s) c y))" for x y
    using revoke_evictions_only [of "log_lk x s"]
    by (simp add: revoke_channel_voice_access_def)
  then show ?thesis
    by (simp add: refresh_participant_def Let_def split: prod.split)
qed

lemma refresh_domain_evictions_only:
  "evictions_only (ap_db s) (ap_db (refresh_domain_voice_permissions chr s sp))"
proof -
  have "evictions_only (ap_db s) (ap_db (refresh_channel_permissions chr lk s c))" for s lk c
    unfolding refresh_channel_permissions_def
    by (intro foldl_evictions_only refresh_participant_evictions_only)
  note step = foldl_evictions_only [OF this]
  show ?thesis
    unfolding refresh_domain_voice_permissions_def Let_def
    by (auto split: option.split intro: evictions_only_trans [OF reconcile_evictions_only step]
        reconcile_evictions_only)
qed

lemma broadcast_roles_evictions_only:
  "evictions_only (ap_db s) (ap_db (fst (broadcast_roles_changed chr s sp)))"
  using refresh_domain_evictions_only [of s chr sp]
  by (simp add: broadcast_roles_changed_def Let_def try_in_def split: sum.split)

end
