(* ===== verification/Federation.thy ===== *)
theory Federation
  imports AppState
begin

text \<open>
  Federated ids and the outbox: \<open>Server/src/federation/mapping.rs\<close>, the fan-out of
  \<open>federation/outbound.rs\<close> and \<open>enqueue\<close> of \<open>federation/sender.rs\<close>.
\<close>

section \<open>Qualified ids\<close>

text \<open>\<open>str::split_once\<close> of a character.\<close>

definition split_once :: "char \<Rightarrow> string \<Rightarrow> (string \<times> string) option" where
  "split_once c s =
     (if c \<in> set s then Some (takeWhile (\<lambda>x. x \<noteq> c) s, tl (dropWhile (\<lambda>x. x \<noteq> c) s)) else None)"

definition qualify :: "string \<Rightarrow> string \<Rightarrow> string" where
  "qualify i domain = (if CHR ''@'' \<in> set i then i else i @ ''@'' @ domain)"

definition local_part :: "string \<Rightarrow> string" where
  "local_part i = (case split_once (CHR ''@'') i of Some (l, _) \<Rightarrow> l | None \<Rightarrow> i)"

definition domain_of :: "string \<Rightarrow> string option" where
  "domain_of i = map_option snd (split_once (CHR ''@'') i)"

definition handle :: "string \<Rightarrow> string \<Rightarrow> string" where
  "handle username domain = (if CHR ''@'' \<in> set username then username else username @ ''@'' @ domain)"

definition is_local :: "string \<Rightarrow> string \<Rightarrow> bool" where
  "is_local i our_domain =
     (case domain_of i of None \<Rightarrow> True | Some d \<Rightarrow> eq_ignore_ascii_case d our_domain)"

lemma split_once_append:
  "c \<notin> set l \<Longrightarrow> split_once c (l @ c # r) = Some (l, r)"
  by (induction l) (auto simp: split_once_def)

lemma split_once_None [simp]: "c \<notin> set l \<Longrightarrow> split_once c l = None"
  by (simp add: split_once_def)

lemma split_once_Some: "split_once c s = Some (l, r) \<Longrightarrow> s = l @ c # r \<and> c \<notin> set l"
proof -
  assume eq: "split_once c s = Some (l, r)"
  then have c: "c \<in> set s" and l: "l = takeWhile (\<lambda>x. x \<noteq> c) s" and r: "r = tl (dropWhile (\<lambda>x. x \<noteq> c) s)"
    by (auto simp: split_once_def split: if_splits)
  from c have "dropWhile (\<lambda>x. x \<noteq> c) s \<noteq> []" by simp
  moreover from this have "hd (dropWhile (\<lambda>x. x \<noteq> c) s) = c" using hd_dropWhile by blast
  ultimately have "dropWhile (\<lambda>x. x \<noteq> c) s = c # r" by (metis list.collapse r)
  then have "s = l @ c # r" using l by (metis takeWhile_dropWhile_id)
  moreover have "c \<notin> set l" unfolding l by (metis (mono_tags) set_takeWhileD)
  ultimately show ?thesis ..
qed

text \<open>Qualifying an id loses nothing and is done once: a bare local id comes back with its own
  domain from the qualified one, qualifying again (for whatever domain) changes nothing, and an id
  that comes from another server keeps that server as its home.\<close>

theorem qualify_roundtrip:
  assumes "CHR ''@'' \<notin> set i"
  shows "local_part (qualify i dm) = i \<and> domain_of (qualify i dm) = Some dm \<and>
    qualify (qualify i dm) dm' = qualify i dm \<and> is_local (qualify i dm) dm \<and>
    (is_local (qualify i dm) dm' \<longleftrightarrow> eq_ignore_ascii_case dm dm')"
  using assms
  by (simp add: qualify_def local_part_def domain_of_def is_local_def split_once_append)

theorem qualify_roundtrip_witness:
  "local_part (qualify ''123'' ''a.example'') = ''123'' \<and> \<not> is_local (qualify ''123'' ''a.example'') ''b.example''"
proof -
  have "CHR ''@'' \<notin> set ''123''" by simp
  moreover have "\<not> eq_ignore_ascii_case ''a.example'' ''b.example''" by code_simp
  ultimately show ?thesis using qualify_roundtrip [of "''123''" "''a.example''" "''b.example''"] by simp
qed

section \<open>The outbox\<close>

definition space_origin :: "db \<Rightarrow> string \<Rightarrow> AppError + string option" where
  "space_origin d space_id = query d (map_of (space_origins d) space_id)"

definition outbox_enqueue :: "string \<Rightarrow> FederationEnvelope \<Rightarrow> db \<Rightarrow> db \<times> (AppError + unit)" where
  "outbox_enqueue target envelope d =
     execute d (\<lambda>d. d\<lparr>federation_outbox := federation_outbox d @ [(target, envelope)]\<rparr>)"

text \<open>\<open>seen\<close> holds the lower-cased domains served so far.\<close>

fun enqueue_targets ::
    "string \<Rightarrow> FederationEnvelope \<Rightarrow> string list \<Rightarrow> string list \<Rightarrow> db \<Rightarrow> db \<times> (AppError + unit)" where
  "enqueue_targets dm envelope seen [] d = (d, Inr ())"
| "enqueue_targets dm envelope seen (target # targets) d =
     (if eq_ignore_ascii_case target dm \<or> map to_ascii_lowercase target \<in> set seen
      then enqueue_targets dm envelope seen targets d
      else try_run (outbox_enqueue target envelope d)
             (\<lambda>d _. enqueue_targets dm envelope (map to_ascii_lowercase target # seen) targets d))"

definition enqueue :: "FederationEnvelope \<Rightarrow> string list \<Rightarrow> app \<Rightarrow> app \<times> (AppError + unit)" where
  "enqueue envelope targets s =
     (case federation_domain s of
        None \<Rightarrow> (s, Inr ())
      | Some dm \<Rightarrow> on_db (enqueue_targets dm envelope [] targets) s)"

definition fanout_to_targets ::
    "string \<Rightarrow> string \<Rightarrow> json \<Rightarrow> string list \<Rightarrow> app \<Rightarrow> app \<times> (AppError + unit)" where
  "fanout_to_targets local_space_id event_type payload targets s =
     (case federation_domain s of
        None \<Rightarrow> (s, Inr ())
      | Some dm \<Rightarrow>
          if targets = [] then (s, Inr ()) else
          try_in s (space_origin (ap_db s) local_space_id) (\<lambda>origin.
          if origin \<noteq> None then (s, Inr ()) else
          enqueue \<lparr>fe_origin = dm, fe_space_id = Some (qualify local_space_id dm),
                   fe_type = event_type, fe_payload = payload\<rparr> targets s))"

definition fanout_to_space ::
    "string \<Rightarrow> string \<Rightarrow> json \<Rightarrow> app \<Rightarrow> app \<times> (AppError + unit)" where
  "fanout_to_space local_space_id event_type payload s =
     try_in s (interested_servers (ap_db s) local_space_id) (\<lambda>targets.
     fanout_to_targets local_space_id event_type payload targets s)"

definition member_leave_payload :: "string \<Rightarrow> string \<Rightarrow> json" where
  "member_leave_payload dm user_id = JObj [(''user_id'', JStr (qualify user_id dm))]"

definition member_join_payload :: "string \<Rightarrow> User \<Rightarrow> json" where
  "member_join_payload dm user =
     JObj [(''user'', JObj [(''id'', JStr (qualify (us_id user) dm)), (''username'', JStr (us_username user)),
                            (''display_name'', jstr_opt (us_display_name user)),
                            (''avatar'', jstr_opt (us_avatar user))])]"

lemma enqueue_targets_appends:
  assumes "db_ok d"
  shows "\<exists>ts. enqueue_targets dm e seen targets d =
      (d\<lparr>federation_outbox := federation_outbox d @ map (\<lambda>t. (t, e)) ts\<rparr>, Inr ()) \<and>
    set ts \<subseteq> set targets \<and> distinct (map (map to_ascii_lowercase) ts) \<and>
    (\<forall>t \<in> set ts. map to_ascii_lowercase t \<notin> set seen \<and> \<not> eq_ignore_ascii_case t dm) \<and>
    (\<forall>t \<in> set targets. eq_ignore_ascii_case t dm \<or> map to_ascii_lowercase t \<in> set seen \<or>
        (\<exists>t' \<in> set ts. eq_ignore_ascii_case t t'))"
  using assms
proof (induction targets arbitrary: seen d)
  case Nil
  then show ?case by simp
next
  case (Cons t targets)
  show ?case
  proof (cases "eq_ignore_ascii_case t dm \<or> map to_ascii_lowercase t \<in> set seen")
    case True
    with Cons.IH [OF Cons.prems, of seen] show ?thesis by fastforce
  next
    case False
    let ?d = "d\<lparr>federation_outbox := federation_outbox d @ [(t, e)]\<rparr>"
    from Cons.prems have "db_ok ?d" by simp
    from Cons.IH [OF this, of "map to_ascii_lowercase t # seen"] obtain ts where
      ts: "enqueue_targets dm e (map to_ascii_lowercase t # seen) targets ?d =
          (?d\<lparr>federation_outbox := federation_outbox ?d @ map (\<lambda>t. (t, e)) ts\<rparr>, Inr ())"
        "set ts \<subseteq> set targets" "distinct (map (map to_ascii_lowercase) ts)"
        "\<forall>t' \<in> set ts. map to_ascii_lowercase t' \<notin> set (map to_ascii_lowercase t # seen) \<and>
          \<not> eq_ignore_ascii_case t' dm"
        "\<forall>t' \<in> set targets. eq_ignore_ascii_case t' dm \<or>
          map to_ascii_lowercase t' \<in> set (map to_ascii_lowercase t # seen) \<or>
          (\<exists>t'' \<in> set ts. eq_ignore_ascii_case t' t'')"
      by blast
    have run: "enqueue_targets dm e seen (t # targets) d =
        (d\<lparr>federation_outbox := federation_outbox d @ map (\<lambda>t. (t, e)) (t # ts)\<rparr>, Inr ())"
      using False Cons.prems ts(1) by (simp add: outbox_enqueue_def)
    show ?thesis
      by (rule exI [of _ "t # ts"])
        (use run False ts in \<open>auto simp: eq_ignore_ascii_case_def\<close>)
  qed
qed

text \<open>A fan-out reaches every interested server exactly once: of the targets, each domain other
  than this server's own gets one delivery queued (domains differing in case are the same), this
  server never delivers to itself, what was queued before stays, and nothing else is written.\<close>

theorem fanout_exactly_once:
  assumes "db_ok (ap_db s)" and "federation_domain s = Some dm"
    and "space_origin (ap_db s) sp = Inr None" and "targets \<noteq> []"
  shows "\<exists>ts. fanout_to_targets sp ty payload targets s =
      (s\<lparr>ap_db := (ap_db s)\<lparr>federation_outbox := federation_outbox (ap_db s) @
           map (\<lambda>t. (t, \<lparr>fe_origin = dm, fe_space_id = Some (qualify sp dm), fe_type = ty,
                         fe_payload = payload\<rparr>)) ts\<rparr>\<rparr>, Inr ()) \<and>
    distinct (map (map to_ascii_lowercase) ts) \<and>
    (\<forall>t \<in> set ts. t \<in> set targets \<and> \<not> eq_ignore_ascii_case t dm) \<and>
    (\<forall>t \<in> set targets. \<not> eq_ignore_ascii_case t dm \<longrightarrow> (\<exists>t' \<in> set ts. eq_ignore_ascii_case t t'))"
proof -
  let ?e = "\<lparr>fe_origin = dm, fe_space_id = Some (qualify sp dm), fe_type = ty, fe_payload = payload\<rparr>"
  obtain ts where ts: "enqueue_targets dm ?e [] targets (ap_db s) =
        ((ap_db s)\<lparr>federation_outbox := federation_outbox (ap_db s) @ map (\<lambda>t. (t, ?e)) ts\<rparr>, Inr ())"
      "set ts \<subseteq> set targets" "distinct (map (map to_ascii_lowercase) ts)"
      "\<forall>t \<in> set ts. \<not> eq_ignore_ascii_case t dm"
      "\<forall>t \<in> set targets. eq_ignore_ascii_case t dm \<or> (\<exists>t' \<in> set ts. eq_ignore_ascii_case t t')"
    using enqueue_targets_appends [OF assms(1), of dm ?e "[]" targets] by auto
  show ?thesis
    by (rule exI [of _ ts])
      (use assms ts in \<open>auto simp: fanout_to_targets_def enqueue_def on_db_def Let_def\<close>)
qed

theorem fanout_exactly_once_witness:
  "\<exists>ts. fst (fanout_to_targets ''s'' ''m.member.leave'' JNull [''b.example'', ''A.example'', ''B.example'']
        (an_app\<lparr>federation_domain := Some ''a.example''\<rparr>)) =
      (an_app\<lparr>federation_domain := Some ''a.example'', ap_db := a_db\<lparr>federation_outbox :=
         map (\<lambda>t. (t, \<lparr>fe_origin = ''a.example'', fe_space_id = Some ''s@a.example'',
                       fe_type = ''m.member.leave'', fe_payload = JNull\<rparr>)) ts\<rparr>\<rparr>) \<and>
      distinct (map (map to_ascii_lowercase) ts) \<and> ts \<noteq> []"
proof -
  let ?s = "an_app\<lparr>federation_domain := Some ''a.example''\<rparr>"
  let ?ts = "[''b.example'', ''A.example'', ''B.example'']"
  have a: "db_ok (ap_db ?s)" by code_simp
  have b: "federation_domain ?s = Some ''a.example''" by simp
  have c: "space_origin (ap_db ?s) ''s'' = Inr None" by code_simp
  have q: "qualify ''s'' ''a.example'' = ''s@a.example''" by code_simp
  have r: "\<not> eq_ignore_ascii_case ''b.example'' ''a.example''" by code_simp
  have db: "ap_db ?s = a_db" "federation_outbox a_db = []" by (simp_all add: an_app_def sample_defs)
  from fanout_exactly_once [OF a b c, of ?ts "''m.member.leave''" JNull] obtain ts where
    ts: "fanout_to_targets ''s'' ''m.member.leave'' JNull ?ts ?s =
      (?s\<lparr>ap_db := (ap_db ?s)\<lparr>federation_outbox := federation_outbox (ap_db ?s) @
           map (\<lambda>t. (t, \<lparr>fe_origin = ''a.example'', fe_space_id = Some (qualify ''s'' ''a.example''),
                         fe_type = ''m.member.leave'', fe_payload = JNull\<rparr>)) ts\<rparr>\<rparr>, Inr ())"
      "distinct (map (map to_ascii_lowercase) ts)"
      "\<forall>t \<in> set ?ts. \<not> eq_ignore_ascii_case t ''a.example'' \<longrightarrow> (\<exists>t' \<in> set ts. eq_ignore_ascii_case t t')"
    by auto
  from ts(3) r have "ts \<noteq> []" by auto
  with ts(1,2) show ?thesis by (intro exI [of _ ts]) (simp add: q db)
qed

end
