(* ===== verification/Members.thy ===== *)
theory Members
  imports Roles Federation
begin

text \<open>
  Members: the moderation handlers of \<open>Server/src/routes/members.rs\<close> over the statements of
  \<open>Server/src/db/members.rs\<close>.

  Statements run one by one, as the code runs them: nothing is rolled back when a later one fails.
  \<open>avatar_store\<close> is the part of \<open>storage.rs\<close> the handlers call; the files it keeps are not part of
  the state.
\<close>

section \<open>Inputs\<close>

record UpdateMember =
  um_nickname :: "string option"
  um_avatar :: "string option"
  um_roles :: "string list option"
  um_mute :: "bool option"
  um_deaf :: "bool option"
  um_communication_disabled_until :: "string option option"

record avatar_store =
  av_save :: "app \<Rightarrow> string \<Rightarrow> string \<Rightarrow> string \<Rightarrow> string \<Rightarrow> AppError + string"
      \<comment> \<open>uploader, space, entity, data: the url it is served under\<close>
  av_delete :: "app \<Rightarrow> string \<Rightarrow> AppError + unit"          \<comment> \<open>entity\<close>

section \<open>Statements\<close>

definition set_member :: "string \<Rightarrow> string \<Rightarrow> (MemberRow \<Rightarrow> MemberRow) \<Rightarrow> db \<Rightarrow> db" where
  "set_member space_id user_id f d =
     d\<lparr>members := map (\<lambda>r. if mb_space_id r = space_id \<and> mb_user_id r = user_id then f r else r)
                    (members d)\<rparr>"

definition has_member :: "db \<Rightarrow> string \<Rightarrow> string \<Rightarrow> bool" where
  "has_member d space_id user_id =
     list_ex (\<lambda>r. mb_space_id r = space_id \<and> mb_user_id r = user_id) (members d)"

text \<open>\<open>INSERT OR IGNORE\<close>: an existing row is kept, a missing user or space is still an error.\<close>

definition add_member ::
    "string \<Rightarrow> string \<Rightarrow> string \<Rightarrow> db \<Rightarrow> db \<times> (AppError + MemberRow \<times> bool)" where
  "add_member now space_id user_id d =
     (let newly_added = \<not> has_member d space_id user_id in
      try_run
        (execute_checked d
           (\<lambda>d. if \<not> has_member d space_id user_id \<and>
                    (\<not> list_ex (\<lambda>u. us_id u = user_id) (users d) \<or>
                     \<not> list_ex (\<lambda>r. sp_id r = space_id) (spaces d))
                then Some (foreign_key_violation d) else None)
           (\<lambda>d. if has_member d space_id user_id then d
                else d\<lparr>members := members d @
                  [\<lparr>mb_user_id = user_id, mb_space_id = space_id, mb_nickname = None, mb_avatar = None,
                    mb_joined_at = now, mb_premium_since = None, mb_deaf = False, mb_mute = False,
                    mb_pending = False, mb_timed_out_until = None, mb_origin = None\<rparr>]\<rparr>))
        (\<lambda>d _. (d, map_sum id (\<lambda>m. (m, newly_added)) (get_member_row d space_id user_id))))"

text \<open>Removing a member removes its role assignments with it.\<close>

definition drop_member :: "string \<Rightarrow> string \<Rightarrow> db \<Rightarrow> db" where
  "drop_member space_id user_id d =
     d\<lparr>members := filter (\<lambda>r. \<not> (mb_space_id r = space_id \<and> mb_user_id r = user_id)) (members d),
       member_roles := filter (\<lambda>(u, s, i). \<not> (u = user_id \<and> s = space_id)) (member_roles d)\<rparr>"

definition remove_member :: "string \<Rightarrow> string \<Rightarrow> db \<Rightarrow> db \<times> (AppError + unit)" where
  "remove_member space_id user_id d = execute d (drop_member space_id user_id)"

definition role_assignment_violation :: "string \<Rightarrow> string \<Rightarrow> string \<Rightarrow> db \<Rightarrow> sqlx_error option" where
  "role_assignment_violation space_id user_id role_id d =
     (if \<not> list_ex (\<lambda>r. ro_id r = role_id) (roles d) \<or> \<not> has_member d space_id user_id
      then Some (foreign_key_violation d) else None)"

definition assign_role :: "string \<Rightarrow> string \<Rightarrow> string \<Rightarrow> db \<Rightarrow> db" where
  "assign_role space_id user_id role_id d =
     d\<lparr>member_roles := member_roles d @ [(user_id, space_id, role_id)]\<rparr>"

fun insert_member_roles :: "string \<Rightarrow> string \<Rightarrow> string list \<Rightarrow> db \<Rightarrow> db \<times> (AppError + unit)" where
  "insert_member_roles space_id user_id [] d = (d, Inr ())"
| "insert_member_roles space_id user_id (role_id # role_ids) d =
     try_run
       (execute_checked d
          (\<lambda>d. if (user_id, space_id, role_id) \<in> set (member_roles d) then Some (primary_key_violation d)
               else role_assignment_violation space_id user_id role_id d)
          (assign_role space_id user_id role_id))
       (\<lambda>d _. insert_member_roles space_id user_id role_ids d)"

definition add_role_to_member :: "string \<Rightarrow> string \<Rightarrow> string \<Rightarrow> db \<Rightarrow> db \<times> (AppError + unit)" where
  "add_role_to_member space_id user_id role_id d =
     execute_checked d
       (\<lambda>d. if (user_id, space_id, role_id) \<in> set (member_roles d) then None
            else role_assignment_violation space_id user_id role_id d)
       (\<lambda>d. if (user_id, space_id, role_id) \<in> set (member_roles d) then d
            else assign_role space_id user_id role_id d)"

definition drop_assignments :: "(string \<Rightarrow> bool) \<Rightarrow> string \<Rightarrow> string \<Rightarrow> db \<Rightarrow> db" where
  "drop_assignments P space_id user_id d =
     d\<lparr>member_roles := filter (\<lambda>(u, s, i). \<not> (u = user_id \<and> s = space_id \<and> P i)) (member_roles d)\<rparr>"

definition remove_role_from_member :: "string \<Rightarrow> string \<Rightarrow> string \<Rightarrow> db \<Rightarrow> db \<times> (AppError + unit)" where
  "remove_role_from_member space_id user_id role_id d =
     execute d (drop_assignments (\<lambda>i. i = role_id) space_id user_id)"

text \<open>A column the input mentions is updated by a statement of its own.\<close>

definition update_column ::
    "'a option \<Rightarrow> ('a \<Rightarrow> MemberRow \<Rightarrow> MemberRow) \<Rightarrow> string \<Rightarrow> string \<Rightarrow> db \<Rightarrow> db \<times> (AppError + unit)" where
  "update_column v f space_id user_id d =
     (case v of None \<Rightarrow> (d, Inr ()) | Some x \<Rightarrow> execute d (set_member space_id user_id (f x)))"

definition replace_roles :: "string list option \<Rightarrow> string \<Rightarrow> string \<Rightarrow> db \<Rightarrow> db \<times> (AppError + unit)" where
  "replace_roles role_ids space_id user_id d =
     (case role_ids of
        None \<Rightarrow> (d, Inr ())
      | Some is \<Rightarrow>
          try_run (execute d (drop_assignments (\<lambda>_. True) space_id user_id))
            (\<lambda>d _. insert_member_roles space_id user_id is d))"

definition db_update_member ::
    "string \<Rightarrow> string \<Rightarrow> UpdateMember \<Rightarrow> db \<Rightarrow> db \<times> (AppError + MemberRow)" where
  "db_update_member space_id user_id input d =
     try_run (update_column (um_nickname input) (\<lambda>n r. r\<lparr>mb_nickname := Some n\<rparr>) space_id user_id d) (\<lambda>d _.
     try_run (update_column (um_avatar input)
                (\<lambda>a r. r\<lparr>mb_avatar := if a = [] then None else Some a\<rparr>) space_id user_id d) (\<lambda>d _.
     try_run (update_column (um_mute input) (\<lambda>m r. r\<lparr>mb_mute := m\<rparr>) space_id user_id d) (\<lambda>d _.
     try_run (update_column (um_deaf input) (\<lambda>m r. r\<lparr>mb_deaf := m\<rparr>) space_id user_id d) (\<lambda>d _.
     try_run (update_column (um_communication_disabled_until input)
                (\<lambda>t r. r\<lparr>mb_timed_out_until := t\<rparr>) space_id user_id d) (\<lambda>d _.
     try_run (replace_roles (um_roles input) space_id user_id d) (\<lambda>d _.
     (d, get_member_row d space_id user_id)))))))"

section \<open>Checks\<close>

fun check_each_role :: "db \<Rightarrow> string \<Rightarrow> AuthUser \<Rightarrow> string list \<Rightarrow> AppError + unit" where
  "check_each_role d space_id auth [] = Inr ()"
| "check_each_role d space_id auth (role_id # role_ids) =
     and_then (get_role_row d role_id) (\<lambda>role.
     if ro_space_id role \<noteq> space_id then Inl not_in_space else
     and_then (require_role_rank d space_id auth (ro_position role)) (\<lambda>_.
     check_each_role d space_id auth role_ids))"

definition when_given :: "'a option \<Rightarrow> ('a \<Rightarrow> AppError + unit) \<Rightarrow> AppError + unit" where
  "when_given v check = (case v of Some x \<Rightarrow> check x | None \<Rightarrow> Inr ())"

text \<open>A timeout is stored in one canonical form; what does not parse is refused.\<close>

definition normalize_timeout :: "chrono \<Rightarrow> string option option \<Rightarrow> AppError + string option option" where
  "normalize_timeout chr timeout =
     (case timeout of
        Some (Some ts) \<Rightarrow>
          (case parse_from_rfc3339 chr ts of
             None \<Rightarrow> Inl (BadRequest ''communication_disabled_until must be an RFC3339 timestamp'')
           | Some t \<Rightarrow> Inr (Some (Some (format_utc chr t ''%Y-%m-%dT%H:%M:%S+00:00''))))
      | _ \<Rightarrow> Inr timeout)"

definition update_member_checks ::
    "chrono \<Rightarrow> db \<Rightarrow> string \<Rightarrow> string \<Rightarrow> AuthUser \<Rightarrow> UpdateMember \<Rightarrow> AppError + UpdateMember" where
  "update_member_checks chr d space_id user_id auth input =
     and_then (when_given (um_nickname input) (\<lambda>_. require_permission d space_id auth ''manage_nicknames'')) (\<lambda>_.
     and_then (when_given (um_avatar input) (\<lambda>_. require_permission d space_id auth ''manage_nicknames'')) (\<lambda>_.
     and_then (when_given (um_roles input) (\<lambda>role_ids.
        and_then (require_permission d space_id auth ''manage_roles'') (\<lambda>_.
        and_then (require_hierarchy d space_id auth user_id) (\<lambda>_.
        check_each_role d space_id auth role_ids)))) (\<lambda>_.
     and_then (if um_mute input \<noteq> None \<or> um_deaf input \<noteq> None
               then require_hierarchy d space_id auth user_id else Inr ()) (\<lambda>_.
     and_then (when_given (um_mute input) (\<lambda>_. require_permission d space_id auth ''mute_members'')) (\<lambda>_.
     and_then (when_given (um_deaf input) (\<lambda>_. require_permission d space_id auth ''deafen_members'')) (\<lambda>_.
     and_then (when_given (um_communication_disabled_until input) (\<lambda>_.
        and_then (require_permission d space_id auth ''moderate_members'') (\<lambda>_.
        require_hierarchy d space_id auth user_id))) (\<lambda>_.
     and_then (normalize_timeout chr (um_communication_disabled_until input)) (\<lambda>timeout.
     Inr (input\<lparr>um_communication_disabled_until := timeout\<rparr>)))))))))"

definition entity_of :: "string \<Rightarrow> string \<Rightarrow> string" where
  "entity_of space_id user_id = space_id @ ''_'' @ user_id"

text \<open>An avatar sent as a data URI is stored, an empty one deletes what is stored, anything else is
  kept as the url it is.\<close>

definition process_avatar ::
    "avatar_store \<Rightarrow> app \<Rightarrow> string \<Rightarrow> string \<Rightarrow> AuthUser \<Rightarrow> string option \<Rightarrow> AppError + string option" where
  "process_avatar st s space_id user_id auth avatar =
     (case avatar of
        None \<Rightarrow> Inr None
      | Some a \<Rightarrow>
          if starts_with a ''data:'' then
            and_then (get_member_row (ap_db s) space_id user_id) (\<lambda>_.
            and_then (av_save st s (au_user_id auth) space_id (entity_of space_id user_id) a) (\<lambda>url.
            Inr (Some url)))
          else if a = [] then
            and_then (get_member_row (ap_db s) space_id user_id) (\<lambda>_.
            and_then (av_delete st s (entity_of space_id user_id)) (\<lambda>_. Inr (Some [])))
          else Inr (Some a))"

definition member_row_to_json :: "MemberRow \<Rightarrow> string list \<Rightarrow> json" where
  "member_row_to_json r role_ids = JObj
     [(''user_id'', JStr (mb_user_id r)), (''space_id'', JStr (mb_space_id r)),
      (''nickname'', jstr_opt (mb_nickname r)), (''avatar'', jstr_opt (mb_avatar r)),
      (''roles'', jstrs role_ids), (''joined_at'', JStr (mb_joined_at r)),
      (''premium_since'', jstr_opt (mb_premium_since r)), (''deaf'', JBool (mb_deaf r)),
      (''mute'', JBool (mb_mute r)), (''pending'', JBool (mb_pending r)),
      (''timed_out_until'', jstr_opt (mb_timed_out_until r)), (''permissions'', JNull)]"

definition member_event :: "string \<Rightarrow> string \<Rightarrow> json \<Rightarrow> GatewayBroadcast" where
  "member_event event_type space_id data =
     \<lparr>gb_space_id = Some space_id, gb_target_user_ids = None,
      gb_event = JObj [(''op'', JNum 0), (''type'', JStr event_type), (''data'', data)],
      gb_intent = ''members'', gb_required_permission = None\<rparr>"

definition member_leave_event :: "string \<Rightarrow> string \<Rightarrow> GatewayBroadcast" where
  "member_leave_event space_id user_id =
     member_event ''member.leave'' space_id
       (JObj [(''space_id'', JStr space_id), (''user_id'', JStr user_id)])"

section \<open>Handlers\<close>

definition get_member :: "app \<Rightarrow> string \<Rightarrow> string \<Rightarrow> AuthUser \<Rightarrow> AppError + json" where
  "get_member s space_id user_id auth =
     and_then (if \<not> au_is_admin auth then require_membership (ap_db s) space_id (au_user_id auth) else Inr ()) (\<lambda>_.
     and_then (get_member_row (ap_db s) space_id user_id) (\<lambda>row.
     and_then (get_member_role_ids (ap_db s) space_id user_id) (\<lambda>role_ids.
     Inr (member_row_to_json row role_ids))))"

text \<open>The answer of an update: the member is announced as it now is.\<close>

definition announce_member :: "app \<Rightarrow> string \<Rightarrow> string \<Rightarrow> MemberRow \<Rightarrow> app \<times> (AppError + json)" where
  "announce_member s space_id user_id row =
     try_in s (get_member_role_ids (ap_db s) space_id user_id) (\<lambda>role_ids.
     let j = member_row_to_json row role_ids in
     (send (member_event ''member.update'' space_id j) s, Inr j))"

definition update_member ::
    "chrono \<Rightarrow> avatar_store \<Rightarrow> app \<Rightarrow> string \<Rightarrow> string \<Rightarrow> AuthUser \<Rightarrow> UpdateMember \<Rightarrow> app \<times> (AppError + json)" where
  "update_member chr st s space_id user_id auth input =
     try_in s (update_member_checks chr (ap_db s) space_id user_id auth input) (\<lambda>input.
     try_in s (process_avatar st s space_id user_id auth (um_avatar input)) (\<lambda>avatar.
     try_run (on_db (db_update_member space_id user_id (input\<lparr>um_avatar := avatar\<rparr>)) s) (\<lambda>s row.
     let s1 = (if um_roles input \<noteq> None \<or> um_mute input \<noteq> None \<or>
                  um_communication_disabled_until input \<noteq> None
               then refresh_domain_voice_permissions chr s space_id else s)
     in announce_member s1 space_id user_id row)))"

text \<open>The caller's own nickname and avatar, and nothing else.\<close>

definition update_own_member ::
    "avatar_store \<Rightarrow> app \<Rightarrow> string \<Rightarrow> AuthUser \<Rightarrow> UpdateMember \<Rightarrow> app \<times> (AppError + json)" where
  "update_own_member st s space_id auth input =
     try_in s (require_permission (ap_db s) space_id auth ''change_nickname'') (\<lambda>_.
     try_in s (process_avatar st s space_id (au_user_id auth) auth (um_avatar input)) (\<lambda>avatar.
     let limited = \<lparr>um_nickname = um_nickname input, um_avatar = avatar, um_roles = None, um_mute = None,
                    um_deaf = None, um_communication_disabled_until = None\<rparr> in
     try_run (on_db (db_update_member space_id (au_user_id auth) limited) s) (\<lambda>s row.
     announce_member s space_id (au_user_id auth) row)))"

definition moderation_checks :: "db \<Rightarrow> string \<Rightarrow> string \<Rightarrow> AuthUser \<Rightarrow> string \<Rightarrow> AppError + unit" where
  "moderation_checks d space_id user_id auth perm =
     and_then (require_permission d space_id auth perm) (\<lambda>_. require_hierarchy d space_id auth user_id)"

text \<open>The peers to tell are those interested before the removal.\<close>

definition kick_member :: "app \<Rightarrow> string \<Rightarrow> string \<Rightarrow> AuthUser \<Rightarrow> app \<times> (AppError + unit)" where
  "kick_member s space_id user_id auth =
     try_in s (moderation_checks (ap_db s) space_id user_id auth ''kick_members'') (\<lambda>_.
     let fanout_targets = or_default (interested_servers (ap_db s) space_id) in
     try_run (on_db (remove_member space_id user_id) s) (\<lambda>s _.
     let s1 = revoke_space_voice_access s space_id (Some user_id);
         s2 = send (member_leave_event space_id user_id) s1;
         s3 = (case federation_domain s2 of
                 None \<Rightarrow> s2
               | Some fed \<Rightarrow> fst (fanout_to_targets space_id ''m.member.leave''
                              (member_leave_payload fed user_id) fanout_targets s2))
     in (s3, Inr ())))"

definition role_change_checks :: "db \<Rightarrow> string \<Rightarrow> string \<Rightarrow> string \<Rightarrow> AuthUser \<Rightarrow> AppError + unit" where
  "role_change_checks d space_id user_id role_id auth =
     and_then (require_permission d space_id auth ''manage_roles'') (\<lambda>_.
     and_then (if user_id \<noteq> au_user_id auth then require_hierarchy d space_id auth user_id else Inr ()) (\<lambda>_.
     and_then (get_role_row d role_id) (\<lambda>role.
     if ro_space_id role \<noteq> space_id then Inl not_in_space
     else require_role_rank d space_id auth (ro_position role))))"

text \<open>What follows a change of a member's roles.\<close>

definition announce_role_change :: "chrono \<Rightarrow> app \<Rightarrow> string \<Rightarrow> string \<Rightarrow> app \<times> (AppError + unit)" where
  "announce_role_change chr s space_id user_id =
     (let s1 = refresh_domain_voice_permissions chr s space_id in
      try_in s1 (get_member_row (ap_db s1) space_id user_id) (\<lambda>row.
      try_run (announce_member s1 space_id user_id row) (\<lambda>s _. (s, Inr ()))))"

definition add_role ::
    "chrono \<Rightarrow> app \<Rightarrow> string \<Rightarrow> string \<Rightarrow> string \<Rightarrow> AuthUser \<Rightarrow> app \<times> (AppError + unit)" where
  "add_role chr s space_id user_id role_id auth =
     try_in s (role_change_checks (ap_db s) space_id user_id role_id auth) (\<lambda>_.
     try_run (on_db (add_role_to_member space_id user_id role_id) s) (\<lambda>s _.
     announce_role_change chr s space_id user_id))"

definition remove_role ::
    "chrono \<Rightarrow> app \<Rightarrow> string \<Rightarrow> string \<Rightarrow> string \<Rightarrow> AuthUser \<Rightarrow> app \<times> (AppError + unit)" where
  "remove_role chr s space_id user_id role_id auth =
     try_in s (role_change_checks (ap_db s) space_id user_id role_id auth) (\<lambda>_.
     try_run (on_db (remove_role_from_member space_id user_id role_id) s) (\<lambda>s _.
     announce_role_change chr s space_id user_id))"

end
