(* ===== verification/ModerationSpec.thy ===== *)
theory ModerationSpec
  imports Members
begin

text \<open>
  What the role and member handlers of one space may do to the database, as a step relation
  (\<open>mod_step\<close>): each step names the permission and the rank it needs.  This theory shows what every step
  keeps, whoever makes it; the theory Moderation shows that the handlers of
  \<open>Server/src/routes/roles.rs\<close> and \<open>Server/src/routes/members.rs\<close> make no other steps.
\<close>

section \<open>Well-formed tables\<close>

text \<open>The primary keys, the foreign keys of the role assignments, and that only roles of a space are
  assigned in it (which no constraint enforces; the handlers do).\<close>

definition db_wf :: "db \<Rightarrow> bool" where
  "db_wf d \<longleftrightarrow>
     distinct (map ro_id (roles d)) \<and>
     distinct (map (\<lambda>m. (mb_user_id m, mb_space_id m)) (members d)) \<and>
     distinct (member_roles d) \<and>
     (\<forall>(u, s, i) \<in> set (member_roles d).
        (\<exists>r \<in> set (roles d). ro_id r = i \<and> ro_space_id r = s) \<and>
        (\<exists>m \<in> set (members d). mb_user_id m = u \<and> mb_space_id m = s))"

text \<open>The two queues of work a handler may leave behind.\<close>

definition only_queues :: "db \<Rightarrow> db \<Rightarrow> bool" where
  "only_queues d d' \<longleftrightarrow> (\<exists>e f. d' = d\<lparr>voice_evictions := e, federation_outbox := f\<rparr>)"

lemma only_queues_refl [simp]: "only_queues d d"
  unfolding only_queues_def by (rule exI [of _ "voice_evictions d"], rule exI [of _ "federation_outbox d"]) simp

lemma only_queues_update [simp]: "only_queues d (d\<lparr>voice_evictions := e, federation_outbox := f\<rparr>)"
  by (auto simp: only_queues_def)

lemma only_queues_trans: "only_queues d d' \<Longrightarrow> only_queues d' d'' \<Longrightarrow> only_queues d d''"
  unfolding only_queues_def [of d d'] only_queues_def [of d' d''] by (elim exE) simp

lemma evictions_only_queues: "evictions_only d d' \<Longrightarrow> only_queues d d'"
  by (auto simp: evictions_only_def only_queues_def intro!: exI [of _ "federation_outbox d"])

lemma only_queues_fields:
  "only_queues d d' \<Longrightarrow> roles d' = roles d \<and> members d' = members d \<and> member_roles d' = member_roles d \<and>
     spaces d' = spaces d \<and> db_ok d' = db_ok d"
  by (auto simp: only_queues_def)

section \<open>What a request may do\<close>

definition above :: "db \<Rightarrow> string \<Rightarrow> AuthUser \<Rightarrow> int \<Rightarrow> bool" where
  "above d sp auth n \<longleftrightarrow> au_is_admin auth \<or> n < rank d sp (au_user_id auth)"

definition role_at :: "db \<Rightarrow> string \<Rightarrow> string \<Rightarrow> RoleRow \<Rightarrow> bool" where
  "role_at d sp i r \<longleftrightarrow> r \<in> set (roles d) \<and> ro_id r = i \<and> ro_space_id r = sp"

text \<open>A batch of moves: every role once, within the space, @everyone (and only it) staying at zero, and
  whatever moves does so below the caller.\<close>

definition moves_ok :: "db \<Rightarrow> string \<Rightarrow> AuthUser \<Rightarrow> RolePositionUpdate list \<Rightarrow> bool" where
  "moves_ok d sp auth us \<longleftrightarrow> distinct (map rp_id us) \<and>
     (\<forall>u \<in> set us. 0 \<le> rp_position u \<and>
        (\<exists>r. role_at d sp (rp_id u) r \<and> (ro_position r = 0 \<longleftrightarrow> rp_position u = 0) \<and>
           (ro_position r = rp_position u \<or> above d sp auth (ro_position r) \<and> above d sp auth (rp_position u))))"

definition keeps_key :: "(MemberRow \<Rightarrow> MemberRow) \<Rightarrow> bool" where
  "keeps_key f \<longleftrightarrow> (\<forall>m. mb_user_id (f m) = mb_user_id m \<and> mb_space_id (f m) = mb_space_id m)"

definition cosmetic :: "(MemberRow \<Rightarrow> MemberRow) \<Rightarrow> bool" where
  "cosmetic f \<longleftrightarrow> (\<forall>m. mb_mute (f m) = mb_mute m \<and> mb_deaf (f m) = mb_deaf m \<and>
     mb_timed_out_until (f m) = mb_timed_out_until m)"

text \<open>Who may write a column of a member: its name and avatar with the permission for it, its moderation
  state only from above.\<close>

definition from_above :: "db \<Rightarrow> string \<Rightarrow> AuthUser \<Rightarrow> string \<Rightarrow> bool" where
  "from_above d sp auth u \<longleftrightarrow> above d sp auth (rank d sp u) \<and>
     (permitted d sp auth ''mute_members'' \<or> permitted d sp auth ''deafen_members'' \<or>
      permitted d sp auth ''moderate_members'')"

definition may_name :: "db \<Rightarrow> string \<Rightarrow> AuthUser \<Rightarrow> string \<Rightarrow> bool" where
  "may_name d sp auth u \<longleftrightarrow> permitted d sp auth ''manage_nicknames'' \<or>
     u = au_user_id auth \<and> permitted d sp auth ''change_nickname''"

text \<open>Permissions the caller may hand out: known ones it has itself.\<close>

definition grantable :: "db \<Rightarrow> string \<Rightarrow> AuthUser \<Rightarrow> string list option \<Rightarrow> bool" where
  "grantable d sp auth ps \<longleftrightarrow>
     (\<forall>p. ps \<noteq> None \<and> p \<in> set (the ps) \<longrightarrow> p \<in> set ALL_PERMISSIONS \<and> permitted d sp auth p)"

definition set_member_roles :: "string \<Rightarrow> string \<Rightarrow> string list \<Rightarrow> db \<Rightarrow> db" where
  "set_member_roles sp u is d =
     (let d' = drop_assignments (\<lambda>_. True) sp u d
      in d'\<lparr>member_roles := member_roles d' @ map (\<lambda>i. (u, sp, i)) is\<rparr>)"

inductive mod_step :: "string \<Rightarrow> AuthUser \<Rightarrow> db \<Rightarrow> db \<Rightarrow> bool" for sp auth where
  queue: "only_queues d d' \<Longrightarrow> mod_step sp auth d d'"
| create: "permitted d sp auth ''manage_roles'' \<Longrightarrow> au_is_admin auth \<or> owns_space d sp (au_user_id auth) \<Longrightarrow>
    i \<notin> ro_id ` set (roles d) \<Longrightarrow> grantable d sp auth (cr_permissions input) \<Longrightarrow>
    mod_step sp auth d (d\<lparr>roles := roles d @ [new_role i sp input (next_position d sp)]\<rparr>)"
| change: "permitted d sp auth ''manage_roles'' \<Longrightarrow> role_at d sp i r \<Longrightarrow> above d sp auth (ro_position r) \<Longrightarrow>
    ur_position input = None \<Longrightarrow> grantable d sp auth (ur_permissions input) \<Longrightarrow> mod_step sp auth d (set_role i (role_columns input) d)"
| delete: "permitted d sp auth ''manage_roles'' \<Longrightarrow> role_at d sp i r \<Longrightarrow> ro_position r \<noteq> 0 \<Longrightarrow>
    above d sp auth (ro_position r) \<Longrightarrow>
    mod_step sp auth d (d\<lparr>roles := filter (\<lambda>r. ro_id r \<noteq> i) (roles d),
                          member_roles := filter (\<lambda>(u, s, j). j \<noteq> i) (member_roles d),
                          emoji_roles := filter (\<lambda>(e, j). j \<noteq> i) (emoji_roles d)\<rparr>)"
| reorder: "permitted d sp auth ''manage_roles'' \<Longrightarrow> moves_ok d sp auth us \<Longrightarrow>
    mod_step sp auth d (foldl (move_role sp) d us)"
| column: "keeps_key f \<Longrightarrow> cosmetic f \<and> may_name d sp auth u \<or> from_above d sp auth u \<Longrightarrow>
    mod_step sp auth d (set_member sp u f d)"
| assign_all: "permitted d sp auth ''manage_roles'' \<Longrightarrow> above d sp auth (rank d sp u) \<Longrightarrow> distinct is \<Longrightarrow>
    (\<And>i. i \<in> set is \<Longrightarrow> has_member d sp u \<and> (\<exists>r. role_at d sp i r \<and> above d sp auth (ro_position r))) \<Longrightarrow>
    mod_step sp auth d (set_member_roles sp u is d)"
| kick: "permitted d sp auth ''kick_members'' \<Longrightarrow> above d sp auth (rank d sp u) \<Longrightarrow>
    mod_step sp auth d (drop_member sp u d)"
| assign: "permitted d sp auth ''manage_roles'' \<Longrightarrow>
    u = au_user_id auth \<or> above d sp auth (rank d sp u) \<Longrightarrow>
    role_at d sp i r \<Longrightarrow> above d sp auth (ro_position r) \<Longrightarrow> has_member d sp u \<Longrightarrow>
    (u, sp, i) \<notin> set (member_roles d) \<Longrightarrow> mod_step sp auth d (assign_role sp u i d)"
| unassign: "permitted d sp auth ''manage_roles'' \<Longrightarrow>
    u = au_user_id auth \<or> above d sp auth (rank d sp u) \<Longrightarrow>
    role_at d sp i r \<Longrightarrow> above d sp auth (ro_position r) \<Longrightarrow>
    mod_step sp auth d (drop_assignments (\<lambda>j. j = i) sp u d)"

section \<open>Table lemmas\<close>

lemma role_at_unique: "db_wf d \<Longrightarrow> role_at d sp i r \<Longrightarrow> r' \<in> set (roles d) \<Longrightarrow> ro_id r' = i \<Longrightarrow> r' = r"
  by (auto simp: db_wf_def role_at_def distinct_map dest: inj_onD)

lemma role_columns_keep:
  "ur_position input = None \<Longrightarrow> ro_id (role_columns input r) = ro_id r \<and>
     ro_space_id (role_columns input r) = ro_space_id r \<and> ro_position (role_columns input r) = ro_position r"
  by (simp add: role_columns_def)

definition moved :: "string \<Rightarrow> RolePositionUpdate list \<Rightarrow> RoleRow \<Rightarrow> RoleRow" where
  "moved sp us r =
     (case find (\<lambda>u. rp_id u = ro_id r \<and> ro_space_id r = sp) us of
        Some u \<Rightarrow> r\<lparr>ro_position := rp_position u\<rparr> | None \<Rightarrow> r)"

lemma moved_keep [simp]:
  "ro_id (moved sp us r) = ro_id r" "ro_space_id (moved sp us r) = ro_space_id r"
  by (simp_all add: moved_def split: option.split)

lemma move_roles_map:
  assumes "distinct (map rp_id us)"
  shows "foldl (move_role sp) d us = d\<lparr>roles := map (moved sp us) (roles d)\<rparr>"
  using assms
proof (induction us arbitrary: d)
  case Nil
  then show ?case by (simp add: moved_def)
next
  case (Cons u us)
  have none: "find (\<lambda>v. rp_id v = rp_id u) us = None"
    using Cons.prems by (auto simp: find_None_iff rev_image_eqI)
  have "moved sp us (if ro_id r = rp_id u \<and> ro_space_id r = sp
      then r\<lparr>ro_position := rp_position u\<rparr> else r) = moved sp (u # us) r" for r
    using none by (cases "ro_space_id r = sp") (auto simp: moved_def)
  with Cons show ?case by (simp add: move_role_def comp_def)
qed

lemma rank_cong:
  assumes "spaces d' = spaces d" and "roles d' = roles d"
    and "\<And>i. (u, sp, i) \<in> set (member_roles d') \<longleftrightarrow> (u, sp, i) \<in> set (member_roles d)"
  shows "rank d' sp u = rank d sp u"
  using assms by (simp add: rank_def owns_space_def cong: conj_cong)

lemma rank_ge:
  assumes "role_at d sp i r" and "(u, sp, i) \<in> set (member_roles d)" and "\<not> owns_space d sp u"
  shows "ro_position r \<le> rank d sp u"
  using assms by (auto simp: rank_def Let_def role_at_def intro!: Max_ge)

lemma rank_cases:
  assumes "\<not> owns_space d sp u"
  shows "(\<exists>i r. role_at d sp i r \<and> (u, sp, i) \<in> set (member_roles d) \<and> ro_position r = rank d sp u) \<or>
    (rank d sp u = 0 \<and> (\<forall>i r. role_at d sp i r \<longrightarrow> (u, sp, i) \<notin> set (member_roles d)))"
proof -
  let ?ps = "ro_position ` {r \<in> set (roles d). ro_space_id r = sp \<and> (u, sp, ro_id r) \<in> set (member_roles d)}"
  show ?thesis
  proof (cases "?ps = {}")
    case True
    then have "rank d sp u = 0" using assms by (simp add: rank_def)
    with True show ?thesis by (auto simp: role_at_def)
  next
    case False
    have "finite ?ps" by simp
    from Max_in [OF this False] have "Max ?ps \<in> ?ps" .
    moreover have "rank d sp u = Max ?ps" unfolding rank_def Let_def using False assms by (simp only: if_False)
    ultimately have "rank d sp u \<in> ?ps" by simp
    then show ?thesis by (auto simp: role_at_def)
  qed
qed

section \<open>Well-formedness is kept\<close>

lemma wf_assignments:
  assumes "db_wf d" and "distinct xs"
    and "\<And>u s i. (u, s, i) \<in> set xs \<Longrightarrow> (u, s, i) \<in> set (member_roles d) \<or>
       (\<exists>r. role_at d s i r) \<and> has_member d s u"
  shows "db_wf (d\<lparr>member_roles := xs\<rparr>)"
  using assms unfolding db_wf_def role_at_def has_member_def list_ex_iff by fastforce

lemma db_wf_keys:
  assumes "map (\<lambda>r. (ro_id r, ro_space_id r)) (roles d') = map (\<lambda>r. (ro_id r, ro_space_id r)) (roles d)"
    and "map (\<lambda>m. (mb_user_id m, mb_space_id m)) (members d') =
         map (\<lambda>m. (mb_user_id m, mb_space_id m)) (members d)"
    and "member_roles d' = member_roles d"
  shows "db_wf d' = db_wf d"
proof -
  have role: "(\<exists>r \<in> set (roles e). ro_id r = i \<and> ro_space_id r = s) \<longleftrightarrow>
      (i, s) \<in> set (map (\<lambda>r. (ro_id r, ro_space_id r)) (roles e))" for e i s by auto
  have member: "(\<exists>m \<in> set (members e). mb_user_id m = u \<and> mb_space_id m = s) \<longleftrightarrow>
      (u, s) \<in> set (map (\<lambda>m. (mb_user_id m, mb_space_id m)) (members e))" for e u s by auto
  have ids: "map ro_id (roles e) = map fst (map (\<lambda>r. (ro_id r, ro_space_id r)) (roles e))" for e
    by simp
  show ?thesis unfolding db_wf_def role member ids assms ..
qed

lemma mod_step_wf: "mod_step sp auth d d' \<Longrightarrow> db_wf d \<Longrightarrow> db_wf d'"
proof (induction rule: mod_step.induct)
  case (queue d d')
  then show ?case using only_queues_fields [of d d'] by (simp add: db_wf_def)
next
  case (create d i input)
  then show ?case by (auto simp: db_wf_def new_role_def)
next
  case (change d i r input)
  have "db_wf (set_role i (role_columns input) d) = db_wf d"
    by (rule db_wf_keys) (use role_columns_keep [OF change(4)] in \<open>auto simp: set_role_def\<close>)
  with change.prems show ?case by simp
next
  case (delete d i r)
  then show ?case by (fastforce simp: db_wf_def distinct_map_filter)
next
  case (reorder d us)
  have "foldl (move_role sp) d us = d\<lparr>roles := map (moved sp us) (roles d)\<rparr>"
    using reorder move_roles_map by (auto simp: moves_ok_def)
  moreover have "db_wf (d\<lparr>roles := map (moved sp us) (roles d)\<rparr>) = db_wf d"
    by (rule db_wf_keys) simp_all
  ultimately show ?case using reorder.prems by simp
next
  case (column f d u)
  have "db_wf (set_member sp u f d) = db_wf d"
    by (rule db_wf_keys) (use column(1) in \<open>auto simp: set_member_def keeps_key_def\<close>)
  with column.prems show ?case by simp
next
  case (assign_all d u "is")
  let ?xs = "filter (\<lambda>(v, s, i). \<not> (v = u \<and> s = sp \<and> True)) (member_roles d) @ map (\<lambda>i. (u, sp, i)) is"
  have "distinct ?xs"
    using assign_all.prems assign_all(3) by (auto simp: db_wf_def distinct_map inj_on_def)
  then have "db_wf (d\<lparr>member_roles := ?xs\<rparr>)"
    by (rule wf_assignments [OF assign_all.prems]) (use assign_all(4) in auto)
  then show ?case by (simp add: set_member_roles_def drop_assignments_def)
next
  case (kick d u)
  then show ?case by (fastforce simp: db_wf_def drop_member_def distinct_map_filter)
next
  case (assign d u i r)
  have "db_wf (d\<lparr>member_roles := member_roles d @ [(u, sp, i)]\<rparr>)"
    by (rule wf_assignments [OF assign.prems]) (use assign in \<open>auto simp: db_wf_def\<close>)
  then show ?case by (simp add: assign_role_def)
next
  case (unassign d u i r)
  have "db_wf (d\<lparr>member_roles := filter (\<lambda>(v, s, j). \<not> (v = u \<and> s = sp \<and> j = i)) (member_roles d)\<rparr>)"
    by (rule wf_assignments [OF unassign.prems]) (use unassign in \<open>auto simp: db_wf_def\<close>)
  then show ?case by (simp add: drop_assignments_def)
qed


section \<open>What a step leaves alone\<close>

text \<open>Everything at or above a rank \<open>R\<close>: the roles there and who (but the owner) holds them; the roles of a member \<open>t\<close>
  only ever become fewer, and its moderation state stays.\<close>

definition high_roles :: "db \<Rightarrow> string \<Rightarrow> int \<Rightarrow> RoleRow set" where
  "high_roles d sp R = {r \<in> set (roles d). ro_space_id r = sp \<and> R \<le> ro_position r}"

definition high_holders :: "db \<Rightarrow> string \<Rightarrow> int \<Rightarrow> (string \<times> string) set" where
  "high_holders d sp R =
     {(u, i). \<not> owns_space d sp u \<and> (u, sp, i) \<in> set (member_roles d) \<and>
        (\<exists>r \<in> high_roles d sp R. ro_id r = i)}"

definition held :: "db \<Rightarrow> string \<Rightarrow> string \<Rightarrow> string set" where
  "held d sp t = {i. (t, sp, i) \<in> set (member_roles d)}"

definition standing :: "db \<Rightarrow> string \<Rightarrow> string \<Rightarrow> (bool \<times> bool \<times> string option) list" where
  "standing d sp t = map (\<lambda>m. (mb_mute m, mb_deaf m, mb_timed_out_until m))
     (filter (\<lambda>m. mb_space_id m = sp \<and> mb_user_id m = t) (members d))"

definition keeps :: "string \<Rightarrow> int \<Rightarrow> string \<Rightarrow> db \<Rightarrow> db \<Rightarrow> bool" where
  "keeps sp R t d d' \<longleftrightarrow> spaces d' = spaces d \<and> high_roles d sp R \<subseteq> high_roles d' sp R \<and>
     high_holders d' sp R = high_holders d sp R \<and> held d' sp t \<subseteq> held d sp t \<and>
     standing d' sp t = standing d sp t"

lemma keeps_refl [simp]: "keeps sp R t d d"
  by (simp add: keeps_def)

lemma keeps_trans: "keeps sp R t d d' \<Longrightarrow> keeps sp R t d' d'' \<Longrightarrow> keeps sp R t d d''"
  by (auto simp: keeps_def)

lemma keeps_rank_le:
  assumes "keeps sp R t d d'" and "db_wf d'" and "rank d sp u \<le> R" and "0 \<le> R"
  shows "rank d' sp u \<le> R"
proof (cases "owns_space d' sp u")
  case True
  with assms show ?thesis by (simp add: rank_def owns_space_def keeps_def)
next
  case False
  then have no: "\<not> owns_space d sp u" using assms(1) by (simp add: keeps_def owns_space_def)
  from rank_cases [OF False] show ?thesis
  proof
    assume "\<exists>i r. role_at d' sp i r \<and> (u, sp, i) \<in> set (member_roles d') \<and> ro_position r = rank d' sp u"
    then obtain i r where r: "role_at d' sp i r" "(u, sp, i) \<in> set (member_roles d')" "ro_position r = rank d' sp u"
      by blast
    show ?thesis
    proof (rule ccontr)
      assume "\<not> ?thesis"
      with r False have "(u, i) \<in> high_holders d' sp R"
        by (auto simp: high_holders_def high_roles_def role_at_def)
      with assms(1) have "(u, i) \<in> high_holders d sp R" by (simp add: keeps_def)
      then obtain r0 where r0: "role_at d sp i r0" "(u, sp, i) \<in> set (member_roles d)" "r0 \<in> high_roles d sp R"
        by (auto simp: high_holders_def high_roles_def role_at_def)
      with assms(1) have "r0 \<in> set (roles d')" by (auto simp: keeps_def high_roles_def)
      with role_at_unique [OF assms(2) r(1)] r0(1) have "r0 = r" by (simp add: role_at_def)
      with rank_ge [OF r0(1,2) no] r(3) assms(3) \<open>\<not> ?thesis\<close> show False by simp
    qed
  qed (use assms(4) in simp)
qed

lemma keeps_rank_ge:
  assumes "keeps sp R t d d'" and "db_wf d" and "R \<le> rank d sp t"
  shows "R \<le> rank d' sp t"
proof (cases "owns_space d sp t")
  case True
  with assms show ?thesis by (simp add: rank_def owns_space_def keeps_def)
next
  case False
  then have no: "\<not> owns_space d' sp t" using assms(1) by (simp add: keeps_def owns_space_def)
  from rank_cases [OF False] show ?thesis
  proof
    assume "\<exists>i r. role_at d sp i r \<and> (t, sp, i) \<in> set (member_roles d) \<and> ro_position r = rank d sp t"
    then obtain i r where r: "role_at d sp i r" "(t, sp, i) \<in> set (member_roles d)" "ro_position r = rank d sp t"
      by blast
    with assms(3) False have "(t, i) \<in> high_holders d sp R" "r \<in> high_roles d sp R"
      by (auto simp: high_holders_def high_roles_def role_at_def)
    with assms(1) have "(t, i) \<in> high_holders d' sp R" "r \<in> high_roles d' sp R" by (auto simp: keeps_def)
    with r(1) have "role_at d' sp i r" "(t, sp, i) \<in> set (member_roles d')"
      by (auto simp: high_holders_def high_roles_def role_at_def)
    from rank_ge [OF this no] r(3) assms(3) show ?thesis by simp
  next
    assume none: "rank d sp t = 0 \<and> (\<forall>i r. role_at d sp i r \<longrightarrow> (t, sp, i) \<notin> set (member_roles d))"
    then have "held d sp t = {}" using assms(2) by (fastforce simp: held_def db_wf_def role_at_def)
    with assms(1) have "held d' sp t = {}" by (simp add: keeps_def)
    with rank_cases [OF no] have "rank d' sp t = 0" by (auto simp: held_def)
    with none assms(3) show ?thesis by simp
  qed
qed

text \<open>A change of assignments to low roles, of somebody else, keeps what is above.\<close>

lemma keeps_assignments:
  assumes "spaces d' = spaces d" and "roles d' = roles d" and "members d' = members d"
    and "\<And>u i. ((u, sp, i) \<in> set (member_roles d)) \<noteq> ((u, sp, i) \<in> set (member_roles d')) \<Longrightarrow>
       u \<noteq> t \<and> (owns_space d sp u \<or> (\<forall>r \<in> high_roles d sp R. ro_id r \<noteq> i))"
  shows "keeps sp R t d d'"
proof -
  have "high_roles d' sp R = high_roles d sp R" using assms(2) by (simp add: high_roles_def)
  moreover have "owns_space d' sp u = owns_space d sp u" for u using assms(1) by (simp add: owns_space_def)
  moreover have "held d' sp t = held d sp t" using assms(4) by (fastforce simp: held_def)
  moreover have "standing d' sp t = standing d sp t" using assms(3) by (simp add: standing_def)
  ultimately show ?thesis
    using assms(1,4) by (fastforce simp: keeps_def high_holders_def)
qed

lemma not_high_holder:
  assumes "rank d sp u < R" and "\<not> owns_space d sp u" and "(u, sp, i) \<in> set (member_roles d)"
  shows "\<forall>r \<in> high_roles d sp R. ro_id r \<noteq> i"
  using rank_ge [of d sp i _ u] assms by (fastforce simp: high_roles_def role_at_def)

lemma low_role:
  assumes "db_wf d" and "role_at d sp i r" and "ro_position r < R"
  shows "\<forall>r \<in> high_roles d sp R. ro_id r \<noteq> i"
  using role_at_unique [OF assms(1,2)] assms(3) by (fastforce simp: high_roles_def)

lemma high_roles_moved:
  assumes "db_wf d" and "moves_ok d sp auth us" and "\<And>n. above d sp auth n \<Longrightarrow> n < R"
  shows "high_roles (d\<lparr>roles := map (moved sp us) (roles d)\<rparr>) sp R = high_roles d sp R"
proof -
  have fixed: "moved sp us r = r"
    if r: "r \<in> set (roles d)" "ro_space_id r = sp" "R \<le> ro_position r \<or> R \<le> ro_position (moved sp us r)" for r
  proof (cases "find (\<lambda>u. rp_id u = ro_id r \<and> ro_space_id r = sp) us")
    case None
    then show ?thesis by (simp add: moved_def)
  next
    case (Some u)
    then have u: "u \<in> set us" "rp_id u = ro_id r" by (auto dest: find_SomeD)
    with assms(2) obtain r0 where r0: "role_at d sp (ro_id r) r0"
        "ro_position r0 = rp_position u \<or> above d sp auth (ro_position r0) \<and> above d sp auth (rp_position u)"
      by (auto simp: moves_ok_def)
    from role_at_unique [OF assms(1) r0(1) r(1)] have "r0 = r" by simp
    with r0(2) assms(3) have "ro_position r = rp_position u \<or> ro_position r < R \<and> rp_position u < R" by auto
    with r(3) Some show ?thesis by (auto simp: moved_def)
  qed
  show ?thesis
  proof (intro set_eqI iffI)
    fix r assume "r \<in> high_roles (d\<lparr>roles := map (moved sp us) (roles d)\<rparr>) sp R"
    then obtain r0 where "r0 \<in> set (roles d)" "r = moved sp us r0" "ro_space_id r = sp" "R \<le> ro_position r"
      by (auto simp: high_roles_def)
    with fixed [of r0] show "r \<in> high_roles d sp R" by (simp add: high_roles_def)
  next
    fix r assume "r \<in> high_roles d sp R"
    then show "r \<in> high_roles (d\<lparr>roles := map (moved sp us) (roles d)\<rparr>) sp R"
      using fixed [of r] by (force simp: high_roles_def)
  qed
qed

lemma mod_step_keeps:
  assumes "mod_step sp auth d d'" and "db_wf d" and "\<not> au_is_admin auth" and "t \<noteq> au_user_id auth"
    and "rank d sp (au_user_id auth) \<le> R" and "R \<le> rank d sp t"
  shows "keeps sp R t d d'"
proof -
  have low: "n < R" if "above d sp auth n" for n using that assms(3,5) by (simp add: above_def)
  have other: "u \<noteq> t" if "above d sp auth (rank d sp u)" for u using low [OF that] assms(6) by auto
  show ?thesis
    using assms(1)
  proof cases
    case queue
    then show ?thesis
      using only_queues_fields [of d d']
      by (simp add: keeps_def high_roles_def high_holders_def held_def standing_def owns_space_def)
  next
    case (create i input)
    have fresh: "(u, sp, i) \<notin> set (member_roles d)" for u
      using assms(2) create(4) by (fastforce simp: db_wf_def)
    let ?new = "new_role i sp input (next_position d sp)"
    have "high_roles d' sp R \<subseteq> insert ?new (high_roles d sp R)" "high_roles d sp R \<subseteq> high_roles d' sp R"
      by (auto simp: create(1) high_roles_def)
    moreover have "ro_id ?new = i" by (simp add: new_role_def)
    ultimately have "high_holders d' sp R = high_holders d sp R"
      using fresh by (auto simp: create(1) high_holders_def owns_space_def)
    with \<open>high_roles d sp R \<subseteq> high_roles d' sp R\<close> show ?thesis
      by (simp add: create(1) keeps_def held_def standing_def)
  next
    case (change i r input)
    have keep: "r' \<in> high_roles d sp R \<longleftrightarrow> r' \<in> high_roles d' sp R" for r'
      unfolding change(1)
      using role_columns_keep [OF change(5)] low_role [OF assms(2) change(3) low [OF change(4)]]
        role_at_unique [OF assms(2) change(3)] low [OF change(4)]
      by (fastforce simp: high_roles_def set_role_def)
    then have "high_roles d sp R = high_roles d' sp R" by blast
    then show ?thesis
      using change(1)
      by (auto simp: keeps_def high_holders_def held_def standing_def owns_space_def set_role_def)
  next
    case (delete i r)
    have low_i: "\<forall>r \<in> high_roles d sp R. ro_id r \<noteq> i" by (rule low_role [OF assms(2) delete(3) low [OF delete(5)]])
    then have "high_roles d' sp R = high_roles d sp R" by (auto simp: delete(1) high_roles_def)
    with low_i show ?thesis
      by (auto simp: delete(1) keeps_def high_holders_def held_def standing_def owns_space_def)
  next
    case (reorder us)
    have d': "d' = d\<lparr>roles := map (moved sp us) (roles d)\<rparr>"
      using reorder move_roles_map by (auto simp: moves_ok_def)
    with high_roles_moved [OF assms(2) reorder(3) low] show ?thesis
      by (auto simp: keeps_def high_holders_def held_def standing_def owns_space_def)
  next
    case (column f u)
    have "standing d' sp t = standing d sp t"
    proof (cases "u = t")
      case True
      with column other have "cosmetic f" by (auto simp: from_above_def)
      with column(1,2) show ?thesis
        by (auto simp: standing_def set_member_def keeps_key_def cosmetic_def filter_map comp_def
            intro!: map_cong filter_cong split: if_splits)
    next
      case False
      with column(1,2) show ?thesis
        by (auto simp: standing_def set_member_def keeps_key_def filter_map comp_def intro!: map_cong filter_cong)
    qed
    then show ?thesis
      by (simp add: column(1) set_member_def keeps_def high_roles_def high_holders_def held_def owns_space_def)
  next
    case (assign_all u "is")
    show ?thesis
      unfolding assign_all(1)
    proof (rule keeps_assignments)
      fix v i
      assume diff: "((v, sp, i) \<in> set (member_roles d)) \<noteq> ((v, sp, i) \<in> set (member_roles (set_member_roles sp u is d)))"
      then have v: "v = u" by (auto simp: set_member_roles_def drop_assignments_def)
      from diff have "(u, sp, i) \<in> set (member_roles d) \<or> i \<in> set is"
        by (auto simp: set_member_roles_def drop_assignments_def v)
      then have "owns_space d sp u \<or> (\<forall>r \<in> high_roles d sp R. ro_id r \<noteq> i)"
        using not_high_holder [OF low [OF assign_all(3)]] low_role [OF assms(2)] low assign_all(5) by blast
      with v other [OF assign_all(3)] show "v \<noteq> t \<and> (owns_space d sp v \<or> (\<forall>r \<in> high_roles d sp R. ro_id r \<noteq> i))"
        by simp
    qed (simp_all add: set_member_roles_def drop_assignments_def)
  next
    case (kick u)
    have "u \<noteq> t" by (rule other [OF kick(3)])
    then have "standing d' sp t = standing d sp t"
      by (auto simp: kick(1) standing_def drop_member_def intro: arg_cong [where f = "map _"] filter_cong)
    moreover have "high_holders d' sp R = high_holders d sp R"
      using not_high_holder [OF low [OF kick(3)]]
      by (auto simp: kick(1) drop_member_def high_holders_def high_roles_def owns_space_def)
    ultimately show ?thesis
      by (auto simp: kick(1) keeps_def drop_member_def high_roles_def held_def)
  next
    case (assign u i r)
    have "u \<noteq> t" using assign(3) other assms(4) by auto
    with low_role [OF assms(2) assign(4) low [OF assign(5)]] show ?thesis
      unfolding assign(1) by (intro keeps_assignments) (auto simp: assign_role_def)
  next
    case (unassign u i r)
    have "u \<noteq> t" using unassign(3) other assms(4) by auto
    with low_role [OF assms(2) unassign(4) low [OF unassign(5)]] show ?thesis
      unfolding unassign(1) by (intro keeps_assignments) (auto simp: drop_assignments_def)
  qed
qed

end
