(* ===== verification/Moderation.thy ===== *)
theory Moderation
  imports ModerationSpec
begin

text \<open>
  Roles and members together: every request of a caller to the handlers of \<open>Server/src/routes/roles.rs\<close>
  and \<open>Server/src/routes/members.rs\<close> about one space, the proof that the handlers implement the
  specification of ModerationSpec, and what follows for every sequence of requests.
\<close>

section \<open>Requests\<close>

datatype request =
    CreateRoleReq string CreateRole
  | UpdateRoleReq string UpdateRole
  | DeleteRoleReq string
  | ReorderRolesReq "RolePositionUpdate list"
  | UpdateMemberReq string UpdateMember
  | UpdateOwnMemberReq UpdateMember
  | KickReq string
  | AddRoleReq string string
  | RemoveRoleReq string string

definition outcome :: "'s \<times> ('e + 'a) \<Rightarrow> 's \<times> bool" where
  "outcome p = (fst p, is_ok (snd p))"

text \<open>The handler of a request of \<open>auth\<close> about the space, and whether it succeeded.\<close>

fun perform :: "chrono \<Rightarrow> avatar_store \<Rightarrow> string \<Rightarrow> AuthUser \<Rightarrow> request \<Rightarrow> app \<Rightarrow> app \<times> bool" where
  "perform chr st sp auth (CreateRoleReq i input) s = outcome (create_role chr i s sp auth input)"
| "perform chr st sp auth (UpdateRoleReq i input) s = outcome (update_role chr s sp i auth input)"
| "perform chr st sp auth (DeleteRoleReq i) s = outcome (delete_role chr s sp i auth)"
| "perform chr st sp auth (ReorderRolesReq us) s = outcome (reorder_roles chr s sp auth us)"
| "perform chr st sp auth (UpdateMemberReq u input) s = outcome (update_member chr st s sp u auth input)"
| "perform chr st sp auth (UpdateOwnMemberReq input) s = outcome (update_own_member st s sp auth input)"
| "perform chr st sp auth (KickReq u) s = outcome (kick_member s sp u auth)"
| "perform chr st sp auth (AddRoleReq u i) s = outcome (add_role chr s sp u i auth)"
| "perform chr st sp auth (RemoveRoleReq u i) s = outcome (remove_role chr s sp u i auth)"

definition perform_all :: "chrono \<Rightarrow> avatar_store \<Rightarrow> string \<Rightarrow> (AuthUser \<times> request) list \<Rightarrow> app \<Rightarrow> app" where
  "perform_all chr st sp reqs s = foldl (\<lambda>s (auth, r). fst (perform chr st sp auth r s)) s reqs"

abbreviation mod_steps :: "string \<Rightarrow> AuthUser \<Rightarrow> db \<Rightarrow> db \<Rightarrow> bool" where
  "mod_steps sp auth \<equiv> (mod_step sp auth)\<^sup>*\<^sup>*"

section \<open>The handlers implement the specification\<close>

lemma queue_steps: "only_queues d d' \<Longrightarrow> mod_steps sp auth d d'"
  by (blast intro: mod_step.queue)

lemma steps_then_queue: "mod_steps sp auth d d' \<Longrightarrow> only_queues d' d'' \<Longrightarrow> mod_steps sp auth d d''"
  by (meson queue_steps rtranclp_trans)

text \<open>A handler that writes and then announces.\<close>

lemma commit_steps:
  assumes "mod_steps sp auth (ap_db s) (fst (f (ap_db s)))"
    and "\<And>t x. only_queues (ap_db t) (ap_db (fst (k t x)))"
  shows "mod_steps sp auth (ap_db s) (ap_db (fst (try_run (on_db f s) k)))"
proof (cases "snd (f (ap_db s))")
  case (Inl e)
  with assms(1) show ?thesis by (simp add: try_run_def on_db_def Let_def)
next
  case (Inr x)
  let ?t = "s\<lparr>ap_db := fst (f (ap_db s))\<rparr>"
  have "only_queues (fst (f (ap_db s))) (ap_db (fst (k ?t x)))" using assms(2) [of ?t x] by simp
  with Inr assms(1) show ?thesis
    by (auto simp: try_run_def on_db_def Let_def intro: steps_then_queue)
qed

lemma checked_steps:
  assumes "\<And>x. m = Inr x \<Longrightarrow> mod_steps sp auth (ap_db s) (ap_db (fst (k x)))"
  shows "mod_steps sp auth (ap_db s) (ap_db (fst (try_in s m k)))"
  using assms by (cases m) auto

lemma roles_changed_queues: "only_queues (ap_db t) (ap_db (fst (broadcast_roles_changed chr t sp)))"
  by (rule evictions_only_queues [OF broadcast_roles_evictions_only])

lemma try_run_queues:
  assumes "only_queues (ap_db s) (ap_db (fst p))" and "\<And>t x. ap_db (fst (k t x)) = ap_db t"
  shows "only_queues (ap_db s) (ap_db (fst (try_run p k)))"
  using assms by (simp add: try_run_def split: sum.split)

lemma roles_announced_queues:
  "(\<And>t x. ap_db (fst (k t x)) = ap_db t) \<Longrightarrow>
   only_queues (ap_db s) (ap_db (fst (try_run (broadcast_roles_changed chr s sp) k)))"
  by (rule try_run_queues [OF roles_changed_queues])

lemma require_role_rank_above:
  "require_role_rank d sp auth n = Inr () \<Longrightarrow> above d sp auth n"
  by (auto simp: require_role_rank_def above_def require_role_hierarchy_iff split: if_splits)

lemma require_hierarchy_above:
  "require_hierarchy d sp auth u = Inr () \<Longrightarrow> above d sp auth (rank d sp u)"
  by (auto simp: require_hierarchy_iff above_def)

lemma get_role_row_at:
  "get_role_row d i = Inr r \<Longrightarrow> ro_space_id r = sp \<Longrightarrow> role_at d sp i r"
  using get_role_row_Inr by (auto simp: role_at_def)

lemma validate_optional_grantable:
  assumes "validate_optional d sp auth ps = Inr ()" and "permitted d sp auth ''manage_roles''"
  shows "grantable d sp auth ps"
  unfolding grantable_def
proof (intro allI impI)
  fix p assume p: "ps \<noteq> None \<and> p \<in> set (the ps)"
  then obtain qs where qs: "ps = Some qs" "p \<in> set qs" by auto
  with assms(1) have "validate_role_permissions d sp auth qs = Inr ()" by (simp add: validate_optional_def)
  then obtain rs where known: "find (\<lambda>p. p \<notin> set ALL_PERMISSIONS) qs = None"
    and rs: "resolve_member_permissions_inner d sp (au_user_id auth) (au_is_admin auth) = Inr rs"
    and held: "''administrator'' \<in> set rs \<or> find (\<lambda>p. p \<notin> set rs) qs = None"
    by (auto simp: validate_role_permissions_def resolve_member_permissions_with_admin_def
        split: option.splits if_splits)
  from held qs(2) have "has_permission rs p"
    by (auto simp: has_permission_iff find_None_iff)
  then have "au_is_admin auth \<or> space_allows d sp (au_user_id auth) p"
    using rs resolve_then_has_permission [of d sp "au_user_id auth" p] by (cases "au_is_admin auth") auto
  moreover have "\<not> au_is_guest auth" using assms(2) by (auto simp: permitted_def)
  ultimately show "p \<in> set ALL_PERMISSIONS \<and> permitted d sp auth p"
    using known qs(2) by (auto simp: permitted_def find_None_iff)
qed

lemma create_role_steps:
  "mod_steps sp auth (ap_db s) (ap_db (fst (create_role chr i s sp auth input)))"
  unfolding create_role_def
proof (rule checked_steps)
  fix x assume "create_role_checks (ap_db s) sp auth input = Inr x"
  then have ok: "permitted (ap_db s) sp auth ''manage_roles''"
      "au_is_admin auth \<or> owns_space (ap_db s) sp (au_user_id auth)"
      "grantable (ap_db s) sp auth (cr_permissions input)"
    by (auto intro: validate_optional_grantable simp: create_role_checks_def Let_def require_permission_permitted get_space_row_def owns_space_def
        split: if_splits)
  have "mod_steps sp auth (ap_db s) (fst (db_create_role i sp input (ap_db s)))"
  proof (cases "db_ok (ap_db s) \<and> i \<notin> ro_id ` set (roles (ap_db s)) \<and>
      list_ex (\<lambda>r. sp_id r = sp) (spaces (ap_db s))")
    case True
    then have "fst (db_create_role i sp input (ap_db s)) =
        (ap_db s)\<lparr>roles := roles (ap_db s) @ [new_role i sp input (next_position (ap_db s) sp)]\<rparr>"
      by (auto simp: db_create_role_def execute_checked_def list_ex_iff)
    with mod_step.create [OF ok(1,2) _ ok(3)] True show ?thesis by auto
  next
    case False
    then have "fst (db_create_role i sp input (ap_db s)) = ap_db s"
      by (auto simp: db_create_role_def execute_checked_def list_ex_iff query_def try_run_def image_iff)
    then show ?thesis by simp
  qed
  then show "mod_steps sp auth (ap_db s) (ap_db (fst (try_run (on_db (db_create_role i sp input) s) (\<lambda>s row.
      try_run (broadcast_roles_changed chr s sp) (\<lambda>s _. (s, Inr (role_row_to_json row)))))))"
    by (rule commit_steps) (rule roles_announced_queues, simp)
qed

lemma update_role_steps:
  "mod_steps sp auth (ap_db s) (ap_db (fst (update_role chr s sp i auth input)))"
  unfolding update_role_def
proof (rule checked_steps)
  let ?input = "input\<lparr>ur_position := None\<rparr>"
  fix x assume "update_role_checks (ap_db s) sp i auth input = Inr x"
  then obtain r where ok: "permitted (ap_db s) sp auth ''manage_roles''" "role_at (ap_db s) sp i r"
      "above (ap_db s) sp auth (ro_position r)" "grantable (ap_db s) sp auth (ur_permissions ?input)"
    by (auto simp: update_role_checks_def require_permission_permitted split: if_splits
        intro: get_role_row_at require_role_rank_above validate_optional_grantable)
  have "fst (db_update_role i ?input (ap_db s)) \<in> {ap_db s, set_role i (role_columns ?input) (ap_db s)}"
    by (simp add: db_update_role_def try_run_def execute_def)
  then have "mod_steps sp auth (ap_db s) (fst (db_update_role i ?input (ap_db s)))"
    using mod_step.change [OF ok(1-3) _ ok(4)] by auto
  then show "mod_steps sp auth (ap_db s) (ap_db (fst (try_run (on_db (db_update_role i ?input) s) (\<lambda>s row.
      try_run (broadcast_roles_changed chr s sp) (\<lambda>s _. (s, Inr (role_row_to_json row)))))))"
    by (rule commit_steps) (rule roles_announced_queues, simp)
qed

lemma delete_role_steps:
  "mod_steps sp auth (ap_db s) (ap_db (fst (delete_role chr s sp i auth)))"
  unfolding delete_role_def
proof (rule checked_steps)
  fix x assume "delete_role_checks (ap_db s) sp i auth = Inr x"
  then obtain r where ok: "permitted (ap_db s) sp auth ''manage_roles''" "role_at (ap_db s) sp i r"
      "ro_position r \<noteq> 0" "above (ap_db s) sp auth (ro_position r)"
    by (auto simp: delete_role_checks_def require_permission_permitted split: if_splits
        intro: get_role_row_at require_role_rank_above)
  then have "mod_steps sp auth (ap_db s) (fst (db_delete_role i (ap_db s)))"
    using mod_step.delete [OF ok] by (auto simp: db_delete_role_def execute_def)
  then show "mod_steps sp auth (ap_db s) (ap_db (fst (try_run (on_db (db_delete_role i) s)
      (\<lambda>s _. broadcast_roles_changed chr s sp))))"
    by (rule commit_steps) (rule roles_changed_queues)
qed

lemma validate_moves_ok:
  assumes "validate_moves d sp auth rs seen us = Inr ()" and "\<And>r. r \<in> set rs \<Longrightarrow> role_at d sp (ro_id r) r"
  shows "moves_ok d sp auth us \<and> rp_id ` set us \<inter> set seen = {}"
  using assms(1)
proof (induction us arbitrary: seen)
  case Nil
  then show ?case by (simp add: moves_ok_def)
next
  case (Cons u us)
  then obtain r where r: "find (\<lambda>r. ro_id r = rp_id u) rs = Some r"
      and new: "rp_id u \<notin> set seen" "0 \<le> rp_position u" "(ro_position r = 0) = (rp_position u = 0)"
      and rank: "ro_position r = rp_position u \<or>
        require_role_rank d sp auth (ro_position r) = Inr () \<and> require_role_rank d sp auth (rp_position u) = Inr ()"
      and rest: "validate_moves d sp auth rs (rp_id u # seen) us = Inr ()"
    by (auto split: if_splits)
  have "role_at d sp (rp_id u) r" using find_SomeD [OF r] assms(2) [of r] by auto
  with Cons.IH [OF rest] new rank show ?case
    by (auto simp: moves_ok_def dest: require_role_rank_above)
qed

lemma reorder_roles_steps:
  "mod_steps sp auth (ap_db s) (ap_db (fst (reorder_roles chr s sp auth us)))"
  unfolding reorder_roles_def
proof (rule checked_steps)
  fix x assume "reorder_roles_checks (ap_db s) sp auth us = Inr x"
  then obtain rs where perm: "permitted (ap_db s) sp auth ''manage_roles''"
      and rs: "list_roles (ap_db s) sp = Inr rs" and valid: "validate_moves (ap_db s) sp auth rs [] us = Inr ()"
    by (auto simp: reorder_roles_checks_def require_permission_permitted)
  from rs have "role_at (ap_db s) sp (ro_id r) r" if "r \<in> set rs" for r
    using that by (auto simp: list_roles_def role_at_def)
  with valid have "moves_ok (ap_db s) sp auth us" using validate_moves_ok by blast
  then have "mod_steps sp auth (ap_db s) (fst (db_reorder_roles sp us (ap_db s)))"
    using mod_step.reorder [OF perm] by (auto simp: db_reorder_roles_def execute_def)
  then show "mod_steps sp auth (ap_db s) (ap_db (fst (try_run (on_db (db_reorder_roles sp us) s) (\<lambda>s _.
     try_run (broadcast_roles_changed chr s sp) (\<lambda>s _.
     try_in s (list_roles (ap_db s) sp) (\<lambda>rows. (s, Inr (map role_row_to_json rows))))))))"
    by (rule commit_steps) (rule roles_announced_queues, simp add: try_in_def split: sum.split)
qed

section \<open>The member handlers\<close>

text \<open>A column of a member changes nobody's rank, membership or permissions.\<close>

lemma keeps_key_find:
  "keeps_key f \<Longrightarrow>
   find (\<lambda>r. mb_space_id r = s \<and> mb_user_id r = v)
     (map (\<lambda>r. if mb_space_id r = sp \<and> mb_user_id r = u then f r else r) ms) =
   map_option (\<lambda>r. if mb_space_id r = sp \<and> mb_user_id r = u then f r else r)
     (find (\<lambda>r. mb_space_id r = s \<and> mb_user_id r = v) ms)"
  by (induction ms) (auto simp: keeps_key_def)

lemma set_member_keeps:
  assumes "keeps_key f"
  shows "permitted (set_member sp u f d) s auth p = permitted d s auth p"
    "above (set_member sp u f d) s auth n = above d s auth n"
    "rank (set_member sp u f d) s v = rank d s v"
    "role_at (set_member sp u f d) s i r = role_at d s i r"
    "has_member (set_member sp u f d) s v = has_member d s v"
proof -
  have granted: "granted (set_member sp u f d) s v = granted d s v" for v
    by (simp add: granted_def set_member_def)
  have member: "is_member (set_member sp u f d) s v = is_member d s v" for v
    using keeps_key_find [OF assms] by (simp add: is_member_def set_member_def)
  have owns: "owns_space (set_member sp u f d) s v = owns_space d s v" for v
    by (simp add: owns_space_def set_member_def)
  show rank: "rank (set_member sp u f d) s v = rank d s v" for v
    by (rule rank_cong) (simp_all add: set_member_def)
  show "permitted (set_member sp u f d) s auth p = permitted d s auth p"
    using granted member owns
    by (simp add: permitted_def space_allows_def space_exists_def) (simp add: set_member_def)
  show "above (set_member sp u f d) s auth n = above d s auth n" by (simp add: above_def rank)
  show "role_at (set_member sp u f d) s i r = role_at d s i r" by (simp add: role_at_def set_member_def)
  show "has_member (set_member sp u f d) s v = has_member d s v"
    using assms by (auto simp: has_member_def set_member_def keeps_key_def list_ex_iff)
qed

text \<open>The facts a request rests on, which its column updates leave as they are.\<close>

definition same_rights :: "string \<Rightarrow> AuthUser \<Rightarrow> string \<Rightarrow> db \<Rightarrow> db \<Rightarrow> bool" where
  "same_rights sp auth u d d' \<longleftrightarrow>
     (\<forall>p. permitted d' sp auth p = permitted d sp auth p) \<and> rank d' sp u = rank d sp u \<and>
     (\<forall>n. above d' sp auth n = above d sp auth n) \<and>
     (\<forall>i r. role_at d' sp i r = role_at d sp i r)"

lemma same_rights_refl [simp]: "same_rights sp auth u d d"
  by (simp add: same_rights_def)

lemma same_rights_trans:
  "same_rights sp auth u d d' \<Longrightarrow> same_rights sp auth u d' d'' \<Longrightarrow> same_rights sp auth u d d''"
  by (simp add: same_rights_def)

lemma update_column_steps:
  assumes "\<And>x. v = Some x \<Longrightarrow> keeps_key (f x) \<and>
      (cosmetic (f x) \<and> may_name d sp auth u \<or> from_above d sp auth u)"
    and "same_rights sp auth u d d'"
  shows "mod_steps sp auth d' (fst (update_column v f sp u d')) \<and>
    same_rights sp auth u d (fst (update_column v f sp u d'))"
proof (cases v)
  case None
  with assms(2) show ?thesis by (simp add: update_column_def)
next
  case (Some x)
  have ok: "keeps_key (f x)" "cosmetic (f x) \<and> may_name d' sp auth u \<or> from_above d' sp auth u"
    using assms Some by (simp_all add: same_rights_def may_name_def from_above_def)
  have "same_rights sp auth u d (set_member sp u (f x) d')"
    using assms(2) set_member_keeps [OF ok(1)] by (simp add: same_rights_def)
  with assms(2) show ?thesis
    using mod_step.column [of "f x" d' sp auth u] ok
    by (auto simp: Some update_column_def execute_def)
qed

lemma run_steps:
  assumes "mod_steps sp auth d (fst p) \<and> same_rights sp auth u d0 (fst p)"
    and "\<And>t x. same_rights sp auth u d0 t \<Longrightarrow> mod_steps sp auth t (fst (k t x))"
  shows "mod_steps sp auth d (fst (try_run p k))"
  using assms(1) assms(2) [of "fst p"]
  by (auto simp: try_run_def split: sum.split intro: rtranclp_trans)

lemma insert_member_roles_prefix:
  "\<exists>js. fst (insert_member_roles sp u is d) = d\<lparr>member_roles := member_roles d @ map (\<lambda>i. (u, sp, i)) js\<rparr> \<and>
     distinct js \<and> set js \<subseteq> set is \<and> (\<forall>i \<in> set js. has_member d sp u \<and> (u, sp, i) \<notin> set (member_roles d))"
proof (induction "is" arbitrary: d)
  case Nil
  show ?case by (rule exI [of _ "[]"]) simp
next
  case (Cons i "is")
  show ?case
  proof (cases "db_ok d \<and> (u, sp, i) \<notin> set (member_roles d) \<and> role_assignment_violation sp u i d = None")
    case True
    let ?d = "assign_role sp u i d"
    from Cons.IH [of ?d] obtain js where
      js: "fst (insert_member_roles sp u is ?d) = ?d\<lparr>member_roles := member_roles ?d @ map (\<lambda>i. (u, sp, i)) js\<rparr>"
        "distinct js" "set js \<subseteq> set is"
        "\<forall>i \<in> set js. has_member ?d sp u \<and> (u, sp, i) \<notin> set (member_roles ?d)" by blast
    from True have "has_member d sp u" by (simp add: role_assignment_violation_def split: if_splits)
    with True js show ?thesis
      by (intro exI [of _ "i # js"]) (auto simp: execute_checked_def assign_role_def has_member_def)
  next
    case False
    then have "fst (insert_member_roles sp u (i # is) d) = d"
      by (auto simp: execute_checked_def try_run_def)
    then show ?thesis by (intro exI [of _ "[]"]) simp
  qed
qed

lemma replace_roles_steps:
  assumes "\<And>is. role_ids = Some is \<Longrightarrow> permitted d sp auth ''manage_roles'' \<and>
      above d sp auth (rank d sp u) \<and> (\<forall>i \<in> set is. \<exists>r. role_at d sp i r \<and> above d sp auth (ro_position r))"
    and "same_rights sp auth u d d'"
  shows "mod_steps sp auth d' (fst (replace_roles role_ids sp u d'))"
proof (cases "role_ids = None \<or> \<not> db_ok d'")
  case True
  then show ?thesis by (auto simp: replace_roles_def try_run_def split: option.split)
next
  case False
  then obtain "is" where ids: "role_ids = Some is" and db: "db_ok d'" by auto
  let ?d = "drop_assignments (\<lambda>_. True) sp u d'"
  obtain js where js:
    "fst (insert_member_roles sp u is ?d) = ?d\<lparr>member_roles := member_roles ?d @ map (\<lambda>i. (u, sp, i)) js\<rparr>"
    "distinct js" "set js \<subseteq> set is" "\<forall>i \<in> set js. has_member ?d sp u"
    using insert_member_roles_prefix [of sp u "is" ?d] by blast
  have "has_member d' sp u" if "i \<in> set js" for i
    using js(4) that by (auto simp: has_member_def drop_assignments_def)
  moreover have "permitted d' sp auth ''manage_roles''" "above d' sp auth (rank d' sp u)"
      "\<forall>i \<in> set is. \<exists>r. role_at d' sp i r \<and> above d' sp auth (ro_position r)"
    using assms ids by (auto simp: same_rights_def)
  ultimately have "mod_step sp auth d' (set_member_roles sp u js d')"
    using js(2,3) by (intro mod_step.assign_all) auto
  with js(1) show ?thesis
    by (auto simp: replace_roles_def ids db set_member_roles_def Let_def)
qed

lemma run_last: "fst (try_run p (\<lambda>d _. (d, g d))) = fst p"
  by (simp add: try_run_def split: sum.split)

lemma db_update_member_steps:
  assumes "um_nickname input \<noteq> None \<or> um_avatar input \<noteq> None \<Longrightarrow> may_name d sp auth u"
    and "um_mute input \<noteq> None \<or> um_deaf input \<noteq> None \<or> um_communication_disabled_until input \<noteq> None \<Longrightarrow>
      from_above d sp auth u"
    and "\<And>is. um_roles input = Some is \<Longrightarrow> permitted d sp auth ''manage_roles'' \<and>
      above d sp auth (rank d sp u) \<and> (\<forall>i \<in> set is. \<exists>r. role_at d sp i r \<and> above d sp auth (ro_position r))"
  shows "mod_steps sp auth d (fst (db_update_member sp u input d))"
  unfolding db_update_member_def
  apply (rule run_steps [OF update_column_steps [where d = d]])
    apply (use assms(1) in \<open>simp add: keeps_key_def cosmetic_def\<close>)
   apply simp
  apply (rule run_steps [OF update_column_steps [where d = d]])
    apply (use assms(1) in \<open>simp add: keeps_key_def cosmetic_def\<close>)
   apply assumption
  apply (rule run_steps [OF update_column_steps [where d = d]])
    apply (use assms(2) in \<open>simp add: keeps_key_def\<close>)
   apply assumption
  apply (rule run_steps [OF update_column_steps [where d = d]])
    apply (use assms(2) in \<open>simp add: keeps_key_def\<close>)
   apply assumption
  apply (rule run_steps [OF update_column_steps [where d = d]])
    apply (use assms(2) in \<open>simp add: keeps_key_def\<close>)
   apply assumption
  unfolding run_last
  by (rule replace_roles_steps [where d = d, OF assms(3)])

lemma check_each_role_ok:
  "check_each_role d sp auth is = Inr () \<Longrightarrow>
   \<forall>i \<in> set is. \<exists>r. role_at d sp i r \<and> above d sp auth (ro_position r)"
  by (induction "is") (auto split: if_splits intro: get_role_row_at require_role_rank_above)

lemma when_given_Inr: "when_given v check = Inr () \<longleftrightarrow> (\<forall>x. v = Some x \<longrightarrow> check x = Inr ())"
  by (simp add: when_given_def split: option.split)

lemma normalize_timeout_None: "normalize_timeout chr t = Inr t' \<Longrightarrow> (t' = None) = (t = None)"
  by (auto simp: normalize_timeout_def split: option.splits)

lemma update_member_checks_ok:
  assumes "update_member_checks chr d sp u auth input = Inr input'"
  shows "um_nickname input' \<noteq> None \<or> um_avatar input' \<noteq> None \<Longrightarrow> may_name d sp auth u"
    and "um_mute input' \<noteq> None \<or> um_deaf input' \<noteq> None \<or> um_communication_disabled_until input' \<noteq> None \<Longrightarrow>
      from_above d sp auth u"
    and "um_roles input' = Some is \<Longrightarrow> permitted d sp auth ''manage_roles'' \<and> above d sp auth (rank d sp u) \<and>
      (\<forall>i \<in> set is. \<exists>r. role_at d sp i r \<and> above d sp auth (ro_position r))"
proof -
  from assms obtain t where
    nick: "when_given (um_nickname input) (\<lambda>_. require_permission d sp auth ''manage_nicknames'') = Inr ()"
      "when_given (um_avatar input) (\<lambda>_. require_permission d sp auth ''manage_nicknames'') = Inr ()"
    and roles: "when_given (um_roles input) (\<lambda>role_ids.
        and_then (require_permission d sp auth ''manage_roles'') (\<lambda>_.
        and_then (require_hierarchy d sp auth u) (\<lambda>_. check_each_role d sp auth role_ids))) = Inr ()"
    and mute: "(if um_mute input \<noteq> None \<or> um_deaf input \<noteq> None then require_hierarchy d sp auth u else Inr ()) = Inr ()"
      "when_given (um_mute input) (\<lambda>_. require_permission d sp auth ''mute_members'') = Inr ()"
      "when_given (um_deaf input) (\<lambda>_. require_permission d sp auth ''deafen_members'') = Inr ()"
    and timeout: "when_given (um_communication_disabled_until input) (\<lambda>_.
        and_then (require_permission d sp auth ''moderate_members'') (\<lambda>_. require_hierarchy d sp auth u)) = Inr ()"
    and t: "normalize_timeout chr (um_communication_disabled_until input) = Inr t"
    and input': "input' = input\<lparr>um_communication_disabled_until := t\<rparr>"
    unfolding update_member_checks_def and_then_eq_Inr by (elim exE conjE) simp
  show "may_name d sp auth u" if "um_nickname input' \<noteq> None \<or> um_avatar input' \<noteq> None"
    using that nick by (auto simp: input' when_given_Inr require_permission_permitted may_name_def)
  show "from_above d sp auth u"
    if "um_mute input' \<noteq> None \<or> um_deaf input' \<noteq> None \<or> um_communication_disabled_until input' \<noteq> None"
  proof (cases "um_mute input \<noteq> None \<or> um_deaf input \<noteq> None")
    case True
    with mute show ?thesis
      by (auto simp: from_above_def when_given_Inr require_permission_permitted require_hierarchy_above)
  next
    case False
    with that normalize_timeout_None [OF t] have "um_communication_disabled_until input \<noteq> None"
      by (simp add: input')
    with timeout show ?thesis
      by (auto simp: from_above_def when_given_Inr require_permission_permitted dest: require_hierarchy_above)
  qed
  show "permitted d sp auth ''manage_roles'' \<and> above d sp auth (rank d sp u) \<and>
      (\<forall>i \<in> set is. \<exists>r. role_at d sp i r \<and> above d sp auth (ro_position r))" if "um_roles input' = Some is"
    using roles that check_each_role_ok [of d sp auth "is"] require_hierarchy_above [of d sp auth u]
    by (simp add: input' when_given_Inr require_permission_permitted)
qed

lemma process_avatar_None: "process_avatar st s sp u auth a = Inr a' \<Longrightarrow> (a' = None) = (a = None)"
  by (auto simp: process_avatar_def split: option.splits if_splits)

lemma announce_member_db [simp]: "ap_db (fst (announce_member s sp u row)) = ap_db s"
  by (simp add: announce_member_def try_in_def Let_def split: sum.split)

lemma update_member_steps:
  "mod_steps sp auth (ap_db s) (ap_db (fst (update_member chr st s sp u auth input)))"
  unfolding update_member_def
proof (intro checked_steps commit_steps)
  fix input' avatar
  assume "update_member_checks chr (ap_db s) sp u auth input = Inr input'"
    and "process_avatar st s sp u auth (um_avatar input') = Inr avatar"
  note ok = update_member_checks_ok [OF this(1)] process_avatar_None [OF this(2)]
  show "mod_steps sp auth (ap_db s) (fst (db_update_member sp u (input'\<lparr>um_avatar := avatar\<rparr>) (ap_db s)))"
    by (rule db_update_member_steps) (use ok in simp_all)
next
  fix input' :: UpdateMember and t :: app and row
  show "only_queues (ap_db t) (ap_db (fst (let s1 = (if um_roles input' \<noteq> None \<or> um_mute input' \<noteq> None \<or>
                  um_communication_disabled_until input' \<noteq> None
               then refresh_domain_voice_permissions chr t sp else t)
     in announce_member s1 sp u row)))"
    using evictions_only_queues [OF refresh_domain_evictions_only] by (simp add: Let_def)
qed

lemma update_own_member_steps:
  "mod_steps sp auth (ap_db s) (ap_db (fst (update_own_member st s sp auth input)))"
  unfolding update_own_member_def Let_def
  by (intro checked_steps commit_steps db_update_member_steps)
    (simp_all add: require_permission_permitted may_name_def)

lemma revoke_space_queues: "only_queues (ap_db t) (ap_db (revoke_space_voice_access t sp u))"
  unfolding revoke_space_voice_access_def Let_def by (rule evictions_only_queues [OF revoke_evictions_only])

lemma fanout_queues: "only_queues (ap_db t) (ap_db (fst (fanout_to_targets sp ty payload targets t)))"
proof (cases "db_ok (ap_db t)")
  case True
  have "only_queues (ap_db t) (fst (enqueue_targets dm e [] targets (ap_db t)))" for dm e
    using enqueue_targets_appends [OF True, of dm e "[]" targets]
    by (auto simp: only_queues_def intro!: exI [of _ "voice_evictions (ap_db t)"])
  then show ?thesis
    by (simp add: fanout_to_targets_def enqueue_def try_in_def on_db_def Let_def split: option.split sum.split)
next
  case False
  then show ?thesis
    by (simp add: fanout_to_targets_def space_origin_def try_in_def split: option.split)
qed

lemma kick_member_steps:
  "mod_steps sp auth (ap_db s) (ap_db (fst (kick_member s sp u auth)))"
  unfolding kick_member_def Let_def
proof (intro checked_steps commit_steps)
  fix x assume "moderation_checks (ap_db s) sp u auth ''kick_members'' = Inr x"
  then have "permitted (ap_db s) sp auth ''kick_members''" "above (ap_db s) sp auth (rank (ap_db s) sp u)"
    by (auto simp: moderation_checks_def require_permission_permitted dest: require_hierarchy_above)
  then show "mod_steps sp auth (ap_db s) (fst (remove_member sp u (ap_db s)))"
    using mod_step.kick by (auto simp: remove_member_def execute_def)
next
  fix x :: unit and t :: app and ts :: "string list"
  let ?t = "send (member_leave_event sp u) (revoke_space_voice_access t sp (Some u))"
  have "only_queues (ap_db t) (ap_db ?t)" by (simp add: revoke_space_queues)
  then show "only_queues (ap_db t) (ap_db (fst ((case federation_domain ?t of None \<Rightarrow> ?t
               | Some fed \<Rightarrow> fst (fanout_to_targets sp ''m.member.leave''
                              (member_leave_payload fed u) (or_default (interested_servers (ap_db s) sp)) ?t)), Inr ())))"
    using fanout_queues [of ?t] by (auto split: option.split intro: only_queues_trans)
qed

lemma role_change_checks_ok:
  assumes "role_change_checks d sp u i auth = Inr ()"
  obtains r where "permitted d sp auth ''manage_roles''"
    and "u = au_user_id auth \<or> above d sp auth (rank d sp u)"
    and "role_at d sp i r" and "above d sp auth (ro_position r)"
  using assms
  by (auto simp: role_change_checks_def require_permission_permitted split: if_splits
      intro: get_role_row_at require_role_rank_above require_hierarchy_above)

lemma announce_role_change_queues:
  "only_queues (ap_db t) (ap_db (fst (announce_role_change chr t sp u)))"
proof -
  let ?t = "refresh_domain_voice_permissions chr t sp"
  have "ap_db (fst (announce_role_change chr t sp u)) = ap_db ?t"
    by (simp add: announce_role_change_def Let_def try_in_def try_run_def split: sum.split)
  then show ?thesis using evictions_only_queues [OF refresh_domain_evictions_only [of t chr sp]] by simp
qed

lemma add_role_steps:
  "mod_steps sp auth (ap_db s) (ap_db (fst (add_role chr s sp u i auth)))"
  unfolding add_role_def
proof (intro checked_steps commit_steps announce_role_change_queues)
  fix x assume "role_change_checks (ap_db s) sp u i auth = Inr x"
  then have "role_change_checks (ap_db s) sp u i auth = Inr ()" by simp
  then obtain r where "permitted (ap_db s) sp auth ''manage_roles''"
    "u = au_user_id auth \<or> above (ap_db s) sp auth (rank (ap_db s) sp u)"
    "role_at (ap_db s) sp i r" "above (ap_db s) sp auth (ro_position r)"
    by (rule role_change_checks_ok)
  note step = mod_step.assign [OF this]
  show "mod_steps sp auth (ap_db s) (fst (add_role_to_member sp u i (ap_db s)))"
    using step by (auto simp: add_role_to_member_def execute_checked_fst role_assignment_violation_def)
qed

lemma remove_role_steps:
  "mod_steps sp auth (ap_db s) (ap_db (fst (remove_role chr s sp u i auth)))"
  unfolding remove_role_def
proof (intro checked_steps commit_steps announce_role_change_queues)
  fix x assume "role_change_checks (ap_db s) sp u i auth = Inr x"
  then have "role_change_checks (ap_db s) sp u i auth = Inr ()" by simp
  then obtain r where "permitted (ap_db s) sp auth ''manage_roles''"
    "u = au_user_id auth \<or> above (ap_db s) sp auth (rank (ap_db s) sp u)"
    "role_at (ap_db s) sp i r" "above (ap_db s) sp auth (ro_position r)"
    by (rule role_change_checks_ok)
  note step = mod_step.unassign [OF this]
  show "mod_steps sp auth (ap_db s) (fst (remove_role_from_member sp u i (ap_db s)))"
    using step by (auto simp: remove_role_from_member_def execute_def)
qed

lemmas handler_steps = create_role_steps update_role_steps delete_role_steps reorder_roles_steps
  update_member_steps update_own_member_steps kick_member_steps add_role_steps remove_role_steps

lemma perform_steps: "mod_steps sp auth (ap_db s) (ap_db (fst (perform chr st sp auth r s)))"
  by (cases r) (simp_all add: outcome_def handler_steps)

section \<open>Sequences of requests\<close>

lemma perform_all_simps [simp]:
  "perform_all chr st sp [] s = s"
  "perform_all chr st sp ((auth, r) # reqs) s =
     perform_all chr st sp reqs (fst (perform chr st sp auth r s))"
  by (simp_all add: perform_all_def)

lemma perform_all_invariant:
  assumes "P (ap_db s)"
    and "\<And>auth r t. (auth, r) \<in> set reqs \<Longrightarrow> P (ap_db t) \<Longrightarrow> P (ap_db (fst (perform chr st sp auth r t)))"
  shows "P (ap_db (perform_all chr st sp reqs s))"
  using assms
proof (induction reqs arbitrary: s)
  case (Cons a reqs)
  obtain auth r where a: "a = (auth, r)" by (cases a)
  show ?case unfolding a perform_all_simps
    by (rule Cons.IH) (use Cons.prems a in auto)
qed simp

lemma steps_invariant:
  assumes "mod_steps sp auth d d'" and "P d" and "\<And>d d'. P d \<Longrightarrow> mod_step sp auth d d' \<Longrightarrow> P d'"
  shows "P d'"
  using assms(1,2) by induction (auto intro: assms(3))

text \<open>The invariant of a member \<open>t\<close> while nobody above a rank \<open>R\<close> acts.\<close>

definition guarded :: "string \<Rightarrow> int \<Rightarrow> string \<Rightarrow> db \<Rightarrow> db \<Rightarrow> bool" where
  "guarded sp R t d d' \<longleftrightarrow> db_wf d' \<and> keeps sp R t d d'"

lemma guarded_step:
  assumes "guarded sp R t d0 d" and "mod_step sp auth d d'" and "db_wf d0"
    and "\<not> au_is_admin auth" and "t \<noteq> au_user_id auth" and "rank d0 sp (au_user_id auth) \<le> R"
    and "R \<le> rank d0 sp t" and "0 \<le> R"
  shows "guarded sp R t d0 d'"
proof -
  have wf: "db_wf d" and keep: "keeps sp R t d0 d" using assms(1) by (simp_all add: guarded_def)
  have "rank d sp (au_user_id auth) \<le> R" by (rule keeps_rank_le [OF keep wf assms(6,8)])
  moreover have "R \<le> rank d sp t" by (rule keeps_rank_ge [OF keep assms(3,7)])
  ultimately have "keeps sp R t d d'" by (rule mod_step_keeps [OF assms(2) wf assms(4,5)])
  with keep mod_step_wf [OF assms(2) wf] show ?thesis by (auto simp: guarded_def intro: keeps_trans)
qed

lemma guarded_all:
  assumes "db_wf (ap_db s)" and "0 \<le> R" and "R \<le> rank (ap_db s) sp t"
    and "\<And>auth r. (auth, r) \<in> set reqs \<Longrightarrow>
      \<not> au_is_admin auth \<and> au_user_id auth \<noteq> t \<and> rank (ap_db s) sp (au_user_id auth) \<le> R"
  shows "guarded sp R t (ap_db s) (ap_db (perform_all chr st sp reqs s))"
proof (rule perform_all_invariant [where P = "guarded sp R t (ap_db s)"])
  show "guarded sp R t (ap_db s) (ap_db s)" using assms(1) by (simp add: guarded_def)
next
  fix auth r and u :: app assume r: "(auth, r) \<in> set reqs" and g: "guarded sp R t (ap_db s) (ap_db u)"
  note a = assms(4) [OF r]
  from perform_steps g show "guarded sp R t (ap_db s) (ap_db (fst (perform chr st sp auth r u)))"
    by (rule steps_invariant) (rule guarded_step, use assms a in auto)
qed

text \<open>C4.  Rank protects: let any number of callers, none of them an instance admin, the member \<open>t\<close> or
  of a rank above \<open>R\<close>, send any sequence of requests to the role and member handlers of a space.  A
  member \<open>t\<close> of rank at least \<open>R\<close> keeps its mute, deafen and timeout state and a rank of at least \<open>R\<close>,
  the roles at or above \<open>R\<close> stay as they are and are held by the same members, and nobody at or below \<open>R\<close>
  rises above it: working together does not help.\<close>

theorem hierarchy_protects:
  assumes "db_wf (ap_db s)" and "0 \<le> R" and "R \<le> rank (ap_db s) sp t"
    and "\<And>auth r. (auth, r) \<in> set reqs \<Longrightarrow>
      \<not> au_is_admin auth \<and> au_user_id auth \<noteq> t \<and> rank (ap_db s) sp (au_user_id auth) \<le> R"
    and "d' = ap_db (perform_all chr st sp reqs s)"
  shows "standing d' sp t = standing (ap_db s) sp t \<and> R \<le> rank d' sp t \<and>
    high_roles (ap_db s) sp R \<subseteq> high_roles d' sp R \<and> high_holders d' sp R = high_holders (ap_db s) sp R \<and>
    (\<forall>u. rank (ap_db s) sp u \<le> R \<longrightarrow> rank d' sp u \<le> R)"
proof -
  have wf: "db_wf d'" and keep: "keeps sp R t (ap_db s) d'"
    using guarded_all [OF assms(1-4)] by (simp_all add: guarded_def assms(5))
  show ?thesis
    using keep keeps_rank_ge [OF keep assms(1,3)] keeps_rank_le [OF keep wf _ assms(2)]
    by (auto simp: keeps_def)
qed

text \<open>C7.  Every sequence of requests keeps the tables well-formed: role ids stay unique, a member has one
  row per space, no role is assigned twice, and every assignment is of an existing role of that very
  space to an existing member of it.\<close>

theorem moderation_keeps_tables:
  assumes "db_wf (ap_db s)"
  shows "db_wf (ap_db (perform_all chr st sp reqs s))"
  by (rule perform_all_invariant [where P = db_wf, OF assms])
    (rule steps_invariant [OF perform_steps], auto intro: mod_step_wf)


definition no_powers :: "db \<Rightarrow> string \<Rightarrow> AuthUser \<Rightarrow> bool" where
  "no_powers d sp auth \<longleftrightarrow> list_all (\<lambda>p. \<not> permitted d sp auth p)
     [''manage_roles'', ''kick_members'', ''manage_nicknames'', ''change_nickname'',
      ''mute_members'', ''deafen_members'', ''moderate_members'']"

lemma only_queues_permitted: "only_queues d d' \<Longrightarrow> permitted d' sp auth p = permitted d sp auth p"
  by (auto simp: only_queues_def permitted_def space_allows_def granted_def owns_space_def space_exists_def
      is_member_def)

lemma powerless_step:
  assumes "mod_step sp auth d d'" and "no_powers d sp auth"
  shows "only_queues d d'"
  using assms(1) by cases (use assms(2) in \<open>simp_all add: no_powers_def may_name_def from_above_def\<close>)

text \<open>Callers with none of the moderation permissions in the space, among them guests and people who are not
  members of it, change no table by any sequence of requests: at most deliveries and voice evictions
  are queued.\<close>

theorem powerless_changes_nothing:
  assumes "\<And>auth r. (auth, r) \<in> set reqs \<Longrightarrow> no_powers (ap_db s) sp auth"
  shows "only_queues (ap_db s) (ap_db (perform_all chr st sp reqs s))"
proof (rule perform_all_invariant [where P = "only_queues (ap_db s)"])
  fix auth r and t :: app assume r: "(auth, r) \<in> set reqs" and q: "only_queues (ap_db s) (ap_db t)"
  from perform_steps q show "only_queues (ap_db s) (ap_db (fst (perform chr st sp auth r t)))"
  proof (rule steps_invariant)
    fix d d' assume d: "only_queues (ap_db s) d" and step: "mod_step sp auth d d'"
    from assms [OF r] d have "no_powers d sp auth" by (simp add: no_powers_def only_queues_permitted)
    with d step show "only_queues (ap_db s) d'" by (blast intro: powerless_step only_queues_trans)
  qed
qed simp

lemma everyone_stays_step:
  assumes "mod_step sp auth d d'" and "db_wf d" and "role_at d sp i r" and "ro_position r = 0"
  shows "\<exists>r'. role_at d' sp i r' \<and> ro_position r' = 0"
  using assms(1)
proof cases
  case (change j r1 input)
  then show ?thesis
    using assms(3,4) role_columns_keep [OF change(5)]
    by (intro exI [of _ "if ro_id r = j then role_columns input r else r"])
      (auto simp: role_at_def set_role_def)
next
  case (delete j r1)
  have "j \<noteq> i"
    using role_at_unique [OF assms(2) delete(3), of r] assms(3,4) delete(4) by (auto simp: role_at_def)
  with assms(3,4) show ?thesis by (auto simp: delete(1) role_at_def)
next
  case (reorder us)
  have d': "d' = d\<lparr>roles := map (moved sp us) (roles d)\<rparr>"
    using reorder move_roles_map by (auto simp: moves_ok_def)
  have "ro_position (moved sp us r) = 0"
  proof (cases "find (\<lambda>u. rp_id u = ro_id r \<and> ro_space_id r = sp) us")
    case None
    with assms(4) show ?thesis by (simp add: moved_def)
  next
    case (Some u)
    then have u: "u \<in> set us" "rp_id u = ro_id r" by (auto dest: find_SomeD)
    with reorder(3) obtain r0 where "role_at d sp (ro_id r) r0" "(ro_position r0 = 0) = (rp_position u = 0)"
      by (auto simp: moves_ok_def)
    with role_at_unique [OF assms(2), of sp "ro_id r" r0 r] assms(3,4) Some show ?thesis
      by (auto simp: moved_def role_at_def)
  qed
  with assms(3) show ?thesis by (intro exI [of _ "moved sp us r"]) (auto simp: d' role_at_def)
next
  case queue
  then show ?thesis using assms(3,4) only_queues_fields [of d d'] by (auto simp: role_at_def)
qed (rule exI [of _ r], use assms(3,4) in \<open>simp add: role_at_def set_member_def set_member_roles_def
    drop_assignments_def drop_member_def assign_role_def Let_def\<close>)+

text \<open>The @everyone role cannot be taken from a space: whatever requests are sent, by whomever (instance
  admins included), a role at position zero is still a role of the space at position zero.\<close>

theorem everyone_role_stays:
  assumes "db_wf (ap_db s)" and "role_at (ap_db s) sp i r" and "ro_position r = 0"
  shows "\<exists>r'. role_at (ap_db (perform_all chr st sp reqs s)) sp i r' \<and> ro_position r' = 0"
proof -
  let ?P = "\<lambda>d. db_wf d \<and> (\<exists>r'. role_at d sp i r' \<and> ro_position r' = 0)"
  have "?P (ap_db (perform_all chr st sp reqs s))"
  proof (rule perform_all_invariant [where P = ?P])
    show "?P (ap_db s)" using assms by blast
  next
    fix auth r and u :: app assume "?P (ap_db u)"
    with perform_steps show "?P (ap_db (fst (perform chr st sp auth r u)))"
      by (rule steps_invariant) (use mod_step_wf everyone_stays_step in blast)
  qed
  then show ?thesis ..
qed

section \<open>Witnesses\<close>

definition no_store :: avatar_store where
  "no_store = \<lparr>av_save = (\<lambda>_ _ _ _ _. Inl (Internal ''unavailable'')), av_delete = (\<lambda>_ _. Inr ())\<rparr>"

text \<open>A helper and an ordinary member going after the moderator.\<close>

definition an_assault :: "(AuthUser \<times> request) list" where
  "an_assault =
     [(plain_user ''mem'', KickReq ''mod''), (plain_user ''pat'', DeleteRoleReq ''moderator''),
      (plain_user ''mem'', RemoveRoleReq ''mod'' ''moderator''),
      (plain_user ''mem'', AddRoleReq ''mem'' ''moderator'')]"

lemma a_db_wf: "db_wf (ap_db an_app)"
  by code_simp

theorem hierarchy_protects_witness:
  "standing (ap_db (perform_all a_chrono no_store ''s'' an_assault an_app)) ''s'' ''mod'' = [(False, False, None)] \<and>
   2 \<le> rank (ap_db (perform_all a_chrono no_store ''s'' an_assault an_app)) ''s'' ''mod'' \<and>
   rank (ap_db (perform_all a_chrono no_store ''s'' an_assault an_app)) ''s'' ''mem'' \<le> 2"
proof -
  have rank: "(2 :: int) \<le> rank (ap_db an_app) ''s'' ''mod''" by code_simp
  have low: "rank (ap_db an_app) ''s'' ''mem'' \<le> 2" "rank (ap_db an_app) ''s'' ''pat'' \<le> 2" by code_simp+
  have callers: "\<not> au_is_admin auth \<and> au_user_id auth \<noteq> ''mod'' \<and> rank (ap_db an_app) ''s'' (au_user_id auth) \<le> 2"
    if "(auth, r) \<in> set an_assault" for auth r
    using that low by (auto simp: an_assault_def plain_user_def)
  have "standing (ap_db an_app) ''s'' ''mod'' = [(False, False, None)]" by code_simp
  with hierarchy_protects [where reqs = an_assault and chr = a_chrono and st = no_store, OF a_db_wf _ rank callers refl] low
  show ?thesis by simp
qed

theorem moderation_keeps_tables_witness:
  "db_wf (ap_db (perform_all a_chrono no_store ''s'' an_assault an_app))"
  by (rule moderation_keeps_tables [OF a_db_wf])

theorem powerless_changes_nothing_witness:
  "only_queues a_db (ap_db (perform_all a_chrono no_store ''s''
     [(plain_user ''pat'', KickReq ''mem''), (plain_user ''stranger'', DeleteRoleReq ''helper'')] an_app))"
proof -
  have none: "no_powers (ap_db an_app) ''s'' (plain_user ''pat'')" "no_powers (ap_db an_app) ''s'' (plain_user ''stranger'')"
    by code_simp+
  have "no_powers (ap_db an_app) ''s'' auth"
    if "(auth, r) \<in> set [(plain_user ''pat'', KickReq ''mem''), (plain_user ''stranger'', DeleteRoleReq ''helper'')]"
    for auth r using that none by auto
  from powerless_changes_nothing [where chr = a_chrono and st = no_store and
      reqs = "[(plain_user ''pat'', KickReq ''mem''), (plain_user ''stranger'', DeleteRoleReq ''helper'')]", OF this]
  show ?thesis by (simp only: an_app_def app.simps)
qed

theorem everyone_role_stays_witness:
  "\<exists>r. role_at (ap_db (perform_all a_chrono no_store ''s''
     [(plain_user ''own'', DeleteRoleReq ''all''),
      (plain_user ''own'', ReorderRolesReq [\<lparr>rp_id = ''all'', rp_position = 5\<rparr>])] an_app)) ''s'' ''all'' r \<and>
     ro_position r = 0"
proof -
  have "role_at (ap_db an_app) ''s'' ''all'' (a_role ''all'' ''s'' 0 [''view_channel'', ''send_messages''])" by code_simp
  from everyone_role_stays [where chr = a_chrono and st = no_store and
      reqs = "[(plain_user ''own'', DeleteRoleReq ''all''),
        (plain_user ''own'', ReorderRolesReq [\<lparr>rp_id = ''all'', rp_position = 5\<rparr>])]", OF a_db_wf this]
  show ?thesis by (simp only: a_role_def RoleRow.simps)
qed

section \<open>Permissions handed out\<close>

lemma commit_queues:
  assumes "\<And>t x. only_queues (ap_db t) (ap_db (fst (k t x)))"
  shows "only_queues (fst (f (ap_db s))) (ap_db (fst (try_run (on_db f s) k)))"
  using assms [of "s\<lparr>ap_db := fst (f (ap_db s))\<rparr>"]
  by (simp add: try_run_def on_db_def Let_def split: sum.split)

lemma commit_roles:
  "roles (ap_db (fst (try_run (on_db f s) (\<lambda>s row. try_run (broadcast_roles_changed chr s sp) (\<lambda>s _. (s, g row)))))) =
     roles (fst (f (ap_db s)))"
proof -
  have "only_queues (fst (f (ap_db s)))
      (ap_db (fst (try_run (on_db f s) (\<lambda>s row. try_run (broadcast_roles_changed chr s sp) (\<lambda>s _. (s, g row))))))"
    by (rule commit_queues) (rule roles_announced_queues, simp)
  then show ?thesis using only_queues_fields by blast
qed

abbreviation grants :: "RoleRow \<Rightarrow> string \<Rightarrow> bool" where
  "grants r p \<equiv> p \<in> set (from_json_or_default (ro_permissions r))"

lemma checked_roles:
  assumes "try_in s m k = p" and "\<And>x. m = Inr x \<Longrightarrow> \<forall>r \<in> set (roles (ap_db (fst (k x)))). P r"
    and "\<forall>r \<in> set (roles (ap_db s)). P r"
  shows "\<forall>r \<in> set (roles (ap_db (fst p))). P r"
  using assms by (cases m) auto

text \<open>C8.  Editing roles hands out no permission the editor lacks: a permission a role has after a request to create
  or update one is one the role had before, or a known permission that the caller holds in the space.\<close>

theorem role_edits_grant_only_own:
  assumes "req = CreateRoleReq i new \<or> req = UpdateRoleReq i input"
    and "r' \<in> set (roles (ap_db (fst (perform chr st sp auth req s))))" and "grants r' p"
  shows "(\<exists>r \<in> set (roles (ap_db s)). ro_id r = ro_id r' \<and> grants r p) \<or>
    (p \<in> set ALL_PERMISSIONS \<and> permitted (ap_db s) sp auth p)"
proof -
  let ?P = "\<lambda>r'. \<forall>p. grants r' p \<longrightarrow> (\<exists>r \<in> set (roles (ap_db s)). ro_id r = ro_id r' \<and> grants r p) \<or>
    (p \<in> set ALL_PERMISSIONS \<and> permitted (ap_db s) sp auth p)"
  have old: "\<forall>r \<in> set (roles (ap_db s)). ?P r" by auto
  from assms(1) have "\<forall>r \<in> set (roles (ap_db (fst (perform chr st sp auth req s)))). ?P r"
  proof
    assume req: "req = CreateRoleReq i new"
    show ?thesis unfolding req perform.simps outcome_def fst_conv create_role_def
    proof (rule checked_roles [OF refl _ old])
      fix x assume "create_role_checks (ap_db s) sp auth new = Inr x"
      then have "grantable (ap_db s) sp auth (cr_permissions new)"
        by (auto intro: validate_optional_grantable simp: create_role_checks_def Let_def
            require_permission_permitted split: if_splits)
      then have "?P (new_role i sp new n)" for n
        by (cases "cr_permissions new") (auto simp: new_role_def grantable_def)
      then have "\<forall>r \<in> set (roles (fst (db_create_role i sp new (ap_db s)))). ?P r"
        using old by (auto simp: db_create_role_def execute_checked_def try_run_def query_def split: option.splits)
      then show "\<forall>r \<in> set (roles (ap_db (fst (try_run (on_db (db_create_role i sp new) s) (\<lambda>s row.
          try_run (broadcast_roles_changed chr s sp) (\<lambda>s _. (s, Inr (role_row_to_json row)))))))). ?P r"
        by (simp only: commit_roles)
    qed
  next
    assume req: "req = UpdateRoleReq i input"
    let ?input = "input\<lparr>ur_position := None\<rparr>"
    show ?thesis unfolding req perform.simps outcome_def fst_conv update_role_def
    proof (rule checked_roles [OF refl _ old])
      fix x assume "update_role_checks (ap_db s) sp i auth input = Inr x"
      then have g: "grantable (ap_db s) sp auth (ur_permissions input)"
        by (auto intro: validate_optional_grantable simp: update_role_checks_def Let_def
            require_permission_permitted split: if_splits)
      have "?P (role_columns ?input r)" if "r \<in> set (roles (ap_db s))" for r
        using g that by (auto simp: role_columns_def grantable_def split: option.splits)
      then have "\<forall>r \<in> set (roles (fst (db_update_role i ?input (ap_db s)))). ?P r"
        using old by (auto simp: db_update_role_def execute_def try_run_def set_role_def)
      then show "\<forall>r \<in> set (roles (ap_db (fst (try_run (on_db (db_update_role i ?input) s) (\<lambda>s row.
          try_run (broadcast_roles_changed chr s sp) (\<lambda>s _. (s, Inr (role_row_to_json row)))))))). ?P r"
        by (simp only: commit_roles)
    qed
  qed
  with assms(2,3) show ?thesis by blast
qed

definition kicking_helper :: UpdateRole where
  "kicking_helper = \<lparr>ur_name = None, ur_color = None, ur_hoist = None, ur_icon = None, ur_position = None,
     ur_permissions = Some [''kick_members''], ur_mentionable = None\<rparr>"

theorem role_edits_grant_only_own_witness:
  "permitted (ap_db an_app) ''s'' (plain_user ''mod'') ''kick_members'' \<and>
   \<not> (\<exists>r \<in> set (roles (ap_db (fst (perform a_chrono no_store ''s'' (plain_user ''mod'')
          (UpdateRoleReq ''helper'' (kicking_helper\<lparr>ur_permissions := Some [''ban_members'']\<rparr>)) an_app)))).
        ro_id r = ''helper'' \<and> grants r ''ban_members'')"
proof
  let ?r = "a_role ''helper'' ''s'' 1 [''kick_members'']"
  have r: "?r \<in> set (roles (ap_db (fst (perform a_chrono no_store ''s'' (plain_user ''mod'')
      (UpdateRoleReq ''helper'' kicking_helper) an_app))))" by code_simp
  have p: "grants ?r ''kick_members''" by code_simp
  have "\<not> (\<exists>r \<in> set (roles (ap_db an_app)). ro_id r = ro_id ?r \<and> grants r ''kick_members'')" by code_simp
  with role_edits_grant_only_own [OF disjI2 [OF refl] r p]
  show "permitted (ap_db an_app) ''s'' (plain_user ''mod'') ''kick_members''" by blast
next
  have "\<not> permitted (ap_db an_app) ''s'' (plain_user ''mod'') ''ban_members''" by code_simp
  moreover have "\<not> (\<exists>r \<in> set (roles (ap_db an_app)). ro_id r = ''helper'' \<and> grants r ''ban_members'')" by code_simp
  ultimately show "\<not> (\<exists>r \<in> set (roles (ap_db (fst (perform a_chrono no_store ''s'' (plain_user ''mod'')
          (UpdateRoleReq ''helper'' (kicking_helper\<lparr>ur_permissions := Some [''ban_members'']\<rparr>)) an_app)))).
        ro_id r = ''helper'' \<and> grants r ''ban_members'')"
    using role_edits_grant_only_own [OF disjI2 [OF refl]] by metis
qed

section \<open>Kicks\<close>

lemma fanout_only_db: "\<exists>d. fst (fanout_to_targets sp ty payload targets t) = t\<lparr>ap_db := d\<rparr>"
  by (auto simp: fanout_to_targets_def enqueue_def try_in_def on_db_def Let_def split: option.split sum.split
      intro: exI [of _ "ap_db t"])

text \<open>A kick that succeeds was allowed and is complete: the caller may kick members and is above the one kicked;
  afterwards that user has no membership, no roles and no place in a voice channel of the space, nobody else's
  voice place changed, and the gateway is told.\<close>

theorem kick_is_complete:
  assumes "kick_member s sp u auth = (s', Inr ())" and "voice_wf s"
  shows "permitted (ap_db s) sp auth ''kick_members'' \<and> above (ap_db s) sp auth (rank (ap_db s) sp u) \<and>
    \<not> has_member (ap_db s') sp u \<and> held (ap_db s') sp u = {} \<and>
    (\<forall>k. hm_get (voice_states s') k = (case hm_get (voice_states s) k of
        Some vs \<Rightarrow> if vs_space_id vs = Some sp \<and> k = u then None else Some vs | None \<Rightarrow> None)) \<and>
    outbox s' \<noteq> [] \<and> last (outbox s') = member_leave_event sp u"
proof -
  let ?d = "drop_member sp u (ap_db s)"
  let ?s = "s\<lparr>ap_db := ?d\<rparr>"
  let ?t = "send (member_leave_event sp u) (revoke_space_voice_access ?s sp (Some u))"
  have checks: "moderation_checks (ap_db s) sp u auth ''kick_members'' = Inr ()"
    using assms(1) by (cases "moderation_checks (ap_db s) sp u auth ''kick_members''") (auto simp: kick_member_def)
  with assms(1) have db: "db_ok (ap_db s)"
    by (auto simp: kick_member_def Let_def on_db_def remove_member_def execute_def split: if_splits)
  with assms(1) checks have s': "s' = (case federation_domain ?t of None \<Rightarrow> ?t
      | Some fed \<Rightarrow> fst (fanout_to_targets sp ''m.member.leave'' (member_leave_payload fed u)
          (or_default (interested_servers (ap_db s) sp)) ?t))"
    by (simp add: kick_member_def Let_def on_db_def remove_member_def)
  then have "only_queues (ap_db ?t) (ap_db s')"
    using fanout_queues [of ?t] by (auto split: option.split)
  moreover have "only_queues ?d (ap_db ?t)" using revoke_space_queues [of ?s] by simp
  ultimately have q: "only_queues ?d (ap_db s')" by (rule only_queues_trans [rotated])
  from s' have "\<exists>d. s' = ?t\<lparr>ap_db := d\<rparr>"
    using fanout_only_db [of sp "''m.member.leave''" _ _ ?t] by (auto split: option.split intro: exI [of _ "ap_db ?t"])
  then have same: "voice_states s' = voice_states (revoke_space_voice_access ?s sp (Some u))"
      "outbox s' = outbox ?t" by auto
  have "voice_wf ?s" using assms(2) by (simp add: voice_wf_def)
  from revoke_get [OF this, of "\<lambda>vs. vs_space_id vs = Some sp \<and> targets_user (Some u) (vs_user_id vs)"] db
  have voice: "hm_get (voice_states s') k = (case hm_get (voice_states s) k of
      Some vs \<Rightarrow> if vs_space_id vs = Some sp \<and> k = u then None else Some vs | None \<Rightarrow> None)" for k
    using assms(2) unfolding same revoke_space_voice_access_def
    by (auto simp: drop_member_def targets_user_def voice_wf_def split: option.splits)
  have gone: "\<not> has_member (ap_db s') sp u" "held (ap_db s') sp u = {}"
    using only_queues_fields [OF q] by (auto simp: has_member_def held_def drop_member_def list_ex_iff)
  from checks have "permitted (ap_db s) sp auth ''kick_members''" "above (ap_db s) sp auth (rank (ap_db s) sp u)"
    by (auto simp: moderation_checks_def require_permission_permitted dest: require_hierarchy_above)
  with voice gone same(2) show ?thesis by simp
qed

theorem kick_is_complete_witness:
  "\<exists>s'. kick_member voice_app ''s'' ''pat'' (plain_user ''own'') = (s', Inr ()) \<and>
     \<not> has_member (ap_db s') ''s'' ''pat'' \<and> hm_get (voice_states s') ''pat'' = None \<and>
     hm_get (voice_states s') ''mod'' \<noteq> None \<and> outbox s' \<noteq> []"
proof -
  obtain s' r where run: "kick_member voice_app ''s'' ''pat'' (plain_user ''own'') = (s', r)" by fastforce
  have "is_ok (snd (kick_member voice_app ''s'' ''pat'' (plain_user ''own'')))" by code_simp
  with run have kick: "kick_member voice_app ''s'' ''pat'' (plain_user ''own'') = (s', Inr ())"
    by (auto simp: is_ok_iff)
  have "hm_get (voice_states voice_app) ''mod'' \<noteq> None" by code_simp
  then obtain m where m: "hm_get (voice_states voice_app) ''mod'' = Some m" by blast
  have "map_option vs_space_id (hm_get (voice_states voice_app) ''pat'') = Some (Some ''s'')" by code_simp
  then obtain p where p: "hm_get (voice_states voice_app) ''pat'' = Some p" "vs_space_id p = Some ''s''" by auto
  note all = kick_is_complete [OF kick voice_app_wf]
  from all have "hm_get (voice_states s') k = (case hm_get (voice_states voice_app) k of
        Some vs \<Rightarrow> if vs_space_id vs = Some ''s'' \<and> k = ''pat'' then None else Some vs | None \<Rightarrow> None)" for k
    by (elim conjE) (rule spec)
  from this [of "''mod''"] this [of "''pat''"] have "hm_get (voice_states s') ''pat'' = None"
      "hm_get (voice_states s') ''mod'' \<noteq> None"
    by (simp_all add: m p)
  with all kick show ?thesis by blast
qed

end
