(* ===== verification/MessageStore.thy ===== *)
theory MessageStore
  imports Members Mentions "HOL-Library.List_Lexorder" "HOL-Library.Char_ord"
begin

text \<open>
  The statements about messages: \<open>Server/src/db/messages.rs\<close>, \<open>db/attachments.rs\<close>,
  \<open>db/read_states.rs\<close> and \<open>resolve_mention_user_ids\<close> of \<open>db/members.rs\<close>, with the cascades of the
  migrations (a message takes its thread replies, attachments, reactions and pins with it, and
  replies to it lose their reference).

  Ids are compared as text, byte by byte, as the SQL does.  \<open>stamp\<close> is what a statement draws: a
  snowflake, the clock in milliseconds and the database's current timestamp.
\<close>

section \<open>Inputs\<close>

record stamp =
  st_id :: string
  st_ms :: int
  st_now :: string

text \<open>An embed is the JSON value it is stored as.\<close>

record CreateMessage =
  cm_content :: string
  cm_tts :: "bool option"
  cm_embeds :: "json list option"
  cm_reply_to :: "string option"
  cm_thread_id :: "string option"
  cm_title :: "string option"

record UpdateMessage =
  ue_content :: "string option"
  ue_embeds :: "json list option"
  ue_title :: "string option"

record SearchMessagesParams =
  sq_channel_ids :: "string list"
  sq_query :: "string option"
  sq_author_id :: "string option"
  sq_before :: "string option"
  sq_after :: "string option"
  sq_pinned :: "bool option"
  sq_cursor :: "string option"
  sq_limit :: int

section \<open>Cascades\<close>

text \<open>\<open>thread_id .. ON DELETE CASCADE\<close>: the replies to a deleted message go with it, and the replies to
  those.\<close>

definition thread_replies :: "MessageRow list \<Rightarrow> string list \<Rightarrow> string list" where
  "thread_replies ms gone =
     map ms_id (filter (\<lambda>m. ms_id m \<notin> set gone \<and> (\<exists>t \<in> set gone. ms_thread_id m = Some t)) ms)"

function cascade :: "MessageRow list \<Rightarrow> string list \<Rightarrow> string list" where
  "cascade ms gone =
     (if thread_replies ms gone = [] then gone else cascade ms (gone @ thread_replies ms gone))"
  by pat_completeness auto

lemma thread_replies_new:
  assumes "thread_replies ms gone \<noteq> []"
  obtains m where "m \<in> set ms" "ms_id m \<notin> set gone" "ms_id m \<in> set (thread_replies ms gone)"
  using assms by (fastforce simp: thread_replies_def filter_empty_conv)

lemma cascade_shrinks:
  assumes "thread_replies ms gone \<noteq> []"
  shows "card {m \<in> set ms. ms_id m \<notin> set (gone @ thread_replies ms gone)} < card {m \<in> set ms. ms_id m \<notin> set gone}"
proof (rule psubset_card_mono)
  from assms obtain m where "m \<in> set ms" "ms_id m \<notin> set gone" "ms_id m \<in> set (thread_replies ms gone)"
    by (rule thread_replies_new)
  then show "{m \<in> set ms. ms_id m \<notin> set (gone @ thread_replies ms gone)} \<subset> {m \<in> set ms. ms_id m \<notin> set gone}"
    by auto
qed simp

termination cascade
  by (relation "measure (\<lambda>(ms, gone). card {m \<in> set ms. ms_id m \<notin> set gone})") (use cascade_shrinks in auto)

declare cascade.simps [simp del]

definition clear_reply :: "string list \<Rightarrow> MessageRow \<Rightarrow> MessageRow" where
  "clear_reply gone m =
     (case ms_reply_to m of
        Some r \<Rightarrow> if r \<in> set gone then m\<lparr>ms_reply_to := None\<rparr> else m
      | None \<Rightarrow> m)"

text \<open>The trigger on \<open>attachments\<close> queues the file of every attachment that goes.\<close>

definition delete_messages :: "(MessageRow \<Rightarrow> bool) \<Rightarrow> db \<Rightarrow> db" where
  "delete_messages P d =
     (let gone = cascade (messages d) (map ms_id (filter P (messages d))) in
      d\<lparr>messages := map (clear_reply gone) (filter (\<lambda>m. ms_id m \<notin> set gone) (messages d)),
        attachments := filter (\<lambda>(m, a). m \<notin> set gone) (attachments d),
        attachment_deletions := push_missing (attachment_deletions d)
          (map (\<lambda>(m, a). at_url a) (filter (\<lambda>(m, a). m \<in> set gone) (attachments d))),
        reactions := filter (\<lambda>r. re_message_id r \<notin> set gone) (reactions d),
        pinned_messages := filter (\<lambda>p. pi_message_id p \<notin> set gone) (pinned_messages d)\<rparr>)"

section \<open>Queries\<close>

definition get_message_row :: "db \<Rightarrow> string \<Rightarrow> AppError + MessageRow" where
  "get_message_row d message_id =
     and_then (query d (find (\<lambda>m. ms_id m = message_id) (messages d))) (ok_or (NotFound ''unknown_message''))"

text \<open>The rows of a feed: those of the thread, or those of no thread.\<close>

definition feed :: "db \<Rightarrow> string \<Rightarrow> string option \<Rightarrow> MessageRow list" where
  "feed d channel_id thread = filter (\<lambda>m. ms_channel_id m = channel_id \<and> ms_thread_id m = thread) (messages d)"

definition oldest_first :: "MessageRow list \<Rightarrow> MessageRow list" where
  "oldest_first ms = sort_key ms_id ms"

definition newest_first :: "MessageRow list \<Rightarrow> MessageRow list" where
  "newest_first ms = rev (sort_key ms_id ms)"

text \<open>\<open>id > cursor\<close>, when a cursor is given.\<close>

definition past :: "string option \<Rightarrow> MessageRow list \<Rightarrow> MessageRow list" where
  "past cursor ms = (case cursor of None \<Rightarrow> ms | Some i \<Rightarrow> filter (\<lambda>m. i < ms_id m) ms)"

text \<open>One row more than asked for tells whether there are more.\<close>

definition sql_limit :: "int \<Rightarrow> 'a list \<Rightarrow> 'a list" where
  "sql_limit limit rows = take (nat (limit + 1)) rows"

definition db_list_messages ::
    "db \<Rightarrow> string \<Rightarrow> string option \<Rightarrow> int \<Rightarrow> string option \<Rightarrow> AppError + MessageRow list" where
  "db_list_messages d channel_id after limit thread_id =
     query d (sql_limit limit
       (case (after, thread_id) of
          (Some _, Some _) \<Rightarrow> oldest_first (past after (feed d channel_id thread_id))
        | (None, Some _) \<Rightarrow> oldest_first (feed d channel_id thread_id)
        | (Some _, None) \<Rightarrow> oldest_first (past after (feed d channel_id None))
        | (None, None) \<Rightarrow> newest_first (feed d channel_id None)))"

definition last_activity :: "db \<Rightarrow> MessageRow \<Rightarrow> string" where
  "last_activity d m =
     (let ts = map ms_created_at (filter (\<lambda>r. ms_thread_id r = Some (ms_id m)) (messages d))
      in if ts = [] then ms_created_at m else Max (set ts))"

text \<open>The select leaves out the column \<open>origin\<close>, which then reads as absent.\<close>

definition list_forum_posts ::
    "db \<Rightarrow> string \<Rightarrow> string option \<Rightarrow> int \<Rightarrow> string \<Rightarrow> AppError + MessageRow list" where
  "list_forum_posts d channel_id after limit order =
     (let posts = past after (feed d channel_id None) in
      query d (map (ms_origin_update (\<lambda>_. None)) (sql_limit limit
        (if order = ''latest_activity'' then rev (sort_key (last_activity d) posts)
         else if order = ''oldest'' then oldest_first posts
         else newest_first posts))))"

definition get_last_reply_timestamps :: "db \<Rightarrow> string list \<Rightarrow> AppError + (string \<Rightarrow> string option)" where
  "get_last_reply_timestamps d message_ids =
     (if message_ids = [] then Inr (\<lambda>_. None) else
      query d (\<lambda>i. let ts = map ms_created_at (filter (\<lambda>m. ms_thread_id m = Some i) (messages d))
                   in if i \<notin> set message_ids \<or> ts = [] then None else Some (Max (set ts))))"

definition get_thread_reply_count :: "db \<Rightarrow> string \<Rightarrow> AppError + int" where
  "get_thread_reply_count d parent_message_id =
     query d (int (length (filter (\<lambda>m. ms_thread_id m = Some parent_message_id) (messages d))))"

definition get_thread_reply_counts :: "db \<Rightarrow> string list \<Rightarrow> AppError + (string \<Rightarrow> int option)" where
  "get_thread_reply_counts d message_ids =
     (if message_ids = [] then Inr (\<lambda>_. None) else
      query d (\<lambda>i. let n = length (filter (\<lambda>m. ms_thread_id m = Some i) (messages d))
                   in if i \<notin> set message_ids \<or> n = 0 then None else Some (int n)))"

definition get_thread_metadata :: "db \<Rightarrow> string \<Rightarrow> AppError + json" where
  "get_thread_metadata d parent_message_id =
     (let replies = filter (\<lambda>m. ms_thread_id m = Some parent_message_id) (messages d) in
      and_then (query d (int (length replies))) (\<lambda>reply_count.
      and_then (query d (case newest_first replies of [] \<Rightarrow> None | m # _ \<Rightarrow> Some (ms_created_at m))) (\<lambda>last_reply_at.
      and_then (query d (remdups (map ms_author_id replies))) (\<lambda>participants.
      Inr (JObj [(''reply_count'', JNum reply_count), (''last_reply_at'', jstr_opt last_reply_at),
                 (''participants'', jstrs participants)])))))"

definition db_list_active_threads :: "db \<Rightarrow> string \<Rightarrow> AppError + MessageRow list" where
  "db_list_active_threads d channel_id =
     query d (newest_first (filter (\<lambda>m. ms_channel_id m = channel_id \<and>
        list_ex (\<lambda>r. ms_thread_id r = Some (ms_id m) \<and> ms_channel_id r = channel_id) (messages d)) (messages d)))"

definition list_author_messages_in_space_since ::
    "db \<Rightarrow> string \<Rightarrow> string \<Rightarrow> string \<Rightarrow> AppError + (string \<times> string) list" where
  "list_author_messages_in_space_since d space_id author_id cutoff =
     query d (map (\<lambda>m. (ms_id m, ms_channel_id m))
       (newest_first (filter (\<lambda>m. ms_space_id m = Some space_id \<and> ms_author_id m = author_id \<and>
          cutoff \<le> ms_created_at m) (messages d))))"

text \<open>The select joins the pins but leaves out the column \<open>title\<close>, which \<open>row_to_message\<close> then reads
  with a \<open>get\<close> that panics: only an empty result returns (\<open>None\<close> is the panic).\<close>

definition list_pinned_messages :: "db \<Rightarrow> string \<Rightarrow> (AppError + MessageRow list) option" where
  "list_pinned_messages d channel_id =
     (case query d (filter (\<lambda>p. pi_channel_id p = channel_id \<and>
             list_ex (\<lambda>m. ms_id m = pi_message_id p) (messages d)) (pinned_messages d)) of
        Inl e \<Rightarrow> Some (Inl e)
      | Inr rows \<Rightarrow> if rows = [] then Some (Inr []) else None)"

section \<open>Search\<close>

text \<open>\<open>LIKE\<close>: percent is any text, underscore any one character, and ASCII letters match in either
  case on SQLite (PostgreSQL compares them exactly).\<close>

fun like :: "(char \<Rightarrow> char) \<Rightarrow> string \<Rightarrow> string \<Rightarrow> bool" where
  "like norm [] s = (s = [])"
| "like norm (p # ps) s =
     (if p = CHR ''%'' then list_ex (\<lambda>n. like norm ps (drop n s)) [0..<Suc (length s)]
      else case s of [] \<Rightarrow> False
         | c # cs \<Rightarrow> (p = CHR ''_'' \<or> norm p = norm c) \<and> like norm ps cs)"

definition content_like :: "db \<Rightarrow> string \<Rightarrow> string \<Rightarrow> bool" where
  "content_like d q content =
     like (if db_is_postgres d then id else to_ascii_lowercase) (''%'' @ q @ ''%'') content"

definition satisfies :: "'a option \<Rightarrow> ('a \<Rightarrow> bool) \<Rightarrow> bool" where
  "satisfies f P = (case f of None \<Rightarrow> True | Some x \<Rightarrow> P x)"

definition db_search_messages :: "db \<Rightarrow> string \<Rightarrow> SearchMessagesParams \<Rightarrow> AppError + MessageRow list" where
  "db_search_messages d space_id params =
     (if sq_channel_ids params = [] then Inr [] else
      query d (sql_limit (sq_limit params) (newest_first (filter (\<lambda>m.
        ms_space_id m = Some space_id \<and> ms_channel_id m \<in> set (sq_channel_ids params) \<and>
        satisfies (sq_query params) (\<lambda>q. content_like d q (ms_content m)) \<and>
        satisfies (sq_author_id params) (\<lambda>a. ms_author_id m = a) \<and>
        satisfies (sq_before params) (\<lambda>t. ms_created_at m < t) \<and>
        satisfies (sq_after params) (\<lambda>t. t < ms_created_at m) \<and>
        satisfies (sq_pinned params) (\<lambda>p. ms_pinned m = p) \<and>
        satisfies (sq_cursor params) (\<lambda>c. ms_id m < c)) (messages d)))))"

section \<open>Attachments\<close>

text \<open>What automod holds, or took down, is not shown.\<close>

definition published :: "db \<Rightarrow> Attachment \<Rightarrow> bool" where
  "published d a \<longleftrightarrow> \<not> list_ex (\<lambda>u. up_id u = at_id a \<and> up_status u \<noteq> ''published'') (automod_uploads d)"

definition get_attachments_for_message :: "db \<Rightarrow> string \<Rightarrow> AppError + Attachment list" where
  "get_attachments_for_message d message_id =
     query d [a. (m, a) \<leftarrow> attachments d, m = message_id \<and> published d a]"

definition get_attachments_for_messages :: "db \<Rightarrow> string list \<Rightarrow> AppError + (string \<Rightarrow> Attachment list)" where
  "get_attachments_for_messages d message_ids =
     (if message_ids = [] then Inr (\<lambda>_. []) else
      query d (\<lambda>i. if i \<in> set message_ids
                   then sort_key at_id [a. (m, a) \<leftarrow> attachments d, m = i \<and> published d a] else []))"

text \<open>A violated primary key or foreign key refuses the row.\<close>

definition insert_attachment ::
    "string \<Rightarrow> string \<Rightarrow> string \<Rightarrow> string option \<Rightarrow> int \<Rightarrow> string \<Rightarrow> int option \<Rightarrow> int option \<Rightarrow> string \<Rightarrow>
     db \<Rightarrow> db \<times> (AppError + Attachment)" where
  "insert_attachment attachment_id message_id filename content_type sz url width height content_hash d =
     (let a = \<lparr>at_id = attachment_id, at_filename = filename, at_description = None,
               at_content_type = content_type, at_size = sz, at_content_hash = Some content_hash,
               at_url = url, at_width = width, at_height = height\<rparr> in
      try_run
        (execute_checked d
           (\<lambda>d. if attachment_id \<in> at_id ` snd ` set (attachments d) then Some (primary_key_violation d)
                else if \<not> list_ex (\<lambda>m. ms_id m = message_id) (messages d) then Some (foreign_key_violation d)
                else None)
           (\<lambda>d. d\<lparr>attachments := attachments d @ [(message_id, a)]\<rparr>))
        (\<lambda>d _. (d, Inr a)))"

section \<open>Reactions and threads of many messages\<close>

record ReactionAggregate =
  ra_emoji_name :: string
  ra_count :: int
  ra_includes_me :: bool

text \<open>Grouped by emoji, in the order each was first used.\<close>

definition reactions_of :: "db \<Rightarrow> string option \<Rightarrow> string \<Rightarrow> ReactionAggregate list" where
  "reactions_of d me message_id =
     (let rs = filter (\<lambda>r. re_message_id r = message_id) (reactions d);
          first_use = (\<lambda>e. Min (set (map re_created_at (filter (\<lambda>r. re_emoji_name r = e) rs))))
      in map (\<lambda>e. \<lparr>ra_emoji_name = e,
                   ra_count = int (length (filter (\<lambda>r. re_emoji_name r = e) rs)),
                   ra_includes_me = list_ex (\<lambda>r. re_emoji_name r = e \<and> me = Some (re_user_id r)) rs\<rparr>)
           (sort_key first_use (remdups (map re_emoji_name rs))))"

definition get_reactions_for_messages ::
    "db \<Rightarrow> string list \<Rightarrow> string option \<Rightarrow> AppError + (string \<Rightarrow> ReactionAggregate list)" where
  "get_reactions_for_messages d message_ids current_user_id =
     (if message_ids = [] then Inr (\<lambda>_. []) else
      query d (\<lambda>i. if i \<in> set message_ids then reactions_of d current_user_id i else []))"

section \<open>Writing messages\<close>

text \<open>A transaction that fails leaves nothing behind.\<close>

definition transaction :: "(db \<Rightarrow> db \<times> (AppError + 'a)) \<Rightarrow> db \<Rightarrow> db \<times> (AppError + 'a)" where
  "transaction f d = (case snd (f d) of Inl e \<Rightarrow> (d, Inl e) | Inr x \<Rightarrow> f d)"

text \<open>Members whose username, in any case, is one of the handles.\<close>

definition resolve_mention_user_ids :: "db \<Rightarrow> string \<Rightarrow> string list \<Rightarrow> AppError + string list" where
  "resolve_mention_user_ids d space_id names =
     (if names = [] then Inr [] else
      query d (map us_id (filter (\<lambda>u. has_member d space_id (us_id u) \<and>
        map to_ascii_lowercase (us_username u) \<in> set (map (map to_ascii_lowercase) names)) (users d))))"

definition message_mentions :: "db \<Rightarrow> string option \<Rightarrow> string \<Rightarrow> string list" where
  "message_mentions d space_id content =
     (case space_id of
        Some sid \<Rightarrow> if usernames (parse_mentions content) \<noteq> []
                    then or_default (resolve_mention_user_ids d sid (usernames (parse_mentions content))) else []
      | None \<Rightarrow> [])"

definition last_sent :: "db \<Rightarrow> string \<Rightarrow> string \<Rightarrow> int option" where
  "last_sent d channel_id user_id = map_of (message_cooldowns d) (channel_id, user_id)"

text \<open>The conditional upsert: whether the row was written.\<close>

definition reserve_slot :: "string \<Rightarrow> string \<Rightarrow> int \<Rightarrow> int \<Rightarrow> db \<Rightarrow> db \<times> (AppError + bool)" where
  "reserve_slot channel_id author_id now cooldown_ms d =
     (let admitted = (case last_sent d channel_id author_id of
                        None \<Rightarrow> True | Some prev \<Rightarrow> cooldown_ms = 0 \<or> prev \<le> now - cooldown_ms) in
      try_run
        (execute_checked d
           (\<lambda>d. if last_sent d channel_id author_id = None \<and>
                    \<not> (list_ex (\<lambda>c. ch_id c = channel_id) (channels d) \<and>
                       list_ex (\<lambda>u. us_id u = author_id) (users d))
                then Some (foreign_key_violation d) else None)
           (\<lambda>d. if admitted
                then d\<lparr>message_cooldowns := AList.update (channel_id, author_id) now (message_cooldowns d)\<rparr> else d))
        (\<lambda>d _. (d, Inr admitted)))"

text \<open>Rounded up to whole seconds, at least one.\<close>

definition retry_after_secs :: "int \<Rightarrow> int \<Rightarrow> int \<Rightarrow> nat" where
  "retry_after_secs prev cooldown_ms now = (nat (max (prev + cooldown_ms - now) 1) + 999) div 1000"

definition refs_message :: "db \<Rightarrow> string option \<Rightarrow> bool" where
  "refs_message d r = (case r of None \<Rightarrow> True | Some i \<Rightarrow> list_ex (\<lambda>m. ms_id m = i) (messages d))"

definition message_violation :: "MessageRow \<Rightarrow> db \<Rightarrow> sqlx_error option" where
  "message_violation m d =
     (if list_ex (\<lambda>m'. ms_id m' = ms_id m) (messages d) then Some (primary_key_violation d)
      else if list_ex (\<lambda>c. ch_id c = ms_channel_id m) (channels d) \<and>
              list_ex (\<lambda>u. us_id u = ms_author_id m) (users d) \<and>
              (case ms_space_id m of None \<Rightarrow> True | Some s \<Rightarrow> list_ex (\<lambda>r. sp_id r = s) (spaces d)) \<and>
              refs_message d (ms_reply_to m) \<and> refs_message d (ms_thread_id m)
      then None else Some (foreign_key_violation d))"

definition insert_message :: "MessageRow \<Rightarrow> db \<Rightarrow> db \<times> (AppError + unit)" where
  "insert_message m d =
     execute_checked d (message_violation m) (\<lambda>d. d\<lparr>messages := messages d @ [m]\<rparr>)"

definition set_channel :: "string \<Rightarrow> (ChannelRow \<Rightarrow> ChannelRow) \<Rightarrow> db \<Rightarrow> db" where
  "set_channel channel_id f d =
     d\<lparr>channels := map (\<lambda>c. if ch_id c = channel_id then f c else c) (channels d)\<rparr>"

definition bump_channel :: "string \<Rightarrow> string \<Rightarrow> db \<Rightarrow> db \<times> (AppError + unit)" where
  "bump_channel message_id channel_id d =
     execute d (set_channel channel_id (\<lambda>c. c\<lparr>ch_last_message_id := Some message_id\<rparr>))"

definition new_message ::
    "stamp \<Rightarrow> string \<Rightarrow> string \<Rightarrow> string option \<Rightarrow> CreateMessage \<Rightarrow> string list \<Rightarrow> MessageRow" where
  "new_message st channel_id author_id space_id input mention_user_ids =
     \<lparr>ms_id = st_id st, ms_channel_id = channel_id, ms_space_id = space_id, ms_author_id = author_id,
      ms_content = cm_content input, ms_type = ''default'', ms_created_at = st_now st, ms_edited_at = None,
      ms_tts = (case cm_tts input of Some b \<Rightarrow> b | None \<Rightarrow> False), ms_pinned = False,
      ms_mention_everyone = everyone (parse_mentions (cm_content input)),
      ms_mentions = JsonStrings mention_user_ids, ms_mention_roles = JsonStrings [],
      ms_embeds = Some (case cm_embeds input of Some es \<Rightarrow> es | None \<Rightarrow> []),
      ms_reply_to = cm_reply_to input, ms_flags = 0, ms_webhook_id = None,
      ms_thread_id = cm_thread_id input, ms_title = cm_title input, ms_origin = None\<rparr>"

definition db_create_message ::
    "stamp \<Rightarrow> string \<Rightarrow> string \<Rightarrow> string option \<Rightarrow> CreateMessage \<Rightarrow> int \<Rightarrow> db \<Rightarrow> db \<times> (AppError + MessageRow)" where
  "db_create_message st channel_id author_id space_id input cooldown d =
     (let mention_user_ids = message_mentions d space_id (cm_content input);
          cooldown_ms = max cooldown 0;
          m = new_message st channel_id author_id space_id input mention_user_ids in
      try_run (transaction (\<lambda>d.
        try_run (reserve_slot channel_id author_id (st_ms st) cooldown_ms d) (\<lambda>d admitted.
        if \<not> admitted
        then (d, Inl (RateLimited (retry_after_secs
                (case last_sent d channel_id author_id of Some prev \<Rightarrow> prev | None \<Rightarrow> 0) cooldown_ms (st_ms st))))
        else try_run (insert_message m d) (\<lambda>d _.
          if cm_thread_id input = None then bump_channel (st_id st) channel_id d else (d, Inr ())))) d)
      (\<lambda>d _. (d, get_message_row d (st_id st))))"

definition create_system_message ::
    "stamp \<Rightarrow> string \<Rightarrow> string \<Rightarrow> string \<Rightarrow> string \<Rightarrow> string \<Rightarrow> db \<Rightarrow> db \<times> (AppError + MessageRow)" where
  "create_system_message st channel_id author_id space_id content message_type d =
     (let m = (new_message st channel_id author_id (Some space_id)
                 \<lparr>cm_content = content, cm_tts = None, cm_embeds = None, cm_reply_to = None, cm_thread_id = None,
                  cm_title = None\<rparr> [])\<lparr>ms_type := message_type, ms_mention_everyone := False\<rparr> in
      try_run (insert_message m d) (\<lambda>d _.
      try_run (bump_channel (st_id st) channel_id d) (\<lambda>d _.
      (d, get_message_row d (st_id st)))))"

definition set_message :: "string \<Rightarrow> (MessageRow \<Rightarrow> MessageRow) \<Rightarrow> db \<Rightarrow> db" where
  "set_message message_id f d =
     d\<lparr>messages := map (\<lambda>m. if ms_id m = message_id then f m else m) (messages d)\<rparr>"

definition edit_column ::
    "'a option \<Rightarrow> ('a \<Rightarrow> MessageRow \<Rightarrow> MessageRow) \<Rightarrow> string \<Rightarrow> string \<Rightarrow> db \<Rightarrow> db \<times> (AppError + unit)" where
  "edit_column v f now message_id d =
     (case v of
        None \<Rightarrow> (d, Inr ())
      | Some x \<Rightarrow> execute d (set_message message_id (\<lambda>m. (f x m)\<lparr>ms_edited_at := Some now\<rparr>)))"

definition db_update_message ::
    "string \<Rightarrow> string \<Rightarrow> UpdateMessage \<Rightarrow> db \<Rightarrow> db \<times> (AppError + MessageRow)" where
  "db_update_message now message_id input d =
     try_run (edit_column (ue_content input) (\<lambda>x m. m\<lparr>ms_content := x\<rparr>) now message_id d) (\<lambda>d _.
     try_run (edit_column (ue_embeds input) (\<lambda>x m. m\<lparr>ms_embeds := Some x\<rparr>) now message_id d) (\<lambda>d _.
     try_run (edit_column (ue_title input) (\<lambda>x m. m\<lparr>ms_title := Some x\<rparr>) now message_id d) (\<lambda>d _.
     (d, get_message_row d message_id))))"

definition db_delete_message :: "string \<Rightarrow> db \<Rightarrow> db \<times> (AppError + unit)" where
  "db_delete_message message_id d = execute d (delete_messages (\<lambda>m. ms_id m = message_id))"

text \<open>One statement per id, each restricted to the channel.\<close>

fun db_bulk_delete_messages :: "string \<Rightarrow> string list \<Rightarrow> db \<Rightarrow> db \<times> (AppError + unit)" where
  "db_bulk_delete_messages channel_id [] d = (d, Inr ())"
| "db_bulk_delete_messages channel_id (i # is) d =
     try_run (execute d (delete_messages (\<lambda>m. ms_id m = i \<and> ms_channel_id m = channel_id)))
       (\<lambda>d _. db_bulk_delete_messages channel_id is d)"

definition db_pin_message :: "string \<Rightarrow> string \<Rightarrow> string \<Rightarrow> db \<Rightarrow> db \<times> (AppError + unit)" where
  "db_pin_message now channel_id message_id d =
     (let pinned = list_ex (\<lambda>p. pi_channel_id p = channel_id \<and> pi_message_id p = message_id) (pinned_messages d) in
      try_run
        (execute_checked d
           (\<lambda>d. if pinned \<or> (list_ex (\<lambda>c. ch_id c = channel_id) (channels d) \<and>
                              list_ex (\<lambda>m. ms_id m = message_id) (messages d))
                then None else Some (foreign_key_violation d))
           (\<lambda>d. if pinned then d
                else d\<lparr>pinned_messages := pinned_messages d @
                  [\<lparr>pi_channel_id = channel_id, pi_message_id = message_id, pi_pinned_at = now\<rparr>]\<rparr>))
        (\<lambda>d _. execute d (set_message message_id (\<lambda>m. m\<lparr>ms_pinned := True\<rparr>))))"

definition db_unpin_message :: "string \<Rightarrow> string \<Rightarrow> db \<Rightarrow> db \<times> (AppError + unit)" where
  "db_unpin_message channel_id message_id d =
     try_run (execute d (\<lambda>d. d\<lparr>pinned_messages :=
          filter (\<lambda>p. \<not> (pi_channel_id p = channel_id \<and> pi_message_id p = message_id)) (pinned_messages d)\<rparr>))
       (\<lambda>d _. execute d (set_message message_id (\<lambda>m. m\<lparr>ms_pinned := False\<rparr>)))"

section \<open>Read states\<close>

text \<open>An upsert: a missing row is inserted, an existing one updated.\<close>

definition upsert_read_state ::
    "string \<Rightarrow> string \<Rightarrow> ReadState \<Rightarrow> (ReadState \<Rightarrow> ReadState) \<Rightarrow> db \<Rightarrow> db \<times> (AppError + unit)" where
  "upsert_read_state user_id channel_id new f d =
     (let mine = (\<lambda>r. rs_user_id r = user_id \<and> rs_channel_id r = channel_id) in
      execute_checked d
        (\<lambda>d. if \<not> list_ex mine (read_states d) \<and>
                 \<not> (list_ex (\<lambda>u. us_id u = user_id) (users d) \<and> list_ex (\<lambda>c. ch_id c = channel_id) (channels d))
             then Some (foreign_key_violation d) else None)
        (\<lambda>d. d\<lparr>read_states :=
           (if list_ex mine (read_states d) then map (\<lambda>r. if mine r then f r else r) (read_states d)
            else read_states d @ [new])\<rparr>))"

definition later_id :: "string \<Rightarrow> string option \<Rightarrow> string option" where
  "later_id new old = (if (case old of Some x \<Rightarrow> x | None \<Rightarrow> []) < new then Some new else old)"

definition ack_channel :: "string \<Rightarrow> string \<Rightarrow> string \<Rightarrow> db \<Rightarrow> db \<times> (AppError + unit)" where
  "ack_channel user_id channel_id message_id d =
     upsert_read_state user_id channel_id
       \<lparr>rs_user_id = user_id, rs_channel_id = channel_id, rs_last_read_message_id = Some message_id,
        rs_mention_count = 0\<rparr>
       (\<lambda>r. r\<lparr>rs_last_read_message_id := later_id message_id (rs_last_read_message_id r), rs_mention_count := 0\<rparr>) d"

definition increment_mention_count :: "string \<Rightarrow> string \<Rightarrow> db \<Rightarrow> db \<times> (AppError + unit)" where
  "increment_mention_count user_id channel_id d =
     upsert_read_state user_id channel_id
       \<lparr>rs_user_id = user_id, rs_channel_id = channel_id, rs_last_read_message_id = None, rs_mention_count = 1\<rparr>
       (\<lambda>r. r\<lparr>rs_mention_count := i64_add (rs_mention_count r) 1\<rparr>) d"

text \<open>The channels of the user's spaces and conversations with a message past the last one read: the
  channel, its space, the last message read, the last message and the mentions.\<close>

definition get_unread_channels ::
    "db \<Rightarrow> string \<Rightarrow> AppError + (string \<times> string option \<times> string option \<times> string option \<times> int) list" where
  "get_unread_channels d user_id =
     (let state = (\<lambda>c. find (\<lambda>r. rs_user_id r = user_id \<and> rs_channel_id r = ch_id c) (read_states d));
          read = (\<lambda>c. Option.bind (state c) rs_last_read_message_id) in
      query d (map (\<lambda>c. (ch_id c, ch_space_id c, read c, ch_last_message_id c,
                         case state c of Some r \<Rightarrow> rs_mention_count r | None \<Rightarrow> 0))
        (filter (\<lambda>c. case ch_last_message_id c of None \<Rightarrow> False
           | Some newest \<Rightarrow>
               (case ch_space_id c of
                  Some s \<Rightarrow> has_member d s user_id
                | None \<Rightarrow> (ch_id c, user_id) \<in> set (dm_participants d)) \<and>
               (case read c of None \<Rightarrow> True | Some r \<Rightarrow> r < newest)) (channels d))))"

end
