(* ===== verification/Messages.thy ===== *)
theory Messages
  imports MessageStore
begin

text \<open>
  Messages: \<open>Server/src/routes/messages.rs\<close>, with \<open>extract_urls\<close> of \<open>unfurl.rs\<close> and the fan-out of
  messages of \<open>federation/outbound.rs\<close> and \<open>federation/dm.rs\<close>.

  \<open>home_server\<close> is what the handlers ask of the server a remote space or conversation lives on.  A
  link preview is recorded where the task is spawned (\<open>unfurl_jobs\<close>); \<open>finish_unfurl\<close> is what that
  task does once it has fetched its embeds.  The multipart upload is not part of this theory.
\<close>

section \<open>Other servers\<close>

record home_server =
  forward_message :: "string \<Rightarrow> string \<Rightarrow> User \<Rightarrow> string \<Rightarrow> string option \<Rightarrow> AppError + json"
  forward_dm_message :: "string \<Rightarrow> string \<Rightarrow> User \<Rightarrow> string \<Rightarrow> string option \<Rightarrow> AppError + json"
  forward_edit :: "string \<Rightarrow> string \<Rightarrow> User \<Rightarrow> string \<Rightarrow> AppError + json"
  forward_delete :: "string \<Rightarrow> string \<Rightarrow> User \<Rightarrow> AppError + unit"
  forward_reaction :: "string \<Rightarrow> string \<Rightarrow> string \<Rightarrow> User \<Rightarrow> string \<Rightarrow> bool \<Rightarrow> AppError + unit"

definition channel_origin :: "db \<Rightarrow> string \<Rightarrow> AppError + string option" where
  "channel_origin d channel_id = query d (map_of (channel_origins d) channel_id)"

definition is_dm :: "string \<Rightarrow> bool" where
  "is_dm channel_type \<longleftrightarrow> channel_type = ''dm'' \<or> channel_type = ''group_dm''"

text \<open>Domains of the participants that live elsewhere, each once.\<close>

fun distinct_domains :: "string \<Rightarrow> string list \<Rightarrow> string list \<Rightarrow> string list" where
  "distinct_domains ours seen [] = []"
| "distinct_domains ours seen (i # is) =
     (case domain_of i of
        None \<Rightarrow> distinct_domains ours seen is
      | Some dm \<Rightarrow>
          if eq_ignore_ascii_case dm ours \<or> map to_ascii_lowercase dm \<in> set seen
          then distinct_domains ours seen is
          else dm # distinct_domains ours (map to_ascii_lowercase dm # seen) is)"

definition remote_participant_domains :: "db \<Rightarrow> string \<Rightarrow> string \<Rightarrow> AppError + string list" where
  "remote_participant_domains d channel_id our_domain =
     and_then (list_participant_ids d channel_id) (\<lambda>ids. Inr (distinct_domains our_domain [] ids))"

definition fanout_dm_message :: "ChannelRow \<Rightarrow> json \<Rightarrow> app \<Rightarrow> app \<times> (AppError + unit)" where
  "fanout_dm_message channel payload s =
     (case federation_domain s of
        None \<Rightarrow> (s, Inr ())
      | Some fed \<Rightarrow>
          try_in s (remote_participant_domains (ap_db s) (ch_id channel) fed) (\<lambda>targets.
          if targets = [] then (s, Inr ()) else
          enqueue \<lparr>fe_origin = fed, fe_space_id = None, fe_type = ''m.dm.message.create'',
                   fe_payload = payload\<rparr> targets s))"

definition message_payload :: "string \<Rightarrow> MessageRow \<Rightarrow> User \<Rightarrow> json" where
  "message_payload dm msg author =
     JObj [(''id'', JStr (qualify (ms_id msg) dm)), (''channel_id'', JStr (qualify (ms_channel_id msg) dm)),
           (''space_id'', jstr_opt (map_option (\<lambda>s. qualify s dm) (ms_space_id msg))),
           (''author'', JObj [(''id'', JStr (qualify (us_id author) dm)),
                              (''username'', JStr (us_username author)),
                              (''display_name'', jstr_opt (us_display_name author)),
                              (''avatar'', jstr_opt (us_avatar author))]),
           (''content'', JStr (ms_content msg)),
           (''mentions'', jstrs (map (\<lambda>m. qualify m dm) (from_json_or_default (ms_mentions msg)))),
           (''mention_everyone'', JBool (ms_mention_everyone msg)),
           (''embeds'', JArr (case ms_embeds msg of Some es \<Rightarrow> es | None \<Rightarrow> [])),
           (''reply_to'', jstr_opt (map_option (\<lambda>r. qualify r dm) (ms_reply_to msg))),
           (''created_at'', JStr (ms_created_at msg))]"

definition fanout_message_create :: "MessageRow \<Rightarrow> app \<Rightarrow> app \<times> (AppError + unit)" where
  "fanout_message_create msg s =
     (case (federation_domain s, ms_space_id msg) of
        (Some fed, Some space_id) \<Rightarrow>
          try_in s (get_user (ap_db s) (ms_author_id msg)) (\<lambda>author.
          fanout_to_space space_id ''m.message.create'' (message_payload fed msg author) s)
      | _ \<Rightarrow> (s, Inr ()))"

text \<open>A fan-out whose failure is ignored.\<close>

definition fanout_quietly :: "string option \<Rightarrow> string \<Rightarrow> (string \<Rightarrow> json) \<Rightarrow> app \<Rightarrow> app" where
  "fanout_quietly space_id event_type payload s =
     (case (federation_domain s, space_id) of
        (Some fed, Some sid) \<Rightarrow> fst (fanout_to_space sid event_type (payload fed) s)
      | _ \<Rightarrow> s)"

section \<open>JSON\<close>

definition jint_opt :: "int option \<Rightarrow> json" where
  "jint_opt i = (case i of None \<Rightarrow> JNull | Some n \<Rightarrow> JNum n)"

definition attachment_json :: "Attachment \<Rightarrow> json" where
  "attachment_json a =
     JObj [(''id'', JStr (at_id a)), (''filename'', JStr (at_filename a)),
           (''description'', jstr_opt (at_description a)), (''content_type'', jstr_opt (at_content_type a)),
           (''size'', JNum (at_size a)), (''content_hash'', jstr_opt (at_content_hash a)),
           (''url'', JStr (at_url a)), (''width'', jint_opt (at_width a)), (''height'', jint_opt (at_height a))]"

definition reactions_json :: "ReactionAggregate list \<Rightarrow> json" where
  "reactions_json rs =
     (if rs = [] then JNull else
      JArr (map (\<lambda>r. JObj [(''emoji'', JObj [(''id'', JNull), (''name'', JStr (ra_emoji_name r))]),
                           (''count'', JNum (ra_count r)), (''me'', JBool (ra_includes_me r))]) rs))"

definition message_row_to_json_full ::
    "MessageRow \<Rightarrow> Attachment list \<Rightarrow> ReactionAggregate list \<Rightarrow> int option \<Rightarrow> json" where
  "message_row_to_json_full m atts rs reply_count = JObj
     [(''id'', JStr (ms_id m)), (''channel_id'', JStr (ms_channel_id m)), (''space_id'', jstr_opt (ms_space_id m)),
      (''author_id'', JStr (ms_author_id m)), (''content'', JStr (ms_content m)), (''type'', JStr (ms_type m)),
      (''timestamp'', JStr (ms_created_at m)), (''edited_at'', jstr_opt (ms_edited_at m)),
      (''tts'', JBool (ms_tts m)), (''pinned'', JBool (ms_pinned m)),
      (''mention_everyone'', JBool (ms_mention_everyone m)),
      (''mentions'', jstrs (from_json_or_default (ms_mentions m))),
      (''mention_roles'', jstrs (from_json_or_default (ms_mention_roles m))),
      (''attachments'', JArr (map attachment_json atts)),
      (''embeds'', JArr (case ms_embeds m of Some es \<Rightarrow> es | None \<Rightarrow> [])),
      (''reactions'', reactions_json rs), (''reply_to'', jstr_opt (ms_reply_to m)),
      (''flags'', JNum (ms_flags m)), (''webhook_id'', jstr_opt (ms_webhook_id m)),
      (''thread_id'', jstr_opt (ms_thread_id m)),
      (''reply_count'', JNum (case reply_count of Some n \<Rightarrow> n | None \<Rightarrow> 0)), (''title'', jstr_opt (ms_title m))]"

definition message_row_to_json_with_attachments :: "MessageRow \<Rightarrow> Attachment list \<Rightarrow> json" where
  "message_row_to_json_with_attachments m atts = message_row_to_json_full m atts [] None"

definition messages_to_json :: "db \<Rightarrow> MessageRow list \<Rightarrow> string option \<Rightarrow> AppError + json list" where
  "messages_to_json d rows current_user_id =
     (let ids = map ms_id rows in
      and_then (get_reactions_for_messages d ids current_user_id) (\<lambda>rs.
      and_then (get_attachments_for_messages d ids) (\<lambda>atts.
      and_then (get_thread_reply_counts d ids) (\<lambda>counts.
      Inr (map (\<lambda>m. message_row_to_json_full m (atts (ms_id m)) (rs (ms_id m)) (counts (ms_id m))) rows)))))"

definition messages_to_forum_json :: "db \<Rightarrow> MessageRow list \<Rightarrow> string option \<Rightarrow> AppError + json list" where
  "messages_to_forum_json d rows current_user_id =
     (let ids = map ms_id rows in
      and_then (get_reactions_for_messages d ids current_user_id) (\<lambda>rs.
      and_then (get_attachments_for_messages d ids) (\<lambda>atts.
      and_then (get_thread_reply_counts d ids) (\<lambda>counts.
      and_then (get_last_reply_timestamps d ids) (\<lambda>last_reply.
      Inr (map (\<lambda>m. let j = message_row_to_json_full m (atts (ms_id m)) (rs (ms_id m)) (counts (ms_id m)) in
             case last_reply (ms_id m) of Some ts \<Rightarrow> jinsert ''last_reply_at'' (JStr ts) j | None \<Rightarrow> j) rows))))))"

definition message_event ::
    "string \<Rightarrow> string option \<Rightarrow> string list option \<Rightarrow> json \<Rightarrow> GatewayBroadcast" where
  "message_event event_type space_id targets data =
     \<lparr>gb_space_id = space_id, gb_target_user_ids = targets,
      gb_event = JObj [(''op'', JNum 0), (''type'', JStr event_type), (''data'', data)],
      gb_intent = ''messages'', gb_required_permission = None\<rparr>"

section \<open>Links\<close>

definition MAX_URLS :: nat where
  "MAX_URLS = 5"

definition delimiters :: "char list" where
  "delimiters = ''<>()[]'' @ [CHR 34, CHR 39]"

text \<open>\<open>split_whitespace\<close>: the pieces between white space, empty ones left out.\<close>

function split_whitespace :: "string \<Rightarrow> string \<Rightarrow> string list" where
  "split_whitespace [] word = (if word = [] then [] else [word])"
| "split_whitespace (c # cs) word =
     (case find (\<lambda>w. w \<noteq> [] \<and> starts_with (c # cs) w) white_space of
        Some w \<Rightarrow> (if word = [] then [] else [word]) @ split_whitespace (drop (length w) (c # cs)) []
      | None \<Rightarrow> split_whitespace cs (word @ [c]))"
  by pat_completeness auto

termination split_whitespace
proof (relation "measure (\<lambda>(s, w). length s)")
  fix c cs w and word :: string
  assume "find (\<lambda>w. w \<noteq> [] \<and> starts_with (c # cs) w) white_space = Some w"
  then have "w \<noteq> []" "starts_with (c # cs) w" by (auto simp: find_Some_iff)
  from starts_with_shorter [OF this]
  show "((drop (length w) (c # cs), []), c # cs, word) \<in> measure (\<lambda>(s, w). length s)" by simp
qed simp_all

definition trim_matches :: "(char \<Rightarrow> bool) \<Rightarrow> string \<Rightarrow> string" where
  "trim_matches P s = rev (dropWhile P (rev (dropWhile P s)))"

definition url_of :: "string \<Rightarrow> string option" where
  "url_of word =
     (let trimmed = trim_matches (\<lambda>c. c \<in> set delimiters) word in
      if (starts_with trimmed ''http://'' \<or> starts_with trimmed ''https://'') \<and> CHR ''.'' \<in> set trimmed
      then Some trimmed else None)"

definition extract_urls :: "string \<Rightarrow> string list" where
  "extract_urls content = take MAX_URLS (List.map_filter url_of (split_whitespace content []))"

section \<open>Reading\<close>

record ListMessagesQuery =
  lq_after :: "string option"
  lq_limit :: "int option"
  lq_thread_id :: "string option"
  lq_top_level :: "bool option"
  lq_sort :: "string option"

definition clamp_limit :: "int \<Rightarrow> int option \<Rightarrow> int" where
  "clamp_limit dflt limit = max 1 (min 100 (case limit of Some n \<Rightarrow> n | None \<Rightarrow> dflt))"

text \<open>The page of a result that may hold one row too many, and the cursor that goes with it.\<close>

definition has_more :: "int \<Rightarrow> 'a list \<Rightarrow> bool" where
  "has_more limit rows \<longleftrightarrow> int (length rows) > limit"

definition page :: "int \<Rightarrow> 'a list \<Rightarrow> 'a list" where
  "page limit rows = (if has_more limit rows then take (nat limit) rows else rows)"

definition last_id :: "MessageRow list \<Rightarrow> string option" where
  "last_id rows = (if rows = [] then None else Some (ms_id (last rows)))"

definition paged_response :: "json list \<Rightarrow> MessageRow list \<Rightarrow> bool \<Rightarrow> json" where
  "paged_response data rows rest_left =
     (let response = JObj [(''data'', JArr data)] in
      if rest_left \<or> last_id rows \<noteq> None
      then jinsert ''cursor''
             (JObj [(''after'', JStr (case last_id rows of Some i \<Rightarrow> i | None \<Rightarrow> [])), (''has_more'', JBool rest_left)])
             response
      else response)"

definition list_page ::
    "db \<Rightarrow> string \<Rightarrow> ListMessagesQuery \<Rightarrow> AppError + MessageRow list \<times> bool" where
  "list_page d channel_id params =
     (let limit = clamp_limit 50 (lq_limit params) in
      and_then
        (if lq_top_level params = Some True
         then list_forum_posts d channel_id (lq_after params) limit
                (case lq_sort params of Some order \<Rightarrow> order | None \<Rightarrow> ''latest_activity'')
         else db_list_messages d channel_id (lq_after params) limit (lq_thread_id params))
        (\<lambda>rows. Inr (page limit rows, has_more limit rows)))"

definition list_messages ::
    "db \<Rightarrow> string \<Rightarrow> AuthUser option \<Rightarrow> ListMessagesQuery \<Rightarrow> AppError + json" where
  "list_messages d channel_id auth params =
     and_then (get_channel_row d channel_id) (\<lambda>channel.
     and_then (require_channel_read_access d channel auth True) (\<lambda>_.
     and_then (list_page d channel_id params) (\<lambda>(rows, rest_left).
     and_then
       (if lq_top_level params = Some True
        then messages_to_forum_json d rows (map_option au_user_id auth)
        else messages_to_json d rows (map_option au_user_id auth)) (\<lambda>data.
     Inr (paged_response data rows rest_left)))))"

text \<open>The message of a path: it must be in the channel of the path.\<close>

definition message_in :: "db \<Rightarrow> string \<Rightarrow> string \<Rightarrow> AppError + MessageRow" where
  "message_in d channel_id message_id =
     and_then (get_message_row d message_id) (\<lambda>msg.
     if ms_channel_id msg \<noteq> channel_id then Inl (NotFound ''unknown_message'') else Inr msg)"

definition get_message :: "db \<Rightarrow> string \<Rightarrow> string \<Rightarrow> AuthUser option \<Rightarrow> AppError + json" where
  "get_message d channel_id message_id auth =
     and_then (get_channel_row d channel_id) (\<lambda>channel.
     and_then (require_channel_read_access d channel auth True) (\<lambda>_.
     and_then (message_in d channel_id message_id) (\<lambda>msg.
     and_then (messages_to_json d [msg] (map_option au_user_id auth)) (\<lambda>msgs. Inr (hd msgs)))))"

definition get_thread_info :: "db \<Rightarrow> string \<Rightarrow> string \<Rightarrow> AuthUser \<Rightarrow> AppError + json" where
  "get_thread_info d channel_id message_id auth =
     and_then (require_channel_membership d channel_id (au_user_id auth)) (\<lambda>_.
     and_then (message_in d channel_id message_id) (\<lambda>_. get_thread_metadata d message_id))"

definition list_active_threads :: "db \<Rightarrow> string \<Rightarrow> AuthUser \<Rightarrow> AppError + json list" where
  "list_active_threads d channel_id auth =
     and_then (require_channel_membership d channel_id (au_user_id auth)) (\<lambda>_.
     and_then (db_list_active_threads d channel_id) (\<lambda>rows.
     messages_to_json d rows (Some (au_user_id auth))))"

text \<open>\<open>None\<close> is a panic of the handler.\<close>

definition list_pins :: "db \<Rightarrow> string \<Rightarrow> AuthUser \<Rightarrow> (AppError + json list) option" where
  "list_pins d channel_id auth =
     (case require_channel_membership d channel_id (au_user_id auth) of
        Inl e \<Rightarrow> Some (Inl e)
      | Inr _ \<Rightarrow> map_option (\<lambda>r. and_then r (\<lambda>rows. messages_to_json d rows (Some (au_user_id auth))))
                  (list_pinned_messages d channel_id))"

section \<open>Search\<close>

record SearchMessagesQuery =
  sm_query :: "string option"
  sm_author_id :: "string option"
  sm_channel_id :: "string option"
  sm_before :: "string option"
  sm_after :: "string option"
  sm_pinned :: "bool option"
  sm_cursor :: "string option"
  sm_limit :: "int option"

definition list_channels_in_space :: "db \<Rightarrow> string \<Rightarrow> AppError + ChannelRow list" where
  "list_channels_in_space d space_id =
     query d (sort_key ch_position (filter (\<lambda>c. ch_space_id c = Some space_id) (channels d)))"

text \<open>The channels the caller may read; a refusal leaves one out, any other error ends the request.\<close>

fun readable_channels ::
    "db \<Rightarrow> AuthUser option \<Rightarrow> bool \<Rightarrow> ChannelRow list \<Rightarrow> AppError + ChannelRow list" where
  "readable_channels d auth history [] = Inr []"
| "readable_channels d auth history (c # cs) =
     (case require_channel_read_access d c auth history of
        Inr _ \<Rightarrow> and_then (readable_channels d auth history cs) (\<lambda>rest. Inr (c # rest))
      | Inl (Forbidden _) \<Rightarrow> readable_channels d auth history cs
      | Inl (Unauthorized _) \<Rightarrow> readable_channels d auth history cs
      | Inl e \<Rightarrow> Inl e)"

definition search_channels ::
    "db \<Rightarrow> string \<Rightarrow> AuthUser option \<Rightarrow> string option \<Rightarrow> AppError + string list" where
  "search_channels d space_id auth channel_id =
     and_then (list_channels_in_space d space_id) (\<lambda>all_channels.
     and_then (readable_channels d auth True all_channels) (\<lambda>accessible.
     let ids = map ch_id accessible in
     if ids = []
     then Inl (if auth \<noteq> None then Forbidden ''no accessible channels'' else Unauthorized ''authentication required'')
     else case channel_id of
            None \<Rightarrow> Inr ids
          | Some cid \<Rightarrow>
              if cid \<notin> set ids then Inl (Forbidden ''you do not have access to that channel'') else
              and_then (get_channel_row d cid) (\<lambda>ch.
              if ch_space_id ch \<noteq> Some space_id then Inl (NotFound ''unknown_channel'') else Inr [cid])))"

definition search_rows ::
    "db \<Rightarrow> string \<Rightarrow> AuthUser option \<Rightarrow> SearchMessagesQuery \<Rightarrow> AppError + MessageRow list \<times> bool" where
  "search_rows d space_id auth params =
     (if sm_query params = None \<and> sm_author_id params = None \<and> sm_channel_id params = None \<and>
         sm_before params = None \<and> sm_after params = None \<and> sm_pinned params = None
      then Inl (BadRequest ''at least one search filter is required'') else
      and_then (get_space_row d space_id) (\<lambda>_.
      and_then (search_channels d space_id auth (sm_channel_id params)) (\<lambda>ids.
      let limit = clamp_limit 25 (sm_limit params) in
      and_then (db_search_messages d space_id
        \<lparr>sq_channel_ids = ids, sq_query = sm_query params, sq_author_id = sm_author_id params,
         sq_before = sm_before params, sq_after = sm_after params, sq_pinned = sm_pinned params,
         sq_cursor = sm_cursor params, sq_limit = limit\<rparr>) (\<lambda>rows.
      Inr (page limit rows, has_more limit rows)))))"

definition search_messages ::
    "db \<Rightarrow> string \<Rightarrow> AuthUser option \<Rightarrow> SearchMessagesQuery \<Rightarrow> AppError + json" where
  "search_messages d space_id auth params =
     and_then (search_rows d space_id auth params) (\<lambda>(rows, rest_left).
     and_then (messages_to_json d rows (map_option au_user_id auth)) (\<lambda>data.
     Inr (paged_response data rows rest_left)))"

section \<open>Sending\<close>

definition require_speaking :: "chrono \<Rightarrow> db \<Rightarrow> string \<Rightarrow> AuthUser \<Rightarrow> string \<Rightarrow> AppError + string" where
  "require_speaking chr d channel_id auth perm =
     and_then (require_channel_permission d channel_id auth perm) (\<lambda>space_id.
     and_then (if space_id \<noteq> [] then require_not_timed_out chr d space_id auth else Inr ()) (\<lambda>_.
     Inr space_id))"

definition validate_title :: "string option \<Rightarrow> AppError + unit" where
  "validate_title t =
     (case t of
        None \<Rightarrow> Inr ()
      | Some title \<Rightarrow>
          if title = [] then Inl (BadRequest ''title must not be empty'')
          else if length title > 100 then Inl (BadRequest ''title must be at most 100 characters'')
          else Inr ())"

definition create_checks :: "chrono \<Rightarrow> db \<Rightarrow> string \<Rightarrow> AuthUser \<Rightarrow> CreateMessage \<Rightarrow> AppError + ChannelRow" where
  "create_checks chr d channel_id auth input =
     and_then (require_speaking chr d channel_id auth ''send_messages'') (\<lambda>_.
     and_then (if cm_thread_id input \<noteq> None
               then and_then (require_channel_permission d channel_id auth ''send_in_threads'') (\<lambda>_. Inr ())
               else Inr ()) (\<lambda>_.
     if length (cm_content input) > 4000
     then Inl (BadRequest ''message content must be at most 4000 characters'') else
     and_then (validate_title (cm_title input)) (\<lambda>_.
     if (case cm_embeds input of Some es \<Rightarrow> length es > 10 | None \<Rightarrow> False)
     then Inl (BadRequest ''at most 10 embeds per message'') else
     get_channel_row d channel_id)))"

definition in_conversation :: "ChannelRow \<Rightarrow> bool" where
  "in_conversation channel \<longleftrightarrow> ch_space_id channel = None \<and> is_dm (ch_type channel)"

definition space_home :: "db \<Rightarrow> string option \<Rightarrow> AppError + string option" where
  "space_home d space_id = (case space_id of Some sid \<Rightarrow> space_origin d sid | None \<Rightarrow> Inr None)"

text \<open>A message for a channel that lives elsewhere is sent there; \<open>None\<close> when it lives here.\<close>

definition forward_create ::
    "home_server \<Rightarrow> db \<Rightarrow> ChannelRow \<Rightarrow> AuthUser \<Rightarrow> CreateMessage \<Rightarrow> AppError + json option" where
  "forward_create hs d channel auth input =
     and_then (space_home d (ch_space_id channel)) (\<lambda>home.
     case home of
       Some h \<Rightarrow>
         and_then (get_user d (au_user_id auth)) (\<lambda>author.
         and_then (forward_message hs h (ch_id channel) author (cm_content input) (cm_reply_to input))
           (\<lambda>j. Inr (Some j)))
     | None \<Rightarrow>
         and_then (if in_conversation channel then channel_origin d (ch_id channel) else Inr None) (\<lambda>home.
         case home of
           Some h \<Rightarrow>
             and_then (get_user d (au_user_id auth)) (\<lambda>author.
             and_then (forward_dm_message hs h (ch_id channel) author (cm_content input) (cm_reply_to input))
               (\<lambda>j. Inr (Some j)))
         | None \<Rightarrow> Inr None))"

definition count_mention :: "MessageRow \<Rightarrow> string \<Rightarrow> db \<Rightarrow> db" where
  "count_mention msg uid d =
     (if uid = ms_author_id msg then d else fst (increment_mention_count uid (ms_channel_id msg) d))"

definition apply_mention_counts :: "MessageRow \<Rightarrow> app \<Rightarrow> app" where
  "apply_mention_counts msg s =
     s\<lparr>ap_db := fold (count_mention msg) (from_json_or_default (ms_mentions msg)) (ap_db s)\<rparr>"

text \<open>A reply refreshes the reply count of the message it hangs on.\<close>

definition announce_parent :: "string option \<Rightarrow> string option \<Rightarrow> app \<Rightarrow> app" where
  "announce_parent thread_id space_id s =
     (case thread_id of
        None \<Rightarrow> s
      | Some tid \<Rightarrow>
          (case get_message_row (ap_db s) tid of
             Inl _ \<Rightarrow> s
           | Inr parent \<Rightarrow>
               let reply_count = (case get_thread_reply_count (ap_db s) tid of Inr n \<Rightarrow> n | Inl _ \<Rightarrow> 0);
                   atts = or_default (get_attachments_for_message (ap_db s) tid)
               in send (message_event ''message.update'' space_id None
                    (message_row_to_json_full parent atts [] (Some reply_count))) s))"

definition fanout_conversation :: "ChannelRow \<Rightarrow> MessageRow \<Rightarrow> AuthUser \<Rightarrow> app \<Rightarrow> app" where
  "fanout_conversation channel msg auth s =
     (case (in_conversation channel, federation_domain s, get_user (ap_db s) (au_user_id auth)) of
        (True, Some fed, Inr author) \<Rightarrow> fst (fanout_dm_message channel (message_payload fed msg author) s)
      | _ \<Rightarrow> s)"

text \<open>\<open>permit\<close>: whether the caller may have another preview under way.\<close>

definition spawn_unfurl :: "bool \<Rightarrow> CreateMessage \<Rightarrow> MessageRow \<Rightarrow> string option \<Rightarrow> app \<Rightarrow> app" where
  "spawn_unfurl permit input msg space_id s =
     (if (cm_embeds input = None \<or> cm_embeds input = Some []) \<and> extract_urls (cm_content input) \<noteq> [] \<and> permit
      then s\<lparr>unfurl_jobs := unfurl_jobs s @ [(ms_id msg, space_id, cm_content input)]\<rparr> else s)"

definition finish_unfurl :: "string \<Rightarrow> string \<times> string option \<times> string \<Rightarrow> json list \<Rightarrow> app \<Rightarrow> app" where
  "finish_unfurl now job embeds s =
     (if embeds = [] then s else
      let p = on_db (db_update_message now (fst job)
                \<lparr>ue_content = None, ue_embeds = Some embeds, ue_title = None\<rparr>) s in
      case snd p of
        Inl _ \<Rightarrow> fst p
      | Inr updated \<Rightarrow>
          send (message_event ''message.update'' (fst (snd job)) None
            (message_row_to_json_with_attachments updated
               (or_default (get_attachments_for_message (ap_db (fst p)) (fst job))))) (fst p))"

text \<open>What follows the insertion of a message.\<close>

definition announce_message ::
    "bool \<Rightarrow> ChannelRow \<Rightarrow> AuthUser \<Rightarrow> CreateMessage \<Rightarrow> MessageRow \<Rightarrow> app \<Rightarrow> app \<times> json" where
  "announce_message permit channel auth input msg s =
     (let s1 = apply_mention_counts msg s;
          j = message_row_to_json_with_attachments msg [];
          targets = (if in_conversation channel
                     then Some (or_default (list_participant_ids (ap_db s1) (ch_id channel))) else None);
          s2 = send (message_event ''message.create'' (ch_space_id channel) targets j) s1;
          s3 = announce_parent (cm_thread_id input) (ch_space_id channel) s2;
          s4 = fst (fanout_message_create msg s3);
          s5 = fanout_conversation channel msg auth s4
      in (spawn_unfurl permit input msg (ch_space_id channel) s5, j))"

definition create_message ::
    "chrono \<Rightarrow> home_server \<Rightarrow> bool \<Rightarrow> stamp \<Rightarrow> app \<Rightarrow> string \<Rightarrow> AuthUser \<Rightarrow> CreateMessage \<Rightarrow> app \<times> (AppError + json)" where
  "create_message chr hs permit st s channel_id auth input =
     try_in s (create_checks chr (ap_db s) channel_id auth input) (\<lambda>channel.
     try_in s (forward_create hs (ap_db s) channel auth input) (\<lambda>forwarded.
     case forwarded of
       Some payload \<Rightarrow> (s, Inr payload)
     | None \<Rightarrow>
         try_in s (slowmode_cooldown_ms (ap_db s) channel auth) (\<lambda>cooldown_ms.
         try_run (on_db (db_create_message st channel_id (au_user_id auth) (ch_space_id channel) input cooldown_ms) s)
           (\<lambda>s msg. let (s', j) = announce_message permit channel auth input msg s in (s', Inr j)))))"

section \<open>Editing and deleting\<close>

text \<open>The author, or whoever may manage the messages of the channel.\<close>

definition require_author :: "db \<Rightarrow> string \<Rightarrow> AuthUser \<Rightarrow> MessageRow \<Rightarrow> AppError + unit" where
  "require_author d channel_id auth existing =
     (if ms_author_id existing \<noteq> au_user_id auth
      then and_then (require_channel_permission d channel_id auth ''manage_messages'') (\<lambda>_. Inr ())
      else Inr ())"

definition update_message ::
    "home_server \<Rightarrow> string \<Rightarrow> app \<Rightarrow> string \<Rightarrow> string \<Rightarrow> AuthUser \<Rightarrow> UpdateMessage \<Rightarrow> app \<times> (AppError + json)" where
  "update_message hs now s channel_id message_id auth input =
     try_in s (require_channel_membership (ap_db s) channel_id (au_user_id auth)) (\<lambda>_.
     try_in s (message_in (ap_db s) channel_id message_id) (\<lambda>existing.
     try_in s (space_home (ap_db s) (ms_space_id existing)) (\<lambda>home.
     case home of
       Some h \<Rightarrow>
         try_in s (ok_or (BadRequest ''federated edits require content'') (ue_content input)) (\<lambda>content.
         try_in s (get_user (ap_db s) (au_user_id auth)) (\<lambda>actor.
         (s, forward_edit hs h message_id actor content)))
     | None \<Rightarrow>
         try_in s (require_author (ap_db s) channel_id auth existing) (\<lambda>_.
         if (case ue_title input of Some t \<Rightarrow> length t > 100 | None \<Rightarrow> False)
         then (s, Inl (BadRequest ''title must be at most 100 characters'')) else
         try_run (on_db (db_update_message now message_id input) s) (\<lambda>s msg.
         try_in s (get_attachments_for_message (ap_db s) message_id) (\<lambda>atts.
         let j = message_row_to_json_with_attachments msg atts in
         try_in s (get_channel_row (ap_db s) channel_id) (\<lambda>channel.
         (fanout_quietly (ch_space_id channel) ''m.message.update''
            (\<lambda>fed. JObj [(''id'', JStr (qualify message_id fed)), (''content'', JStr (ms_content msg)),
                         (''edited_at'', jstr_opt (ms_edited_at msg))])
            (send (message_event ''message.update'' (ch_space_id channel) None j) s), Inr j))))))))"

definition delete_message ::
    "home_server \<Rightarrow> app \<Rightarrow> string \<Rightarrow> string \<Rightarrow> AuthUser \<Rightarrow> app \<times> (AppError + unit)" where
  "delete_message hs s channel_id message_id auth =
     try_in s (message_in (ap_db s) channel_id message_id) (\<lambda>existing.
     try_in s (space_home (ap_db s) (ms_space_id existing)) (\<lambda>home.
     case home of
       Some h \<Rightarrow>
         try_in s (get_user (ap_db s) (au_user_id auth)) (\<lambda>actor.
         (s, forward_delete hs h message_id actor))
     | None \<Rightarrow>
         try_in s (require_author (ap_db s) channel_id auth existing) (\<lambda>_.
         try_in s (get_attachments_for_message (ap_db s) message_id) (\<lambda>_.
         try_run (on_db (db_delete_message message_id) s) (\<lambda>s _.
         try_in s (get_channel_row (ap_db s) channel_id) (\<lambda>channel.
         (fanout_quietly (ch_space_id channel) ''m.message.delete''
            (\<lambda>fed. JObj [(''id'', JStr (qualify message_id fed)), (''channel_id'', JStr (qualify channel_id fed))])
            (send (message_event ''message.delete'' (ch_space_id channel) None
               (JObj [(''id'', JStr message_id), (''channel_id'', JStr channel_id),
                      (''space_id'', jstr_opt (ch_space_id channel))])) s), Inr ())))))))"

definition bulk_delete_messages ::
    "app \<Rightarrow> string \<Rightarrow> AuthUser \<Rightarrow> string list \<Rightarrow> app \<times> (AppError + unit)" where
  "bulk_delete_messages s channel_id auth message_ids =
     try_in s (require_channel_permission (ap_db s) channel_id auth ''manage_messages'') (\<lambda>_.
     if length message_ids > 100
     then (s, Inl (BadRequest ''cannot bulk delete more than 100 messages''))
     else on_db (db_bulk_delete_messages channel_id message_ids) s)"

definition pin_message :: "string \<Rightarrow> app \<Rightarrow> string \<Rightarrow> string \<Rightarrow> AuthUser \<Rightarrow> app \<times> (AppError + unit)" where
  "pin_message now s channel_id message_id auth =
     try_in s (require_channel_permission (ap_db s) channel_id auth ''manage_messages'') (\<lambda>_.
     on_db (db_pin_message now channel_id message_id) s)"

definition unpin_message :: "app \<Rightarrow> string \<Rightarrow> string \<Rightarrow> AuthUser \<Rightarrow> app \<times> (AppError + unit)" where
  "unpin_message s channel_id message_id auth =
     try_in s (require_channel_permission (ap_db s) channel_id auth ''manage_messages'') (\<lambda>_.
     on_db (db_unpin_message channel_id message_id) s)"

section \<open>Typing\<close>

definition typing_data :: "chrono \<Rightarrow> string \<Rightarrow> AuthUser \<Rightarrow> string option \<Rightarrow> json" where
  "typing_data chr channel_id auth thread_id =
     (let data = JObj [(''channel_id'', JStr channel_id), (''user_id'', JStr (au_user_id auth)),
                       (''timestamp'', JStr (format_utc chr (utc_now chr) ''%Y-%m-%dT%H:%M:%S''))]
      in case thread_id of Some tid \<Rightarrow> jinsert ''thread_id'' (JStr tid) data | None \<Rightarrow> data)"

definition typing_indicator ::
    "chrono \<Rightarrow> home_server \<Rightarrow> app \<Rightarrow> string \<Rightarrow> AuthUser \<Rightarrow> string option \<Rightarrow> app \<times> (AppError + unit)" where
  "typing_indicator chr hs s channel_id auth thread_id =
     try_in s (require_speaking chr (ap_db s) channel_id auth ''send_messages'') (\<lambda>space_id.
     try_in s (if space_id \<noteq> [] then space_origin (ap_db s) space_id else Inr None) (\<lambda>home.
     case home of
       Some h \<Rightarrow> (s, Inr ())
     | None \<Rightarrow>
         try_in s (get_channel_row (ap_db s) channel_id) (\<lambda>channel.
         let s1 = send \<lparr>gb_space_id = ch_space_id channel, gb_target_user_ids = None,
                    gb_event = JObj [(''op'', JNum 0), (''type'', JStr ''typing.start''),
                                     (''data'', typing_data chr channel_id auth thread_id)],
                    gb_intent = ''message_typing'', gb_required_permission = None\<rparr> s
         in (fanout_quietly (if space_id \<noteq> [] then Some space_id else None) ''m.typing''
               (\<lambda>fed. JObj [(''channel_id'', JStr (qualify channel_id fed)),
                            (''user_id'', JStr (qualify (au_user_id auth) fed))]) s1, Inr ()))))"

end
