(* ===== verification/Reactions.thy ===== *)
theory Reactions
  imports Messages
begin

text \<open>
  Reactions: \<open>Server/src/routes/reactions.rs\<close>, the two statements of \<open>db/messages.rs\<close> and
  \<open>reaction_payload\<close> of \<open>federation/outbound.rs\<close>.
\<close>

section \<open>Statements\<close>

definition has_reaction :: "string \<Rightarrow> string \<Rightarrow> string \<Rightarrow> Reaction \<Rightarrow> bool" where
  "has_reaction message_id user_id emoji r \<longleftrightarrow>
     re_message_id r = message_id \<and> re_user_id r = user_id \<and> re_emoji_name r = emoji"

text \<open>A conflict on the primary key is ignored, a missing message or user is not.\<close>

definition db_add_reaction ::
    "string \<Rightarrow> string \<Rightarrow> string \<Rightarrow> string \<Rightarrow> db \<Rightarrow> db \<times> (AppError + unit)" where
  "db_add_reaction now message_id user_id emoji d =
     (let present = list_ex (has_reaction message_id user_id emoji) (reactions d) in
      execute_checked d
        (\<lambda>d. if present \<or> (list_ex (\<lambda>m. ms_id m = message_id) (messages d) \<and>
                            list_ex (\<lambda>u. us_id u = user_id) (users d))
             then None else Some (foreign_key_violation d))
        (\<lambda>d. if present then d
             else d\<lparr>reactions := reactions d @
               [\<lparr>re_message_id = message_id, re_user_id = user_id, re_emoji_name = emoji, re_created_at = now\<rparr>]\<rparr>))"

definition delete_reactions :: "(Reaction \<Rightarrow> bool) \<Rightarrow> db \<Rightarrow> db \<times> (AppError + unit)" where
  "delete_reactions P d = execute d (\<lambda>d. d\<lparr>reactions := filter (\<lambda>r. \<not> P r) (reactions d)\<rparr>)"

definition db_remove_reaction :: "string \<Rightarrow> string \<Rightarrow> string \<Rightarrow> db \<Rightarrow> db \<times> (AppError + unit)" where
  "db_remove_reaction message_id user_id emoji d = delete_reactions (has_reaction message_id user_id emoji) d"

section \<open>Events\<close>

definition space_id_opt :: "string \<Rightarrow> string option" where
  "space_id_opt s = (if s = [] then None else Some s)"

definition reaction_event :: "string \<Rightarrow> string \<Rightarrow> (string \<times> json) list \<Rightarrow> GatewayBroadcast" where
  "reaction_event event_type space_id pairs =
     \<lparr>gb_space_id = space_id_opt space_id, gb_target_user_ids = None,
      gb_event = JObj [(''op'', JNum 0), (''type'', JStr event_type), (''data'', JObj pairs)],
      gb_intent = ''message_reactions'', gb_required_permission = None\<rparr>"

definition reaction_fields :: "string \<Rightarrow> string \<Rightarrow> string \<Rightarrow> string \<Rightarrow> (string \<times> json) list" where
  "reaction_fields channel_id message_id user_id emoji =
     [(''channel_id'', JStr channel_id), (''message_id'', JStr message_id), (''user_id'', JStr user_id),
      (''emoji'', JStr emoji)]"

definition reaction_payload :: "string \<Rightarrow> string \<Rightarrow> string \<Rightarrow> string \<Rightarrow> string \<Rightarrow> json" where
  "reaction_payload channel_id message_id user_id emoji dm =
     JObj [(''channel_id'', JStr (qualify channel_id dm)), (''message_id'', JStr (qualify message_id dm)),
           (''user_id'', JStr (qualify user_id dm)), (''emoji'', JStr emoji)]"

section \<open>Handlers\<close>

text \<open>The part the two handlers of one's own reactions share: a space that lives elsewhere is asked,
  and what happens here is announced and fanned out.\<close>

definition own_reaction ::
    "home_server \<Rightarrow> bool \<Rightarrow> (db \<Rightarrow> db \<times> (AppError + unit)) \<Rightarrow> app \<Rightarrow> string \<Rightarrow> string \<Rightarrow> string \<Rightarrow> string \<Rightarrow>
     AuthUser \<Rightarrow> app \<times> (AppError + unit)" where
  "own_reaction hs remove write s space_id channel_id message_id emoji auth =
     try_in s (if space_id \<noteq> [] then space_origin (ap_db s) space_id else Inr None) (\<lambda>home.
     case home of
       Some h \<Rightarrow>
         try_in s (get_user (ap_db s) (au_user_id auth)) (\<lambda>actor.
         (s, forward_reaction hs h channel_id message_id actor emoji remove))
     | None \<Rightarrow>
         try_run (on_db write s) (\<lambda>s _.
         (fanout_quietly (space_id_opt space_id) (if remove then ''m.reaction.remove'' else ''m.reaction.add'')
            (reaction_payload channel_id message_id (au_user_id auth) emoji)
            (send (reaction_event (if remove then ''reaction.remove'' else ''reaction.add'') space_id
               (reaction_fields channel_id message_id (au_user_id auth) emoji)) s), Inr ())))"

definition add_reaction ::
    "chrono \<Rightarrow> home_server \<Rightarrow> string \<Rightarrow> app \<Rightarrow> string \<Rightarrow> string \<Rightarrow> string \<Rightarrow> AuthUser \<Rightarrow> app \<times> (AppError + unit)" where
  "add_reaction chr hs now s channel_id message_id emoji auth =
     try_in s (require_speaking chr (ap_db s) channel_id auth ''add_reactions'') (\<lambda>space_id.
     own_reaction hs False (db_add_reaction now message_id (au_user_id auth) emoji) s space_id channel_id message_id
       emoji auth)"

definition remove_own_reaction ::
    "home_server \<Rightarrow> app \<Rightarrow> string \<Rightarrow> string \<Rightarrow> string \<Rightarrow> AuthUser \<Rightarrow> app \<times> (AppError + unit)" where
  "remove_own_reaction hs s channel_id message_id emoji auth =
     try_in s (require_channel_membership (ap_db s) channel_id (au_user_id auth)) (\<lambda>space_id.
     own_reaction hs True (db_remove_reaction message_id (au_user_id auth) emoji) s space_id channel_id message_id
       emoji auth)"

definition moderate_reactions ::
    "(Reaction \<Rightarrow> bool) \<Rightarrow> string \<Rightarrow> (string \<times> json) list \<Rightarrow> app \<Rightarrow> string \<Rightarrow> AuthUser \<Rightarrow> app \<times> (AppError + unit)" where
  "moderate_reactions P event_type pairs s channel_id auth =
     try_in s (require_channel_permission (ap_db s) channel_id auth ''manage_messages'') (\<lambda>space_id.
     try_run (on_db (delete_reactions P) s) (\<lambda>s _.
     (send (reaction_event event_type space_id pairs) s, Inr ())))"

definition remove_user_reaction ::
    "app \<Rightarrow> string \<Rightarrow> string \<Rightarrow> string \<Rightarrow> string \<Rightarrow> AuthUser \<Rightarrow> app \<times> (AppError + unit)" where
  "remove_user_reaction s channel_id message_id emoji user_id auth =
     moderate_reactions (has_reaction message_id user_id emoji) ''reaction.remove''
       (reaction_fields channel_id message_id user_id emoji) s channel_id auth"

definition list_reactions :: "db \<Rightarrow> string \<Rightarrow> string \<Rightarrow> string \<Rightarrow> AuthUser \<Rightarrow> AppError + string list" where
  "list_reactions d channel_id message_id emoji auth =
     and_then (require_channel_membership d channel_id (au_user_id auth)) (\<lambda>_.
     query d (map re_user_id (filter (\<lambda>r. re_message_id r = message_id \<and> re_emoji_name r = emoji) (reactions d))))"

definition remove_all_reactions :: "app \<Rightarrow> string \<Rightarrow> string \<Rightarrow> AuthUser \<Rightarrow> app \<times> (AppError + unit)" where
  "remove_all_reactions s channel_id message_id auth =
     moderate_reactions (\<lambda>r. re_message_id r = message_id) ''reaction.clear''
       [(''channel_id'', JStr channel_id), (''message_id'', JStr message_id)] s channel_id auth"

definition remove_all_reactions_emoji ::
    "app \<Rightarrow> string \<Rightarrow> string \<Rightarrow> string \<Rightarrow> AuthUser \<Rightarrow> app \<times> (AppError + unit)" where
  "remove_all_reactions_emoji s channel_id message_id emoji auth =
     moderate_reactions (\<lambda>r. re_message_id r = message_id \<and> re_emoji_name r = emoji) ''reaction.clear_emoji''
       [(''channel_id'', JStr channel_id), (''message_id'', JStr message_id), (''emoji'', JStr emoji)]
       s channel_id auth"

end
