(* ===== verification/MessageSpec.thy ===== *)
theory MessageSpec
  imports Reactions
begin

text \<open>
  What the handlers of \<open>Server/src/routes/messages.rs\<close> and \<open>Server/src/routes/reactions.rs\<close> may do to the
  tables of messages: the deletion cascade and its reference definition, referential integrity
  (\<open>messages_wf\<close>), and the steps (\<open>post_step\<close>, \<open>edit_step\<close>), each of which names what it needs.  The
  theory MessageSafety shows that the handlers make no other steps.
\<close>

section \<open>What a deletion reaches\<close>

definition thread_edge :: "MessageRow list \<Rightarrow> (string \<times> string) set" where
  "thread_edge ms = {(t, i). \<exists>m \<in> set ms. ms_thread_id m = Some t \<and> ms_id m = i}"

lemma thread_replies_edge: "set (thread_replies ms gone) = thread_edge ms `` set gone - set gone"
  by (auto simp: thread_replies_def thread_edge_def)

lemma closure_absorb: "A \<subseteq> R `` B \<Longrightarrow> R\<^sup>* `` (B \<union> A) = R\<^sup>* `` B"
  by (blast intro: converse_rtrancl_into_rtrancl)

lemma closed_closure: "R `` B \<subseteq> B \<Longrightarrow> R\<^sup>* `` B = B"
  by (rule Image_closed_trancl)

lemma set_cascade: "set (cascade ms gone) = (thread_edge ms)\<^sup>* `` set gone"
proof (induction ms gone rule: cascade.induct)
  case (1 ms gone)
  show ?case
  proof (cases "thread_replies ms gone = []")
    case True
    then have "thread_edge ms `` set gone \<subseteq> set gone"
      using thread_replies_edge [of ms gone] by (metis Diff_eq_empty_iff empty_set)
    then show ?thesis using True by (simp add: cascade.simps closed_closure)
  next
    case False
    have "set (cascade ms gone) = (thread_edge ms)\<^sup>* `` set (gone @ thread_replies ms gone)"
      using 1 [OF False] False by (simp add: cascade.simps)
    also have "\<dots> = (thread_edge ms)\<^sup>* `` set gone"
      by (simp only: set_append) (rule closure_absorb, simp add: thread_replies_edge)
    finally show ?thesis .
  qed
qed

text \<open>The ids a deletion takes: the chosen messages and whatever hangs on them.\<close>

definition taken :: "(MessageRow \<Rightarrow> bool) \<Rightarrow> db \<Rightarrow> string set" where
  "taken P d = (thread_edge (messages d))\<^sup>* `` {ms_id m |m. m \<in> set (messages d) \<and> P m}"

lemma set_taken: "set (cascade (messages d) (map ms_id (filter P (messages d)))) = taken P d"
  by (auto simp: set_cascade taken_def)

lemma delete_messages_rows:
  "messages (delete_messages P d) =
     map (clear_reply (cascade (messages d) (map ms_id (filter P (messages d)))))
       (filter (\<lambda>m. ms_id m \<notin> taken P d) (messages d))"
  "attachments (delete_messages P d) = filter (\<lambda>(m, a). m \<notin> taken P d) (attachments d)"
  "reactions (delete_messages P d) = filter (\<lambda>r. re_message_id r \<notin> taken P d) (reactions d)"
  "pinned_messages (delete_messages P d) = filter (\<lambda>p. pi_message_id p \<notin> taken P d) (pinned_messages d)"
  by (simp_all add: delete_messages_def Let_def set_taken)

lemma delete_messages_others [simp]:
  "channels (delete_messages P d) = channels d" "users (delete_messages P d) = users d"
  "spaces (delete_messages P d) = spaces d" "db_ok (delete_messages P d) = db_ok d"
  by (simp_all add: delete_messages_def Let_def)

lemma clear_reply_keeps [simp]:
  "ms_id (clear_reply gone m) = ms_id m" "ms_thread_id (clear_reply gone m) = ms_thread_id m"
  "ms_channel_id (clear_reply gone m) = ms_channel_id m" "ms_author_id (clear_reply gone m) = ms_author_id m"
  "ms_content (clear_reply gone m) = ms_content m" "ms_pinned (clear_reply gone m) = ms_pinned m"
  "ms_space_id (clear_reply gone m) = ms_space_id m"
  by (simp_all add: clear_reply_def split: option.split)

lemma reply_cleared: "ms_reply_to (clear_reply gone m) = Some r \<longleftrightarrow> ms_reply_to m = Some r \<and> r \<notin> set gone"
  by (auto simp: clear_reply_def split: option.split)


section \<open>Referential integrity\<close>

definition messages_wf :: "db \<Rightarrow> bool" where
  "messages_wf d \<longleftrightarrow>
     distinct (map ms_id (messages d)) \<and>
     (\<forall>m \<in> set (messages d). refs_message d (ms_reply_to m) \<and> refs_message d (ms_thread_id m) \<and>
        ms_channel_id m \<in> ch_id ` set (channels d) \<and> ms_author_id m \<in> us_id ` set (users d)) \<and>
     fst ` set (attachments d) \<subseteq> ms_id ` set (messages d) \<and>
     re_message_id ` set (reactions d) \<subseteq> ms_id ` set (messages d) \<and>
     distinct (map (\<lambda>r. (re_message_id r, re_user_id r, re_emoji_name r)) (reactions d)) \<and>
     pi_message_id ` set (pinned_messages d) \<subseteq> ms_id ` set (messages d) \<and>
     distinct (map (\<lambda>p. (pi_channel_id p, pi_message_id p)) (pinned_messages d))"

lemma refs_message_iff: "refs_message d r \<longleftrightarrow> (\<forall>i. r = Some i \<longrightarrow> i \<in> ms_id ` set (messages d))"
  by (auto simp: refs_message_def list_ex_iff split: option.splits)

lemma taken_closed: "t \<in> taken P d \<Longrightarrow> m \<in> set (messages d) \<Longrightarrow> ms_thread_id m = Some t \<Longrightarrow> ms_id m \<in> taken P d"
  unfolding taken_def by (auto simp: thread_edge_def intro: rtrancl_into_rtrancl)

lemma delete_messages_wf:
  assumes wf: "messages_wf d"
  shows "messages_wf (delete_messages P d)"
proof -
  let ?d = "delete_messages P d"
  have ids: "ms_id ` set (messages ?d) = ms_id ` set (messages d) - taken P d"
    by (simp add: delete_messages_rows image_image) auto
  have "refs_message ?d (ms_reply_to m)" "refs_message ?d (ms_thread_id m)" if "m \<in> set (messages ?d)" for m
  proof -
    from that obtain n where n: "n \<in> set (messages d)" "ms_id n \<notin> taken P d"
        and m: "m = clear_reply (cascade (messages d) (map ms_id (filter P (messages d)))) n"
      by (auto simp: delete_messages_rows)
    from wf n(1) have "refs_message d (ms_reply_to n)" "refs_message d (ms_thread_id n)"
      by (simp_all add: messages_wf_def)
    then show "refs_message ?d (ms_reply_to m)" "refs_message ?d (ms_thread_id m)"
      using n taken_closed [of _ P d n] by (auto simp: refs_message_iff ids m reply_cleared set_taken)
  qed
  moreover have "ms_channel_id m \<in> ch_id ` set (channels d) \<and> ms_author_id m \<in> us_id ` set (users d)"
    if "m \<in> set (messages ?d)" for m
    using that wf by (auto simp: delete_messages_rows messages_wf_def)
  moreover have "distinct (map ms_id (messages ?d))"
    using wf by (simp add: delete_messages_rows comp_def messages_wf_def distinct_map_filter)
  ultimately show ?thesis
    using wf ids by (auto simp: messages_wf_def delete_messages_rows(2-4) intro: distinct_map_filter)
qed


section \<open>Tables beside the messages\<close>

text \<open>Read states and the outbox.\<close>

definition quiet :: "db \<Rightarrow> db \<Rightarrow> bool" where
  "quiet d d' \<longleftrightarrow> d'\<lparr>read_states := read_states d, federation_outbox := federation_outbox d\<rparr> = d"

lemma quiet_refl [simp]: "quiet d d"
  by (simp add: quiet_def)

lemma quiet_trans [trans]:
  assumes "quiet d d'" and "quiet d' d''"
  shows "quiet d d''"
proof -
  have "d''\<lparr>read_states := read_states d, federation_outbox := federation_outbox d\<rparr> =
      (d''\<lparr>read_states := read_states d', federation_outbox := federation_outbox d'\<rparr>)
        \<lparr>read_states := read_states d, federation_outbox := federation_outbox d\<rparr>" by simp
  with assms show ?thesis by (simp only: quiet_def)
qed

lemma quiet_updates [simp]: "quiet d (d\<lparr>read_states := r\<rparr>)" "quiet d (d\<lparr>federation_outbox := f\<rparr>)"
  by (simp_all add: quiet_def)

lemma quiet_fields:
  assumes "quiet d d'"
  shows "messages d' = messages d" "attachments d' = attachments d" "reactions d' = reactions d"
    "pinned_messages d' = pinned_messages d" "users d' = users d" "db_ok d' = db_ok d"
    "channels d' = channels d" "attachment_deletions d' = attachment_deletions d"
    "message_cooldowns d' = message_cooldowns d"
proof -
  note eq = assms [unfolded quiet_def]
  from arg_cong [OF eq, of messages] arg_cong [OF eq, of attachments] arg_cong [OF eq, of reactions]
    arg_cong [OF eq, of pinned_messages] arg_cong [OF eq, of users] arg_cong [OF eq, of db_ok]
    arg_cong [OF eq, of attachment_deletions] arg_cong [OF eq, of channels] arg_cong [OF eq, of message_cooldowns]
  show "messages d' = messages d" "attachments d' = attachments d" "reactions d' = reactions d"
    "pinned_messages d' = pinned_messages d" "users d' = users d" "db_ok d' = db_ok d"
    "channels d' = channels d" "attachment_deletions d' = attachment_deletions d"
    "message_cooldowns d' = message_cooldowns d"
    by simp_all
qed

lemma quiet_wf: "quiet d d' \<Longrightarrow> messages_wf d \<Longrightarrow> messages_wf d'"
  by (simp add: messages_wf_def refs_message_iff quiet_fields)


section \<open>Steps\<close>

definition allowed_in :: "db \<Rightarrow> string \<Rightarrow> AuthUser \<Rightarrow> string \<Rightarrow> bool" where
  "allowed_in d c auth p \<longleftrightarrow> is_ok (require_channel_permission d c auth p)"

definition may_alter :: "db \<Rightarrow> AuthUser \<Rightarrow> MessageRow \<Rightarrow> bool" where
  "may_alter d auth m \<longleftrightarrow> ms_author_id m = au_user_id auth \<or> allowed_in d (ms_channel_id m) auth ''manage_messages''"

text \<open>Updates of the text, the embeds, the title and the time of the edit.\<close>

definition body_only :: "(MessageRow \<Rightarrow> MessageRow) \<Rightarrow> bool" where
  "body_only f \<longleftrightarrow> (\<forall>m. \<exists>x y z e. f m = m\<lparr>ms_content := x, ms_embeds := y, ms_title := z, ms_edited_at := e\<rparr>)"

definition set_pinned :: "string \<Rightarrow> bool \<Rightarrow> db \<Rightarrow> db" where
  "set_pinned i b = set_message i (ms_pinned_update (\<lambda>_. b))"

definition purge :: "string \<Rightarrow> string list \<Rightarrow> db \<Rightarrow> db" where
  "purge c is d = foldl (\<lambda>d i. delete_messages (\<lambda>m. ms_id m = i \<and> ms_channel_id m = c) d) d is"

definition is_pin :: "string \<Rightarrow> string \<Rightarrow> Pin \<Rightarrow> bool" where
  "is_pin c i p \<longleftrightarrow> pi_channel_id p = c \<and> pi_message_id p = i"

text \<open>Whether the slow mode of the channel lets the caller post at a time.\<close>

definition slot_open :: "db \<Rightarrow> ChannelRow \<Rightarrow> AuthUser \<Rightarrow> int \<Rightarrow> bool" where
  "slot_open d ch auth t \<longleftrightarrow>
     (case slowmode_cooldown_ms d ch auth of
        Inl _ \<Rightarrow> False
      | Inr cd \<Rightarrow> (case last_sent d (ch_id ch) (au_user_id auth) of
                     None \<Rightarrow> True | Some prev \<Rightarrow> cd \<le> 0 \<or> prev \<le> t - cd))"

definition with_post :: "MessageRow \<Rightarrow> int \<Rightarrow> db \<Rightarrow> db" where
  "with_post m t d = d\<lparr>messages := messages d @ [m],
     message_cooldowns := AList.update (ms_channel_id m, ms_author_id m) t (message_cooldowns d),
     channels := (if ms_thread_id m = None
       then map (\<lambda>c. if ch_id c = ms_channel_id m then c\<lparr>ch_last_message_id := Some (ms_id m)\<rparr> else c) (channels d)
       else channels d)\<rparr>"

text \<open>Posting a message with a given id in a channel at a time, and everything else.\<close>

inductive post_step :: "AuthUser \<Rightarrow> string \<Rightarrow> string \<Rightarrow> int \<Rightarrow> db \<Rightarrow> db \<Rightarrow> bool" for auth c i t where
  post: "allowed_in d c auth ''send_messages'' \<Longrightarrow> get_channel_row d c = Inr ch \<Longrightarrow> slot_open d ch auth t \<Longrightarrow>
    ms_channel_id m = c \<Longrightarrow> ms_id m = i \<Longrightarrow> ms_author_id m = au_user_id auth \<Longrightarrow> message_violation m d = None \<Longrightarrow>
    post_step auth c i t d (with_post m t d)"

inductive edit_step :: "AuthUser \<Rightarrow> db \<Rightarrow> db \<Rightarrow> bool" for auth where
  edit: "get_message_row d i = Inr m \<Longrightarrow> may_alter d auth m \<Longrightarrow> body_only f \<Longrightarrow> edit_step auth d (set_message i f d)"
| delete: "get_message_row d i = Inr m \<Longrightarrow> may_alter d auth m \<Longrightarrow>
    edit_step auth d (delete_messages (\<lambda>m. ms_id m = i) d)"
| purge: "allowed_in d c auth ''manage_messages'' \<Longrightarrow> edit_step auth d (purge c is d)"
| pin: "allowed_in d c auth ''manage_messages'' \<Longrightarrow> i \<in> ms_id ` set (messages d) \<Longrightarrow>
    \<not> list_ex (is_pin c i) (pinned_messages d) \<Longrightarrow> pi_channel_id p = c \<Longrightarrow> pi_message_id p = i \<Longrightarrow>
    edit_step auth d (set_pinned i True (d\<lparr>pinned_messages := pinned_messages d @ [p]\<rparr>))"
| pin_again: "allowed_in d c auth ''manage_messages'' \<Longrightarrow> edit_step auth d (set_pinned i True d)"
| unpin: "allowed_in d c auth ''manage_messages'' \<Longrightarrow>
    edit_step auth d
      (set_pinned i False (d\<lparr>pinned_messages := filter (\<lambda>p. \<not> is_pin c i p) (pinned_messages d)\<rparr>))"
| react: "allowed_in d c auth ''add_reactions'' \<Longrightarrow> re_message_id r \<in> ms_id ` set (messages d) \<Longrightarrow>
    re_user_id r = au_user_id auth \<Longrightarrow>
    \<not> list_ex (has_reaction (re_message_id r) (re_user_id r) (re_emoji_name r)) (reactions d) \<Longrightarrow>
    edit_step auth d (d\<lparr>reactions := reactions d @ [r]\<rparr>)"
| unreact: "(\<forall>r. P r \<longrightarrow> re_user_id r = au_user_id auth) \<or> (\<exists>c. allowed_in d c auth ''manage_messages'') \<Longrightarrow>
    edit_step auth d (d\<lparr>reactions := filter (\<lambda>r. \<not> P r) (reactions d)\<rparr>)"

lemma body_only_keeps:
  assumes "body_only f"
  shows "ms_id (f m) = ms_id m" "ms_thread_id (f m) = ms_thread_id m" "ms_reply_to (f m) = ms_reply_to m"
    "ms_channel_id (f m) = ms_channel_id m" "ms_author_id (f m) = ms_author_id m" "ms_pinned (f m) = ms_pinned m"
    "ms_space_id (f m) = ms_space_id m"
proof -
  from assms obtain x y z e where "f m = m\<lparr>ms_content := x, ms_embeds := y, ms_title := z, ms_edited_at := e\<rparr>"
    unfolding body_only_def by blast
  then show "ms_id (f m) = ms_id m" "ms_thread_id (f m) = ms_thread_id m" "ms_reply_to (f m) = ms_reply_to m"
    "ms_channel_id (f m) = ms_channel_id m" "ms_author_id (f m) = ms_author_id m" "ms_pinned (f m) = ms_pinned m"
    "ms_space_id (f m) = ms_space_id m" by simp_all
qed

text \<open>A change of the message table that loses no id.\<close>

lemma grown_wf:
  assumes "messages_wf d" and "ms_id ` set (messages d) \<subseteq> ms_id ` set ms" and "distinct (map ms_id ms)"
    and "\<And>m i. m \<in> set ms \<Longrightarrow> ms_reply_to m = Some i \<or> ms_thread_id m = Some i \<Longrightarrow> i \<in> ms_id ` set ms"
    and "\<And>m. m \<in> set ms \<Longrightarrow> ms_channel_id m \<in> ch_id ` set (channels d) \<and> ms_author_id m \<in> us_id ` set (users d)"
  shows "messages_wf (d\<lparr>messages := ms\<rparr>)"
  using assms(1) subset_trans [OF _ assms(2)] assms(3-5) by (simp add: messages_wf_def refs_message_iff)

lemma set_message_wf:
  assumes "messages_wf d"
    and keep: "\<And>m. ms_id (f m) = ms_id m \<and> ms_thread_id (f m) = ms_thread_id m \<and> ms_reply_to (f m) = ms_reply_to m \<and>
      ms_channel_id (f m) = ms_channel_id m \<and> ms_author_id (f m) = ms_author_id m"
  shows "messages_wf (set_message i f d)"
proof -
  let ?ms = "map (\<lambda>m. if ms_id m = i then f m else m) (messages d)"
  have ids: "map ms_id ?ms = map ms_id (messages d)" using keep by simp
  then have "ms_id ` set ?ms = ms_id ` set (messages d)" by (metis list.set_map)
  moreover have "distinct (map ms_id ?ms)" using ids assms(1) by (simp only: messages_wf_def)
  moreover have "\<exists>n \<in> set (messages d). ms_thread_id m = ms_thread_id n \<and> ms_reply_to m = ms_reply_to n \<and>
      ms_channel_id m = ms_channel_id n \<and> ms_author_id m = ms_author_id n" if "m \<in> set ?ms" for m
    using that keep by (auto split: if_splits)
  ultimately show ?thesis
    unfolding set_message_def using assms(1)
    by (intro grown_wf) (simp_all add: messages_wf_def refs_message_iff, metis+)
qed

lemma purge_wf: "messages_wf d \<Longrightarrow> messages_wf (purge c is d)"
  unfolding purge_def by (induction "is" arbitrary: d) (simp_all add: delete_messages_wf)

lemma message_violation_None:
  assumes "message_violation m d = None"
  shows "ms_id m \<notin> ms_id ` set (messages d)" "ms_channel_id m \<in> ch_id ` set (channels d)"
    "ms_author_id m \<in> us_id ` set (users d)" "refs_message d (ms_reply_to m)" "refs_message d (ms_thread_id m)"
  using assms by (auto simp: message_violation_def list_ex_iff image_iff split: if_splits) metis+

lemma post_wf:
  assumes wf: "messages_wf d" and new: "message_violation m d = None"
  shows "messages_wf (d\<lparr>messages := messages d @ [m]\<rparr>)"
proof (rule grown_wf [OF wf])
  show "distinct (map ms_id (messages d @ [m]))"
    using wf message_violation_None(1) [OF new] by (simp add: messages_wf_def)
  show "i \<in> ms_id ` set (messages d @ [m])"
    if "n \<in> set (messages d @ [m])" "ms_reply_to n = Some i \<or> ms_thread_id n = Some i" for n i
    using that wf message_violation_None(4,5) [OF new] by (auto simp: messages_wf_def refs_message_iff)
  show "ms_channel_id n \<in> ch_id ` set (channels d) \<and> ms_author_id n \<in> us_id ` set (users d)"
    if "n \<in> set (messages d @ [m])" for n
    using that wf message_violation_None(2,3) [OF new] by (auto simp: messages_wf_def)
qed auto

lemma with_post_channel_ids: "ch_id ` set (channels (with_post m t d)) = ch_id ` set (channels d)"
proof -
  have "map ch_id (channels (with_post m t d)) = map ch_id (channels d)"
    by (simp add: with_post_def comp_def if_distrib [of ch_id] cong: if_cong)
  then show ?thesis by (metis list.set_map)
qed

lemma with_post_wf:
  assumes "messages_wf d" and "message_violation m d = None"
  shows "messages_wf (with_post m t d)"
proof -
  note with_post_channel_ids [of m t d]
  with post_wf [OF assms] show ?thesis
    by (simp add: messages_wf_def refs_message_iff) (simp add: with_post_def)
qed

lemma edit_step_wf: "edit_step auth d d' \<Longrightarrow> messages_wf d \<Longrightarrow> messages_wf d'"
proof (induction rule: edit_step.induct)
  case (edit d i m f)
  then show ?case by (auto intro: set_message_wf simp: body_only_keeps)
next
  case (delete d i m)
  then show ?case by (simp add: delete_messages_wf)
next
  case (purge d c "is")
  then show ?case by (simp add: purge_wf)
next
  case (pin d c i p)
  then have "messages_wf (d\<lparr>pinned_messages := pinned_messages d @ [p]\<rparr>)"
    by (auto simp: messages_wf_def refs_message_iff list_ex_iff is_pin_def)
  then show ?case by (simp add: set_pinned_def set_message_wf)
next
  case (pin_again d c i)
  then show ?case by (simp add: set_pinned_def set_message_wf)
next
  case (unpin d c i)
  then have "messages_wf (d\<lparr>pinned_messages := filter (\<lambda>p. \<not> is_pin c i p) (pinned_messages d)\<rparr>)"
    by (auto simp: messages_wf_def refs_message_iff distinct_map_filter)
  then show ?case by (simp add: set_pinned_def set_message_wf)
next
  case (react d c r)
  then show ?case by (auto simp: messages_wf_def refs_message_iff list_ex_iff has_reaction_def)
next
  case (unreact d P)
  then show ?case by (auto simp: messages_wf_def refs_message_iff distinct_map_filter)
qed

lemma post_step_wf: "post_step auth c i t d d' \<Longrightarrow> messages_wf d \<Longrightarrow> messages_wf d'"
  by (induction rule: post_step.induct) (simp add: with_post_wf)

end
