(* ===== verification/MessageSafety.thy ===== *)
theory MessageSafety
  imports MessageSpec
begin

text \<open>
  Messages and reactions together: every request of a caller to the handlers of
  \<open>Server/src/routes/messages.rs\<close> and \<open>Server/src/routes/reactions.rs\<close> that writes, the proof that the
  handlers make only the steps of MessageSpec, and what follows for every sequence of requests.
\<close>

section \<open>Requests\<close>

datatype message_request =
    Post stamp bool string CreateMessage
  | Edit string string string UpdateMessage
  | Remove string string
  | BulkRemove string "string list"
  | PinMessage string string string
  | UnpinMessage string string
  | Typing string "string option"
  | React string string string string
  | Unreact string string string
  | RemoveReaction string string string string
  | ClearReactions string string
  | ClearEmoji string string string

definition result :: "'s \<times> ('e + 'a) \<Rightarrow> 's \<times> ('e + unit)" where
  "result p = (fst p, and_then (snd p) (\<lambda>_. Inr ()))"

fun handle_message :: "chrono \<Rightarrow> home_server \<Rightarrow> AuthUser \<Rightarrow> message_request \<Rightarrow> app \<Rightarrow> app \<times> (AppError + unit)" where
  "handle_message chr hs auth (Post st permit c input) s = result (create_message chr hs permit st s c auth input)"
| "handle_message chr hs auth (Edit now c i input) s = result (update_message hs now s c i auth input)"
| "handle_message chr hs auth (Remove c i) s = delete_message hs s c i auth"
| "handle_message chr hs auth (BulkRemove c is) s = bulk_delete_messages s c auth is"
| "handle_message chr hs auth (PinMessage now c i) s = pin_message now s c i auth"
| "handle_message chr hs auth (UnpinMessage c i) s = unpin_message s c i auth"
| "handle_message chr hs auth (Typing c thread) s = typing_indicator chr hs s c auth thread"
| "handle_message chr hs auth (React now c i e) s = add_reaction chr hs now s c i e auth"
| "handle_message chr hs auth (Unreact c i e) s = remove_own_reaction hs s c i e auth"
| "handle_message chr hs auth (RemoveReaction c i e u) s = remove_user_reaction s c i e u auth"
| "handle_message chr hs auth (ClearReactions c i) s = remove_all_reactions s c i auth"
| "handle_message chr hs auth (ClearEmoji c i e) s = remove_all_reactions_emoji s c i e auth"

text \<open>A request writes once, if at all; read states and queues apart.\<close>

definition one_step :: "(db \<Rightarrow> db \<Rightarrow> bool) \<Rightarrow> db \<Rightarrow> db \<Rightarrow> bool" where
  "one_step R d d' \<longleftrightarrow> (\<exists>e. (e = d \<or> R d e) \<and> quiet e d')"

fun message_step :: "AuthUser \<Rightarrow> message_request \<Rightarrow> db \<Rightarrow> db \<Rightarrow> bool" where
  "message_step auth (Post st permit c input) = post_step auth c (st_id st) (st_ms st)"
| "message_step auth r = edit_step auth"

lemma one_step_quiet [simp]: "quiet d d' \<Longrightarrow> one_step R d d'"
  by (auto simp: one_step_def)

lemma one_step_step: "R d d' \<Longrightarrow> one_step R d d'"
  unfolding one_step_def using quiet_refl by blast

lemma one_step_then_quiet: "one_step R d d' \<Longrightarrow> quiet d' d'' \<Longrightarrow> one_step R d d''"
  unfolding one_step_def by (blast intro: quiet_trans)

lemma message_step_wf: "message_step auth r d d' \<Longrightarrow> messages_wf d \<Longrightarrow> messages_wf d'"
  by (cases r) (auto intro: edit_step_wf post_step_wf)

lemma one_step_wf: "one_step (message_step auth r) d d' \<Longrightarrow> messages_wf d \<Longrightarrow> messages_wf d'"
  by (auto simp: one_step_def intro: quiet_wf message_step_wf)

section \<open>The handlers make one step\<close>

lemma allowed_inI: "require_channel_permission d c auth p = Inr r \<Longrightarrow> allowed_in d c auth p"
  by (simp add: allowed_in_def)

text \<open>A check, a write, and an announcement that writes nothing but queues.\<close>

lemma one_step_try_in:
  assumes "\<And>x. m = Inr x \<Longrightarrow> one_step R (ap_db s) (ap_db (fst (k x)))"
  shows "one_step R (ap_db s) (ap_db (fst (try_in s m k)))"
  using assms by (cases m) auto

lemma one_step_commit:
  assumes "one_step R (ap_db s) (fst (f (ap_db s)))"
    and "\<And>t x. quiet (ap_db t) (ap_db (fst (k t x)))"
  shows "one_step R (ap_db s) (ap_db (fst (try_run (on_db f s) k)))"
proof (cases "snd (f (ap_db s))")
  case (Inl e)
  with assms(1) show ?thesis by (simp add: try_run_def on_db_def Let_def)
next
  case (Inr x)
  let ?t = "s\<lparr>ap_db := fst (f (ap_db s))\<rparr>"
  have "quiet (fst (f (ap_db s))) (ap_db (fst (k ?t x)))" using assms(2) [of ?t x] by simp
  with Inr assms(1) show ?thesis
    by (auto simp: try_run_def on_db_def Let_def intro: one_step_then_quiet)
qed

lemma quiet_try_in:
  "(\<And>x. m = Inr x \<Longrightarrow> quiet (ap_db s) (ap_db (fst (k x)))) \<Longrightarrow> quiet (ap_db s) (ap_db (fst (try_in s m k)))"
  by (cases m) auto

lemma enqueue_quiet: "quiet (ap_db t) (ap_db (fst (enqueue e targets t)))"
proof (cases "db_ok (ap_db t)")
  case True
  have "quiet (ap_db t) (fst (enqueue_targets dm e [] targets (ap_db t)))" for dm
    using enqueue_targets_appends [OF True, of dm e "[]" targets] by fastforce
  then show ?thesis by (simp add: enqueue_def on_db_def Let_def split: option.split)
next
  case False
  then have "fst (enqueue_targets dm e seen targets (ap_db t)) = ap_db t" for dm seen
    by (induction targets arbitrary: seen) (auto simp: outbox_enqueue_def try_run_def)
  then show ?thesis by (simp add: enqueue_def on_db_def Let_def split: option.split)
qed

lemma fanout_quiet: "quiet (ap_db t) (ap_db (fst (fanout_to_space sp ty payload t)))"
  unfolding fanout_to_space_def fanout_to_targets_def
  by (auto intro!: quiet_try_in enqueue_quiet split: option.split)

lemma fanout_quietly_quiet: "quiet (ap_db t) (ap_db (fanout_quietly sp ty payload t))"
  unfolding fanout_quietly_def by (auto intro!: fanout_quiet split: option.split)

lemma fanout_message_quiet: "quiet (ap_db t) (ap_db (fst (fanout_message_create m t)))"
  unfolding fanout_message_create_def by (auto intro!: quiet_try_in fanout_quiet split: option.split)

lemma fanout_conversation_quiet: "quiet (ap_db t) (ap_db (fanout_conversation ch m auth t))"
  unfolding fanout_conversation_def fanout_dm_message_def
  by (auto intro!: quiet_try_in enqueue_quiet split: option.split sum.split bool.split)


section \<open>Posting\<close>

lemma upsert_quiet: "quiet d (fst (upsert_read_state u c new f d))"
  by (simp add: upsert_read_state_def Let_def execute_checked_def split: option.split)

lemma mention_counts_quiet: "quiet (ap_db t) (ap_db (apply_mention_counts m t))"
proof -
  have "quiet d (fold (count_mention m) us d)" for us and d :: db
  proof (induction us arbitrary: d)
    case (Cons u us)
    have "quiet d (count_mention m u d)" by (simp add: count_mention_def increment_mention_count_def upsert_quiet)
    with Cons.IH [of "count_mention m u d"] show ?case by (simp add: quiet_trans)
  qed simp
  then show ?thesis by (simp add: apply_mention_counts_def)
qed

lemma announce_parent_db [simp]: "ap_db (announce_parent tid sp t) = ap_db t"
  by (simp add: announce_parent_def Let_def split: option.split sum.split)

lemma spawn_unfurl_db [simp]: "ap_db (spawn_unfurl permit input m sp t) = ap_db t"
  by (simp add: spawn_unfurl_def)

lemma announce_message_quiet: "quiet (ap_db t) (ap_db (fst (announce_message permit ch auth input m t)))"
proof -
  let ?t1 = "apply_mention_counts m t"
  let ?t2 = "announce_parent (cm_thread_id input) (ch_space_id ch)
    (send (message_event ''message.create'' (ch_space_id ch)
      (if in_conversation ch then Some (or_default (list_participant_ids (ap_db ?t1) (ch_id ch))) else None)
      (message_row_to_json_with_attachments m [])) ?t1)"
  have "quiet (ap_db t) (ap_db ?t2)" by (simp add: mention_counts_quiet)
  also have "quiet (ap_db ?t2) (ap_db (fst (fanout_message_create m ?t2)))" by (rule fanout_message_quiet)
  also have "quiet (ap_db (fst (fanout_message_create m ?t2)))
      (ap_db (fanout_conversation ch m auth (fst (fanout_message_create m ?t2))))"
    by (rule fanout_conversation_quiet)
  finally show ?thesis by (simp add: announce_message_def Let_def)
qed

lemma find_append_new: "find P xs = None \<Longrightarrow> P x \<Longrightarrow> find P (xs @ [x]) = Some x"
  by (induction xs) (auto split: if_splits)

lemma message_violation_cooldown [simp]:
  "message_violation m (d\<lparr>message_cooldowns := w\<rparr>) = message_violation m d"
  by (simp add: message_violation_def refs_message_def primary_key_violation_def foreign_key_violation_def
      cong: option.case_cong)

lemma new_message_columns [simp]:
  "ms_id (new_message st c a sp input us) = st_id st" "ms_channel_id (new_message st c a sp input us) = c"
  "ms_author_id (new_message st c a sp input us) = a"
  "ms_thread_id (new_message st c a sp input us) = cm_thread_id input"
  "ms_reply_to (new_message st c a sp input us) = cm_reply_to input"
  "ms_content (new_message st c a sp input us) = cm_content input"
  "ms_mentions (new_message st c a sp input us) = JsonStrings us"
  "ms_space_id (new_message st c a sp input us) = sp"
  by (simp_all add: new_message_def)

text \<open>The transaction writes everything or nothing.\<close>

lemma db_create_message_cases:
  assumes "db_ok d"
  obtains e where "db_create_message st c a sp input cd d = (d, Inl e)"
      "(\<exists>v. e = from_sqlx v) \<or> (\<exists>prev. last_sent d c a = Some prev \<and> 0 < cd \<and> st_ms st - cd < prev \<and>
         e = RateLimited (retry_after_secs prev cd (st_ms st)))"
  | m where "m = new_message st c a sp input (message_mentions d sp (cm_content input))"
      "db_create_message st c a sp input cd d = (with_post m (st_ms st) d, Inr m)" "message_violation m d = None"
      "case last_sent d c a of None \<Rightarrow> True | Some prev \<Rightarrow> cd \<le> 0 \<or> prev \<le> st_ms st - cd"
proof -
  let ?m = "new_message st c a sp input (message_mentions d sp (cm_content input))"
  let ?w = "AList.update (c, a) (st_ms st) (message_cooldowns d)"
  let ?admitted = "case last_sent d c a of None \<Rightarrow> True | Some prev \<Rightarrow> max cd 0 = 0 \<or> prev \<le> st_ms st - max cd 0"
  have admitted: "?admitted \<longleftrightarrow> (case last_sent d c a of None \<Rightarrow> True | Some prev \<Rightarrow> cd \<le> 0 \<or> prev \<le> st_ms st - cd)"
    by (auto split: option.split)
  have slot: "(\<exists>v. reserve_slot c a (st_ms st) (max cd 0) d = (d, Inl (from_sqlx v))) \<or>
     (?admitted \<and> reserve_slot c a (st_ms st) (max cd 0) d = (d\<lparr>message_cooldowns := ?w\<rparr>, Inr True)) \<or>
     (\<not> ?admitted \<and> reserve_slot c a (st_ms st) (max cd 0) d = (d, Inr False))"
    using assms by (auto simp: reserve_slot_def execute_checked_def Let_def split: option.split)
  show ?thesis
  proof (cases "?admitted \<and> reserve_slot c a (st_ms st) (max cd 0) d = (d\<lparr>message_cooldowns := ?w\<rparr>, Inr True)")
    case False
    with slot consider v where "reserve_slot c a (st_ms st) (max cd 0) d = (d, Inl (from_sqlx v))"
      | "\<not> ?admitted" "reserve_slot c a (st_ms st) (max cd 0) d = (d, Inr False)" by blast
    then show ?thesis
    proof cases
      case 1
      then have "db_create_message st c a sp input cd d = (d, Inl (from_sqlx v))"
        by (simp add: db_create_message_def transaction_def Let_def)
      then show ?thesis by (rule that(1)) blast
    next
      case 2
      then obtain prev where "last_sent d c a = Some prev" "0 < cd" "st_ms st - cd < prev"
        by (auto split: option.splits simp: max_def split: if_splits)
      with 2 show ?thesis
        by (intro that(1) [of "RateLimited (retry_after_secs prev cd (st_ms st))"])
          (simp_all add: db_create_message_def transaction_def Let_def max_def)
    qed
  next
    case True
    then have res: "reserve_slot c a (st_ms st) (max cd 0) d = (d\<lparr>message_cooldowns := ?w\<rparr>, Inr True)" by simp
    show ?thesis
    proof (cases "message_violation ?m d")
      case (Some v)
      with res assms have "db_create_message st c a sp input cd d = (d, Inl (from_sqlx v))"
        by (simp add: db_create_message_def transaction_def Let_def insert_message_def execute_checked_def)
      then show ?thesis by (rule that(1)) blast
    next
      case None
      then have new: "find (\<lambda>m. ms_id m = st_id st) (messages d) = None"
        by (auto simp: find_None_iff message_violation_def list_ex_iff split: if_splits)
      have "find (\<lambda>m. ms_id m = st_id st) (messages d @ [?m]) = Some ?m"
        using new find_append_new [of "\<lambda>m. ms_id m = st_id st" "messages d" ?m] by simp
      then have "db_create_message st c a sp input cd d = (with_post ?m (st_ms st) d, Inr ?m)"
        using res assms None
        by (simp add: db_create_message_def transaction_def Let_def insert_message_def execute_checked_def
            bump_channel_def set_channel_def with_post_def get_message_row_def split: if_split)
      with None True admitted that(2) show ?thesis by blast
    qed
  qed
qed

lemma db_ok_after_query: "query d x = Inr y \<Longrightarrow> db_ok d"
  by simp

lemma get_channel_row_ok: "get_channel_row d c = Inr ch \<Longrightarrow> db_ok d"
  by (simp add: get_channel_row_def)

lemma create_checks_ok:
  assumes "create_checks chr d c auth input = Inr ch"
  shows "allowed_in d c auth ''send_messages'' \<and> get_channel_row d c = Inr ch \<and> length (cm_content input) \<le> 4000"
  using assms by (auto simp: create_checks_def require_speaking_def split: if_splits intro: allowed_inI)

lemma create_message_step:
  "one_step (post_step auth c (st_id st) (st_ms st)) (ap_db s) (ap_db (fst (create_message chr hs permit st s c auth input)))"
  unfolding create_message_def
proof (intro one_step_try_in, goal_cases)
  case (1 ch forwarded)
  then have may: "allowed_in (ap_db s) c auth ''send_messages''" and ch: "get_channel_row (ap_db s) c = Inr ch"
    by (auto dest: create_checks_ok)
  then have db: "db_ok (ap_db s)" and id: "ch_id ch = c" by (auto dest: get_channel_row_Inr)
  show ?case
  proof (cases forwarded)
    case (Some j)
    then show ?thesis by simp
  next
    case None
    have "one_step (post_step auth c (st_id st) (st_ms st)) (ap_db s) (fst (db_create_message st c (au_user_id auth) (ch_space_id ch) input cd (ap_db s)))"
      if cd: "slowmode_cooldown_ms (ap_db s) ch auth = Inr cd" for cd
    proof (rule db_create_message_cases [OF db, of st c "au_user_id auth" "ch_space_id ch" input cd], goal_cases)
      case (2 m)
      then have "slot_open (ap_db s) ch auth (st_ms st)" by (simp add: slot_open_def cd id)
      with 2 may ch show ?case by (auto intro!: one_step_step post_step.post)
    qed simp
    then show ?thesis
      unfolding None option.case
      by (intro one_step_try_in one_step_commit)
        (simp_all add: case_prod_beta Let_def announce_message_quiet)
  qed
qed

section \<open>Editing, deleting, pinning\<close>

lemma message_in_Inr: "message_in d c i = Inr m \<longleftrightarrow> get_message_row d i = Inr m \<and> ms_channel_id m = c"
  by (auto simp: message_in_def split: if_splits)

lemma require_author_alter:
  "require_author d c auth m = Inr () \<Longrightarrow> ms_channel_id m = c \<Longrightarrow> may_alter d auth m"
  by (auto simp: require_author_def may_alter_def split: if_splits intro: allowed_inI)

lemma set_message_twice:
  "(\<And>m. ms_id (g m) = ms_id m) \<Longrightarrow> set_message i f (set_message i g d) = set_message i (\<lambda>m. f (g m)) d"
  by (simp add: set_message_def comp_def if_distrib cong: if_cong)

lemma set_message_id [simp]: "set_message i (\<lambda>m. m) d = d"
  by (simp add: set_message_def)

text \<open>The body an edit leaves.\<close>

definition edited :: "string \<Rightarrow> UpdateMessage \<Rightarrow> MessageRow \<Rightarrow> MessageRow" where
  "edited now input m =
     m\<lparr>ms_content := (case ue_content input of Some x \<Rightarrow> x | None \<Rightarrow> ms_content m),
       ms_embeds := (case ue_embeds input of Some x \<Rightarrow> Some x | None \<Rightarrow> ms_embeds m),
       ms_title := (case ue_title input of Some x \<Rightarrow> Some x | None \<Rightarrow> ms_title m),
       ms_edited_at := (if ue_content input = None \<and> ue_embeds input = None \<and> ue_title input = None
                        then ms_edited_at m else Some now)\<rparr>"

lemma edited_body_only: "body_only (edited now input)"
  unfolding body_only_def edited_def by blast

lemma set_message_ok [simp]: "db_ok (set_message i f d) = db_ok d"
  by (simp add: set_message_def)

lemma edited_cases:
  "edited now \<lparr>ue_content = x, ue_embeds = y, ue_title = z\<rparr> =
     (case z of None \<Rightarrow> id | Some x \<Rightarrow> (\<lambda>m. m\<lparr>ms_title := Some x, ms_edited_at := Some now\<rparr>)) \<circ>
     (case y of None \<Rightarrow> id | Some x \<Rightarrow> (\<lambda>m. m\<lparr>ms_embeds := Some x, ms_edited_at := Some now\<rparr>)) \<circ>
     (case x of None \<Rightarrow> id | Some x \<Rightarrow> (\<lambda>m. m\<lparr>ms_content := x, ms_edited_at := Some now\<rparr>))"
  by (rule ext, rule MessageRow.equality) (simp_all add: edited_def split: option.split)

lemma db_update_message_eq:
  "db_ok d \<Longrightarrow> db_update_message now i input d =
     (set_message i (edited now input) d, get_message_row (set_message i (edited now input) d) i)"
  by (cases input; cases "ue_content input"; cases "ue_embeds input"; cases "ue_title input")
    (simp_all add: db_update_message_def edit_column_def set_message_twice edited_cases comp_def)

lemma get_message_row_ok: "get_message_row d i = Inr m \<Longrightarrow> db_ok d"
  by (simp add: get_message_row_def)

lemma announced_quiet: "quiet (ap_db t) (ap_db (fanout_quietly sp ty payload (send b t)))"
  using fanout_quietly_quiet [of "send b t"] by simp

lemma update_message_step:
  "one_step (edit_step auth) (ap_db s) (ap_db (fst (update_message hs now s c i auth input)))"
  unfolding update_message_def
proof (intro one_step_try_in, goal_cases)
  case (1 sp m home)
  then have m: "get_message_row (ap_db s) i = Inr m" "ms_channel_id m = c" by (simp_all add: message_in_Inr)
  show ?case
  proof (cases home)
    case (Some h)
    then show ?thesis by (auto intro!: one_step_try_in)
  next
    case None
    have "one_step (edit_step auth) (ap_db s) (fst (db_update_message now i input (ap_db s)))"
      if "require_author (ap_db s) c auth m = Inr ()"
      using edit_step.edit [OF m(1) require_author_alter [OF that m(2)] edited_body_only [of now input]]
      by (simp add: db_update_message_eq get_message_row_ok [OF m(1)] one_step_step)
    then show ?thesis
      unfolding None option.case
      by (intro one_step_try_in)
        (auto intro!: one_step_commit quiet_try_in announced_quiet simp: Let_def)
  qed
qed

lemma delete_message_step: "one_step (edit_step auth) (ap_db s) (ap_db (fst (delete_message hs s c i auth)))"
  unfolding delete_message_def
proof (intro one_step_try_in, goal_cases)
  case (1 m home)
  then have m: "get_message_row (ap_db s) i = Inr m" "ms_channel_id m = c" by (simp_all add: message_in_Inr)
  show ?case
  proof (cases home)
    case (Some h)
    then show ?thesis by (auto intro!: one_step_try_in)
  next
    case None
    have "one_step (edit_step auth) (ap_db s) (fst (db_delete_message i (ap_db s)))"
      if "require_author (ap_db s) c auth m = Inr ()"
      using edit_step.delete [OF m(1) require_author_alter [OF that m(2)]]
      by (simp add: db_delete_message_def get_message_row_ok [OF m(1)] one_step_step)
    then show ?thesis
      unfolding None option.case
      by (intro one_step_try_in) (auto intro!: one_step_commit quiet_try_in announced_quiet)
  qed
qed

lemma require_channel_permission_ok: "require_channel_permission d c auth p = Inr r \<Longrightarrow> db_ok d"
  by (auto simp: require_channel_permission_def get_channel_row_def)

lemma db_bulk_delete_eq:
  "db_ok d \<Longrightarrow> db_bulk_delete_messages c is d = (purge c is d, Inr ())"
  by (induction "is" arbitrary: d) (simp_all add: purge_def)

lemma on_db_step:
  "one_step R (ap_db s) (fst (f (ap_db s))) \<Longrightarrow> one_step R (ap_db s) (ap_db (fst (on_db f s)))"
  by (simp add: on_db_def Let_def)

lemma bulk_delete_step: "one_step (edit_step auth) (ap_db s) (ap_db (fst (bulk_delete_messages s c auth is)))"
  unfolding bulk_delete_messages_def
proof (rule one_step_try_in)
  fix r assume r: "require_channel_permission (ap_db s) c auth ''manage_messages'' = Inr r"
  from edit_step.purge [OF allowed_inI [OF r]]
  have "one_step (edit_step auth) (ap_db s) (fst (db_bulk_delete_messages c is (ap_db s)))"
    by (simp add: db_bulk_delete_eq require_channel_permission_ok [OF r] one_step_step)
  then show "one_step (edit_step auth) (ap_db s) (ap_db (fst (if length is > 100
      then (s, Inl (BadRequest ''cannot bulk delete more than 100 messages''))
      else on_db (db_bulk_delete_messages c is) s)))"
    by (simp add: on_db_step)
qed

lemma pin_message_step: "one_step (edit_step auth) (ap_db s) (ap_db (fst (pin_message now s c i auth)))"
  unfolding pin_message_def
proof (intro one_step_try_in on_db_step)
  let ?d = "ap_db s"
  let ?p = "\<lparr>pi_channel_id = c, pi_message_id = i, pi_pinned_at = now\<rparr>"
  let ?pinned = "list_ex (\<lambda>p. pi_channel_id p = c \<and> pi_message_id p = i) (pinned_messages ?d)"
  let ?there = "list_ex (\<lambda>c'. ch_id c' = c) (channels ?d) \<and> list_ex (\<lambda>m. ms_id m = i) (messages ?d)"
  fix r assume r: "require_channel_permission ?d c auth ''manage_messages'' = Inr r"
  note db = require_channel_permission_ok [OF r]
  consider "?pinned" | "\<not> ?pinned" "?there" | "\<not> ?pinned" "\<not> ?there" by blast
  then show "one_step (edit_step auth) ?d (fst (db_pin_message now c i ?d))"
  proof cases
    case 1
    then have "fst (db_pin_message now c i ?d) = set_pinned i True ?d"
      using db by (simp add: db_pin_message_def Let_def execute_checked_def set_pinned_def)
    then show ?thesis
      by (simp add: one_step_step edit_step.pin_again [OF allowed_inI [OF r]])
  next
    case 2
    then have "fst (db_pin_message now c i ?d) = set_pinned i True (?d\<lparr>pinned_messages := pinned_messages ?d @ [?p]\<rparr>)"
      using db by (simp add: db_pin_message_def Let_def execute_checked_def set_pinned_def)
    moreover have "i \<in> ms_id ` set (messages ?d)" "\<not> list_ex (is_pin c i) (pinned_messages ?d)"
      using 2 by (auto simp: list_ex_iff is_pin_def)
    ultimately show ?thesis
      by (simp add: one_step_step edit_step.pin [OF allowed_inI [OF r]])
  next
    case 3
    then have "fst (db_pin_message now c i ?d) = ?d"
      using db by (auto simp: db_pin_message_def Let_def execute_checked_def)
    then show ?thesis by simp
  qed
qed

lemma unpin_message_step: "one_step (edit_step auth) (ap_db s) (ap_db (fst (unpin_message s c i auth)))"
  unfolding unpin_message_def
proof (intro one_step_try_in on_db_step)
  fix r assume r: "require_channel_permission (ap_db s) c auth ''manage_messages'' = Inr r"
  have "fst (db_unpin_message c i (ap_db s)) = set_pinned i False
      ((ap_db s)\<lparr>pinned_messages := filter (\<lambda>p. \<not> is_pin c i p) (pinned_messages (ap_db s))\<rparr>)"
    using require_channel_permission_ok [OF r] by (simp add: db_unpin_message_def set_pinned_def is_pin_def)
  then show "one_step (edit_step auth) (ap_db s) (fst (db_unpin_message c i (ap_db s)))"
    by (simp add: one_step_step edit_step.unpin [OF allowed_inI [OF r]])
qed

lemma typing_step: "one_step (edit_step auth) (ap_db s) (ap_db (fst (typing_indicator chr hs s c auth thread)))"
  unfolding typing_indicator_def
  by (auto intro!: one_step_quiet quiet_try_in announced_quiet simp: Let_def split: option.split)

section \<open>Reactions\<close>

lemma reacting_step:
  assumes "allowed_in (ap_db s) c auth ''add_reactions''" "db_ok (ap_db s)"
  shows "one_step (edit_step auth) (ap_db s) (fst (db_add_reaction now i (au_user_id auth) e (ap_db s)))"
proof -
  let ?d = "ap_db s"
  let ?r = "\<lparr>re_message_id = i, re_user_id = au_user_id auth, re_emoji_name = e, re_created_at = now\<rparr>"
  let ?present = "list_ex (has_reaction i (au_user_id auth) e) (reactions ?d)"
  let ?there = "list_ex (\<lambda>m. ms_id m = i) (messages ?d) \<and> list_ex (\<lambda>u. us_id u = au_user_id auth) (users ?d)"
  consider "?present \<or> \<not> ?there" | "\<not> ?present" "?there" by blast
  then show ?thesis
  proof cases
    case 1
    then have "fst (db_add_reaction now i (au_user_id auth) e ?d) = ?d"
      by (auto simp: db_add_reaction_def Let_def execute_checked_def)
    then show ?thesis by simp
  next
    case 2
    then have "fst (db_add_reaction now i (au_user_id auth) e ?d) = ?d\<lparr>reactions := reactions ?d @ [?r]\<rparr>"
      using assms(2) by (simp add: db_add_reaction_def Let_def execute_checked_def)
    moreover have "i \<in> ms_id ` set (messages ?d)" using 2 by (auto simp: list_ex_iff)
    ultimately show ?thesis
      using edit_step.react [OF assms(1), of ?r] 2 by (simp add: one_step_step)
  qed
qed

lemma own_reaction_step:
  assumes "one_step (edit_step auth) (ap_db s) (fst (write (ap_db s)))"
  shows "one_step (edit_step auth) (ap_db s) (ap_db (fst (own_reaction hs remove write s sp c i e auth)))"
  unfolding own_reaction_def
  by (auto intro!: one_step_try_in one_step_commit announced_quiet assms split: option.split)

lemma add_reaction_step: "one_step (edit_step auth) (ap_db s) (ap_db (fst (add_reaction chr hs now s c i e auth)))"
  unfolding add_reaction_def
proof (rule one_step_try_in)
  fix sp assume "require_speaking chr (ap_db s) c auth ''add_reactions'' = Inr sp"
  then obtain r where r: "require_channel_permission (ap_db s) c auth ''add_reactions'' = Inr r"
    by (auto simp: require_speaking_def)
  show "one_step (edit_step auth) (ap_db s)
      (ap_db (fst (own_reaction hs False (db_add_reaction now i (au_user_id auth) e) s sp c i e auth)))"
    by (rule own_reaction_step)
      (rule reacting_step [OF allowed_inI [OF r] require_channel_permission_ok [OF r]])
qed

lemma delete_reactions_step:
  assumes "(\<forall>r. P r \<longrightarrow> re_user_id r = au_user_id auth) \<or> (\<exists>c. allowed_in d c auth ''manage_messages'')"
  shows "one_step (edit_step auth) d (fst (delete_reactions P d))"
  using edit_step.unreact [OF assms] by (auto simp: delete_reactions_def execute_def one_step_step)

lemma remove_own_reaction_step: "one_step (edit_step auth) (ap_db s) (ap_db (fst (remove_own_reaction hs s c i e auth)))"
  unfolding remove_own_reaction_def
  by (intro one_step_try_in own_reaction_step)
    (auto simp: db_remove_reaction_def has_reaction_def intro!: delete_reactions_step)

lemma moderate_reactions_step:
  "one_step (edit_step auth) (ap_db s) (ap_db (fst (moderate_reactions P ty pairs s c auth)))"
  unfolding moderate_reactions_def
  by (intro one_step_try_in one_step_commit delete_reactions_step) (auto dest: allowed_inI)

lemma result_fst [simp]: "fst (result p) = fst p"
  by (simp add: result_def)

lemmas message_handler_steps = create_message_step update_message_step delete_message_step bulk_delete_step
  pin_message_step unpin_message_step typing_step add_reaction_step remove_own_reaction_step moderate_reactions_step

lemma handle_message_step: "one_step (message_step auth r) (ap_db s) (ap_db (fst (handle_message chr hs auth r s)))"
  by (cases r)
    (simp_all add: message_handler_steps remove_user_reaction_def remove_all_reactions_def
      remove_all_reactions_emoji_def)


text \<open>C14.  The handlers implement the specification: whatever a request of messages or reactions does to the
  database, it is at most one step of \<open>post_step\<close> (posting, for a post: the channel allows it, the slow mode
  lets it, the row breaks no constraint) or \<open>edit_step\<close> (the other requests: each kind of write with the
  authorship or permission it needs), and beyond that only read states and the outbox of the federation.\<close>

theorem messages_refine: "one_step (message_step auth r) (ap_db s) (ap_db (fst (handle_message chr hs auth r s)))"
  by (rule handle_message_step)

section \<open>Sequences of requests\<close>

definition handle_all :: "chrono \<Rightarrow> home_server \<Rightarrow> (AuthUser \<times> message_request) list \<Rightarrow> app \<Rightarrow> app" where
  "handle_all chr hs reqs s = foldl (\<lambda>s (auth, r). fst (handle_message chr hs auth r s)) s reqs"

lemma handle_all_wf: "messages_wf (ap_db s) \<Longrightarrow> messages_wf (ap_db (handle_all chr hs reqs s))"
proof (induction reqs arbitrary: s)
  case (Cons x reqs)
  have "messages_wf (ap_db (fst (handle_message chr hs (fst x) (snd x) s)))"
    using one_step_wf [OF handle_message_step Cons.prems] .
  from Cons.IH [OF this] show ?case by (simp add: handle_all_def case_prod_beta)
qed (simp add: handle_all_def)


section \<open>Nobody else's words\<close>

text \<open>The same message, its pin and a reference to a deleted message apart.\<close>

definition same_words :: "MessageRow \<Rightarrow> MessageRow \<Rightarrow> bool" where
  "same_words m m' \<longleftrightarrow> m'\<lparr>ms_reply_to := ms_reply_to m, ms_pinned := ms_pinned m\<rparr> = m"

lemma same_words_refl [simp]: "same_words m m"
  by (simp add: same_words_def)

lemma same_words_id:
  assumes "same_words m m'"
  shows "ms_id m' = ms_id m"
  using arg_cong [OF assms [unfolded same_words_def], of ms_id] by simp

lemma same_words_trans:
  assumes "same_words m n" and "same_words n p"
  shows "same_words m p"
proof -
  have "p\<lparr>ms_reply_to := ms_reply_to m, ms_pinned := ms_pinned m\<rparr> =
      (p\<lparr>ms_reply_to := ms_reply_to n, ms_pinned := ms_pinned n\<rparr>)\<lparr>ms_reply_to := ms_reply_to m, ms_pinned := ms_pinned m\<rparr>"
    by simp
  with assms show ?thesis by (simp only: same_words_def)
qed

lemma same_words_clear [simp]: "same_words m (clear_reply gone m)"
  by (auto simp: same_words_def clear_reply_def split: option.split)

lemma same_words_pinned [simp]: "same_words m (m\<lparr>ms_pinned := b\<rparr>)"
  by (simp add: same_words_def)

definition hangs_on :: "db \<Rightarrow> MessageRow \<Rightarrow> MessageRow \<Rightarrow> bool" where
  "hangs_on d m r \<longleftrightarrow> (ms_id r, ms_id m) \<in> (thread_edge (messages d))\<^sup>*"

definition survives :: "MessageRow \<Rightarrow> db \<Rightarrow> bool" where
  "survives m d \<longleftrightarrow> (\<exists>m' \<in> set (messages d). same_words m m')"

definition dragged_off :: "db \<Rightarrow> (MessageRow \<Rightarrow> bool) \<Rightarrow> MessageRow \<Rightarrow> bool" where
  "dragged_off d P m \<longleftrightarrow> (\<exists>r \<in> set (messages d). P r \<and> hangs_on d m r)"

lemma survivesI: "m \<in> set (messages d) \<Longrightarrow> survives m d"
  unfolding survives_def by (rule bexI [of _ m]) simp

lemma delete_messages_fate:
  assumes "m \<in> set (messages d)"
  shows "survives m (delete_messages P d) \<or> dragged_off d P m"
proof (cases "ms_id m \<in> taken P d")
  case True
  then show ?thesis by (auto simp: taken_def dragged_off_def hangs_on_def)
next
  case False
  with assms show ?thesis by (auto simp: survives_def delete_messages_rows intro: bexI [of _ m])
qed

lemma deleted_from:
  assumes "r \<in> set (messages (delete_messages P d))"
  obtains n where "n \<in> set (messages d)" "ms_id r = ms_id n" "ms_channel_id r = ms_channel_id n"
    "ms_thread_id r = ms_thread_id n"
  using assms by (auto simp: delete_messages_rows)

lemma thread_edge_shrinks: "thread_edge (messages (delete_messages P d)) \<subseteq> thread_edge (messages d)"
  by (auto simp: thread_edge_def elim!: deleted_from)

lemma purge_fate:
  assumes "m \<in> set (messages d)"
  shows "survives m (purge c is d) \<or> dragged_off d (\<lambda>r. ms_channel_id r = c) m"
  using assms
proof (induction "is" arbitrary: d m)
  case Nil
  then show ?case by (simp add: purge_def survivesI)
next
  case (Cons i "is")
  let ?P = "\<lambda>m. ms_id m = i \<and> ms_channel_id m = c"
  let ?d = "delete_messages ?P d"
  show ?case
  proof (cases "dragged_off d ?P m")
    case True
    then show ?thesis by (auto simp: dragged_off_def)
  next
    case False
    with delete_messages_fate [OF Cons.prems, of ?P] obtain m' where
      m': "m' \<in> set (messages ?d)" "same_words m m'" by (auto simp: survives_def)
    from Cons.IH [OF m'(1)] show ?thesis
    proof
      assume "survives m' (purge c is ?d)"
      with m'(2) show ?thesis
        by (auto simp: survives_def purge_def intro: same_words_trans)
    next
      assume "dragged_off ?d (\<lambda>r. ms_channel_id r = c) m'"
      then obtain r where r: "r \<in> set (messages ?d)" "ms_channel_id r = c"
          and path: "(ms_id r, ms_id m) \<in> (thread_edge (messages ?d))\<^sup>*"
        by (auto simp: dragged_off_def hangs_on_def same_words_id [OF m'(2)])
      from path have "(ms_id r, ms_id m) \<in> (thread_edge (messages d))\<^sup>*"
        using rtrancl_mono [OF thread_edge_shrinks] by blast
      moreover obtain n where "n \<in> set (messages d)" "ms_id r = ms_id n" "ms_channel_id r = ms_channel_id n"
        using r(1) by (rule deleted_from)
      ultimately show ?thesis using r(2) by (auto simp: dragged_off_def hangs_on_def)
    qed
  qed
qed

lemma set_message_fate:
  assumes "m \<in> set (messages d)" and "ms_id m = i \<Longrightarrow> same_words m (f m)"
  shows "survives m (set_message i f d)"
  using assms by (auto simp: survives_def set_message_def intro: same_words_refl)

lemma set_pinned_fate: "m \<in> set (messages d) \<Longrightarrow> survives m (set_pinned i b d)"
  unfolding set_pinned_def by (erule set_message_fate) simp

lemma get_message_row_Inr: "get_message_row d i = Inr m \<Longrightarrow> m \<in> set (messages d) \<and> ms_id m = i"
  by (auto simp: get_message_row_def dest: find_SomeD)

lemma edit_step_fate:
  assumes "edit_step auth d d'" and wf: "messages_wf d" and m: "m \<in> set (messages d)"
    and foreign: "\<not> may_alter d auth m"
  shows "survives m d' \<or> dragged_off d (may_alter d auth) m"
  using assms(1)
proof cases
  case (edit i n f)
  have "n = m" if "ms_id m = i"
    using that get_message_row_Inr [OF edit(2)] m wf by (auto simp: messages_wf_def distinct_map dest: inj_onD)
  with edit foreign m show ?thesis by (auto intro!: set_message_fate)
next
  case (delete i n)
  have "dragged_off d (may_alter d auth) m" if "dragged_off d (\<lambda>m. ms_id m = i) m"
  proof -
    from that obtain r where "r \<in> set (messages d)" "ms_id r = i" "hangs_on d m r" by (auto simp: dragged_off_def)
    with get_message_row_Inr [OF delete(2)] delete(3) show ?thesis
      by (auto simp: dragged_off_def hangs_on_def)
  qed
  with delete_messages_fate [OF m, of "\<lambda>m. ms_id m = i"] show ?thesis unfolding delete by blast
next
  case (purge c "is")
  then have "dragged_off d (\<lambda>r. ms_channel_id r = c) m \<Longrightarrow> dragged_off d (may_alter d auth) m"
    by (auto simp: dragged_off_def may_alter_def)
  with purge_fate [OF m, of c "is"] show ?thesis unfolding purge by blast
qed (use m in \<open>auto intro: survivesI set_pinned_fate\<close>)

lemma message_step_fate:
  assumes "message_step auth r d d'" and "messages_wf d" and "m \<in> set (messages d)" and "\<not> may_alter d auth m"
  shows "survives m d' \<or> dragged_off d (may_alter d auth) m"
  using assms edit_step_fate
  by (cases r) (auto simp: with_post_def elim!: post_step.cases intro: survivesI)


text \<open>C10.  Nobody alters or deletes what another wrote without being allowed to manage the messages of its
  channel: after any request, a message the caller neither wrote nor may manage still says the same
  (content, embeds, title, author, place - only its pin and a reply reference to a deleted message may
  change), unless it hung, directly or through other threads, on a message the caller may alter.\<close>

theorem others_words_protected:
  assumes "messages_wf (ap_db s)" and "m \<in> set (messages (ap_db s))" and "\<not> may_alter (ap_db s) auth m"
  shows "survives m (ap_db (fst (handle_message chr hs auth r s))) \<or>
    (\<exists>n \<in> set (messages (ap_db s)). may_alter (ap_db s) auth n \<and> hangs_on (ap_db s) m n)"
proof -
  from handle_message_step [where auth = auth and s = s and chr = chr and hs = hs and r = r] obtain e where
    e: "e = ap_db s \<or> message_step auth r (ap_db s) e" "quiet e (ap_db (fst (handle_message chr hs auth r s)))"
    by (auto simp: one_step_def)
  from e(1) have "survives m e \<or> dragged_off (ap_db s) (may_alter (ap_db s) auth) m"
    using assms message_step_fate [of auth r "ap_db s" e m] by (auto intro: survivesI)
  then show ?thesis
    by (auto simp: survives_def dragged_off_def quiet_fields(1) [OF e(2)])
qed

section \<open>Refusals\<close>

lemma refused_try_in:
  "try_in s m k = (s', Inl e) \<Longrightarrow> (\<And>x. m = Inr x \<Longrightarrow> k x = (s', Inl e) \<Longrightarrow> s' = s) \<Longrightarrow> s' = s"
  by (cases m) auto

lemma unchanged_db [simp]: "s\<lparr>ap_db := ap_db s\<rparr> = s"
  by simp

lemma refused_commit:
  assumes "try_run (on_db f s) k = (s', Inl e)" and "\<And>e. snd (f (ap_db s)) = Inl e \<Longrightarrow> fst (f (ap_db s)) = ap_db s"
    and "\<And>x e. snd (f (ap_db s)) = Inr x \<Longrightarrow> snd (k (s\<lparr>ap_db := fst (f (ap_db s))\<rparr>) x) \<noteq> Inl e"
  shows "s' = s"
proof (cases "snd (f (ap_db s))")
  case (Inl e')
  with assms(1,2) show ?thesis by (auto simp: try_run_def on_db_def Let_def)
next
  case (Inr x)
  with assms(1) have "k (s\<lparr>ap_db := fst (f (ap_db s))\<rparr>) x = (s', Inl e)"
    by (simp add: try_run_def on_db_def Let_def)
  with assms(3) [OF Inr, of e] show ?thesis by simp
qed

lemma db_create_message_refused:
  assumes "db_ok d" and "snd (db_create_message st c a sp input cd d) = Inl e"
  shows "fst (db_create_message st c a sp input cd d) = d"
  using assms(2) by (rule_tac db_create_message_cases [OF assms(1), of st c a sp input cd]) auto

lemma create_message_refused: "create_message chr hs permit st s c auth input = (s', Inl e) \<Longrightarrow> s' = s"
  unfolding create_message_def
proof (elim refused_try_in, goal_cases)
  case (1 ch forwarded)
  then have db: "db_ok (ap_db s)" by (auto dest: create_checks_ok get_channel_row_ok)
  show ?case
  proof (cases forwarded)
    case None
    show ?thesis
      using 1(3) unfolding None option.case
      by (elim refused_try_in refused_commit)
        (auto simp: case_prod_beta Let_def intro: db_create_message_refused [OF db])
  qed (use 1 in simp)
qed

lemma wf_channel_row:
  assumes "messages_wf d" and "db_ok d" and "m \<in> set (messages d)"
  shows "\<exists>ch. get_channel_row d (ms_channel_id m) = Inr ch"
proof -
  from assms(1,3) obtain c where "c \<in> set (channels d)" "ch_id c = ms_channel_id m"
    by (auto simp: messages_wf_def)
  then have "find (\<lambda>r. ch_id r = ms_channel_id m) (channels d) \<noteq> None" by (auto simp: find_None_iff)
  with assms(2) show ?thesis by (auto simp: get_channel_row_def)
qed

lemma get_channel_row_set_message [simp]: "get_channel_row (set_message i f d) c = get_channel_row d c"
  by (simp add: get_channel_row_def set_message_def query_def)

lemma get_channel_row_deleted [simp]: "get_channel_row (delete_messages P d) c = get_channel_row d c"
  by (simp add: get_channel_row_def query_def)

lemma get_attachments_ok: "db_ok d \<Longrightarrow> \<exists>as. get_attachments_for_message d i = Inr as"
  by (simp add: get_attachments_for_message_def)

lemma get_message_row_edited:
  assumes "get_message_row d i = Inr m" and "\<And>m. ms_id (f m) = ms_id m"
  shows "get_message_row (set_message i f d) i = Inr (f m)"
proof -
  have "find (\<lambda>m. ms_id m = i) (map (\<lambda>m. if ms_id m = i then f m else m) ms) =
      map_option f (find (\<lambda>m. ms_id m = i) ms)" for ms
    by (induction ms) (auto simp: assms(2))
  with assms(1) show ?thesis by (auto simp: get_message_row_def set_message_def)
qed

lemma update_message_refused:
  assumes wf: "messages_wf (ap_db s)" and "update_message hs now s c i auth input = (s', Inl e)"
  shows "s' = s"
  using assms(2) unfolding update_message_def
proof (elim refused_try_in, goal_cases)
  case (1 sp m home)
  then have m: "get_message_row (ap_db s) i = Inr m" "ms_channel_id m = c" by (simp_all add: message_in_Inr)
  note db = get_message_row_ok [OF m(1)]
  obtain ch where ch: "get_channel_row (ap_db s) c = Inr ch"
    using wf_channel_row [OF wf db] get_message_row_Inr [OF m(1)] m(2) by blast
  have row: "get_message_row (set_message i (edited now input) (ap_db s)) i = Inr (edited now input m)"
    by (rule get_message_row_edited [OF m(1)]) (simp add: body_only_keeps [OF edited_body_only])
  obtain as where as: "get_attachments_for_message (set_message i (edited now input) (ap_db s)) i = Inr as"
    using get_attachments_ok [of "set_message i (edited now input) (ap_db s)"] db by auto
  show ?case
  proof (cases home)
    case (Some h)
    then show ?thesis using 1(4) by (auto elim!: refused_try_in)
  next
    case None
    show ?thesis
      using 1(4) unfolding None option.case
      by (elim refused_try_in)
        (auto elim!: refused_commit simp: db_update_message_eq [OF db] row as ch Let_def split: if_splits)
  qed
qed

lemma delete_message_refused:
  assumes wf: "messages_wf (ap_db s)" and "delete_message hs s c i auth = (s', Inl e)"
  shows "s' = s"
  using assms(2) unfolding delete_message_def
proof (elim refused_try_in, goal_cases)
  case (1 m home)
  then have m: "get_message_row (ap_db s) i = Inr m" "ms_channel_id m = c" by (simp_all add: message_in_Inr)
  note db = get_message_row_ok [OF m(1)]
  obtain ch where ch: "get_channel_row (ap_db s) c = Inr ch"
    using wf_channel_row [OF wf db] get_message_row_Inr [OF m(1)] m(2) by blast
  show ?case
  proof (cases home)
    case (Some h)
    then show ?thesis using 1(3) by (auto elim!: refused_try_in)
  next
    case None
    show ?thesis
      using 1(3) unfolding None option.case
      by (elim refused_try_in) (auto elim!: refused_commit simp: db_delete_message_def db ch)
  qed
qed

lemma bulk_delete_refused: "bulk_delete_messages s c auth is = (s', Inl e) \<Longrightarrow> s' = s"
  unfolding bulk_delete_messages_def
  by (elim refused_try_in)
    (auto simp: on_db_def Let_def db_bulk_delete_eq require_channel_permission_ok split: if_splits)

lemma refused_on_db:
  assumes "on_db f s = (s', Inl e)" and "\<And>e. snd (f (ap_db s)) = Inl e \<Longrightarrow> fst (f (ap_db s)) = ap_db s"
  shows "s' = s"
  using assms by (auto simp: on_db_def Let_def)

lemma db_pin_message_refused:
  "db_ok d \<Longrightarrow> snd (db_pin_message now c i d) = Inl e \<Longrightarrow> fst (db_pin_message now c i d) = d"
  by (auto simp: db_pin_message_def Let_def execute_checked_def split: if_splits option.splits)

lemma pins_refused:
  "pin_message now s c i auth = (s', Inl e) \<Longrightarrow> s' = s" "unpin_message s c i auth = (s', Inl e) \<Longrightarrow> s' = s"
  unfolding pin_message_def unpin_message_def
  by (elim refused_try_in refused_on_db,
      auto simp: db_unpin_message_def intro: db_pin_message_refused dest: require_channel_permission_ok)+

lemma typing_refused: "typing_indicator chr hs s c auth thread = (s', Inl e) \<Longrightarrow> s' = s"
  unfolding typing_indicator_def
  by (elim refused_try_in) (auto simp: Let_def elim!: refused_try_in split: option.splits)


lemma execute_checked_refused: "snd (execute_checked d v f) = Inl e \<Longrightarrow> fst (execute_checked d v f) = d"
  by (simp add: execute_checked_def split: if_splits option.splits)

lemma delete_reactions_refused: "snd (delete_reactions P d) = Inl e \<Longrightarrow> fst (delete_reactions P d) = d"
  by (cases "db_ok d") (simp_all add: delete_reactions_def)

lemma own_reaction_refused:
  assumes "own_reaction hs remove write s sp c i e auth = (s', Inl err)"
    and "\<And>e. snd (write (ap_db s)) = Inl e \<Longrightarrow> fst (write (ap_db s)) = ap_db s"
  shows "s' = s"
  using assms(1) unfolding own_reaction_def
  by (elim refused_try_in) (auto elim!: refused_try_in refused_commit intro: assms(2) split: option.splits)

lemma reactions_refused:
  "add_reaction chr hs now s c i e auth = (s', Inl err) \<Longrightarrow> s' = s"
  "remove_own_reaction hs s c i e auth = (s', Inl err) \<Longrightarrow> s' = s"
  "moderate_reactions P ty pairs s c auth = (s', Inl err) \<Longrightarrow> s' = s"
  unfolding add_reaction_def remove_own_reaction_def moderate_reactions_def
  by (elim refused_try_in own_reaction_refused refused_commit,
      auto simp: db_add_reaction_def db_remove_reaction_def Let_def
        intro: execute_checked_refused delete_reactions_refused)+

lemma result_Inl: "result p = (s', Inl e) \<longleftrightarrow> p = (s', Inl e)"
  by (cases p; cases "snd p") (auto simp: result_def)


section \<open>Places nobody checks\<close>

lemma set_message_ids:
  assumes "\<And>m. ms_id (f m) = ms_id m"
  shows "ms_id ` set (messages (set_message i f d)) = ms_id ` set (messages d)"
proof -
  have "map ms_id (messages (set_message i f d)) = map ms_id (messages d)" using assms by (simp add: set_message_def)
  then show ?thesis by (metis list.set_map)
qed

lemma set_message_tables [simp]:
  "pinned_messages (set_message i f d) = pinned_messages d" "reactions (set_message i f d) = reactions d"
  by (simp_all add: set_message_def)

text \<open>The reaction handlers take the channel and the message of the path as they come: whoever may
  manage the messages of any one channel removes all reactions of any message, also of a channel or a
  space they have no access to.\<close>

theorem foreign_reactions_clearable:
  assumes "allowed_in (ap_db s) c auth ''manage_messages''"
  shows "let (s', r) = remove_all_reactions s c i auth in
    r = Inr () \<and> reactions (ap_db s') = filter (\<lambda>r. re_message_id r \<noteq> i) (reactions (ap_db s))"
proof -
  from assms obtain sp where sp: "require_channel_permission (ap_db s) c auth ''manage_messages'' = Inr sp"
    by (auto simp: allowed_in_def is_ok_iff)
  show ?thesis
    using require_channel_permission_ok [OF sp]
    by (simp add: remove_all_reactions_def moderate_reactions_def sp delete_reactions_def on_db_def Let_def)
qed

text \<open>Once a message of a channel is pinned, the list of its pins cannot be read again: the select leaves
  out a column that the row reader insists on, and the handler panics for every caller who may read the
  channel, until the last pin is gone.\<close>

theorem pin_breaks_list_pins:
  assumes "pin_message now s c i auth = (s', Inr ())" and "i \<in> ms_id ` set (messages (ap_db s))"
    and "require_channel_membership (ap_db s') c (au_user_id reader) = Inr sp"
  shows "list_pins (ap_db s') c reader = None"
proof -
  from assms(1) obtain r where r: "require_channel_permission (ap_db s) c auth ''manage_messages'' = Inr r"
      and run: "on_db (db_pin_message now c i) s = (s', Inr ())"
    by (auto simp: pin_message_def try_in_Inr)
  note db = require_channel_permission_ok [OF r]
  from run have d': "ap_db s' = fst (db_pin_message now c i (ap_db s))" "snd (db_pin_message now c i (ap_db s)) = Inr ()"
    by (auto simp: on_db_def Let_def)
  then have pin: "\<exists>p \<in> set (pinned_messages (ap_db s')). pi_channel_id p = c \<and> pi_message_id p = i"
      and "i \<in> ms_id ` set (messages (ap_db s'))" and "db_ok (ap_db s')"
    using db assms(2)
    by (auto simp: db_pin_message_def Let_def execute_checked_def set_message_ids list_ex_iff split: if_splits)
  then have "list_ex (\<lambda>m. ms_id m = i) (messages (ap_db s'))" by (auto simp: list_ex_iff)
  with pin have "filter (\<lambda>p. pi_channel_id p = c \<and> list_ex (\<lambda>m. ms_id m = pi_message_id p) (messages (ap_db s')))
      (pinned_messages (ap_db s')) \<noteq> []"
    by (auto simp: filter_empty_conv)
  with \<open>db_ok (ap_db s')\<close> assms(3) show ?thesis
    by (simp add: list_pins_def list_pinned_messages_def)
qed

section \<open>Concrete requests\<close>

definition a_message :: "string \<Rightarrow> string \<Rightarrow> string \<Rightarrow> string option \<Rightarrow> MessageRow" where
  "a_message i c author tid = \<lparr>ms_id = i, ms_channel_id = c, ms_space_id = Some ''s'', ms_author_id = author,
     ms_content = i, ms_type = ''default'', ms_created_at = i, ms_edited_at = None, ms_tts = False,
     ms_pinned = False, ms_mention_everyone = False, ms_mentions = JsonStrings [], ms_mention_roles = JsonStrings [],
     ms_embeds = Some [], ms_reply_to = None, ms_flags = 0, ms_webhook_id = None, ms_thread_id = tid,
     ms_title = None, ms_origin = None\<rparr>"

text \<open>A message of \<open>mem\<close>, and one of \<open>pat\<close> in its thread.\<close>

definition a_chat :: app where
  "a_chat = an_app\<lparr>ap_db := a_db\<lparr>messages := [a_message ''1'' ''c'' ''mem'' None,
     a_message ''2'' ''c'' ''pat'' (Some ''1'')],
     reactions := [\<lparr>re_message_id = ''1'', re_user_id = ''own'', re_emoji_name = ''x'', re_created_at = []\<rparr>]\<rparr>\<rparr>"

definition no_home :: home_server where
  "no_home = \<lparr>forward_message = (\<lambda>_ _ _ _ _. Inl (BadRequest ''none'')),
     forward_dm_message = (\<lambda>_ _ _ _ _. Inl (BadRequest ''none'')), forward_edit = (\<lambda>_ _ _ _. Inl (BadRequest ''none'')),
     forward_delete = (\<lambda>_ _ _. Inl (BadRequest ''none'')),
     forward_reaction = (\<lambda>_ _ _ _ _ _. Inl (BadRequest ''none''))\<rparr>"

lemma a_chat_wf: "messages_wf (ap_db a_chat)"
  by (simp add: messages_wf_def refs_message_def a_chat_def a_message_def an_app_def sample_defs)

lemma pat_alters_not: "\<not> may_alter (ap_db a_chat) (plain_user ''pat'') (a_message ''1'' ''c'' ''mem'' None)"
  by code_simp

lemma own_manages: "allowed_in (ap_db a_chat) ''c'' (plain_user ''own'') ''manage_messages''"
  by code_simp



theorem others_words_protected_witness:
  "survives (a_message ''1'' ''c'' ''mem'' None)
     (ap_db (fst (handle_message a_chrono no_home (plain_user ''pat'') (Remove ''c'' ''1'') a_chat))) \<or>
   (\<exists>n \<in> set (messages (ap_db a_chat)). may_alter (ap_db a_chat) (plain_user ''pat'') n \<and>
      hangs_on (ap_db a_chat) (a_message ''1'' ''c'' ''mem'' None) n)"
  by (rule others_words_protected [OF a_chat_wf _ pat_alters_not]) (simp add: a_chat_def)


theorem foreign_reactions_clearable_witness:
  "let (s', r) = remove_all_reactions a_chat ''c'' ''1'' (plain_user ''own'') in
    r = Inr () \<and> reactions (ap_db s') = filter (\<lambda>r. re_message_id r \<noteq> ''1'') (reactions (ap_db a_chat))"
  by (rule foreign_reactions_clearable) (rule own_manages)

theorem pin_breaks_list_pins_witness:
  "list_pins (ap_db (fst (pin_message [] a_chat ''c'' ''1'' (plain_user ''own'')))) ''c'' (plain_user ''mem'') = None"
proof -
  let ?p = "pin_message [] a_chat ''c'' ''1'' (plain_user ''own'')"
  have "snd ?p = Inr ()" by code_simp
  then have run: "?p = (fst ?p, Inr ())" by (metis prod.collapse)
  have there: "''1'' \<in> ms_id ` set (messages (ap_db a_chat))" by (simp add: a_chat_def a_message_def)
  have "is_ok (require_channel_membership (ap_db (fst ?p)) ''c'' (au_user_id (plain_user ''mem'')))" by code_simp
  then obtain sp where "require_channel_membership (ap_db (fst ?p)) ''c'' (au_user_id (plain_user ''mem'')) = Inr sp"
    by (auto simp: is_ok_iff)
  with run there show ?thesis by (rule pin_breaks_list_pins)
qed

end
