(* ===== verification/MessageDelivery.thy ===== *)
theory MessageDelivery
  imports Gateway MessageSafety
begin

text \<open>
  The handlers of messages and reactions together with the gateway: what \<open>routes/messages.rs\<close> and
  \<open>routes/reactions.rs\<close> broadcast, and whom \<open>classify_broadcast\<close> of \<open>gateway/mod.rs\<close> delivers it to.
\<close>

section \<open>What a handler broadcasts\<close>

text \<open>An event that names the channel it is about, and its author's history where it is a message.\<close>

definition names_channel :: "GatewayBroadcast \<Rightarrow> bool" where
  "names_channel b \<longleftrightarrow> event_channel (gb_event b) \<noteq> None"

definition broadcasts :: "app \<Rightarrow> app \<Rightarrow> bool" where
  "broadcasts s t \<longleftrightarrow> (\<exists>bs. outbox t = outbox s @ bs \<and> list_all names_channel bs)"

lemma broadcasts_none: "outbox t = outbox s \<Longrightarrow> broadcasts s t"
  by (simp add: broadcasts_def)

lemma broadcasts_refl [simp]: "broadcasts s s"
  by (rule broadcasts_none) simp

lemma broadcasts_trans [trans]: "broadcasts s t \<Longrightarrow> broadcasts t u \<Longrightarrow> broadcasts s u"
  by (auto simp: broadcasts_def)

lemma broadcasts_send: "names_channel b \<Longrightarrow> broadcasts s (send b s)"
  by (simp add: broadcasts_def)

lemma on_db_outbox [simp]: "outbox (fst (on_db f s)) = outbox s"
  by (simp add: on_db_def Let_def)

lemma broadcasts_try_in:
  "(\<And>x. m = Inr x \<Longrightarrow> broadcasts s (fst (k x))) \<Longrightarrow> broadcasts s (fst (try_in s m k))"
  by (cases m) auto

lemma broadcasts_try_run:
  assumes "broadcasts s (fst p)" and "\<And>t x. broadcasts t (fst (k t x))"
  shows "broadcasts s (fst (try_run p k))"
  using assms by (auto simp: try_run_def split: sum.split intro: broadcasts_trans)

lemma broadcasts_commit:
  "(\<And>t x. broadcasts t (fst (k t x))) \<Longrightarrow> broadcasts s (fst (try_run (on_db f s) k))"
  by (rule broadcasts_try_run) (auto intro: broadcasts_none)

lemma enqueue_outbox [simp]: "outbox (fst (enqueue e targets t)) = outbox t"
  by (simp add: enqueue_def split: option.split)

lemma fanout_outbox:
  "outbox (fst (fanout_to_space sp ty payload t)) = outbox t"
  by (simp add: fanout_to_space_def fanout_to_targets_def try_in_def split: option.split sum.split)

lemma fanouts_outbox [simp]:
  "outbox (fanout_quietly sp ty payload t) = outbox t"
  "outbox (fst (fanout_message_create m t)) = outbox t"
  "outbox (fanout_conversation ch m auth t) = outbox t"
  by (simp_all add: fanout_quietly_def fanout_message_create_def fanout_conversation_def fanout_dm_message_def
      fanout_outbox try_in_def split: option.split sum.split bool.split)

lemma apply_mention_counts_outbox [simp]: "outbox (apply_mention_counts m t) = outbox t"
  by (simp add: apply_mention_counts_def)

lemma spawn_unfurl_outbox [simp]: "outbox (spawn_unfurl permit input m sp t) = outbox t"
  by (simp add: spawn_unfurl_def)

section \<open>Events name their channel\<close>

lemma message_event_names:
  assumes "get_str ''channel_id'' data = Some c" and "ty \<noteq> ''channel.delete''"
  shows "names_channel (message_event ty sp targets data)"
  using assms by (simp add: names_channel_def event_channel_def message_event_def event_type_of_def Let_def get_str_def)

lemma message_json_channel:
  "get_str ''channel_id'' (message_row_to_json_full m atts rs n) = Some (ms_channel_id m)"
  "get_str ''channel_id'' (message_row_to_json_with_attachments m atts) = Some (ms_channel_id m)"
  by (simp_all add: get_str_def message_row_to_json_full_def message_row_to_json_with_attachments_def)

lemma reaction_event_names:
  assumes "map_of pairs ''channel_id'' = Some (JStr c)" and "ty \<noteq> ''channel.delete''"
  shows "names_channel (reaction_event ty sp pairs)"
  using assms by (simp add: names_channel_def event_channel_def reaction_event_def event_type_of_def Let_def get_str_def)

lemma announce_parent_broadcasts: "broadcasts t (announce_parent tid sp t)"
  by (auto simp: announce_parent_def Let_def intro!: broadcasts_send message_event_names message_json_channel
      split: option.split sum.split)

lemma announce_message_broadcasts: "broadcasts t (fst (announce_message permit ch auth input m t))"
proof -
  let ?b = "message_event ''message.create'' (ch_space_id ch)
    (if in_conversation ch
     then Some (or_default (list_participant_ids (ap_db (apply_mention_counts m t)) (ch_id ch))) else None)
    (message_row_to_json_with_attachments m [])"
  have "broadcasts t (send ?b (apply_mention_counts m t))"
    by (rule broadcasts_trans [OF broadcasts_none broadcasts_send])
      (auto intro: message_event_names message_json_channel)
  also have "broadcasts \<dots> (announce_parent (cm_thread_id input) (ch_space_id ch) \<dots>)"
    by (rule announce_parent_broadcasts)
  finally have "broadcasts t (announce_parent (cm_thread_id input) (ch_space_id ch) (send ?b (apply_mention_counts m t)))" .
  then show ?thesis by (simp add: announce_message_def Let_def broadcasts_def)
qed

lemma said_and_fanned: "names_channel b \<Longrightarrow> broadcasts t (fanout_quietly sp ty payload (send b t))"
  by (simp add: broadcasts_def)

lemma create_message_broadcasts: "broadcasts s (fst (create_message chr hs permit st s c auth input))"
  unfolding create_message_def
  by (auto intro!: broadcasts_try_in broadcasts_commit announce_message_broadcasts simp: case_prod_beta Let_def
      split: option.split)

lemma update_message_broadcasts: "broadcasts s (fst (update_message hs now s c i auth input))"
  unfolding update_message_def
  by (auto intro!: broadcasts_try_in broadcasts_commit said_and_fanned message_event_names message_json_channel
      simp: Let_def split: option.split)

lemma delete_message_broadcasts: "broadcasts s (fst (delete_message hs s c i auth))"
  unfolding delete_message_def
  by (auto intro!: broadcasts_try_in broadcasts_commit said_and_fanned message_event_names [where c = c]
      simp: get_str_def split: option.split)

lemma moderation_broadcasts:
  "broadcasts s (fst (bulk_delete_messages s c auth is))" "broadcasts s (fst (pin_message now s c i auth))"
  "broadcasts s (fst (unpin_message s c i auth))"
  unfolding bulk_delete_messages_def pin_message_def unpin_message_def
  by (rule broadcasts_try_in, simp add: broadcasts_none)+

lemma typing_broadcasts: "broadcasts s (fst (typing_indicator chr hs s c auth thread))"
proof -
  have "get_str ''channel_id'' (typing_data chr c auth thread) = Some c"
    by (simp add: typing_data_def Let_def get_str_def split: option.split)
  then have "names_channel \<lparr>gb_space_id = sp, gb_target_user_ids = None,
      gb_event = JObj [(''op'', JNum 0), (''type'', JStr ''typing.start''), (''data'', typing_data chr c auth thread)],
      gb_intent = ''message_typing'', gb_required_permission = None\<rparr>" for sp
    by (simp add: names_channel_def event_channel_def event_type_of_def Let_def get_str_def)
  then show ?thesis
    unfolding typing_indicator_def
    by (auto intro!: broadcasts_try_in said_and_fanned simp: Let_def split: option.split)
qed

lemma own_reaction_broadcasts: "broadcasts s (fst (own_reaction hs remove write s sp c i e auth))"
  unfolding own_reaction_def
  by (auto intro!: broadcasts_try_in broadcasts_commit said_and_fanned reaction_event_names [where c = c] simp: reaction_fields_def
      split: option.split)

lemma moderate_reactions_broadcasts:
  assumes "map_of pairs ''channel_id'' = Some (JStr c)" and "ty \<noteq> ''channel.delete''"
  shows "broadcasts s (fst (moderate_reactions P ty pairs s c auth))"
  unfolding moderate_reactions_def
  using assms by (auto intro!: broadcasts_try_in broadcasts_commit broadcasts_send reaction_event_names)

lemma handle_message_broadcasts: "broadcasts s (fst (handle_message chr hs auth r s))"
  by (cases r)
    (auto simp: add_reaction_def remove_own_reaction_def remove_user_reaction_def remove_all_reactions_def
      remove_all_reactions_emoji_def reaction_fields_def
      intro!: broadcasts_try_in create_message_broadcasts update_message_broadcasts delete_message_broadcasts
        moderation_broadcasts typing_broadcasts own_reaction_broadcasts moderate_reactions_broadcasts)


definition typing_in_c :: GatewayBroadcast where
  "typing_in_c = \<lparr>gb_space_id = Some ''s'', gb_target_user_ids = None,
     gb_event = JObj [(''op'', JNum 0), (''type'', JStr ''typing.start''),
       (''data'', typing_data a_chrono ''c'' (plain_user ''mem'') None)],
     gb_intent = ''message_typing'', gb_required_permission = None\<rparr>"


end
