(* ===== verification/MessagePages.thy ===== *)
theory MessagePages
  imports Messages
begin

text \<open>
  Reading messages page by page: the cursors that \<open>list_messages\<close> and \<open>search_messages\<close> of
  \<open>Server/src/routes/messages.rs\<close> hand out.  What a client relies on when it follows them is the locale
  \<open>cursor_feed\<close>; the forward feeds and the search are interpretations of it, the default feed is not.
\<close>

section \<open>Following a cursor\<close>

text \<open>A client that asks for the next page until it is told there is none, at most \<open>n\<close> times.\<close>

fun walk :: "('c \<Rightarrow> 'a list \<times> bool) \<Rightarrow> ('a \<Rightarrow> 'c) \<Rightarrow> nat \<Rightarrow> 'c \<Rightarrow> 'a list" where
  "walk fetch cursor 0 c = []"
| "walk fetch cursor (Suc n) c =
     (case fetch c of (ys, again) \<Rightarrow> ys @ (if again then walk fetch cursor n (cursor (last ys)) else []))"

locale cursor_feed =
  fixes valid :: "'d \<Rightarrow> bool" and fetch :: "'d \<Rightarrow> 'c \<Rightarrow> 'a list \<times> bool" and rows :: "'d \<Rightarrow> 'a list"
    and beyond :: "'c \<Rightarrow> 'a \<Rightarrow> bool" and cursor :: "'a \<Rightarrow> 'c"
  assumes first_rows: "valid d \<Longrightarrow> fetch d c = (ys, again) \<Longrightarrow>
      \<exists>zs. filter (beyond c) (rows d) = ys @ zs \<and> (again \<longleftrightarrow> zs \<noteq> []) \<and> (again \<longrightarrow> ys \<noteq> [])"
    and tail: "valid d \<Longrightarrow> \<exists>us. rows d = us @ filter (beyond c) (rows d)"
    and after: "valid d \<Longrightarrow> rows d = us @ x # vs \<Longrightarrow> filter (beyond (cursor x)) (rows d) = vs"
begin

lemma next_page:
  assumes "valid d" and "fetch d c = (ys, True)"
  shows "\<exists>zs. filter (beyond c) (rows d) = ys @ zs \<and> filter (beyond (cursor (last ys))) (rows d) = zs \<and>
    length zs < length (filter (beyond c) (rows d))"
proof -
  from first_rows [OF assms] obtain zs where zs: "filter (beyond c) (rows d) = ys @ zs" "ys \<noteq> []" by auto
  from tail [OF assms(1), of c] obtain us where "rows d = us @ filter (beyond c) (rows d)" by blast
  also have "\<dots> = (us @ butlast ys) @ last ys # zs" using zs by simp
  finally have "filter (beyond (cursor (last ys))) (rows d) = zs" by (rule after [OF assms(1)])
  with zs show ?thesis by auto
qed

lemma walk_all:
  assumes "valid d" and "length (filter (beyond c) (rows d)) < n"
  shows "walk (fetch d) cursor n c = filter (beyond c) (rows d)"
  using assms(2)
proof (induction n arbitrary: c)
  case (Suc n)
  obtain ys again where page: "fetch d c = (ys, again)" by fastforce
  show ?case
  proof (cases again)
    case True
    from next_page [OF assms(1), of c ys] page True obtain zs where zs: "filter (beyond c) (rows d) = ys @ zs"
        "filter (beyond (cursor (last ys))) (rows d) = zs" "length zs < length (filter (beyond c) (rows d))"
      by auto
    have "walk (fetch d) cursor n (cursor (last ys)) = zs"
      using Suc.IH [of "cursor (last ys)"] Suc.prems zs(2,3) by simp
    with page True zs(1) show ?thesis by simp
  next
    case False
    with first_rows [OF assms(1) page] page show ?thesis by auto
  qed
qed simp

lemma walk_within: "valid d \<Longrightarrow> set (walk (fetch d) cursor n c) \<subseteq> set (filter (beyond c) (rows d))"
proof (induction n arbitrary: c)
  case (Suc n)
  obtain ys again where page: "fetch d c = (ys, again)" by fastforce
  show ?case
  proof (cases again)
    case True
    from next_page [OF Suc.prems, of c ys] page True obtain zs where zs: "filter (beyond c) (rows d) = ys @ zs"
        "filter (beyond (cursor (last ys))) (rows d) = zs" by auto
    have "set (walk (fetch d) cursor n (cursor (last ys))) \<subseteq> set zs"
      using Suc.IH [OF Suc.prems, of "cursor (last ys)"] unfolding zs(2) .
    then show ?thesis using True zs(1) by (auto simp: page)
  next
    case False
    with first_rows [OF Suc.prems page] page show ?thesis by auto
  qed
qed simp

end

section \<open>Pages\<close>

lemma clamp_limit_bounds: "1 \<le> clamp_limit dflt l \<and> clamp_limit dflt l \<le> 100"
  by (simp add: clamp_limit_def)

lemma page_split:
  assumes "1 \<le> l"
  shows "\<exists>zs. ys = page l (sql_limit l ys) @ zs \<and> (has_more l (sql_limit l ys) \<longleftrightarrow> zs \<noteq> []) \<and>
    (has_more l (sql_limit l ys) \<longrightarrow> page l (sql_limit l ys) \<noteq> [])"
proof (cases "int (length ys) > l")
  case True
  then have "page l (sql_limit l ys) = take (nat l) ys" "has_more l (sql_limit l ys)" "drop (nat l) ys \<noteq> []"
    using assms by (auto simp: page_def has_more_def sql_limit_def min_def)
  with True assms show ?thesis
    by (intro exI [of _ "drop (nat l) ys"]) auto
next
  case False
  then have "page l (sql_limit l ys) = ys" "\<not> has_more l (sql_limit l ys)"
    using assms by (auto simp: page_def has_more_def sql_limit_def)
  then show ?thesis by simp
qed

text \<open>A filter that, along the order of a list, never turns off again keeps a tail of it.\<close>

lemma ordered_tail:
  assumes "sorted_wrt R xs" and "\<And>x y. R x y \<Longrightarrow> P x \<Longrightarrow> P y"
  shows "\<exists>us. xs = us @ filter P xs"
  using assms(1)
proof (induction xs)
  case (Cons x xs)
  show ?case
  proof (cases "P x")
    case True
    with Cons.prems assms(2) have "filter P xs = xs" by (auto intro!: filter_True)
    with True show ?thesis by (intro exI [of _ "[]"]) simp
  next
    case False
    from Cons obtain us where "xs = us @ filter P xs" by auto
    with False show ?thesis by (intro exI [of _ "x # us"]) simp
  qed
qed simp

lemma ordered_after:
  assumes "sorted_wrt R (us @ x # vs)" and "\<And>y. R x y \<Longrightarrow> P y" and "\<And>y. R y x \<Longrightarrow> \<not> P y" and "\<not> P x"
  shows "filter P (us @ x # vs) = vs"
  using assms by (auto simp: sorted_wrt_append filter_empty_conv intro!: filter_True)

lemma oldest_first_strict:
  assumes "distinct (map ms_id ms)"
  shows "sorted_wrt (\<lambda>a b. ms_id a < ms_id b) (oldest_first ms)"
proof -
  have "sorted_wrt (<) (map ms_id (sort_key ms_id ms))"
    unfolding strict_sorted_iff using assms by (simp add: distinct_map)
  then show ?thesis by (simp add: oldest_first_def sorted_wrt_map)
qed

lemma newest_first_strict:
  "distinct (map ms_id ms) \<Longrightarrow> sorted_wrt (\<lambda>a b. ms_id b < ms_id a) (newest_first ms)"
  using oldest_first_strict [of ms] by (simp add: oldest_first_def newest_first_def sorted_wrt_rev)

section \<open>Forward feeds\<close>

definition forward_query :: "string option \<Rightarrow> int option \<Rightarrow> string \<Rightarrow> ListMessagesQuery" where
  "forward_query thread limit c =
     \<lparr>lq_after = Some c, lq_limit = limit, lq_thread_id = thread, lq_top_level = None, lq_sort = None\<rparr>"

definition fetch_forward :: "string \<Rightarrow> string option \<Rightarrow> int option \<Rightarrow> db \<Rightarrow> string \<Rightarrow> MessageRow list \<times> bool" where
  "fetch_forward channel_id thread limit d c =
     (case list_page d channel_id (forward_query thread limit c) of Inr p \<Rightarrow> p | Inl _ \<Rightarrow> ([], False))"

definition ids_unique :: "db \<Rightarrow> bool" where
  "ids_unique d \<longleftrightarrow> db_ok d \<and> distinct (map ms_id (messages d))"

definition feed_rows :: "string \<Rightarrow> string option \<Rightarrow> db \<Rightarrow> MessageRow list" where
  "feed_rows channel_id thread d = oldest_first (feed d channel_id thread)"

lemma oldest_first_past: "oldest_first (past (Some c) ms) = filter (\<lambda>m. c < ms_id m) (oldest_first ms)"
  by (simp add: oldest_first_def past_def filter_sort)

lemma forward_page:
  "db_ok d \<Longrightarrow> list_page d channel_id (forward_query thread limit c) =
     Inr (page (clamp_limit 50 limit) (sql_limit (clamp_limit 50 limit)
            (filter (\<lambda>m. c < ms_id m) (feed_rows channel_id thread d))),
          has_more (clamp_limit 50 limit) (sql_limit (clamp_limit 50 limit)
            (filter (\<lambda>m. c < ms_id m) (feed_rows channel_id thread d))))"
  by (cases thread) (simp_all add: list_page_def forward_query_def db_list_messages_def oldest_first_past feed_rows_def
      Let_def query_def)

lemma feed_rows_order: "ids_unique d \<Longrightarrow> sorted_wrt (\<lambda>a b. ms_id a < ms_id b) (feed_rows c th d)"
  unfolding feed_rows_def by (rule oldest_first_strict) (simp add: ids_unique_def feed_def distinct_map_filter)

interpretation forward: cursor_feed ids_unique "fetch_forward channel_id thread limit"
  "feed_rows channel_id thread" "\<lambda>c m. c < ms_id m" ms_id for channel_id thread limit
proof (unfold_locales, goal_cases)
  case (1 d c ys again)
  then show ?case
    using page_split [of "clamp_limit 50 limit" "filter (\<lambda>m. c < ms_id m) (feed_rows channel_id thread d)"]
      clamp_limit_bounds [of 50 limit]
    by (auto simp: fetch_forward_def forward_page ids_unique_def)
next
  case (2 d c)
  show ?case by (rule ordered_tail [OF feed_rows_order [OF 2]]) (rule less_trans)
next
  case (3 d us x vs)
  then show ?case using feed_rows_order [OF 3(1), of channel_id thread]
    by (simp only: 3(2)) (rule ordered_after [where R = "\<lambda>a b. ms_id a < ms_id b"], auto)
qed

text \<open>C15.  Reading forward misses nothing and repeats nothing: following the cursor of a channel's feed, or of a
  thread, from any id on, page by page of whatever size, a client that keeps asking gets exactly the
  messages past that id, oldest first, and is told there is no more after at most one request per message
  and one.\<close>

theorem forward_paging_complete:
  assumes "db_ok d" and "distinct (map ms_id (messages d))"
    and "length (filter (\<lambda>m. c < ms_id m) (feed d channel_id thread)) < n"
  shows "walk (fetch_forward channel_id thread limit d) ms_id n c =
    oldest_first (filter (\<lambda>m. c < ms_id m) (feed d channel_id thread))"
proof -
  have eq: "filter (\<lambda>m. c < ms_id m) (feed_rows channel_id thread d) =
      oldest_first (filter (\<lambda>m. c < ms_id m) (feed d channel_id thread))"
    by (simp add: feed_rows_def oldest_first_def filter_sort)
  have "length (filter (\<lambda>m. c < ms_id m) (feed_rows channel_id thread d)) < n"
    using assms(3) unfolding eq by (simp add: oldest_first_def)
  from forward.walk_all [OF _ this] show ?thesis
    using assms(1,2) by (simp add: ids_unique_def eq)
qed

section \<open>The default feed\<close>

definition default_query :: "int option \<Rightarrow> ListMessagesQuery" where
  "default_query limit =
     \<lparr>lq_after = None, lq_limit = limit, lq_thread_id = None, lq_top_level = None, lq_sort = None\<rparr>"

lemma newest_first_split:
  assumes "newest_first ms = ys @ zs" and "distinct (map ms_id ms)" and "ys \<noteq> []"
    and "m \<in> set ms" and "ms_id (last ys) < ms_id m"
  shows "m \<in> set ys"
proof -
  have "sorted (map ms_id (rev zs @ rev ys))"
    using arg_cong [OF assms(1), of rev] sorted_sort_key [of ms_id ms] by (simp add: newest_first_def)
  moreover have "last ys \<in> set (rev ys)" using assms(3) by simp
  ultimately have "\<forall>z \<in> set zs. ms_id z \<le> ms_id (last ys)" by (auto simp: sorted_append)
  then have "m \<notin> set zs" using assms(5) by auto
  moreover have "set ms = set ys \<union> set zs" using arg_cong [OF assms(1), of set] by (simp add: newest_first_def)
  ultimately show ?thesis using assms(4) by blast
qed

text \<open>The cursor of the default feed leads back into its own page: the first page of a channel is its
  newest messages, newest first, but its cursor asks for what is newer than the oldest of them, so
  whoever follows it, however often, sees only messages of that first page; older ones are never
  reached.\<close>

theorem default_feed_turns_back:
  assumes "db_ok d" and "distinct (map ms_id (messages d))"
    and "list_page d channel_id (default_query limit) = Inr (ys, again)" and "ys \<noteq> []"
  shows "set (walk (fetch_forward channel_id None limit' d) ms_id n (ms_id (last ys))) \<subseteq> set ys"
proof -
  from assms(1,3) obtain zs where split: "newest_first (feed d channel_id None) = ys @ zs"
    using page_split [of "clamp_limit 50 limit" "newest_first (feed d channel_id None)"] clamp_limit_bounds [of 50 limit]
    by (auto simp: list_page_def default_query_def db_list_messages_def Let_def)
  have "distinct (map ms_id (feed d channel_id None))" using assms(2) by (simp add: feed_def distinct_map_filter)
  note in_page = newest_first_split [OF split this assms(4)]
  have "set (walk (fetch_forward channel_id None limit' d) ms_id n (ms_id (last ys))) \<subseteq>
      set (filter (\<lambda>m. ms_id (last ys) < ms_id m) (feed_rows channel_id None d))"
    by (rule forward.walk_within) (use assms in \<open>simp add: ids_unique_def\<close>)
  with in_page show ?thesis by (auto simp: feed_rows_def oldest_first_def)
qed

section \<open>Search\<close>

definition search_query :: "SearchMessagesQuery \<Rightarrow> string option \<Rightarrow> SearchMessagesQuery" where
  "search_query params c = params\<lparr>sm_cursor := c\<rparr>"

definition fetch_search ::
    "string \<Rightarrow> AuthUser option \<Rightarrow> SearchMessagesQuery \<Rightarrow> db \<Rightarrow> string option \<Rightarrow> MessageRow list \<times> bool" where
  "fetch_search space_id auth params d c =
     (case search_rows d space_id auth (search_query params c) of Inr p \<Rightarrow> p | Inl _ \<Rightarrow> ([], False))"

definition search_matches :: "db \<Rightarrow> string \<Rightarrow> SearchMessagesQuery \<Rightarrow> string list \<Rightarrow> MessageRow \<Rightarrow> bool" where
  "search_matches d space_id params channel_ids m \<longleftrightarrow>
     ms_space_id m = Some space_id \<and> ms_channel_id m \<in> set channel_ids \<and>
     satisfies (sm_query params) (\<lambda>q. content_like d q (ms_content m)) \<and>
     satisfies (sm_author_id params) (\<lambda>a. ms_author_id m = a) \<and>
     satisfies (sm_before params) (\<lambda>t. ms_created_at m < t) \<and>
     satisfies (sm_after params) (\<lambda>t. t < ms_created_at m) \<and>
     satisfies (sm_pinned params) (\<lambda>p. ms_pinned m = p)"

definition filtered :: "SearchMessagesQuery \<Rightarrow> bool" where
  "filtered params \<longleftrightarrow> sm_query params \<noteq> None \<or> sm_author_id params \<noteq> None \<or> sm_channel_id params \<noteq> None \<or>
     sm_before params \<noteq> None \<or> sm_after params \<noteq> None \<or> sm_pinned params \<noteq> None"

text \<open>Everything a search finds, newest first.\<close>

definition found :: "string \<Rightarrow> AuthUser option \<Rightarrow> SearchMessagesQuery \<Rightarrow> db \<Rightarrow> MessageRow list" where
  "found space_id auth params d =
     (case and_then (get_space_row d space_id) (\<lambda>_. search_channels d space_id auth (sm_channel_id params)) of
        Inl _ \<Rightarrow> []
      | Inr channel_ids \<Rightarrow>
          if filtered params then newest_first (filter (search_matches d space_id params channel_ids) (messages d))
          else [])"

definition earlier :: "string option \<Rightarrow> MessageRow \<Rightarrow> bool" where
  "earlier c m \<longleftrightarrow> satisfies c (\<lambda>i. ms_id m < i)"

lemma filter_newest_first: "filter P (newest_first ms) = newest_first (filter P ms)"
  by (simp add: newest_first_def rev_filter [symmetric] filter_sort)

lemma search_channels_nonempty: "search_channels d space_id auth channel_id = Inr ids \<Longrightarrow> ids \<noteq> []"
  by (auto simp: search_channels_def Let_def split: if_splits option.splits)

lemma search_page:
  assumes "db_ok d"
  shows "fetch_search space_id auth params d c =
    (if filtered params \<and> is_ok (and_then (get_space_row d space_id)
          (\<lambda>_. search_channels d space_id auth (sm_channel_id params)))
     then (page (clamp_limit 25 (sm_limit params)) (sql_limit (clamp_limit 25 (sm_limit params))
             (filter (earlier c) (found space_id auth params d))),
           has_more (clamp_limit 25 (sm_limit params)) (sql_limit (clamp_limit 25 (sm_limit params))
             (filter (earlier c) (found space_id auth params d))))
     else ([], False))"
proof -
  have narrow: "db_search_messages d space_id
      \<lparr>sq_channel_ids = ids, sq_query = sm_query params, sq_author_id = sm_author_id params,
       sq_before = sm_before params, sq_after = sm_after params, sq_pinned = sm_pinned params,
       sq_cursor = c, sq_limit = l\<rparr> =
    Inr (sql_limit l (filter (earlier c) (newest_first (filter (search_matches d space_id params ids) (messages d)))))"
    if "ids \<noteq> []" for ids l
    using that assms
    by (simp add: db_search_messages_def filter_newest_first search_matches_def earlier_def conj_ac cong: filter_cong)
  show ?thesis
    using search_channels_nonempty [of d space_id auth "sm_channel_id params"]
    by (auto simp: fetch_search_def search_rows_def search_query_def found_def filtered_def Let_def narrow
        is_ok_def and_then_def split: sum.split)
qed

lemma found_order: "ids_unique d \<Longrightarrow> sorted_wrt (\<lambda>a b. ms_id b < ms_id a) (found space_id auth params d)"
  by (auto simp: found_def ids_unique_def distinct_map_filter split: sum.split intro!: newest_first_strict)

interpretation search: cursor_feed ids_unique "fetch_search space_id auth params" "found space_id auth params"
  earlier "\<lambda>m. Some (ms_id m)" for space_id auth params
proof (unfold_locales, goal_cases)
  case (1 d c ys again)
  then show ?case
    using page_split [of "clamp_limit 25 (sm_limit params)" "filter (earlier c) (found space_id auth params d)"]
      clamp_limit_bounds [of 25 "sm_limit params"]
    by (auto simp: search_page ids_unique_def found_def is_ok_def split: if_splits sum.splits)
next
  case (2 d c)
  show ?case
    by (rule ordered_tail [OF found_order [OF 2]]) (auto simp: earlier_def satisfies_def split: option.splits)
next
  case (3 d us x vs)
  then show ?case using found_order [OF 3(1), of space_id auth params]
    by (simp only: 3(2)) (rule ordered_after [where R = "\<lambda>a b. ms_id b < ms_id a"], auto simp: earlier_def satisfies_def)
qed


text \<open>A search finds everything it should, once: following its cursor from the first page on, a client
  gets exactly the messages of the space that match all filters and lie in the channels the caller may
  search, newest first.\<close>

theorem search_paging_complete:
  assumes "db_ok d" and "distinct (map ms_id (messages d))" and "filtered params"
    and "get_space_row d space_id = Inr sp" and "search_channels d space_id auth (sm_channel_id params) = Inr channel_ids"
    and "length (messages d) < n"
  shows "walk (fetch_search space_id auth params d) (\<lambda>m. Some (ms_id m)) n None =
    newest_first (filter (search_matches d space_id params channel_ids) (messages d))"
proof -
  have found: "found space_id auth params d = newest_first (filter (search_matches d space_id params channel_ids) (messages d))"
    using assms by (simp add: found_def)
  have all: "filter (earlier None) (found space_id auth params d) = found space_id auth params d"
    by (simp add: earlier_def satisfies_def)
  have "length (filter (earlier None) (found space_id auth params d)) < n"
    unfolding all using le_less_trans [OF length_filter_le assms(6)] by (simp add: found newest_first_def)
  from search.walk_all [OF _ this] show ?thesis
    unfolding all using assms(1,2) by (simp add: ids_unique_def found)
qed

lemma readable_channels_ok:
  "readable_channels d auth history cs = Inr rs \<Longrightarrow>
   set rs \<subseteq> {c \<in> set cs. require_channel_read_access d c auth history = Inr ()}"
proof (induction cs arbitrary: rs)
  case (Cons c cs)
  then show ?case
    by (fastforce split: sum.splits AppError.splits)
qed simp

lemma search_channels_readable:
  assumes "search_channels d space_id auth channel_id = Inr ids" and "i \<in> set ids"
  shows "\<exists>ch \<in> set (channels d). ch_id ch = i \<and> ch_space_id ch = Some space_id \<and>
    require_channel_read_access d ch auth True = Inr ()"
proof -
  from assms(1) obtain cs rs where cs: "list_channels_in_space d space_id = Inr cs"
      and rs: "readable_channels d auth True cs = Inr rs" and "set ids \<subseteq> set (map ch_id rs)"
    by (auto simp: search_channels_def Let_def split: if_splits option.splits)
  then obtain ch where "ch \<in> set rs" "ch_id ch = i" using assms(2) by auto
  with readable_channels_ok [OF rs] cs show ?thesis
    by (intro bexI [of _ ch]) (auto simp: list_channels_in_space_def)
qed


section \<open>Concrete pages\<close>

definition read_db :: db where
  "read_db = a_db\<lparr>messages := map (\<lambda>i. \<lparr>ms_id = i, ms_channel_id = ''c'', ms_space_id = Some ''s'',
     ms_author_id = ''mem'', ms_content = ''hi'', ms_type = [], ms_created_at = [], ms_edited_at = None, ms_tts = False,
     ms_pinned = False, ms_mention_everyone = False, ms_mentions = JsonStrings [], ms_mention_roles = JsonStrings [],
     ms_embeds = Some [], ms_reply_to = None, ms_flags = 0, ms_webhook_id = None, ms_thread_id = None,
     ms_title = None, ms_origin = None\<rparr>) [''1'', ''3'', ''2'']\<rparr>"

lemma read_db_ids: "db_ok read_db" "distinct (map ms_id (messages read_db))" "length (messages read_db) = 3"
  by (simp_all add: read_db_def a_db_def no_rows_def)

theorem forward_paging_complete_witness:
  "map ms_id (walk (fetch_forward ''c'' None (Some 1) read_db) ms_id 4 ''1'') = [''2'', ''3'']"
proof -
  have "length (filter (\<lambda>m. ''1'' < ms_id m) (feed read_db ''c'' None)) < 4" by code_simp
  note walk = forward_paging_complete [OF read_db_ids(1,2) this, of "Some 1"]
  show ?thesis unfolding walk by code_simp
qed

theorem default_feed_turns_back_witness:
  "map ms_id (fst (projr (list_page read_db ''c'' (default_query (Some 1))))) = [''3''] \<and>
   walk (fetch_forward ''c'' None (Some 1) read_db) ms_id 9 ''3'' = []"
proof -
  let ?p = "list_page read_db ''c'' (default_query (Some 1))"
  have ok: "?p = Inr (fst (projr ?p), snd (projr ?p))" by code_simp
  have ids: "map ms_id (fst (projr ?p)) = [''3'']" by code_simp
  then have some: "fst (projr ?p) \<noteq> []" and last: "ms_id (last (fst (projr ?p))) = ''3''" by (auto simp: last_map [symmetric])
  have "set (walk (fetch_forward ''c'' None (Some 1) read_db) ms_id 9 ''3'') \<subseteq> set (fst (projr ?p))"
    using default_feed_turns_back [OF read_db_ids(1,2) ok some, of "Some 1" 9] unfolding last .
  moreover have "walk (fetch_forward ''c'' None (Some 1) read_db) ms_id 9 ''3'' = []" by code_simp
  ultimately show ?thesis using ids by simp
qed

definition hi_query :: SearchMessagesQuery where
  "hi_query = \<lparr>sm_query = Some ''h'', sm_author_id = None, sm_channel_id = None, sm_before = None, sm_after = None,
     sm_pinned = None, sm_cursor = None, sm_limit = Some 2\<rparr>"

lemma hi_channels:
  "search_channels read_db ''s'' (Some (plain_user ''own'')) (sm_channel_id hi_query) = Inr [''c'']"
  by code_simp

theorem search_paging_complete_witness:
  "map ms_id (walk (fetch_search ''s'' (Some (plain_user ''own'')) hi_query read_db) (\<lambda>m. Some (ms_id m)) 4 None) =
     [''3'', ''2'', ''1'']"
proof -
  have "filtered hi_query" "get_space_row read_db ''s'' = Inr (a_space ''s'' ''own'')" by code_simp+
  moreover have "length (messages read_db) < 4" by (simp add: read_db_ids)
  ultimately have walk: "walk (fetch_search ''s'' (Some (plain_user ''own'')) hi_query read_db) (\<lambda>m. Some (ms_id m)) 4 None =
      newest_first (filter (search_matches read_db ''s'' hi_query [''c'']) (messages read_db))"
    using search_paging_complete [OF read_db_ids(1,2) _ _ hi_channels] by blast
  show ?thesis unfolding walk by code_simp
qed


end
