(* ===== verification/Slowmode.thy ===== *)
theory Slowmode
  imports MessageSafety
begin

text \<open>
  Slow mode over sequences of requests: \<open>slowmode_cooldown_ms\<close> of \<open>middleware/permissions.rs\<close> and the
  reservation of \<open>create_message\<close> in \<open>db/messages.rs\<close>, against everything the other handlers of messages
  and reactions do in between.
\<close>

section \<open>The last post\<close>

lemma last_sent_with_post:
  "last_sent (with_post m t d) c u = (if c = ms_channel_id m \<and> u = ms_author_id m then Some t else last_sent d c u)"
  by (auto simp: last_sent_def with_post_def update_conv')

lemma last_sent_cong: "message_cooldowns d' = message_cooldowns d \<Longrightarrow> last_sent d' c u = last_sent d c u"
  by (simp add: last_sent_def)

lemma purge_cooldowns [simp]: "message_cooldowns (purge c is d) = message_cooldowns d"
proof -
  have "message_cooldowns (delete_messages P d) = message_cooldowns d" for P and d :: db
    by (simp add: delete_messages_def Let_def)
  then show ?thesis unfolding purge_def by (induction "is" arbitrary: d) simp_all
qed

lemma edit_step_cooldowns: "edit_step auth d d' \<Longrightarrow> message_cooldowns d' = message_cooldowns d"
  by (induction rule: edit_step.induct) (auto simp: set_message_def set_pinned_def delete_messages_def Let_def)

text \<open>A request moves the last post of a user in a channel only by being that user's post there.\<close>

lemma last_sent_handled:
  "last_sent (ap_db (fst (handle_message chr hs auth r s))) c u = last_sent (ap_db s) c u \<or>
   (\<exists>st permit input. r = Post st permit c input \<and> u = au_user_id auth \<and>
      last_sent (ap_db (fst (handle_message chr hs auth r s))) c u = Some (st_ms st))"
proof -
  obtain e where e: "e = ap_db s \<or> message_step auth r (ap_db s) e"
      and quiet: "quiet e (ap_db (fst (handle_message chr hs auth r s)))"
    using handle_message_step [where auth = auth and r = r and s = s and chr = chr and hs = hs]
    unfolding one_step_def by blast
  have "last_sent (ap_db (fst (handle_message chr hs auth r s))) c u = last_sent e c u"
    by (rule last_sent_cong) (rule quiet_fields(9) [OF quiet])
  then show ?thesis
    using e by (cases r) (auto simp: last_sent_with_post elim!: post_step.cases dest: edit_step_cooldowns last_sent_cong
        split: if_splits)
qed

definition ids :: "app \<Rightarrow> string set" where
  "ids s = ms_id ` set (messages (ap_db s))"

text \<open>A post that is stored here (and not refused or forwarded).\<close>

definition stores :: "chrono \<Rightarrow> home_server \<Rightarrow> AuthUser \<Rightarrow> stamp \<Rightarrow> bool \<Rightarrow> string \<Rightarrow> CreateMessage \<Rightarrow> app \<Rightarrow> bool" where
  "stores chr hs auth st permit c input s \<longleftrightarrow>
     st_id st \<notin> ids s \<and> st_id st \<in> ids (fst (handle_message chr hs auth (Post st permit c input) s))"

lemma stored_post:
  assumes "stores chr hs auth st permit c input s"
  shows "\<exists>ch. get_channel_row (ap_db s) c = Inr ch \<and> slot_open (ap_db s) ch auth (st_ms st)"
    "last_sent (ap_db (fst (handle_message chr hs auth (Post st permit c input) s))) c (au_user_id auth) = Some (st_ms st)"
proof -
  let ?r = "Post st permit c input"
  obtain e where e: "e = ap_db s \<or> message_step auth ?r (ap_db s) e"
      and quiet: "quiet e (ap_db (fst (handle_message chr hs auth ?r s)))"
    using handle_message_step [where auth = auth and r = ?r and s = s and chr = chr and hs = hs]
    unfolding one_step_def by blast
  have "messages (ap_db (fst (handle_message chr hs auth ?r s))) = messages e" by (rule quiet_fields(1) [OF quiet])
  then have "e \<noteq> ap_db s" using assms unfolding stores_def ids_def by auto
  with e have step: "post_step auth c (st_id st) (st_ms st) (ap_db s) e" by simp
  then show "\<exists>ch. get_channel_row (ap_db s) c = Inr ch \<and> slot_open (ap_db s) ch auth (st_ms st)"
    by (auto elim: post_step.cases)
  from step have "last_sent e c (au_user_id auth) = Some (st_ms st)"
    by (auto simp: last_sent_with_post elim!: post_step.cases)
  then show "last_sent (ap_db (fst (handle_message chr hs auth ?r s))) c (au_user_id auth) = Some (st_ms st)"
    using last_sent_cong [OF quiet_fields(9) [OF quiet]] by simp
qed

text \<open>The clock does not go back for one user's posts in a channel.\<close>

definition clock_after :: "int \<Rightarrow> string \<Rightarrow> string \<Rightarrow> (AuthUser \<times> message_request) list \<Rightarrow> bool" where
  "clock_after t c u reqs \<longleftrightarrow>
     (\<forall>(auth, r) \<in> set reqs. \<forall>st permit input. au_user_id auth = u \<and> r = Post st permit c input \<longrightarrow> t \<le> st_ms st)"

lemma last_sent_run:
  assumes "last_sent (ap_db s) c u = Some p" and "t \<le> p" and "clock_after t c u reqs"
  shows "\<exists>q \<ge> t. last_sent (ap_db (handle_all chr hs reqs s)) c u = Some q"
  using assms
proof (induction reqs arbitrary: s p)
  case Nil
  then show ?case by (auto simp: handle_all_def)
next
  case (Cons x reqs)
  obtain auth r where x: "x = (auth, r)" by fastforce
  let ?s = "fst (handle_message chr hs auth r s)"
  have "\<exists>q \<ge> t. last_sent (ap_db ?s) c u = Some q"
    using last_sent_handled [of chr hs auth r s c u] Cons.prems by (auto simp: clock_after_def x)
  then obtain q where "last_sent (ap_db ?s) c u = Some q" "t \<le> q" by blast
  moreover have "clock_after t c u reqs" using Cons.prems(3) by (simp add: clock_after_def x)
  ultimately have "\<exists>q \<ge> t. last_sent (ap_db (handle_all chr hs reqs ?s)) c u = Some q" by (rule Cons.IH)
  then show ?case by (simp add: handle_all_def x)
qed

text \<open>C17.  Slow mode holds over any course of events: when a user's message is stored in a channel and later
  another one of the same user, then, whatever requests anyone made in between (deleting the first
  message included), the second comes at least the cooldown after the first that the channel imposes on
  the user by then.\<close>

theorem slowmode_enforced:
  assumes first: "stores chr hs auth st permit c input s"
    and t: "t = fst (handle_message chr hs auth (Post st permit c input) s)"
    and clock: "clock_after (st_ms st) c (au_user_id auth) reqs"
    and second: "stores chr hs auth' st' permit' c input' (handle_all chr hs reqs t)"
    and same: "au_user_id auth' = au_user_id auth"
    and row: "get_channel_row (ap_db (handle_all chr hs reqs t)) c = Inr ch"
    and cd: "slowmode_cooldown_ms (ap_db (handle_all chr hs reqs t)) ch auth' = Inr cd" and "0 < cd"
  shows "st_ms st + cd \<le> st_ms st'"
proof -
  let ?d = "ap_db (handle_all chr hs reqs t)"
  have "last_sent (ap_db t) c (au_user_id auth) = Some (st_ms st)"
    unfolding t by (rule stored_post(2) [OF first])
  from last_sent_run [OF this order.refl clock] obtain q where
    q: "st_ms st \<le> q" "last_sent ?d c (au_user_id auth') = Some q"
    unfolding same by blast
  from stored_post(1) [OF second] row have "slot_open ?d ch auth' (st_ms st')" by simp
  moreover have "ch_id ch = c" using get_channel_row_Inr [OF row] by simp
  ultimately show ?thesis using q cd \<open>0 < cd\<close> by (simp add: slot_open_def)
qed

section \<open>When to come back\<close>

lemma from_sqlx_not_limited: "from_sqlx e \<noteq> RateLimited n"
  by (cases e rule: from_sqlx.cases) (auto split: if_splits)

lemma ceiling_seconds:
  fixes w :: int
  shows "w \<le> 1000 * ((w + 999) div 1000)" "1000 * ((w + 999) div 1000) < w + 1000"
proof -
  have "1000 * ((w + 999) div 1000) = (w + 999) - (w + 999) mod 1000" by (simp add: minus_mod_eq_mult_div)
  moreover have "0 \<le> (w + 999) mod 1000" "(w + 999) mod 1000 < 1000" by simp_all
  ultimately show "w \<le> 1000 * ((w + 999) div 1000)" "1000 * ((w + 999) div 1000) < w + 1000" by linarith+
qed

lemma limited_prev:
  assumes "db_ok d" and "snd (db_create_message st c a sp input cd d) = Inl (RateLimited n)"
  shows "\<exists>prev. last_sent d c a = Some prev \<and> 0 < cd \<and> st_ms st - cd < prev \<and> n = retry_after_secs prev cd (st_ms st)"
  using assms(2) from_sqlx_not_limited
  by (rule_tac db_create_message_cases [OF assms(1), of st c a sp input cd]) (auto dest: sym)

text \<open>The wait a rate-limited post is told is enough and not too much: coming back that many seconds
  later, if the user has not posted in the channel since, the post is not rate limited again, and a
  whole second earlier it would still have been.\<close>

theorem retry_after_exact:
  assumes "db_ok d" and "snd (db_create_message st c a sp input cd d) = Inl (RateLimited n)"
    and later: "st_ms st + 1000 * int n \<le> st_ms st'"
  shows "1 \<le> n \<and> snd (db_create_message st' c a sp' input' cd d) \<noteq> Inl (RateLimited m) \<and>
    (\<forall>t. st_ms st \<le> t \<and> t \<le> st_ms st + 1000 * (int n - 1) \<longrightarrow>
       (\<exists>prev. last_sent d c a = Some prev \<and> t < prev + cd))"
proof -
  from limited_prev [OF assms(1,2)] obtain prev where prev: "last_sent d c a = Some prev" "0 < cd" "st_ms st - cd < prev"
      and n: "n = retry_after_secs prev cd (st_ms st)" by blast
  let ?w = "prev + cd - st_ms st"
  from prev have w: "0 < ?w" by simp
  then have "max ?w 1 = ?w" by simp
  then have n': "n = (nat ?w + 999) div 1000" by (simp add: n retry_after_secs_def)
  have "int n = (?w + 999) div 1000" unfolding n' using w by (simp add: zdiv_int)
  with ceiling_seconds [of ?w] have bounds: "?w \<le> 1000 * int n" "1000 * int n < ?w + 1000" by simp_all
  have "\<not> (\<exists>prev'. last_sent d c a = Some prev' \<and> 0 < cd \<and> st_ms st' - cd < prev' \<and> m = retry_after_secs prev' cd (st_ms st'))"
    using prev(1) bounds(1) later by auto
  then have "snd (db_create_message st' c a sp' input' cd d) \<noteq> Inl (RateLimited m)"
    using limited_prev [OF assms(1)] by blast
  moreover have "1 \<le> n" using bounds(1) w by linarith
  moreover have "t < prev + cd" if "st_ms st \<le> t \<and> t \<le> st_ms st + 1000 * (int n - 1)" for t
    using that bounds(2) by (simp add: right_diff_distrib)
  ultimately show ?thesis using prev(1) by blast
qed

section \<open>A concrete course\<close>

definition slow_chat :: app where
  "slow_chat = a_chat\<lparr>ap_db := (ap_db a_chat)\<lparr>channels :=
     [(a_channel ''c'' (Some ''s'') ''text'')\<lparr>ch_rate_limit := 5\<rparr>]\<rparr>\<rparr>"

definition hello :: CreateMessage where
  "hello = \<lparr>cm_content = ''hello'', cm_tts = None, cm_embeds = None, cm_reply_to = None, cm_thread_id = None, cm_title = None\<rparr>"

definition at_ms :: "int \<Rightarrow> string \<Rightarrow> stamp" where
  "at_ms t i = \<lparr>st_id = i, st_ms = t, st_now = []\<rparr>"

lemma created_rows:
  assumes "create_checks chr (ap_db s) c auth input = Inr ch" and "forward_create hs (ap_db s) ch auth input = Inr None"
    and "slowmode_cooldown_ms (ap_db s) ch auth = Inr cd"
    and "db_create_message st c (au_user_id auth) (ch_space_id ch) input cd (ap_db s) = (d, Inr m)"
  shows "messages (ap_db (fst (create_message chr hs permit st s c auth input))) = messages d"
  using assms quiet_fields(1) [OF announce_message_quiet [where t = "s\<lparr>ap_db := d\<rparr>"]]
  by (simp add: create_message_def on_db_def Let_def case_prod_beta)

lemma created_db:
  assumes "create_checks chr (ap_db s) c auth input = Inr ch" and "forward_create hs (ap_db s) ch auth input = Inr None"
    and "slowmode_cooldown_ms (ap_db s) ch auth = Inr cd" and "federation_domain s = None"
    and "db_create_message st c (au_user_id auth) (ch_space_id ch) input cd (ap_db s) = (d, Inr m)"
    and "ms_mentions m = JsonStrings []"
  shows "ap_db (fst (create_message chr hs permit st s c auth input)) = d"
proof -
  have "federation_domain (announce_parent tid sp t) = federation_domain t" for tid sp t
    by (simp add: announce_parent_def Let_def split: option.split sum.split)
  then show ?thesis
    using assms
    by (simp add: create_message_def on_db_def Let_def case_prod_beta announce_message_def apply_mention_counts_def
        fanout_message_create_def fanout_conversation_def)
qed

definition slow_channel :: ChannelRow where
  "slow_channel = (a_channel ''c'' (Some ''s'') ''text'')\<lparr>ch_rate_limit := 5\<rparr>"

lemma hello_created:
  assumes "create_checks a_chrono (ap_db s) ''c'' (plain_user ''mem'') hello = Inr ch"
    and "forward_create no_home (ap_db s) ch (plain_user ''mem'') hello = Inr None"
    and "slowmode_cooldown_ms (ap_db s) ch (plain_user ''mem'') = Inr cd" and "federation_domain s = None"
    and "snd (db_create_message st ''c'' ''mem'' (ch_space_id ch) hello cd (ap_db s)) = Inr m"
    and "ms_mentions m = JsonStrings []"
  shows "ap_db (fst (handle_message a_chrono no_home (plain_user ''mem'') (Post st False ''c'' hello) s)) =
    fst (db_create_message st ''c'' ''mem'' (ch_space_id ch) hello cd (ap_db s))"
proof -
  have "db_create_message st ''c'' (au_user_id (plain_user ''mem'')) (ch_space_id ch) hello cd (ap_db s) =
      (fst (db_create_message st ''c'' ''mem'' (ch_space_id ch) hello cd (ap_db s)), Inr m)"
    using assms(5) by (simp add: plain_user_def prod_eq_iff)
  from created_db [OF assms(1-4) this assms(6)] show ?thesis by simp
qed

definition has_message :: "db \<Rightarrow> string \<Rightarrow> bool" where
  "has_message d i = list_ex (\<lambda>m. ms_id m = i) (messages d)"

lemma stores_iff: "stores chr hs auth st permit c input s \<longleftrightarrow> \<not> has_message (ap_db s) (st_id st) \<and>
    has_message (ap_db (fst (handle_message chr hs auth (Post st permit c input) s))) (st_id st)"
  unfolding stores_def ids_def has_message_def list_ex_iff image_iff by metis

definition slow_state :: app where
  "slow_state = fst (handle_message a_chrono no_home (plain_user ''mem'') (Post (at_ms 1000 ''7'') False ''c'' hello) slow_chat)"

lemma first_hello: "ap_db slow_state = fst (db_create_message (at_ms 1000 ''7'') ''c'' ''mem'' (Some ''s'') hello 5000 (ap_db slow_chat))"
  unfolding slow_state_def
  by (subst hello_created [where ch = slow_channel and cd = 5000 and
      m = "new_message (at_ms 1000 ''7'') ''c'' ''mem'' (Some ''s'') hello []"]) code_simp+

lemma hello_again: "stores a_chrono no_home (plain_user ''mem'') (at_ms 6000 ''8'') False ''c'' hello slow_state"
proof -
  let ?p = "db_create_message (at_ms 6000 ''8'') ''c'' ''mem'' (Some ''s'') hello 5000 (ap_db slow_state)"
  have "create_checks a_chrono (ap_db slow_state) ''c'' (plain_user ''mem'') hello =
      Inr (slow_channel\<lparr>ch_last_message_id := Some ''7''\<rparr>)"
    unfolding first_hello by code_simp
  moreover have "forward_create no_home (ap_db slow_state) (slow_channel\<lparr>ch_last_message_id := Some ''7''\<rparr>)
      (plain_user ''mem'') hello = Inr None"
    unfolding first_hello by code_simp
  moreover have "slowmode_cooldown_ms (ap_db slow_state) (slow_channel\<lparr>ch_last_message_id := Some ''7''\<rparr>)
      (plain_user ''mem'') = Inr 5000"
    unfolding first_hello by code_simp
  moreover have "snd ?p = Inr (new_message (at_ms 6000 ''8'') ''c'' ''mem'' (Some ''s'') hello [])"
    unfolding first_hello by code_simp
  then have "db_create_message (at_ms 6000 ''8'') ''c'' (au_user_id (plain_user ''mem''))
      (ch_space_id (slow_channel\<lparr>ch_last_message_id := Some ''7''\<rparr>)) hello 5000 (ap_db slow_state) =
      (fst ?p, Inr (new_message (at_ms 6000 ''8'') ''c'' ''mem'' (Some ''s'') hello []))"
    by (simp add: plain_user_def slow_channel_def a_channel_def prod_eq_iff)
  ultimately have "messages (ap_db (fst (handle_message a_chrono no_home (plain_user ''mem'')
      (Post (at_ms 6000 ''8'') False ''c'' hello) slow_state))) = messages (fst ?p)"
    by (simp add: created_rows)
  moreover have "has_message (fst ?p) ''8''" "\<not> has_message (ap_db slow_state) ''8''"
    unfolding first_hello by code_simp+
  ultimately show ?thesis by (simp add: stores_iff has_message_def at_ms_def)
qed

theorem slowmode_enforced_witness: "st_ms (at_ms 1000 ''7'') + 5000 \<le> st_ms (at_ms 6000 ''8'')"
proof (rule slowmode_enforced [where auth = "plain_user ''mem''" and reqs = "[]" and s = slow_chat and t = slow_state])
  show "slow_state = fst (handle_message a_chrono no_home (plain_user ''mem'') (Post (at_ms 1000 ''7'') False ''c'' hello) slow_chat)"
    by (rule slow_state_def)
  show "stores a_chrono no_home (plain_user ''mem'') (at_ms 1000 ''7'') False ''c'' hello slow_chat"
    unfolding stores_iff slow_state_def [symmetric] first_hello by code_simp
  show "stores a_chrono no_home (plain_user ''mem'') (at_ms 6000 ''8'') False ''c'' hello
      (handle_all a_chrono no_home [] slow_state)"
    using hello_again by (simp add: handle_all_def)
  show "get_channel_row (ap_db (handle_all a_chrono no_home [] slow_state)) ''c'' =
      Inr (slow_channel\<lparr>ch_last_message_id := Some ''7''\<rparr>)"
    unfolding handle_all_def foldl.simps first_hello by code_simp
  show "slowmode_cooldown_ms (ap_db (handle_all a_chrono no_home [] slow_state))
      (slow_channel\<lparr>ch_last_message_id := Some ''7''\<rparr>) (plain_user ''mem'') = Inr 5000"
    unfolding handle_all_def foldl.simps first_hello by code_simp
qed (simp_all add: clock_after_def)

theorem retry_after_exact_witness:
  "snd (db_create_message (at_ms 6500 ''9'') ''c'' ''mem'' (Some ''s'') hello 5000 (ap_db slow_state)) \<noteq>
     Inl (RateLimited 3)"
proof -
  have "db_ok (ap_db slow_state)" unfolding first_hello by code_simp
  moreover have "snd (db_create_message (at_ms 2500 ''8'') ''c'' ''mem'' (Some ''s'') hello 5000 (ap_db slow_state)) =
      Inl (RateLimited 4)"
    unfolding first_hello by code_simp
  moreover have "st_ms (at_ms 2500 ''8'') + 1000 * int 4 \<le> st_ms (at_ms 6500 ''9'')" by (simp add: at_ms_def)
  ultimately show ?thesis
    by (rule retry_after_exact [THEN conjunct2, THEN conjunct1])
qed

end
