(* ===== verification/Unread.thy ===== *)
theory Unread
  imports Slowmode
begin

text \<open>
  Unread channels and mention badges: the handlers of \<open>Server/src/routes/read_states.rs\<close>, and what posting,
  \<open>apply_mention_counts\<close> and acknowledging do to the read states together.
\<close>

section \<open>Handlers\<close>

definition unread_json :: "string \<times> string option \<times> string option \<times> string option \<times> int \<Rightarrow> json" where
  "unread_json u = (case u of (c, sp, last_read, newest, n) \<Rightarrow>
     JObj [(''channel_id'', JStr c), (''space_id'', jstr_opt sp), (''last_read_message_id'', jstr_opt last_read),
           (''last_message_id'', jstr_opt newest), (''mention_count'', JNum n)])"

definition list_unread_channels :: "db \<Rightarrow> AuthUser \<Rightarrow> AppError + json list" where
  "list_unread_channels d auth = and_then (get_unread_channels d (au_user_id auth)) (\<lambda>us. Inr (map unread_json us))"

definition read_state_event :: "string \<Rightarrow> string \<Rightarrow> string \<Rightarrow> GatewayBroadcast" where
  "read_state_event user_id channel_id message_id =
     \<lparr>gb_space_id = None, gb_target_user_ids = Some [user_id],
      gb_event = JObj [(''op'', JNum 0), (''type'', JStr ''read_state.update''),
        (''data'', JObj [(''channel_id'', JStr channel_id), (''last_read_message_id'', JStr message_id),
                         (''mention_count'', JNum 0)])],
      gb_intent = ''messages'', gb_required_permission = None\<rparr>"

definition ack_channel_request :: "app \<Rightarrow> string \<Rightarrow> AuthUser \<Rightarrow> string \<Rightarrow> app \<times> (AppError + unit)" where
  "ack_channel_request s channel_id auth message_id =
     try_in s (require_channel_membership (ap_db s) channel_id (au_user_id auth)) (\<lambda>_.
     try_run (on_db (ack_channel (au_user_id auth) channel_id message_id) s) (\<lambda>s _.
     (send (read_state_event (au_user_id auth) channel_id message_id) s, Inr ())))"

section \<open>Read states as a map\<close>

definition read_state :: "db \<Rightarrow> string \<Rightarrow> string \<Rightarrow> ReadState option" where
  "read_state d u c = find (\<lambda>r. rs_user_id r = u \<and> rs_channel_id r = c) (read_states d)"

definition mention_count :: "db \<Rightarrow> string \<Rightarrow> string \<Rightarrow> int" where
  "mention_count d u c = (case read_state d u c of None \<Rightarrow> 0 | Some r \<Rightarrow> rs_mention_count r)"

text \<open>Both ends of the foreign keys of a read state.\<close>

definition referable :: "db \<Rightarrow> string \<Rightarrow> string \<Rightarrow> bool" where
  "referable d u c \<longleftrightarrow> u \<in> us_id ` set (users d) \<and> c \<in> ch_id ` set (channels d)"

lemma find_map_if:
  assumes "\<And>x. P x \<Longrightarrow> Q (f x) = Q x"
  shows "find Q (map (\<lambda>x. if P x then f x else x) xs) = map_option (\<lambda>x. if P x then f x else x) (find Q xs)"
  using assms by (induction xs) auto

lemma read_state_key: "read_state d u c = Some r \<Longrightarrow> rs_user_id r = u \<and> rs_channel_id r = c"
  by (auto simp: read_state_def dest: find_SomeD)

lemma upsert_reads:
  assumes "db_ok d" and "referable d u c" and "\<And>r. rs_user_id (f r) = rs_user_id r \<and> rs_channel_id (f r) = rs_channel_id r"
    and "rs_user_id new = u" and "rs_channel_id new = c"
  shows "snd (upsert_read_state u c new f d) = Inr ()"
    "read_state (fst (upsert_read_state u c new f d)) u' c' =
      (if u' = u \<and> c' = c then Some (case read_state d u c of None \<Rightarrow> new | Some r \<Rightarrow> f r) else read_state d u' c')"
proof -
  let ?mine = "\<lambda>r. rs_user_id r = u \<and> rs_channel_id r = c"
  have fits: "list_ex (\<lambda>x. us_id x = u) (users d) \<and> list_ex (\<lambda>x. ch_id x = c) (channels d)"
    using assms(2) by (auto simp: referable_def list_ex_iff)
  then show "snd (upsert_read_state u c new f d) = Inr ()"
    using assms(1) by (simp add: upsert_read_state_def Let_def execute_checked_def)
  have rows: "read_states (fst (upsert_read_state u c new f d)) =
      (if list_ex ?mine (read_states d) then map (\<lambda>r. if ?mine r then f r else r) (read_states d)
       else read_states d @ [new])"
    using assms(1) fits by (simp add: upsert_read_state_def Let_def execute_checked_def)
  show "read_state (fst (upsert_read_state u c new f d)) u' c' =
      (if u' = u \<and> c' = c then Some (case read_state d u c of None \<Rightarrow> new | Some r \<Rightarrow> f r) else read_state d u' c')"
  proof (cases "list_ex ?mine (read_states d)")
    case True
    then obtain r where r: "read_state d u c = Some r"
      by (cases "read_state d u c") (auto simp: read_state_def list_ex_iff find_None_iff)
    have "read_state (fst (upsert_read_state u c new f d)) u' c' =
        map_option (\<lambda>r. if ?mine r then f r else r) (read_state d u' c')"
      unfolding read_state_def rows using True assms(3) by (simp add: find_map_if)
    with r show ?thesis
      by (cases "read_state d u' c'") (auto dest: read_state_key)
  next
    case False
    then have none: "read_state d u c = None" by (auto simp: read_state_def list_ex_iff find_None_iff)
    have "find Q (xs @ [new]) = (case find Q xs of Some r \<Rightarrow> Some r | None \<Rightarrow> if Q new then Some new else None)" for Q xs
      by (induction xs) auto
    with False none assms(4,5) show ?thesis
      by (auto simp: read_state_def rows split: option.split)
  qed
qed

lemma upsert_unreferable:
  assumes "\<not> referable d u c" and "read_state d u c = None"
  shows "fst (upsert_read_state u c new f d) = d"
proof -
  have "\<not> list_ex (\<lambda>r. rs_user_id r = u \<and> rs_channel_id r = c) (read_states d)"
    using assms(2) by (auto simp: read_state_def find_None_iff list_ex_iff)
  moreover have "\<not> (list_ex (\<lambda>x. us_id x = u) (users d) \<and> list_ex (\<lambda>x. ch_id x = c) (channels d))"
    using assms(1) by (auto simp: referable_def list_ex_iff)
  ultimately show ?thesis by (simp add: upsert_read_state_def Let_def execute_checked_def)
qed

lemma increment_counts:
  assumes "db_ok d" and "referable d u c" and "mention_count d u c < 2 ^ 63 - 1" and "0 \<le> mention_count d u c"
  shows "mention_count (fst (increment_mention_count u c d)) u' c' =
    mention_count d u' c' + (if u' = u \<and> c' = c then 1 else 0)"
proof -
  have "i64_add (rs_mention_count r) 1 = rs_mention_count r + 1" if "read_state d u c = Some r" for r
    using assms(3,4) that by (intro i64_add_exact) (simp_all add: mention_count_def)
  then show ?thesis
    unfolding mention_count_def increment_mention_count_def
    by (subst upsert_reads(2) [OF assms(1,2)]) (auto split: option.split)
qed


section \<open>Mentions\<close>

lemma increment_keeps:
  "referable (fst (increment_mention_count u c d)) u' c' = referable d u' c'"
  "db_ok (fst (increment_mention_count u c d)) = db_ok d"
  by (simp_all add: increment_mention_count_def upsert_read_state_def Let_def execute_checked_def referable_def
      split: option.split)

text \<open>No badge has reached the end of an \<open>i64\<close>.\<close>

definition counts_small :: "db \<Rightarrow> string \<Rightarrow> bool" where
  "counts_small d c \<longleftrightarrow> (\<forall>u. 0 \<le> mention_count d u c \<and> mention_count d u c < 2 ^ 63 - 1)"

lemma count_mentions:
  assumes "db_ok d" and "distinct us" and "\<forall>u \<in> set us. referable d u (ms_channel_id m)"
    and "counts_small d (ms_channel_id m)"
  shows "mention_count (fold (count_mention m) us d) u c = mention_count d u c +
    (if u \<in> set us \<and> u \<noteq> ms_author_id m \<and> c = ms_channel_id m then 1 else 0)"
  using assms(2,3)
proof (induction us arbitrary: u c rule: rev_induct)
  case (snoc v us)
  let ?e = "fold (count_mention m) us d" and ?c = "ms_channel_id m"
  have keeps: "db_ok (fold (count_mention m) vs e) = db_ok e"
    "referable (fold (count_mention m) vs e) w x = referable e w x" for vs e w x
    by (induction vs arbitrary: e) (simp_all add: count_mention_def increment_keeps)
  have IH: "mention_count ?e w x = mention_count d w x +
      (if w \<in> set us \<and> w \<noteq> ms_author_id m \<and> x = ?c then 1 else 0)" for w x
    using snoc.IH [of w x] snoc.prems by simp
  show ?case
  proof (cases "v = ms_author_id m")
    case True
    then have "count_mention m v e = e" for e by (simp add: count_mention_def)
    with True IH [of u c] show ?thesis by auto
  next
    case False
    have "v \<notin> set us" "referable ?e v ?c" using snoc.prems by (auto simp: keeps)
    moreover from this have "mention_count ?e v ?c = mention_count d v ?c" by (simp add: IH)
    ultimately have "mention_count (fst (increment_mention_count v ?c ?e)) u c =
        mention_count ?e u c + (if u = v \<and> c = ?c then 1 else 0)"
      using assms(1,4) by (intro increment_counts) (simp_all add: keeps counts_small_def)
    moreover have "count_mention m v e = fst (increment_mention_count v ?c e)" for e
      using False by (simp add: count_mention_def)
    ultimately show ?thesis using False \<open>v \<notin> set us\<close> by (auto simp: IH)
  qed
qed simp

lemma message_mentions_ids:
  assumes "distinct (map us_id (users d))"
  shows "distinct (message_mentions d sp content)" "set (message_mentions d sp content) \<subseteq> us_id ` set (users d)"
  using assms
  by (auto simp: message_mentions_def resolve_mention_user_ids_def or_default_def query_def distinct_map_filter
      split: option.split)

text \<open>What is said after a post leaves the read states alone.\<close>

lemma enqueue_reads: "read_states (ap_db (fst (enqueue e targets t))) = read_states (ap_db t)"
proof (cases "db_ok (ap_db t)")
  case True
  have "read_states (fst (enqueue_targets dm e [] targets (ap_db t))) = read_states (ap_db t)" for dm
    using enqueue_targets_appends [OF True, of dm e "[]" targets] by fastforce
  then show ?thesis by (simp add: enqueue_def on_db_def Let_def split: option.split)
next
  case False
  then have "fst (enqueue_targets dm e seen targets (ap_db t)) = ap_db t" for dm seen
    by (induction targets arbitrary: seen) (auto simp: outbox_enqueue_def try_run_def)
  then show ?thesis by (simp add: enqueue_def on_db_def Let_def split: option.split)
qed

lemma try_in_reads:
  "(\<And>x. m = Inr x \<Longrightarrow> read_states (ap_db (fst (k x))) = read_states (ap_db t)) \<Longrightarrow>
   read_states (ap_db (fst (try_in t m k))) = read_states (ap_db t)"
  by (cases m) auto

lemma fanout_reads:
  "read_states (ap_db (fst (fanout_message_create m t))) = read_states (ap_db t)"
  "read_states (ap_db (fanout_conversation ch m auth t)) = read_states (ap_db t)"
  unfolding fanout_message_create_def fanout_to_space_def fanout_to_targets_def fanout_conversation_def fanout_dm_message_def
  by (auto intro!: try_in_reads enqueue_reads split: option.split sum.split bool.split)

lemma announce_reads:
  "read_states (ap_db (fst (announce_message permit ch auth input m t))) = read_states (ap_db (apply_mention_counts m t))"
  by (simp add: announce_message_def Let_def fanout_reads)

lemma mention_count_cong: "read_states d = read_states d' \<Longrightarrow> mention_count d u c = mention_count d' u c"
  by (simp add: mention_count_def read_state_def)

text \<open>A stored post, in the states it passes through.\<close>

lemma stored_created:
  assumes "stores chr hs auth st permit c input s"
  shows "\<exists>ch. get_channel_row (ap_db s) c = Inr ch \<and>
    (let m = new_message st c (au_user_id auth) (ch_space_id ch) input
               (message_mentions (ap_db s) (ch_space_id ch) (cm_content input))
     in message_violation m (ap_db s) = None \<and>
        fst (handle_message chr hs auth (Post st permit c input) s) =
          fst (announce_message permit ch auth input m (s\<lparr>ap_db := with_post m (st_ms st) (ap_db s)\<rparr>)))"
proof -
  let ?p = "create_message chr hs permit st s c auth input"
  from assms have new: "ap_db (fst ?p) \<noteq> ap_db s" by (auto simp: stores_def ids_def)
  obtain ch where checks: "create_checks chr (ap_db s) c auth input = Inr ch"
    using new by (cases "create_checks chr (ap_db s) c auth input") (auto simp: create_message_def)
  obtain f where forward: "forward_create hs (ap_db s) ch auth input = Inr f"
    using new checks by (cases "forward_create hs (ap_db s) ch auth input") (auto simp: create_message_def)
  have "f = None" using new checks forward by (cases f) (auto simp: create_message_def)
  obtain cd where cd: "slowmode_cooldown_ms (ap_db s) ch auth = Inr cd"
    using new checks forward \<open>f = None\<close>
    by (cases "slowmode_cooldown_ms (ap_db s) ch auth") (auto simp: create_message_def)
  from checks have row: "get_channel_row (ap_db s) c = Inr ch" and "db_ok (ap_db s)"
    by (auto dest: create_checks_ok get_channel_row_ok)
  let ?m = "new_message st c (au_user_id auth) (ch_space_id ch) input
    (message_mentions (ap_db s) (ch_space_id ch) (cm_content input))"
  have run: "?p = try_run (on_db (db_create_message st c (au_user_id auth) (ch_space_id ch) input cd) s)
      (\<lambda>s msg. let (s', j) = announce_message permit ch auth input msg s in (s', Inr j))"
    using checks forward cd \<open>f = None\<close> by (simp add: create_message_def)
  show ?thesis
  proof (rule db_create_message_cases [OF \<open>db_ok (ap_db s)\<close>, of st c "au_user_id auth" "ch_space_id ch" input cd])
    fix e assume "db_create_message st c (au_user_id auth) (ch_space_id ch) input cd (ap_db s) = (ap_db s, Inl e)"
    then have "fst ?p = s" by (simp add: run on_db_def)
    with new show ?thesis by simp
  next
    fix m assume "m = ?m" "message_violation m (ap_db s) = None"
      "db_create_message st c (au_user_id auth) (ch_space_id ch) input cd (ap_db s) = (with_post m (st_ms st) (ap_db s), Inr m)"
    then show ?thesis
      using row by (intro exI [of _ ch]) (simp add: run on_db_def Let_def case_prod_beta)
  qed
qed


text \<open>C18.  A message that is stored adds exactly one to the badge of each member it mentions, and to nobody
  else's: not to the author's (who may mention themselves), not in another channel, and not twice when
  somebody is mentioned twice.\<close>

theorem mentions_badge_exactly:
  assumes "stores chr hs auth st permit c input s" and "get_channel_row (ap_db s) c = Inr ch"
    and "distinct (map us_id (users (ap_db s)))" and "counts_small (ap_db s) c"
  shows "mention_count (ap_db (fst (handle_message chr hs auth (Post st permit c input) s))) u c' =
    mention_count (ap_db s) u c' +
      (if u \<in> set (message_mentions (ap_db s) (ch_space_id ch) (cm_content input)) \<and> u \<noteq> au_user_id auth \<and> c' = c
       then 1 else 0)"
proof -
  let ?us = "message_mentions (ap_db s) (ch_space_id ch) (cm_content input)"
  let ?m = "new_message st c (au_user_id auth) (ch_space_id ch) input ?us"
  let ?d = "with_post ?m (st_ms st) (ap_db s)"
  from stored_created [OF assms(1)] assms(2) have
    after: "fst (handle_message chr hs auth (Post st permit c input) s) =
      fst (announce_message permit ch auth input ?m (s\<lparr>ap_db := ?d\<rparr>))"
    by (auto simp: Let_def)
  have same: "mention_count ?d v x = mention_count (ap_db s) v x" for v x
    by (rule mention_count_cong) (simp add: with_post_def)
  have "\<forall>v \<in> set ?us. referable ?d v c"
    using get_channel_row_Inr [OF assms(2)] message_mentions_ids(2) [OF assms(3), of "ch_space_id ch" "cm_content input"]
    by (auto simp: referable_def with_post_channel_ids) (auto simp: with_post_def)
  moreover have "counts_small ?d c" using assms(4) by (simp add: counts_small_def same)
  moreover have "db_ok ?d" using get_channel_row_ok [OF assms(2)] by (simp add: with_post_def)
  moreover have "mention_count (ap_db (fst (handle_message chr hs auth (Post st permit c input) s))) u c' =
      mention_count (fold (count_mention ?m) ?us ?d) u c'"
    unfolding after by (rule mention_count_cong) (simp add: announce_reads apply_mention_counts_def)
  ultimately show ?thesis
    using count_mentions [of ?d ?us ?m u c'] message_mentions_ids(1) [OF assms(3)] by (simp add: same)
qed

section \<open>Unread channels\<close>

definition listens :: "db \<Rightarrow> ChannelRow \<Rightarrow> string \<Rightarrow> bool" where
  "listens d ch u \<longleftrightarrow> (case ch_space_id ch of Some sp \<Rightarrow> has_member d sp u
     | None \<Rightarrow> (ch_id ch, u) \<in> set (dm_participants d))"

definition unread :: "db \<Rightarrow> string \<Rightarrow> string list" where
  "unread d u = (case get_unread_channels d u of Inl _ \<Rightarrow> [] | Inr us \<Rightarrow> map fst us)"

definition last_read :: "db \<Rightarrow> string \<Rightarrow> string \<Rightarrow> string option" where
  "last_read d u c = Option.bind (read_state d u c) rs_last_read_message_id"

definition waiting :: "db \<Rightarrow> string \<Rightarrow> ChannelRow \<Rightarrow> bool" where
  "waiting d u ch \<longleftrightarrow> (case ch_last_message_id ch of None \<Rightarrow> False
     | Some newest \<Rightarrow> (case last_read d u (ch_id ch) of None \<Rightarrow> True | Some r \<Rightarrow> r < newest))"

lemma set_unread:
  "set (unread d u) = (if db_ok d then ch_id ` {ch \<in> set (channels d). listens d ch u \<and> waiting d u ch} else {})"
proof (cases "db_ok d")
  case True
  let ?P = "\<lambda>c. case ch_last_message_id c of None \<Rightarrow> False
     | Some newest \<Rightarrow> (case ch_space_id c of Some s \<Rightarrow> has_member d s u
            | None \<Rightarrow> (ch_id c, u) \<in> set (dm_participants d)) \<and>
         (case last_read d u (ch_id c) of None \<Rightarrow> True | Some r \<Rightarrow> r < newest)"
  have "?P = (\<lambda>c. listens d c u \<and> waiting d u c)"
    by (rule ext) (auto simp: listens_def waiting_def split: option.split)
  moreover have "unread d u = map ch_id (filter ?P (channels d))"
    unfolding last_read_def read_state_def using True by (simp add: unread_def get_unread_channels_def Let_def comp_def)
  ultimately show ?thesis using True by simp
next
  case False
  then show ?thesis by (simp add: unread_def get_unread_channels_def Let_def)
qed

lemma acked:
  assumes "db_ok d" and "referable d u c" and "i \<noteq> []"
  shows "snd (ack_channel u c i d) = Inr ()"
    "\<exists>r. last_read (fst (ack_channel u c i d)) u c = Some r \<and> i \<le> r"
    "mention_count (fst (ack_channel u c i d)) u c = 0"
proof -
  have "[] < i" using assms(3) by (cases i) simp_all
  then show "\<exists>r. last_read (fst (ack_channel u c i d)) u c = Some r \<and> i \<le> r"
    by (simp add: ack_channel_def upsert_reads [OF assms(1,2)] last_read_def later_id_def split: option.split)
      (auto simp: not_less split: option.splits)
qed (simp_all add: ack_channel_def upsert_reads [OF assms(1,2)] mention_count_def split: option.split)

lemma announce_others:
  "let d = ap_db t; d' = ap_db (fst (announce_message permit ch auth input m t)) in
   members d' = members d \<and> dm_participants d' = dm_participants d \<and> channels d' = channels d \<and> users d' = users d \<and>
   db_ok d' = db_ok d"
proof -
  note quiet = announce_message_quiet [of t permit ch auth input m]
  note eq = quiet [unfolded quiet_def]
  from arg_cong [OF eq, of members] arg_cong [OF eq, of dm_participants] quiet_fields [OF quiet]
  show ?thesis by (simp add: Let_def)
qed

text \<open>C19.  A new message makes its channel unread until it is acknowledged, and no longer: once a message is
  stored outside threads, the channel is listed as unread for everybody who follows it and had not read
  up to that id, and acknowledging that message (or a later one) takes the channel off the list and its
  badge to zero.\<close>

theorem unread_until_acked:
  assumes "stores chr hs auth st permit c input s" and "get_channel_row (ap_db s) c = Inr ch"
    and "cm_thread_id input = None" and "listens (ap_db s) ch u" and "u \<in> us_id ` set (users (ap_db s))"
    and "d' = ap_db (fst (handle_message chr hs auth (Post st permit c input) s))"
    and "i \<noteq> []" and "st_id st \<le> i"
  shows "(c \<in> set (unread d' u) \<longleftrightarrow> (\<forall>r. last_read d' u c = Some r \<longrightarrow> r < st_id st)) \<and>
    snd (ack_channel u c i d') = Inr () \<and> c \<notin> set (unread (fst (ack_channel u c i d')) u) \<and>
    mention_count (fst (ack_channel u c i d')) u c = 0"
proof -
  let ?us = "message_mentions (ap_db s) (ch_space_id ch) (cm_content input)"
  let ?m = "new_message st c (au_user_id auth) (ch_space_id ch) input ?us"
  let ?d = "with_post ?m (st_ms st) (ap_db s)"
  from stored_created [OF assms(1)] assms(2,6)
  have after: "d' = ap_db (fst (announce_message permit ch auth input ?m (s\<lparr>ap_db := ?d\<rparr>)))"
    by (auto simp: Let_def)
  have same: "members d' = members (ap_db s)" "dm_participants d' = dm_participants (ap_db s)"
    "channels d' = map (\<lambda>x. if ch_id x = c then x\<lparr>ch_last_message_id := Some (st_id st)\<rparr> else x) (channels (ap_db s))"
    "users d' = users (ap_db s)" "db_ok d' = db_ok (ap_db s)"
    using announce_others [where t = "s\<lparr>ap_db := ?d\<rparr>" and permit = permit and ch = ch and auth = auth and
        input = input and m = ?m] assms(3)
    by (simp_all add: after Let_def) (simp_all add: with_post_def)
  have db: "db_ok d'" and ch: "ch \<in> set (channels (ap_db s))" "ch_id ch = c"
    using get_channel_row_Inr [OF assms(2)] by (simp_all add: same)
  have newest: "ch_last_message_id x = Some (st_id st)" if "x \<in> set (channels d')" "ch_id x = c" for x
  proof -
    from that(1) obtain y where "x = (if ch_id y = c then y\<lparr>ch_last_message_id := Some (st_id st)\<rparr> else y)"
      unfolding same(3) set_map by blast
    then show ?thesis using that(2) by (cases "ch_id y = c") simp_all
  qed
  let ?ch = "ch\<lparr>ch_last_message_id := Some (st_id st)\<rparr>"
  have here: "?ch \<in> set (channels d')" "listens d' ?ch u" "ch_id ?ch = c"
  proof -
    show "?ch \<in> set (channels d')" unfolding same(3) set_map using ch by (intro image_eqI [of _ _ ch]) simp_all
    show "listens d' ?ch u" using assms(4) by (simp add: listens_def has_member_def same(1,2) cong: option.case_cong)
    show "ch_id ?ch = c" using ch by simp
  qed
  have waits: "waiting d' u x \<longleftrightarrow> (\<forall>r. last_read d' u c = Some r \<longrightarrow> r < st_id st)"
    if "x \<in> set (channels d')" "ch_id x = c" for x
    using that newest [OF that] by (auto simp: waiting_def split: option.split)
  have unread: "c \<in> set (unread d' u) \<longleftrightarrow> (\<forall>r. last_read d' u c = Some r \<longrightarrow> r < st_id st)"
  proof
    assume "c \<in> set (unread d' u)"
    then show "\<forall>r. last_read d' u c = Some r \<longrightarrow> r < st_id st" using waits by (auto simp: set_unread split: if_splits)
  next
    assume "\<forall>r. last_read d' u c = Some r \<longrightarrow> r < st_id st"
    then have "waiting d' u ?ch" using waits [OF here(1,3)] by blast
    with here db show "c \<in> set (unread d' u)" unfolding set_unread by (auto intro: rev_image_eqI)
  qed
  have "c \<in> ch_id ` set (channels d')" using here(1,3) by (metis imageI)
  then have refs: "referable d' u c" using assms(5) by (simp add: referable_def same(4))
  note ack = acked [OF db refs assms(7)]
  have "channels (fst (ack_channel u c i d')) = channels d'" 
    by (simp add: ack_channel_def upsert_read_state_def Let_def execute_checked_def split: option.split)
  moreover obtain r where "last_read (fst (ack_channel u c i d')) u c = Some r" "i \<le> r" using ack(2) by blast
  ultimately have "\<not> waiting (fst (ack_channel u c i d')) u x" if "x \<in> set (channels d')" "ch_id x = c" for x
    using that newest [OF that] assms(8) by (auto simp: waiting_def)
  then have "c \<notin> set (unread (fst (ack_channel u c i d')) u)"
    using \<open>channels (fst (ack_channel u c i d')) = channels d'\<close> by (auto simp: set_unread)
  with unread ack show ?thesis by simp
qed

text \<open>A message of \<open>own\<close> that mentions \<open>mem\<close>.\<close>

definition hey :: CreateMessage where
  "hey = \<lparr>cm_content = ''hey @mem'', cm_tts = None, cm_embeds = None, cm_reply_to = None, cm_thread_id = None, cm_title = None\<rparr>"

lemma hey_stored: "stores a_chrono no_home (plain_user ''own'') (at_ms 0 ''9'') False ''c'' hey a_chat"
proof -
  let ?ch = "a_channel ''c'' (Some ''s'') ''text''"
  let ?p = "db_create_message (at_ms 0 ''9'') ''c'' ''own'' (Some ''s'') hey 0 (ap_db a_chat)"
  have "create_checks a_chrono (ap_db a_chat) ''c'' (plain_user ''own'') hey = Inr ?ch"
    "forward_create no_home (ap_db a_chat) ?ch (plain_user ''own'') hey = Inr None"
    "slowmode_cooldown_ms (ap_db a_chat) ?ch (plain_user ''own'') = Inr 0"
    "snd ?p = Inr (new_message (at_ms 0 ''9'') ''c'' ''own'' (Some ''s'') hey [''mem''])"
    "has_message (fst ?p) ''9''" "\<not> has_message (ap_db a_chat) ''9''"
    by code_simp+
  moreover from this(4) have "db_create_message (at_ms 0 ''9'') ''c'' (au_user_id (plain_user ''own'')) (ch_space_id ?ch)
      hey 0 (ap_db a_chat) = (fst ?p, Inr (new_message (at_ms 0 ''9'') ''c'' ''own'' (Some ''s'') hey [''mem'']))"
    by (simp add: plain_user_def a_channel_def prod_eq_iff)
  ultimately have "messages (ap_db (fst (handle_message a_chrono no_home (plain_user ''own'')
      (Post (at_ms 0 ''9'') False ''c'' hey) a_chat))) = messages (fst ?p)"
    by (simp add: created_rows)
  with \<open>has_message (fst ?p) ''9''\<close> \<open>\<not> has_message (ap_db a_chat) ''9''\<close> show ?thesis
    by (simp add: stores_iff has_message_def at_ms_def)
qed

lemma a_chat_channel: "get_channel_row (ap_db a_chat) ''c'' = Inr (a_channel ''c'' (Some ''s'') ''text'')"
  by code_simp

theorem mentions_badge_exactly_witness:
  "mention_count (ap_db (fst (handle_message a_chrono no_home (plain_user ''own'')
     (Post (at_ms 0 ''9'') False ''c'' hey) a_chat))) ''mem'' ''c'' = 1"
proof -
  have "distinct (map us_id (users (ap_db a_chat)))" by code_simp
  moreover have none: "read_states (ap_db a_chat) = []" by code_simp
  then have "counts_small (ap_db a_chat) ''c''" by (simp add: counts_small_def mention_count_def read_state_def)
  ultimately have "mention_count (ap_db (fst (handle_message a_chrono no_home (plain_user ''own'')
      (Post (at_ms 0 ''9'') False ''c'' hey) a_chat))) ''mem'' ''c'' = mention_count (ap_db a_chat) ''mem'' ''c'' +
      (if ''mem'' \<in> set (message_mentions (ap_db a_chat) (ch_space_id (a_channel ''c'' (Some ''s'') ''text'')) (cm_content hey)) \<and>
          ''mem'' \<noteq> au_user_id (plain_user ''own'') \<and> ''c'' = ''c'' then 1 else 0)"
    by (rule mentions_badge_exactly [OF hey_stored a_chat_channel])
  moreover have "message_mentions (ap_db a_chat) (ch_space_id (a_channel ''c'' (Some ''s'') ''text'')) (cm_content hey) = [''mem'']"
    by code_simp
  ultimately show ?thesis by (simp add: none mention_count_def read_state_def plain_user_def)
qed

theorem unread_until_acked_witness:
  "''c'' \<notin> set (unread (fst (ack_channel ''pat'' ''c'' ''9''
     (ap_db (fst (handle_message a_chrono no_home (plain_user ''own'') (Post (at_ms 0 ''9'') False ''c'' hey) a_chat)))))
     ''pat'')"
proof -
  have "listens (ap_db a_chat) (a_channel ''c'' (Some ''s'') ''text'') ''pat''" by code_simp
  moreover have "''pat'' \<in> us_id ` set (users (ap_db a_chat))" by (simp add: a_chat_def an_app_def a_db_def a_user_def)
  moreover have "cm_thread_id hey = None" "st_id (at_ms 0 ''9'') \<le> ''9''" by (simp_all add: hey_def at_ms_def)
  ultimately show ?thesis
    using unread_until_acked [OF hey_stored a_chat_channel _ _ _ refl, of "''pat''" "''9''"] by simp
qed

end
