(* ===== verification/Relationships.thy ===== *)
theory Relationships
  imports AppState "HOL-Library.List_Lexorder" "HOL-Library.Char_ord"
begin

text \<open>
  Friends, pending requests and blocks: \<open>Server/src/db/relationships.rs\<close> and the handlers of
  \<open>Server/src/routes/relationships.rs\<close>.  Each user of a pair has a row of their own: 1 friend, 2 blocked,
  3 a request came in, 4 a request went out.  The timestamp of a new row is an argument.
\<close>

section \<open>Statements\<close>

text \<open>A row joined with the name, display name and avatar of its target.\<close>

record RelationshipRow =
  rr_user_id :: string
  rr_target_user_id :: string
  rr_type :: int
  rr_created_at :: string
  rr_target_username :: string
  rr_target_display_name :: "string option"
  rr_target_avatar :: "string option"

definition joined_row :: "db \<Rightarrow> Relationship \<Rightarrow> RelationshipRow option" where
  "joined_row d r =
     map_option (\<lambda>u. \<lparr>rr_user_id = rl_user_id r, rr_target_user_id = rl_target_user_id r, rr_type = rl_type r,
                      rr_created_at = rl_created_at r, rr_target_username = us_username u,
                      rr_target_display_name = us_display_name u, rr_target_avatar = us_avatar u\<rparr>)
       (find (\<lambda>u. us_id u = rl_target_user_id r) (users d))"

definition find_relationship :: "db \<Rightarrow> string \<Rightarrow> string \<Rightarrow> Relationship option" where
  "find_relationship d user_id target_id =
     find (\<lambda>r. rl_user_id r = user_id \<and> rl_target_user_id r = target_id) (relationships d)"

definition db_list_relationships :: "db \<Rightarrow> string \<Rightarrow> AppError + RelationshipRow list" where
  "db_list_relationships d user_id =
     query d (List.map_filter (joined_row d)
       (rev (sort_key rl_created_at (rev (filter (\<lambda>r. rl_user_id r = user_id) (relationships d))))))"

definition get_relationship :: "db \<Rightarrow> string \<Rightarrow> string \<Rightarrow> AppError + RelationshipRow option" where
  "get_relationship d user_id target_id =
     query d (Option.bind (find_relationship d user_id target_id) (joined_row d))"

text \<open>Both ends must be users.\<close>

definition upsert_relationship ::
    "string \<Rightarrow> string \<Rightarrow> string \<Rightarrow> int \<Rightarrow> db \<Rightarrow> db \<times> (AppError + unit)" where
  "upsert_relationship now user_id target_id rel_type d =
     execute_checked d
       (\<lambda>d. if find_relationship d user_id target_id = None \<and>
               \<not> (list_ex (\<lambda>u. us_id u = user_id) (users d) \<and> list_ex (\<lambda>u. us_id u = target_id) (users d))
            then Some (foreign_key_violation d) else None)
       (\<lambda>d. d\<lparr>relationships :=
          (if find_relationship d user_id target_id = None
           then relationships d @ [\<lparr>rl_user_id = user_id, rl_target_user_id = target_id, rl_type = rel_type,
                                    rl_created_at = now\<rparr>]
           else map (\<lambda>r. if rl_user_id r = user_id \<and> rl_target_user_id r = target_id
                         then r\<lparr>rl_type := rel_type\<rparr> else r) (relationships d))\<rparr>)"

definition drop_relationships :: "(Relationship \<Rightarrow> bool) \<Rightarrow> db \<Rightarrow> db" where
  "drop_relationships P d = d\<lparr>relationships := filter (\<lambda>r. \<not> P r) (relationships d)\<rparr>"

text \<open>Whether a row was deleted.\<close>

definition db_delete_relationship :: "string \<Rightarrow> string \<Rightarrow> db \<Rightarrow> db \<times> (AppError + bool)" where
  "db_delete_relationship user_id target_id d =
     try_run (execute d (drop_relationships (\<lambda>r. rl_user_id r = user_id \<and> rl_target_user_id r = target_id)))
       (\<lambda>e _. (e, Inr (find_relationship d user_id target_id \<noteq> None)))"

definition delete_both_directions :: "string \<Rightarrow> string \<Rightarrow> db \<Rightarrow> db \<times> (AppError + unit)" where
  "delete_both_directions user_a user_b d =
     execute d (drop_relationships (\<lambda>r. rl_user_id r = user_a \<and> rl_target_user_id r = user_b \<or>
                                        rl_user_id r = user_b \<and> rl_target_user_id r = user_a))"

definition is_blocked_by :: "db \<Rightarrow> string \<Rightarrow> string \<Rightarrow> AppError + bool" where
  "is_blocked_by d blocker_id blocked_id =
     query d (length (filter (\<lambda>r. rl_user_id r = blocker_id \<and> rl_target_user_id r = blocked_id \<and> rl_type r = 2)
                       (relationships d)) > 0)"

section \<open>Handlers\<close>

definition user_summary :: "string \<Rightarrow> string \<Rightarrow> string option \<Rightarrow> string option \<Rightarrow> json" where
  "user_summary user_id username display_name avatar =
     JObj [(''id'', JStr user_id), (''username'', JStr username),
           (''display_name'', JStr (case display_name of Some n \<Rightarrow> n | None \<Rightarrow> username)),
           (''avatar'', jstr_opt avatar)]"

definition rel_json :: "RelationshipRow \<Rightarrow> json" where
  "rel_json r =
     JObj [(''id'', JStr (rr_target_user_id r)),
           (''user'', user_summary (rr_target_user_id r) (rr_target_username r) (rr_target_display_name r)
              (rr_target_avatar r)),
           (''type'', JNum (rr_type r)), (''since'', JStr (rr_created_at r))]"

definition relationship_event :: "string \<Rightarrow> string \<Rightarrow> json \<Rightarrow> GatewayBroadcast" where
  "relationship_event recipient_id event_type data =
     \<lparr>gb_space_id = None, gb_target_user_ids = Some [recipient_id],
      gb_event = JObj [(''op'', JNum 0), (''type'', JStr event_type), (''data'', data)],
      gb_intent = ''relationships'', gb_required_permission = None\<rparr>"

definition removed_event :: "string \<Rightarrow> string \<Rightarrow> GatewayBroadcast" where
  "removed_event recipient_id user_id =
     relationship_event recipient_id ''relationship.remove'' (JObj [(''user_id'', JStr user_id)])"

definition broadcast_relationship_event :: "string \<Rightarrow> string \<Rightarrow> string \<Rightarrow> int \<Rightarrow> app \<Rightarrow> app" where
  "broadcast_relationship_event recipient_id about_user_id event_type rel_type s =
     (let user = (case get_user (ap_db s) about_user_id of
                    Inr u \<Rightarrow> user_summary (us_id u) (us_username u) (us_display_name u) (us_avatar u)
                  | Inl _ \<Rightarrow> JObj [(''id'', JStr about_user_id)])
      in send (relationship_event recipient_id event_type
                 (JObj [(''id'', JStr about_user_id), (''user'', user), (''type'', JNum rel_type)])) s)"

definition list_relationships :: "db \<Rightarrow> AuthUser \<Rightarrow> AppError + json list" where
  "list_relationships d auth =
     and_then (db_list_relationships d (au_user_id auth)) (\<lambda>rs. Inr (map rel_json rs))"

definition relationship_answer :: "app \<Rightarrow> string \<Rightarrow> string \<Rightarrow> string \<Rightarrow> app \<times> (AppError + json)" where
  "relationship_answer s user_id target_id missing =
     (s, and_then (get_relationship (ap_db s) user_id target_id) (\<lambda>r.
         and_then (ok_or (Internal missing) r) (\<lambda>rel. Inr (rel_json rel))))"

definition accept_request :: "string \<Rightarrow> app \<Rightarrow> string \<Rightarrow> string \<Rightarrow> app \<times> (AppError + unit)" where
  "accept_request now s user_id target_id =
     try_run (on_db (upsert_relationship now user_id target_id 1) s) (\<lambda>s _.
     try_run (on_db (upsert_relationship now target_id user_id 1) s) (\<lambda>s _.
     (broadcast_relationship_event target_id user_id ''relationship.update'' 1
        (broadcast_relationship_event user_id target_id ''relationship.update'' 1 s), Inr ())))"

definition send_request :: "string \<Rightarrow> app \<Rightarrow> string \<Rightarrow> string \<Rightarrow> app \<times> (AppError + unit)" where
  "send_request now s user_id target_id =
     try_run (on_db (upsert_relationship now user_id target_id 4) s) (\<lambda>s _.
     try_run (on_db (upsert_relationship now target_id user_id 3) s) (\<lambda>s _.
     (broadcast_relationship_event target_id user_id ''relationship.add'' 3
        (broadcast_relationship_event user_id target_id ''relationship.add'' 4 s), Inr ())))"

definition has_type :: "int \<Rightarrow> RelationshipRow option \<Rightarrow> bool" where
  "has_type ty r = (case r of Some x \<Rightarrow> rr_type x = ty | None \<Rightarrow> False)"

definition handle_friend_or_accept :: "string \<Rightarrow> app \<Rightarrow> string \<Rightarrow> string \<Rightarrow> app \<times> (AppError + json)" where
  "handle_friend_or_accept now s user_id target_id =
     try_in s (is_blocked_by (ap_db s) target_id user_id) (\<lambda>blocked.
     if blocked then (s, Inl (Forbidden ''you cannot send a friend request to this user'')) else
     try_in s (get_relationship (ap_db s) user_id target_id) (\<lambda>my_existing.
     try_in s (get_relationship (ap_db s) target_id user_id) (\<lambda>target_existing.
     let is_accepting = has_type 3 my_existing \<or> has_type 4 target_existing in
     try_run (if is_accepting then accept_request now s user_id target_id
              else if has_type 1 my_existing then (s, Inr ())
              else send_request now s user_id target_id) (\<lambda>s _.
     relationship_answer s user_id target_id ''relationship missing after upsert''))))"

definition handle_block :: "string \<Rightarrow> app \<Rightarrow> string \<Rightarrow> string \<Rightarrow> app \<times> (AppError + json)" where
  "handle_block now s user_id target_id =
     try_run (on_db (upsert_relationship now user_id target_id 2) s) (\<lambda>s _.
     try_run (on_db (db_delete_relationship target_id user_id) s) (\<lambda>s target_had_rel.
     let s1 = broadcast_relationship_event user_id target_id ''relationship.add'' 2 s;
         s2 = (if target_had_rel then send (removed_event target_id user_id) s1 else s1)
     in relationship_answer s2 user_id target_id ''relationship missing after block''))"

definition put_relationship ::
    "string \<Rightarrow> app \<Rightarrow> string \<Rightarrow> AuthUser \<Rightarrow> int \<Rightarrow> app \<times> (AppError + json)" where
  "put_relationship now s target_id auth rel_type =
     (if target_id = au_user_id auth
      then (s, Inl (BadRequest ''cannot create a relationship with yourself'')) else
      try_in s (get_user (ap_db s) target_id) (\<lambda>_.
      if rel_type = 1 then handle_friend_or_accept now s (au_user_id auth) target_id
      else if rel_type = 2 then handle_block now s (au_user_id auth) target_id
      else (s, Inl (BadRequest ''type must be 1 (friend) or 2 (block)''))))"

definition delete_relationship :: "app \<Rightarrow> string \<Rightarrow> AuthUser \<Rightarrow> app \<times> (AppError + unit)" where
  "delete_relationship s target_id auth =
     try_in s (get_relationship (ap_db s) (au_user_id auth) target_id) (\<lambda>existing.
     if existing = None then (s, Inl (NotFound ''relationship not found'')) else
     try_run (on_db (delete_both_directions (au_user_id auth) target_id) s) (\<lambda>s _.
     (send (removed_event target_id (au_user_id auth)) (send (removed_event (au_user_id auth) target_id) s),
      Inr ())))"

section \<open>Where two users stand\<close>

datatype pair_state = Strangers | Requested string | Friends | BlockedBy string

text \<open>The row a user has in each state, and the rows that are there.\<close>

fun side :: "pair_state \<Rightarrow> string \<Rightarrow> int option" where
  "side Strangers u = None"
| "side Friends u = Some 1"
| "side (Requested w) u = Some (if w = u then 4 else 3)"
| "side (BlockedBy w) u = (if w = u then Some 2 else None)"

definition link :: "db \<Rightarrow> string \<Rightarrow> string \<Rightarrow> int option" where
  "link d u t = map_option rl_type (find_relationship d u t)"

definition stands :: "db \<Rightarrow> string \<Rightarrow> string \<Rightarrow> pair_state \<Rightarrow> bool" where
  "stands d u t p \<longleftrightarrow> link d u t = side p u \<and> link d t u = side p t \<and>
     (\<forall>w. p = Requested w \<or> p = BlockedBy w \<longrightarrow> w = u \<or> w = t)"

definition user_exists :: "db \<Rightarrow> string \<Rightarrow> bool" where
  "user_exists d u \<longleftrightarrow> u \<in> us_id ` set (users d)"

text \<open>The primary key and the foreign keys of the table, and one state for every pair.\<close>

definition rel_rows :: "db \<Rightarrow> bool" where
  "rel_rows d \<longleftrightarrow> distinct (map (\<lambda>r. (rl_user_id r, rl_target_user_id r)) (relationships d)) \<and>
     (\<forall>r \<in> set (relationships d). user_exists d (rl_user_id r) \<and> user_exists d (rl_target_user_id r))"

definition rel_wf :: "db \<Rightarrow> bool" where
  "rel_wf d \<longleftrightarrow> rel_rows d \<and> (\<forall>u. link d u u = None) \<and> (\<forall>u t. u \<noteq> t \<longrightarrow> (\<exists>p. stands d u t p))"

datatype rel_request = Befriend | Block | Sever

fun handle_relationship :: "string \<Rightarrow> AuthUser \<Rightarrow> string \<Rightarrow> rel_request \<Rightarrow> app \<Rightarrow> app \<times> (AppError + unit)" where
  "handle_relationship now auth t Befriend s =
     try_run (put_relationship now s t auth 1) (\<lambda>s _. (s, Inr ()))"
| "handle_relationship now auth t Block s =
     try_run (put_relationship now s t auth 2) (\<lambda>s _. (s, Inr ()))"
| "handle_relationship now auth t Sever s = delete_relationship s t auth"

text \<open>What a request of \<open>u\<close> about \<open>t\<close> is to do, and when it is refused.\<close>

fun moved :: "string \<Rightarrow> rel_request \<Rightarrow> pair_state \<Rightarrow> pair_state" where
  "moved u Befriend Strangers = Requested u"
| "moved u Befriend (Requested w) = (if w = u then Requested u else Friends)"
| "moved u Befriend Friends = Friends"
| "moved u Befriend (BlockedBy w) = (if w = u then Requested u else BlockedBy w)"
| "moved u Block p = BlockedBy u"
| "moved u Sever (BlockedBy w) = (if w = u then Strangers else BlockedBy w)"
| "moved u Sever p = Strangers"

definition refused :: "string \<Rightarrow> rel_request \<Rightarrow> pair_state \<Rightarrow> bool" where
  "refused u r p \<longleftrightarrow> (\<exists>w. p = BlockedBy w \<and> w \<noteq> u \<and> r \<noteq> Block) \<or> r = Sever \<and> p = Strangers"

section \<open>Rows after a statement\<close>

lemma find_keys:
  "find (\<lambda>r. rl_user_id r = u' \<and> rl_target_user_id r = t')
     (map (\<lambda>r. if rl_user_id r = u \<and> rl_target_user_id r = t then r\<lparr>rl_type := ty\<rparr> else r) rs) =
   map_option (\<lambda>r. if rl_user_id r = u \<and> rl_target_user_id r = t then r\<lparr>rl_type := ty\<rparr> else r)
     (find (\<lambda>r. rl_user_id r = u' \<and> rl_target_user_id r = t') rs)"
  by (induction rs) auto

lemma find_append: "find P (xs @ ys) = (case find P xs of Some x \<Rightarrow> Some x | None \<Rightarrow> find P ys)"
  by (induction xs) auto

lemma find_filter_keys:
  assumes "\<And>r. Q r \<longleftrightarrow> (rl_user_id r, rl_target_user_id r) \<in> K"
  shows "find (\<lambda>r. rl_user_id r = u \<and> rl_target_user_id r = t) (filter (\<lambda>r. \<not> Q r) rs) =
    (if (u, t) \<in> K then None else find (\<lambda>r. rl_user_id r = u \<and> rl_target_user_id r = t) rs)"
  using assms by (induction rs) auto

lemma find_relationship_key:
  "find_relationship d u t = Some r \<Longrightarrow> r \<in> set (relationships d) \<and> rl_user_id r = u \<and> rl_target_user_id r = t"
  by (auto simp: find_relationship_def dest: find_SomeD)

lemma list_ex_user: "list_ex (\<lambda>x. us_id x = u) (users d) \<longleftrightarrow> user_exists d u"
  by (auto simp: user_exists_def list_ex_iff)

lemma upsert_fails:
  assumes "\<not> db_ok d \<or> link d u t = None \<and> \<not> (user_exists d u \<and> user_exists d t)"
  shows "fst (upsert_relationship now u t ty d) = d" "snd (upsert_relationship now u t ty d) \<noteq> Inr ()"
  using assms
  by (auto simp: upsert_relationship_def execute_checked_def list_ex_user link_def split: option.split)

lemma upsert_works:
  assumes "db_ok d" and "link d u t \<noteq> None \<or> user_exists d u \<and> user_exists d t"
  shows "snd (upsert_relationship now u t ty d) = Inr ()"
    and "link (fst (upsert_relationship now u t ty d)) u' t' = (if u' = u \<and> t' = t then Some ty else link d u' t')"
proof -
  let ?e = "fst (upsert_relationship now u t ty d)"
  have ok: "\<not> (find_relationship d u t = None \<and> \<not> (user_exists d u \<and> user_exists d t))"
    using assms(2) by (auto simp: link_def)
  with assms(1) show "snd (upsert_relationship now u t ty d) = Inr ()"
    by (auto simp: upsert_relationship_def execute_checked_def list_ex_user split: option.split)
  have rows: "relationships ?e = (if find_relationship d u t = None
      then relationships d @ [\<lparr>rl_user_id = u, rl_target_user_id = t, rl_type = ty, rl_created_at = now\<rparr>]
      else map (\<lambda>r. if rl_user_id r = u \<and> rl_target_user_id r = t then r\<lparr>rl_type := ty\<rparr> else r) (relationships d))"
    using ok assms(1) by (auto simp: upsert_relationship_def execute_checked_def list_ex_user)
  show "link ?e u' t' = (if u' = u \<and> t' = t then Some ty else link d u' t')"
  proof (cases "find_relationship d u t")
    case None
    then have "find (\<lambda>r. rl_user_id r = u \<and> rl_target_user_id r = t) (relationships d) = None"
      by (simp add: find_relationship_def)
    with None show ?thesis
      by (auto simp: link_def find_relationship_def rows find_append split: option.split)
  next
    case (Some r)
    then have "link ?e u' t' = map_option rl_type (map_option
        (\<lambda>r. if rl_user_id r = u \<and> rl_target_user_id r = t then r\<lparr>rl_type := ty\<rparr> else r)
        (find_relationship d u' t'))"
      by (simp add: link_def find_relationship_def rows find_keys)
    with Some show ?thesis
      by (cases "find_relationship d u' t'") (auto simp: link_def dest: find_relationship_key)
  qed
qed

lemma dropped_links:
  assumes "\<And>r. P r \<longleftrightarrow> (rl_user_id r, rl_target_user_id r) \<in> K"
  shows "link (drop_relationships P d) u t = (if (u, t) \<in> K then None else link d u t)"
  using find_filter_keys [OF assms] by (simp add: link_def find_relationship_def drop_relationships_def)

lemma upsert_frame [simp]:
  "users (fst (upsert_relationship now u t ty d)) = users d" "db_ok (fst (upsert_relationship now u t ty d)) = db_ok d"
  by (simp_all add: upsert_relationship_def execute_checked_fst)

lemma user_exists_cong: "users d = users e \<Longrightarrow> user_exists d u = user_exists e u"
  by (simp add: user_exists_def)

lemma upsert_rows:
  assumes "rel_rows d"
  shows "rel_rows (fst (upsert_relationship now u t ty d))"
proof -
  let ?key = "\<lambda>r :: Relationship. (rl_user_id r, rl_target_user_id r)"
  have exists: "user_exists (d\<lparr>relationships := rs\<rparr>) v = user_exists d v" for rs v
    by (simp add: user_exists_def)
  have same: "?key \<circ> (\<lambda>r. if rl_user_id r = u \<and> rl_target_user_id r = t then r\<lparr>rl_type := ty\<rparr> else r) = ?key"
    by (rule ext) simp
  have new: "find_relationship d u t = None \<Longrightarrow> (u, t) \<notin> ?key ` set (relationships d)"
    by (auto simp: find_relationship_def find_None_iff)
  from assms same new show ?thesis
    by (auto simp: upsert_relationship_def execute_checked_fst list_ex_user rel_rows_def exists)
qed

lemma drop_rows: "rel_rows d \<Longrightarrow> rel_rows (drop_relationships P d)"
  by (auto simp: rel_rows_def drop_relationships_def user_exists_def distinct_map_filter)

text \<open>The two upserts of an acceptance and of a request.\<close>

lemma both_upserts:
  assumes "db_ok d" and "user_exists d u" and "user_exists d t" and "u \<noteq> t"
    and e: "e = fst (upsert_relationship now t u b (fst (upsert_relationship now u t a d)))"
  shows "link e x y = (if x = t \<and> y = u then Some b else if x = u \<and> y = t then Some a else link d x y)"
    and "snd (upsert_relationship now t u b (fst (upsert_relationship now u t a d))) = Inr ()"
    and "users e = users d" and "db_ok e" and "rel_rows d \<Longrightarrow> rel_rows e"
proof -
  let ?d1 = "fst (upsert_relationship now u t a d)"
  have one: "link ?d1 x y = (if x = u \<and> y = t then Some a else link d x y)" for x y
    using assms upsert_works(2) [of d u t] by auto
  have there: "user_exists ?d1 t" "user_exists ?d1 u" using assms by (simp_all add: user_exists_def)
  show "link e x y = (if x = t \<and> y = u then Some b else if x = u \<and> y = t then Some a else link d x y)"
    unfolding e using there assms(1,4) upsert_works(2) [of ?d1 t u] one by auto
  show "snd (upsert_relationship now t u b ?d1) = Inr ()"
    using there assms(1) upsert_works(1) [of ?d1 t u] by auto
qed (simp_all add: e assms(1) upsert_rows)

lemma get_relationship_link:
  assumes "db_ok d" and "rel_rows d"
  shows "\<exists>x. get_relationship d u t = Inr x \<and> map_option rr_type x = link d u t"
proof (cases "find_relationship d u t")
  case None
  with assms(1) show ?thesis by (simp add: get_relationship_def link_def)
next
  case (Some r)
  with assms(2) have "user_exists d (rl_target_user_id r)"
    by (auto simp: rel_rows_def dest: find_relationship_key)
  then obtain v where "find (\<lambda>v. us_id v = rl_target_user_id r) (users d) = Some v"
    by (cases "find (\<lambda>v. us_id v = rl_target_user_id r) (users d)") (auto simp: user_exists_def find_None_iff)
  with Some assms(1) show ?thesis by (simp add: get_relationship_def link_def joined_row_def)
qed

lemma has_type_link: "map_option rr_type x = l \<Longrightarrow> has_type ty x \<longleftrightarrow> l = Some ty"
  by (auto simp: has_type_def split: option.split)

lemma is_blocked_by_link:
  assumes "db_ok d" and "rel_rows d"
  shows "is_blocked_by d b a = Inr (link d b a = Some 2)"
proof -
  have "(\<exists>r \<in> set (relationships d). rl_user_id r = b \<and> rl_target_user_id r = a \<and> rl_type r = 2) \<longleftrightarrow>
      link d b a = Some 2"
  proof
    assume "\<exists>r \<in> set (relationships d). rl_user_id r = b \<and> rl_target_user_id r = a \<and> rl_type r = 2"
    then obtain r where r: "r \<in> set (relationships d)" "rl_user_id r = b" "rl_target_user_id r = a" "rl_type r = 2"
      by blast
    then obtain q where q: "find_relationship d b a = Some q"
      by (cases "find_relationship d b a") (auto simp: find_relationship_def find_None_iff)
    then have "q = r" using r assms(2) find_relationship_key [OF q]
      by (auto simp: rel_rows_def distinct_map inj_on_def)
    with q r show "link d b a = Some 2" by (simp add: link_def)
  qed (auto simp: link_def dest: find_relationship_key)
  with assms(1) show ?thesis by (auto simp: is_blocked_by_def filter_empty_conv)
qed

lemma answer_ok:
  assumes "db_ok (ap_db s)" and "rel_rows (ap_db s)" and "link (ap_db s) u t \<noteq> None"
  shows "fst (relationship_answer s u t m) = s" "\<exists>j. snd (relationship_answer s u t m) = Inr j"
  using get_relationship_link [OF assms(1,2), of u t] assms(3)
  by (auto simp: relationship_answer_def)

lemma broadcast_relationship_db [simp]: "ap_db (broadcast_relationship_event a b ty n s) = ap_db s"
  by (simp add: broadcast_relationship_event_def Let_def)

section \<open>The handlers follow the pair states\<close>

lemma on_db_run: "on_db f s = (s\<lparr>ap_db := fst (f (ap_db s))\<rparr>, snd (f (ap_db s)))"
  by (simp add: on_db_def Let_def)

lemma request_run:
  assumes "db_ok (ap_db s)" and "user_exists (ap_db s) u" and "user_exists (ap_db s) t" and "u \<noteq> t"
  shows "snd (accept_request now s u t) = Inr ()" "snd (send_request now s u t) = Inr ()"
    "ap_db (fst (accept_request now s u t)) =
       fst (upsert_relationship now t u 1 (fst (upsert_relationship now u t 1 (ap_db s))))"
    "ap_db (fst (send_request now s u t)) =
       fst (upsert_relationship now t u 3 (fst (upsert_relationship now u t 4 (ap_db s))))"
proof -
  have one: "snd (upsert_relationship now u t a (ap_db s)) = Inr ()" for a
    using assms upsert_works(1) by blast
  have two: "snd (upsert_relationship now t u b (fst (upsert_relationship now u t a (ap_db s)))) = Inr ()" for a b
    using both_upserts(2) [OF assms refl] .
  show "snd (accept_request now s u t) = Inr ()" "snd (send_request now s u t) = Inr ()"
    "ap_db (fst (accept_request now s u t)) =
       fst (upsert_relationship now t u 1 (fst (upsert_relationship now u t 1 (ap_db s))))"
    "ap_db (fst (send_request now s u t)) =
       fst (upsert_relationship now t u 3 (fst (upsert_relationship now u t 4 (ap_db s))))"
    using one two by (simp_all add: accept_request_def send_request_def on_db_run try_run_def)
qed

text \<open>The links a request leaves behind.\<close>

definition links_become :: "db \<Rightarrow> db \<Rightarrow> string \<Rightarrow> string \<Rightarrow> pair_state \<Rightarrow> bool" where
  "links_become d e u t p \<longleftrightarrow> users e = users d \<and> db_ok e = db_ok d \<and> rel_rows e \<and>
     link e u t = side p u \<and> link e t u = side p t \<and>
     (\<forall>x y. {x, y} \<noteq> {u, t} \<longrightarrow> link e x y = link d x y)"

lemma links_become_upserts:
  assumes "db_ok d" and "rel_rows d" and "user_exists d u" and "user_exists d t" and "u \<noteq> t"
    and "side p u = Some a" and "side p t = Some b"
  shows "links_become d (fst (upsert_relationship now t u b (fst (upsert_relationship now u t a d)))) u t p"
  using both_upserts [OF assms(1,3-5) refl, of now b a] assms
  by (auto simp: links_become_def doubleton_eq_iff)

lemma rel_wf_stands: "rel_wf d \<Longrightarrow> x \<noteq> y \<Longrightarrow> \<exists>q. stands d x y q"
  by (simp add: rel_wf_def)

lemma links_become_wf:
  assumes "links_become d e u t p" and "rel_wf d" and "u \<noteq> t"
    and "\<forall>w. p = Requested w \<or> p = BlockedBy w \<longrightarrow> w = u \<or> w = t"
  shows "rel_wf e" "stands e u t p"
proof -
  show stands: "stands e u t p" using assms(1,4) by (simp add: links_become_def stands_def)
  then have stands': "stands e t u p" by (auto simp: stands_def)
  have "\<exists>q. stands e x y q" if "x \<noteq> y" for x y
  proof (cases "{x, y} = {u, t}")
    case True
    then have "x = u \<and> y = t \<or> x = t \<and> y = u" by (auto simp: doubleton_eq_iff)
    with stands stands' show ?thesis by blast
  next
    case False
    then have "{y, x} \<noteq> {u, t}" by auto
    with False assms(1) have "link e x y = link d x y" "link e y x = link d y x"
      by (simp_all add: links_become_def)
    moreover from rel_wf_stands [OF assms(2) that] obtain q where "stands d x y q" ..
    ultimately have "stands e x y q" by (simp add: stands_def)
    then show ?thesis ..
  qed
  moreover have "link e x x = None" for x
    using assms(1-3) by (auto simp: links_become_def rel_wf_def doubleton_eq_iff)
  ultimately show "rel_wf e" using assms(1) by (auto simp: rel_wf_def links_become_def)
qed

lemma links_become_refl:
  "rel_rows d \<Longrightarrow> stands d u t p \<Longrightarrow> links_become d d u t p"
  by (simp add: links_become_def stands_def)

lemma get_user_exists: "db_ok d \<Longrightarrow> user_exists d t \<Longrightarrow> \<exists>x. get_user d t = Inr x"
  by (cases "find (\<lambda>x. us_id x = t) (users d)") (auto simp: get_user_def user_exists_def find_None_iff)

lemma befriend_links:
  assumes db: "db_ok (ap_db s)" and rows: "rel_rows (ap_db s)" and there: "user_exists (ap_db s) u" "user_exists (ap_db s) t"
    and "u \<noteq> t" and st: "stands (ap_db s) u t p"
  shows "links_become (ap_db s) (ap_db (fst (handle_friend_or_accept now s u t))) u t (moved u Befriend p)"
    and "is_ok (snd (handle_friend_or_accept now s u t)) \<longleftrightarrow> \<not> refused u Befriend p"
proof -
  let ?d = "ap_db s"
  from st have sides: "link ?d u t = side p u" "link ?d t u = side p t"
    and who: "\<forall>w. p = Requested w \<or> p = BlockedBy w \<longrightarrow> w = u \<or> w = t" by (auto simp: stands_def)
  obtain x where x: "get_relationship ?d u t = Inr x" "map_option rr_type x = side p u"
    using get_relationship_link [OF db rows, of u t] sides by auto
  obtain y where y: "get_relationship ?d t u = Inr y" "map_option rr_type y = side p t"
    using get_relationship_link [OF db rows, of t u] sides by auto
  note blocked = is_blocked_by_link [OF db rows, of t u, unfolded sides]
  let ?accepting = "side p u = Some 3 \<or> side p t = Some 4"
  define m where "m = (if ?accepting then accept_request now s u t
      else if side p u = Some 1 then (s, Inr ()) else send_request now s u t)"
  have ok: "snd m = Inr ()"
    using request_run(1,2) [OF db there \<open>u \<noteq> t\<close>] by (simp add: m_def)
  have run: "handle_friend_or_accept now s u t = (if side p t = Some 2
      then (s, Inl (Forbidden ''you cannot send a friend request to this user''))
      else relationship_answer (fst m) u t ''relationship missing after upsert'')"
    unfolding handle_friend_or_accept_def x(1) y(1) blocked Let_def try_in_simps has_type_link [OF x(2)]
      has_type_link [OF y(2)] m_def [symmetric]
    using ok by (simp add: try_run_def)
  have unchanged: "links_become ?d ?d u t p" by (rule links_become_refl [OF rows st])
  note run3 = request_run(3,4) [OF db there \<open>u \<noteq> t\<close>, of now]
  have become: "side p t \<noteq> Some 2 \<Longrightarrow> links_become ?d (ap_db (fst m)) u t (moved u Befriend p)"
    using who unchanged \<open>u \<noteq> t\<close> unfolding m_def
    by (cases p) (auto simp: run3 intro!: links_become_upserts [OF db rows there])
  moreover have "side p t \<noteq> Some 2 \<Longrightarrow> side (moved u Befriend p) u \<noteq> None"
    using who by (cases p) auto
  ultimately have answer: "side p t \<noteq> Some 2 \<Longrightarrow>
      fst (relationship_answer (fst m) u t k) = fst m \<and> (\<exists>j. snd (relationship_answer (fst m) u t k) = Inr j)" for k
    using answer_ok [of "fst m" u t k] db by (auto simp: links_become_def)
  have refused: "refused u Befriend p \<longleftrightarrow> side p t = Some 2"
    using who \<open>u \<noteq> t\<close> by (cases p) (auto simp: refused_def)
  show "is_ok (snd (handle_friend_or_accept now s u t)) \<longleftrightarrow> \<not> refused u Befriend p"
    using run answer refused by (auto simp: is_ok_iff)
  have "side p t = Some 2 \<Longrightarrow> moved u Befriend p = p" using who \<open>u \<noteq> t\<close> by (cases p) auto
  with become unchanged answer run
  show "links_become ?d (ap_db (fst (handle_friend_or_accept now s u t))) u t (moved u Befriend p)"
    by (cases "side p t = Some 2") auto
qed

lemma block_links:
  assumes db: "db_ok (ap_db s)" and rows: "rel_rows (ap_db s)" and there: "user_exists (ap_db s) u" "user_exists (ap_db s) t"
    and "u \<noteq> t"
  shows "links_become (ap_db s) (ap_db (fst (handle_block now s u t))) u t (BlockedBy u)"
    and "is_ok (snd (handle_block now s u t))"
proof -
  let ?d1 = "fst (upsert_relationship now u t 2 (ap_db s))"
  let ?e = "drop_relationships (\<lambda>r. rl_user_id r = t \<and> rl_target_user_id r = u) ?d1"
  have one: "snd (upsert_relationship now u t 2 (ap_db s)) = Inr ()"
    "link ?d1 x y = (if x = u \<and> y = t then Some 2 else link (ap_db s) x y)" for x y
    using upsert_works [of "ap_db s" u t] db there by auto
  have gone: "link ?e x y = (if (x, y) \<in> {(t, u)} then None else link ?d1 x y)" for x y
    by (rule dropped_links) auto
  have frame: "users ?e = users (ap_db s)" "db_ok ?e = db_ok (ap_db s)" by (simp_all add: drop_relationships_def)
  have become: "links_become (ap_db s) ?e u t (BlockedBy u)"
    using frame gone one(2) \<open>u \<noteq> t\<close> drop_rows [OF upsert_rows [OF rows]]
    by (auto simp: links_become_def doubleton_eq_iff)
  define s1 where "s1 = broadcast_relationship_event u t ''relationship.add'' 2 (s\<lparr>ap_db := ?e\<rparr>)"
  define s2 where "s2 = (if find_relationship ?d1 t u \<noteq> None then send (removed_event t u) s1 else s1)"
  have run: "handle_block now s u t = relationship_answer s2 u t ''relationship missing after block''"
    using one(1) db
    by (simp add: handle_block_def on_db_run db_delete_relationship_def try_run_def Let_def s1_def s2_def)
  have "ap_db s2 = ?e" by (simp add: s2_def s1_def)
  with run become answer_ok [of s2 u t] db
  show "links_become (ap_db s) (ap_db (fst (handle_block now s u t))) u t (BlockedBy u)"
    and "is_ok (snd (handle_block now s u t))"
    by (simp_all add: links_become_def is_ok_iff)
qed

lemma sever_links:
  assumes db: "db_ok (ap_db s)" and rows: "rel_rows (ap_db s)" and "au_user_id auth \<noteq> t"
    and st: "stands (ap_db s) (au_user_id auth) t p"
  shows "links_become (ap_db s) (ap_db (fst (delete_relationship s t auth))) (au_user_id auth) t
      (moved (au_user_id auth) Sever p)"
    and "is_ok (snd (delete_relationship s t auth)) \<longleftrightarrow> \<not> refused (au_user_id auth) Sever p"
proof -
  let ?u = "au_user_id auth"
  let ?P = "\<lambda>r. rl_user_id r = ?u \<and> rl_target_user_id r = t \<or> rl_user_id r = t \<and> rl_target_user_id r = ?u"
  let ?e = "drop_relationships ?P (ap_db s)"
  obtain x where x: "get_relationship (ap_db s) ?u t = Inr x" "map_option rr_type x = side p ?u"
    using get_relationship_link [OF db rows, of ?u t] st by (auto simp: stands_def)
  then have none: "x = None \<longleftrightarrow> side p ?u = None"
    using x(2) by (metis map_option_is_None)
  have gone: "link ?e v w = (if (v, w) \<in> {(?u, t), (t, ?u)} then None else link (ap_db s) v w)" for v w
    by (rule dropped_links) auto
  have frame: "users ?e = users (ap_db s)" "db_ok ?e = db_ok (ap_db s)" by (simp_all add: drop_relationships_def)
  have become: "links_become (ap_db s) ?e ?u t Strangers"
    using gone drop_rows [OF rows, of ?P] frame by (auto simp: links_become_def doubleton_eq_iff)
  have stay: "links_become (ap_db s) (ap_db s) ?u t p" by (rule links_become_refl [OF rows st])
  have run: "side p ?u = None \<Longrightarrow> delete_relationship s t auth = (s, Inl (NotFound ''relationship not found''))"
    "side p ?u \<noteq> None \<Longrightarrow> ap_db (fst (delete_relationship s t auth)) = ?e \<and> snd (delete_relationship s t auth) = Inr ()"
    using x(1) none db
    by (simp_all add: delete_relationship_def on_db_run delete_both_directions_def try_run_def)
  from st have who: "\<forall>w. p = Requested w \<or> p = BlockedBy w \<longrightarrow> w = ?u \<or> w = t" by (simp add: stands_def)
  show "links_become (ap_db s) (ap_db (fst (delete_relationship s t auth))) ?u t (moved ?u Sever p)"
    using run become stay by (cases p) auto
  show "is_ok (snd (delete_relationship s t auth)) \<longleftrightarrow> \<not> refused ?u Sever p"
    using run who assms(3) by (cases p) (auto simp: refused_def split: if_splits)
qed

lemma handle_links:
  assumes "db_ok (ap_db s)" and "rel_rows (ap_db s)" and "user_exists (ap_db s) (au_user_id auth)"
    and "user_exists (ap_db s) t" and "au_user_id auth \<noteq> t" and "stands (ap_db s) (au_user_id auth) t p"
  shows "links_become (ap_db s) (ap_db (fst (handle_relationship now auth t r s))) (au_user_id auth) t
      (moved (au_user_id auth) r p)"
    and "is_ok (snd (handle_relationship now auth t r s)) \<longleftrightarrow> \<not> refused (au_user_id auth) r p"
proof -
  obtain x where x: "get_user (ap_db s) t = Inr x" using get_user_exists assms(1,4) by blast
  have quiet: "ap_db (fst (try_run p (\<lambda>s _. (s, Inr ())))) = ap_db (fst p) \<and>
      is_ok (snd (try_run p (\<lambda>s _. (s, Inr ())))) = is_ok (snd p)" for p :: "app \<times> (AppError + json)"
    by (cases "snd p") (simp_all add: try_run_def)
  note befriend = befriend_links [OF assms]
  note block = block_links [OF assms(1-5)]
  note sever = sever_links [OF assms(1,2,5,6)]
  have put: "put_relationship now s t auth 1 = handle_friend_or_accept now s (au_user_id auth) t"
    "put_relationship now s t auth 2 = handle_block now s (au_user_id auth) t"
    using x assms(5) by (auto simp: put_relationship_def)
  show "links_become (ap_db s) (ap_db (fst (handle_relationship now auth t r s))) (au_user_id auth) t
      (moved (au_user_id auth) r p)"
    using befriend(1) block(1) sever(1) by (cases r; cases p) (simp_all add: put quiet)
  show "is_ok (snd (handle_relationship now auth t r s)) \<longleftrightarrow> \<not> refused (au_user_id auth) r p"
    using befriend(2) block(2) sever(2) by (cases r; cases p) (simp_all add: put quiet refused_def)
qed

text \<open>A user who is not there has no rows, so whatever they ask changes nothing.\<close>

lemma no_rows_of:
  assumes "rel_rows d" and "\<not> user_exists d v"
  shows "link d v w = None" "link d w v = None"
  using assms by (auto simp: link_def rel_rows_def dest: find_relationship_key split: option.splits)
    (metis find_relationship_key option.exhaust)+

lemma handle_keeps_wf:
  assumes wf: "rel_wf (ap_db s)"
  shows "rel_wf (ap_db (fst (handle_relationship now auth t r s)))"
proof (cases "db_ok (ap_db s) \<and> user_exists (ap_db s) (au_user_id auth) \<and> user_exists (ap_db s) t \<and> au_user_id auth \<noteq> t")
  case True
  from wf have rows: "rel_rows (ap_db s)" by (simp add: rel_wf_def)
  obtain p where p: "stands (ap_db s) (au_user_id auth) t p" using rel_wf_stands [OF wf] True by blast
  then have "\<forall>w. moved (au_user_id auth) r p = Requested w \<or> moved (au_user_id auth) r p = BlockedBy w \<longrightarrow>
      w = au_user_id auth \<or> w = t"
    by (cases r; cases p) (auto simp: stands_def)
  with True p wf rows show ?thesis
    using links_become_wf(1) [OF handle_links(1) [OF _ rows]] by blast
next
  case False
  let ?u = "au_user_id auth"
  from wf have rows: "rel_rows (ap_db s)" and self: "link (ap_db s) ?u ?u = None" by (simp_all add: rel_wf_def)
  consider "\<not> db_ok (ap_db s)" | "db_ok (ap_db s)" "t = ?u" | "db_ok (ap_db s)" "\<not> user_exists (ap_db s) t"
    | "db_ok (ap_db s)" "user_exists (ap_db s) t" "\<not> user_exists (ap_db s) ?u"
    using False by auto
  then have "ap_db (fst (handle_relationship now auth t r s)) = ap_db s"
  proof cases
    case 1
    then show ?thesis
      by (cases r) (simp_all add: put_relationship_def delete_relationship_def get_user_def get_relationship_def)
  next
    case 2
    then have "get_relationship (ap_db s) ?u t = Inr None" using self by (simp add: get_relationship_def link_def)
    with 2 show ?thesis by (cases r) (simp_all add: put_relationship_def delete_relationship_def)
  next
    case 3
    then have "find (\<lambda>x. us_id x = t) (users (ap_db s)) = None" "find_relationship (ap_db s) ?u t = None"
      using no_rows_of(2) [OF rows] by (auto simp: user_exists_def find_None_iff link_def)
    with 3 show ?thesis
      by (cases r) (simp_all add: put_relationship_def delete_relationship_def get_user_def get_relationship_def)
  next
    case 4
    have none: "find_relationship (ap_db s) ?u t = None" "link (ap_db s) t ?u = None" "link (ap_db s) ?u t = None"
      using no_rows_of [OF rows 4(3)] by (auto simp: link_def)
    then have fails: "fst (upsert_relationship now ?u t ty (ap_db s)) = ap_db s"
      "\<exists>e. snd (upsert_relationship now ?u t ty (ap_db s)) = Inl e" for ty
      using upsert_fails [of "ap_db s" ?u t] none(3) 4(3)
      by (simp_all, cases "snd (upsert_relationship now ?u t ty (ap_db s))") auto
    have gets: "get_relationship (ap_db s) ?u t = Inr None" "get_relationship (ap_db s) t ?u = Inr None"
      using none 4(1) by (simp_all add: get_relationship_def link_def)
    have blocked: "is_blocked_by (ap_db s) t ?u = Inr False" using is_blocked_by_link [OF 4(1) rows] none by simp
    obtain x where x: "get_user (ap_db s) t = Inr x" using get_user_exists 4 by blast
    obtain e4 e2 where "snd (upsert_relationship now ?u t 4 (ap_db s)) = Inl e4"
      "snd (upsert_relationship now ?u t 2 (ap_db s)) = Inl e2" using fails(2) by blast
    with fails(1) gets blocked x show ?thesis
      by (cases r) (simp_all add: put_relationship_def delete_relationship_def handle_friend_or_accept_def
          handle_block_def send_request_def has_type_def on_db_run try_run_def)
  qed
  with wf show ?thesis by simp
qed

section \<open>Properties\<close>


fun handle_relationships :: "(string \<times> AuthUser \<times> string \<times> rel_request) list \<Rightarrow> app \<Rightarrow> app" where
  "handle_relationships [] s = s"
| "handle_relationships ((now, auth, t, r) # rs) s = handle_relationships rs (fst (handle_relationship now auth t r s))"

lemma relationships_handled_wf: "rel_wf (ap_db s) \<Longrightarrow> rel_wf (ap_db (handle_relationships rs s))"
  by (induction rs s rule: handle_relationships.induct) (simp_all add: handle_keeps_wf)

text \<open>Friendship is mutual and requests face each other, whatever users ask in whatever order: after
  any sequence of requests, two users are friends on both sides or on neither, every outgoing
  request is the other's incoming one, nobody has a relationship with themselves, and who is blocked
  has no row towards the blocker.\<close>

theorem friendship_mutual:
  assumes "rel_wf (ap_db s)"
  shows "let d = ap_db (handle_relationships rs s) in
    (link d u t = Some 1 \<longleftrightarrow> link d t u = Some 1) \<and> (link d u t = Some 4 \<longleftrightarrow> link d t u = Some 3) \<and>
    link d u u = None \<and> (link d u t = Some 2 \<longrightarrow> link d t u = None)"
proof -
  let ?d = "ap_db (handle_relationships rs s)"
  from relationships_handled_wf [OF assms] have self: "link ?d u u = None" and wf: "rel_wf ?d" by (simp_all add: rel_wf_def)
  show ?thesis
  proof (cases "u = t")
    case False
    with wf obtain p where "stands ?d u t p" using rel_wf_stands by blast
    with False self show ?thesis by (cases p) (auto simp: stands_def Let_def)
  next
    case True
    with self show ?thesis by (simp add: Let_def)
  qed
qed

text \<open>A block does not hold against the blocked: by blocking the blocker in turn and removing that
  block, the blocked user is a stranger again, and their next friend request is delivered.\<close>

theorem block_lifted_by_blocked:
  assumes "db_ok (ap_db s)" and "rel_wf (ap_db s)" and "au_user_id auth \<noteq> t"
    and "user_exists (ap_db s) (au_user_id auth)" and "user_exists (ap_db s) t"
    and "stands (ap_db s) (au_user_id auth) t (BlockedBy t)"
  shows "let s' = handle_relationships [(n1, auth, t, Block), (n2, auth, t, Sever)] s in
    is_blocked_by (ap_db s) t (au_user_id auth) = Inr True \<and>
    is_blocked_by (ap_db s') t (au_user_id auth) = Inr False \<and>
    is_ok (snd (handle_relationship n3 auth t Befriend s'))"
proof -
  let ?u = "au_user_id auth"
  let ?s1 = "fst (handle_relationship n1 auth t Block s)"
  let ?s2 = "fst (handle_relationship n2 auth t Sever ?s1)"
  have rows: "rel_rows (ap_db s)" using assms(2) by (simp add: rel_wf_def)
  have one: "links_become (ap_db s) (ap_db ?s1) ?u t (BlockedBy ?u)"
    using handle_links(1) [OF assms(1) rows assms(4,5,3,6), of n1 Block] by simp
  then have st1: "stands (ap_db ?s1) ?u t (BlockedBy ?u)" "db_ok (ap_db ?s1)" "rel_rows (ap_db ?s1)"
    "user_exists (ap_db ?s1) ?u" "user_exists (ap_db ?s1) t"
    using assms by (simp_all add: links_become_def stands_def user_exists_def)
  then have two: "links_become (ap_db ?s1) (ap_db ?s2) ?u t Strangers"
    using handle_links(1) [OF st1(2-5) assms(3) st1(1), of n2 Sever] by simp
  then have st2: "stands (ap_db ?s2) ?u t Strangers" "db_ok (ap_db ?s2)" "rel_rows (ap_db ?s2)"
    "user_exists (ap_db ?s2) ?u" "user_exists (ap_db ?s2) t"
    using st1 by (simp_all add: links_become_def stands_def user_exists_def)
  have "is_ok (snd (handle_relationship n3 auth t Befriend ?s2))"
    using handle_links(2) [OF st2(2-5) assms(3) st2(1), of n3 Befriend] by (simp add: refused_def)
  moreover have "is_blocked_by (ap_db s) t ?u = Inr True" "is_blocked_by (ap_db ?s2) t ?u = Inr False"
    using is_blocked_by_link [OF assms(1) rows, of t ?u] is_blocked_by_link [OF st2(2,3), of t ?u] st2(1) assms(6)
    by (simp_all add: stands_def)
  ultimately show ?thesis by (simp add: Let_def)
qed

section \<open>Two users, one blocked\<close>

definition blocked_app :: app where
  "blocked_app = an_app\<lparr>ap_db := a_db\<lparr>relationships :=
     [\<lparr>rl_user_id = ''mem'', rl_target_user_id = ''pat'', rl_type = 2, rl_created_at = []\<rparr>]\<rparr>\<rparr>"

lemma blocked_links:
  "link (ap_db blocked_app) u t = (if u = ''mem'' \<and> t = ''pat'' then Some 2 else None)"
  by (auto simp: link_def find_relationship_def blocked_app_def)

lemma blocked_wf: "rel_wf (ap_db blocked_app)"
proof -
  have "rel_rows (ap_db blocked_app)"
    by (simp add: rel_rows_def blocked_app_def user_exists_def sample_defs)
  moreover have "stands (ap_db blocked_app) u t (if (u, t) \<in> {(''mem'', ''pat''), (''pat'', ''mem'')} then BlockedBy ''mem'' else Strangers)"
    if "u \<noteq> t" for u t
    using that by (auto simp: stands_def blocked_links)
  ultimately show ?thesis unfolding rel_wf_def using blocked_links by auto
qed

lemma blocked_users:
  "db_ok (ap_db blocked_app)" "user_exists (ap_db blocked_app) (au_user_id (plain_user ''pat''))"
  "user_exists (ap_db blocked_app) ''mem''" "au_user_id (plain_user ''pat'') \<noteq> ''mem''"
  "stands (ap_db blocked_app) (au_user_id (plain_user ''pat'')) ''mem'' (BlockedBy ''mem'')"
  by (simp_all add: blocked_app_def user_exists_def sample_defs plain_user_def stands_def link_def find_relationship_def)


theorem friendship_mutual_witness:
  "let d = ap_db (handle_relationships [([], plain_user ''pat'', ''own'', Befriend), ([], plain_user ''own'', ''pat'', Befriend)]
             blocked_app) in
    (link d ''pat'' ''own'' = Some 1 \<longleftrightarrow> link d ''own'' ''pat'' = Some 1) \<and>
    (link d ''pat'' ''own'' = Some 4 \<longleftrightarrow> link d ''own'' ''pat'' = Some 3) \<and>
    link d ''pat'' ''pat'' = None \<and> (link d ''pat'' ''own'' = Some 2 \<longrightarrow> link d ''own'' ''pat'' = None)"
  by (rule friendship_mutual) (rule blocked_wf)

theorem block_lifted_by_blocked_witness:
  "let s' = handle_relationships [([], plain_user ''pat'', ''mem'', Block), ([], plain_user ''pat'', ''mem'', Sever)] blocked_app in
    is_blocked_by (ap_db blocked_app) ''mem'' (au_user_id (plain_user ''pat'')) = Inr True \<and>
    is_blocked_by (ap_db s') ''mem'' (au_user_id (plain_user ''pat'')) = Inr False \<and>
    is_ok (snd (handle_relationship [] (plain_user ''pat'') ''mem'' Befriend s'))"
  by (rule block_lifted_by_blocked [OF blocked_users(1) blocked_wf blocked_users(4,2,3,5)])

end
