(* ===== verification/Channels.thy ===== *)
theory Channels
  imports Messages Roles
begin

text \<open>
  Channels: \<open>Server/src/db/channels.rs\<close>, \<open>db/dm_participants.rs\<close>, \<open>db/permission_overwrites.rs\<close>, the handlers
  of \<open>routes/channels.rs\<close> and those of \<open>routes/spaces.rs\<close> that are about channels.  The id and the
  creation time of a new channel are arguments.
\<close>

section \<open>Requests\<close>

record CreateChannel =
  cc_name :: string
  cc_type :: string
  cc_topic :: "string option"
  cc_parent_id :: "string option"
  cc_nsfw :: "bool option"
  cc_bitrate :: "int option"
  cc_user_limit :: "int option"
  cc_rate_limit :: "int option"
  cc_position :: "int option"
  cc_allow_anonymous_read :: "bool option"

text \<open>\<open>uc_parent_id\<close> tells a parent that is not mentioned from one that is removed.\<close>

record UpdateChannel =
  uc_name :: "string option"
  uc_type :: "string option"
  uc_topic :: "string option"
  uc_position :: "int option"
  uc_parent_id :: "string option option"
  uc_nsfw :: "bool option"
  uc_rate_limit :: "int option"
  uc_bitrate :: "int option"
  uc_user_limit :: "int option"
  uc_archived :: "bool option"
  uc_allow_anonymous_read :: "bool option"

record ChannelPositionUpdate =
  cp_id :: string
  cp_position :: int

record UpsertOverwriteRequest =
  uo_type :: string
  uo_allow :: "string list"
  uo_deny :: "string list"

section \<open>Statements on channels\<close>

definition in_range :: "int \<Rightarrow> int \<Rightarrow> int option \<Rightarrow> bool" where
  "in_range a b v = (case v of None \<Rightarrow> True | Some x \<Rightarrow> a \<le> x \<and> x \<le> b)"

definition en_dash :: string where
  "en_dash = map char_of [0xE2, 0x80, 0x93 :: nat]"

definition validate_rate_limit :: "int option \<Rightarrow> AppError + unit" where
  "validate_rate_limit v =
     (if \<not> in_range 0 21600 v then Inl (BadRequest (''rate_limit must be 0'' @ en_dash @ ''21600 seconds'')) else Inr ())"

definition validate_parent ::
    "db \<Rightarrow> string option \<Rightarrow> string \<Rightarrow> string option \<Rightarrow> AppError + unit" where
  "validate_parent d space_id kind parent_id =
     (case parent_id of
        None \<Rightarrow> Inr ()
      | Some p \<Rightarrow>
          and_then (get_channel_row d p) (\<lambda>parent.
          if kind = ''category'' \<or> ch_type parent \<noteq> ''category'' \<or> space_id = None \<or> ch_space_id parent \<noteq> space_id
          then Inl (BadRequest ''parent must be a category in the same domain'') else Inr ()))"

definition or_else :: "'a option \<Rightarrow> 'a \<Rightarrow> 'a" where
  "or_else v x = (case v of Some y \<Rightarrow> y | None \<Rightarrow> x)"

definition new_channel :: "string \<Rightarrow> string \<Rightarrow> string \<Rightarrow> CreateChannel \<Rightarrow> ChannelRow" where
  "new_channel new_id now space_id input =
     \<lparr>ch_id = new_id, ch_type = cc_type input, ch_space_id = Some space_id, ch_name = Some (cc_name input),
      ch_description = [], ch_topic = cc_topic input, ch_position = or_else (cc_position input) 0,
      ch_parent_id = cc_parent_id input, ch_nsfw = or_else (cc_nsfw input) False,
      ch_rate_limit = or_else (cc_rate_limit input) 0, ch_bitrate = cc_bitrate input,
      ch_user_limit = cc_user_limit input, ch_owner_id = None, ch_last_message_id = None,
      ch_archived = False, ch_auto_archive_after = None,
      ch_allow_anonymous_read = or_else (cc_allow_anonymous_read input) False, ch_created_at = now\<rparr>"

text \<open>The keys of an insertion: the id is new, the space, the parent and the owner are there.\<close>

definition channel_violation :: "ChannelRow \<Rightarrow> db \<Rightarrow> sqlx_error option" where
  "channel_violation ch d =
     (if list_ex (\<lambda>x. ch_id x = ch_id ch) (channels d) then Some (primary_key_violation d)
      else if (case ch_space_id ch of Some s \<Rightarrow> \<not> list_ex (\<lambda>x. sp_id x = s) (spaces d) | None \<Rightarrow> False) \<or>
              (case ch_parent_id ch of Some p \<Rightarrow> \<not> list_ex (\<lambda>x. ch_id x = p) (channels d) | None \<Rightarrow> False) \<or>
              (case ch_owner_id ch of Some u \<Rightarrow> \<not> list_ex (\<lambda>x. us_id x = u) (users d) | None \<Rightarrow> False)
      then Some (foreign_key_violation d) else None)"

definition insert_channel :: "ChannelRow \<Rightarrow> db \<Rightarrow> db \<times> (AppError + unit)" where
  "insert_channel ch d = execute_checked d (channel_violation ch) (\<lambda>d. d\<lparr>channels := channels d @ [ch]\<rparr>)"

definition db_create_channel ::
    "string \<Rightarrow> string \<Rightarrow> string \<Rightarrow> CreateChannel \<Rightarrow> db \<Rightarrow> db \<times> (AppError + ChannelRow)" where
  "db_create_channel new_id now space_id input d =
     try_in d (validate_rate_limit (cc_rate_limit input)) (\<lambda>_.
     try_in d (validate_parent d (Some space_id) (cc_type input) (cc_parent_id input)) (\<lambda>_.
     try_run (insert_channel (new_channel new_id now space_id input) d) (\<lambda>d _.
     (d, get_channel_row d new_id))))"

definition channel_columns :: "UpdateChannel \<Rightarrow> ChannelRow \<Rightarrow> ChannelRow" where
  "channel_columns input ch =
     ch\<lparr>ch_name := (case uc_name input of Some x \<Rightarrow> Some x | None \<Rightarrow> ch_name ch),
        ch_type := or_else (uc_type input) (ch_type ch),
        ch_topic := (case uc_topic input of Some x \<Rightarrow> Some x | None \<Rightarrow> ch_topic ch),
        ch_parent_id := or_else (uc_parent_id input) (ch_parent_id ch),
        ch_position := or_else (uc_position input) (ch_position ch),
        ch_nsfw := or_else (uc_nsfw input) (ch_nsfw ch),
        ch_rate_limit := or_else (uc_rate_limit input) (ch_rate_limit ch),
        ch_bitrate := (case uc_bitrate input of Some x \<Rightarrow> Some x | None \<Rightarrow> ch_bitrate ch),
        ch_user_limit := (case uc_user_limit input of Some x \<Rightarrow> Some x | None \<Rightarrow> ch_user_limit ch),
        ch_archived := or_else (uc_archived input) (ch_archived ch),
        ch_allow_anonymous_read := or_else (uc_allow_anonymous_read input) (ch_allow_anonymous_read ch)\<rparr>"

definition no_channel_columns :: "UpdateChannel \<Rightarrow> bool" where
  "no_channel_columns input \<longleftrightarrow>
     uc_name input = None \<and> uc_type input = None \<and> uc_topic input = None \<and> uc_parent_id input = None \<and>
     uc_position input = None \<and> uc_nsfw input = None \<and> uc_rate_limit input = None \<and> uc_bitrate input = None \<and>
     uc_user_limit input = None \<and> uc_archived input = None \<and> uc_allow_anonymous_read input = None"

definition validate_new_parent :: "db \<Rightarrow> string \<Rightarrow> UpdateChannel \<Rightarrow> AppError + unit" where
  "validate_new_parent d channel_id input =
     (case uc_parent_id input of
        None \<Rightarrow> Inr ()
      | Some parent \<Rightarrow>
          and_then (get_channel_row d channel_id) (\<lambda>channel.
          validate_parent d (ch_space_id channel) (or_else (uc_type input) (ch_type channel)) parent))"

definition db_update_channel :: "string \<Rightarrow> UpdateChannel \<Rightarrow> db \<Rightarrow> db \<times> (AppError + ChannelRow)" where
  "db_update_channel channel_id input d =
     try_in d (validate_rate_limit (uc_rate_limit input)) (\<lambda>_.
     try_in d (validate_new_parent d channel_id input) (\<lambda>_.
     if no_channel_columns input then (d, get_channel_row d channel_id)
     else try_run (execute d (set_channel channel_id (channel_columns input))) (\<lambda>d _.
          (d, get_channel_row d channel_id))))"

text \<open>What goes with the channels: every row that refers to one, and the place of their children.\<close>

definition clear_parent :: "string list \<Rightarrow> ChannelRow \<Rightarrow> ChannelRow" where
  "clear_parent gone ch =
     (case ch_parent_id ch of
        Some p \<Rightarrow> if p \<in> set gone then ch\<lparr>ch_parent_id := None\<rparr> else ch
      | None \<Rightarrow> ch)"

definition drop_channels :: "(ChannelRow \<Rightarrow> bool) \<Rightarrow> db \<Rightarrow> db" where
  "drop_channels P d =
     (let gone = map ch_id (filter P (channels d)) in
      d\<lparr>channels := map (clear_parent gone) (filter (\<lambda>ch. ch_id ch \<notin> set gone) (channels d)),
        permission_overwrites := filter (\<lambda>w. owr_channel_id w \<notin> set gone) (permission_overwrites d),
        dm_participants := filter (\<lambda>(c, u). c \<notin> set gone) (dm_participants d),
        channel_mutes := filter (\<lambda>m. mu_channel_id m \<notin> set gone) (channel_mutes d),
        plugin_sessions := filter (\<lambda>(i, c). c \<notin> set gone) (plugin_sessions d),
        pinned_messages := filter (\<lambda>p. pi_channel_id p \<notin> set gone) (pinned_messages d),
        read_states := filter (\<lambda>r. rs_channel_id r \<notin> set gone) (read_states d),
        message_cooldowns := filter (\<lambda>((c, u), t). c \<notin> set gone) (message_cooldowns d),
        invites := filter (\<lambda>i. in_channel_id i \<notin> Some ` set gone) (invites d),
        channel_origins := filter (\<lambda>(c, h). c \<notin> set gone) (channel_origins d)\<rparr>)"

text \<open>One transaction; the messages of the channel first, because their reference to it does not cascade.\<close>

definition db_delete_channel :: "string \<Rightarrow> db \<Rightarrow> db \<times> (AppError + unit)" where
  "db_delete_channel channel_id =
     transaction (\<lambda>d.
       try_run (execute d (delete_messages (\<lambda>m. ms_channel_id m = channel_id))) (\<lambda>d _.
       execute d (drop_channels (\<lambda>ch. ch_id ch = channel_id))))"

fun validate_positions ::
    "db \<Rightarrow> string \<Rightarrow> string list \<Rightarrow> ChannelPositionUpdate list \<Rightarrow> AppError + unit" where
  "validate_positions d space_id seen [] = Inr ()"
| "validate_positions d space_id seen (u # us) =
     and_then (get_channel_row d (cp_id u)) (\<lambda>channel.
     if ch_space_id channel \<noteq> Some space_id \<or> cp_position u < 0 \<or> cp_id u \<in> set seen
     then Inl (BadRequest ''invalid domain channel order'')
     else validate_positions d space_id (cp_id u # seen) us)"

definition move_channel :: "string \<Rightarrow> db \<Rightarrow> ChannelPositionUpdate \<Rightarrow> db" where
  "move_channel space_id d u =
     d\<lparr>channels := map (\<lambda>ch. if ch_id ch = cp_id u \<and> ch_space_id ch = Some space_id
                             then ch\<lparr>ch_position := cp_position u\<rparr> else ch) (channels d)\<rparr>"

definition db_reorder_channels ::
    "string \<Rightarrow> ChannelPositionUpdate list \<Rightarrow> db \<Rightarrow> db \<times> (AppError + unit)" where
  "db_reorder_channels space_id updates d =
     try_in d (validate_positions d space_id [] updates) (\<lambda>_.
     execute d (\<lambda>d. foldl (move_channel space_id) d updates))"

section \<open>Statements on overwrites and participants\<close>

definition upsert_overwrite_row :: "string \<Rightarrow> PermissionOverwrite \<Rightarrow> db \<Rightarrow> db" where
  "upsert_overwrite_row channel_id ow d =
     (let new = \<lparr>owr_channel_id = channel_id, owr_id = ow_id ow, owr_type = ow_type ow,
                 owr_allow = JsonStrings (ow_allow ow), owr_deny = JsonStrings (ow_deny ow)\<rparr>;
          mine = (\<lambda>w. owr_channel_id w = channel_id \<and> owr_id w = ow_id ow) in
      d\<lparr>permission_overwrites :=
          (if list_ex mine (permission_overwrites d)
           then map (\<lambda>w. if mine w then new else w) (permission_overwrites d)
           else permission_overwrites d @ [new])\<rparr>)"

definition db_upsert_overwrite :: "string \<Rightarrow> PermissionOverwrite \<Rightarrow> db \<Rightarrow> db \<times> (AppError + unit)" where
  "db_upsert_overwrite channel_id ow d =
     execute_checked d
       (\<lambda>d. if \<not> list_ex (\<lambda>ch. ch_id ch = channel_id) (channels d) then Some (foreign_key_violation d) else None)
       (upsert_overwrite_row channel_id ow)"

definition db_delete_overwrite :: "string \<Rightarrow> string \<Rightarrow> db \<Rightarrow> db \<times> (AppError + unit)" where
  "db_delete_overwrite channel_id overwrite_id d =
     execute d (\<lambda>d. d\<lparr>permission_overwrites :=
       filter (\<lambda>w. \<not> (owr_channel_id w = channel_id \<and> owr_id w = overwrite_id)) (permission_overwrites d)\<rparr>)"

text \<open>\<open>INSERT OR IGNORE\<close>: a participant who is there already stays; the foreign keys still hold.\<close>

definition add_participant :: "string \<Rightarrow> string \<Rightarrow> db \<Rightarrow> db \<times> (AppError + unit)" where
  "add_participant channel_id user_id d =
     execute_checked d
       (\<lambda>d. if (channel_id, user_id) \<notin> set (dm_participants d) \<and>
               \<not> (list_ex (\<lambda>ch. ch_id ch = channel_id) (channels d) \<and> list_ex (\<lambda>u. us_id u = user_id) (users d))
            then Some (foreign_key_violation d) else None)
       (\<lambda>d. d\<lparr>dm_participants :=
          (if (channel_id, user_id) \<in> set (dm_participants d) then dm_participants d
           else dm_participants d @ [(channel_id, user_id)])\<rparr>)"

definition remove_participant :: "string \<Rightarrow> string \<Rightarrow> db \<Rightarrow> db \<times> (AppError + unit)" where
  "remove_participant channel_id user_id d =
     execute d (\<lambda>d. d\<lparr>dm_participants := filter (\<lambda>p. p \<noteq> (channel_id, user_id)) (dm_participants d)\<rparr>)"

definition count_participants :: "db \<Rightarrow> string \<Rightarrow> AppError + int" where
  "count_participants d channel_id =
     query d (int (length (filter (\<lambda>(c, u). c = channel_id) (dm_participants d))))"

fun get_users :: "db \<Rightarrow> string list \<Rightarrow> User list" where
  "get_users d [] = []"
| "get_users d (i # is) = (case get_user d i of Inr u \<Rightarrow> u # get_users d is | Inl _ \<Rightarrow> get_users d is)"

definition get_participant_users :: "db \<Rightarrow> string \<Rightarrow> AppError + User list" where
  "get_participant_users d channel_id =
     and_then (list_participant_ids d channel_id) (\<lambda>is. Inr (get_users d is))"

text \<open>The first channel in table order; the query does not select the last column.\<close>

definition find_existing_dm :: "db \<Rightarrow> string \<Rightarrow> string \<Rightarrow> AppError + ChannelRow option" where
  "find_existing_dm d user_a user_b =
     query d (map_option (\<lambda>ch. ch\<lparr>ch_allow_anonymous_read := False\<rparr>)
       (find (\<lambda>ch. (ch_id ch, user_a) \<in> set (dm_participants d) \<and> (ch_id ch, user_b) \<in> set (dm_participants d) \<and>
                   ch_type ch = ''dm'') (channels d)))"

definition new_dm :: "string \<Rightarrow> string \<Rightarrow> string \<Rightarrow> string \<Rightarrow> ChannelRow" where
  "new_dm new_id now channel_type creator_id =
     \<lparr>ch_id = new_id, ch_type = channel_type, ch_space_id = None, ch_name = Some [], ch_description = [],
      ch_topic = None, ch_position = 0, ch_parent_id = None, ch_nsfw = False, ch_rate_limit = 0,
      ch_bitrate = None, ch_user_limit = None, ch_owner_id = Some creator_id, ch_last_message_id = None,
      ch_archived = False, ch_auto_archive_after = None, ch_allow_anonymous_read = False, ch_created_at = now\<rparr>"

fun add_participants :: "string \<Rightarrow> string list \<Rightarrow> db \<Rightarrow> db \<times> (AppError + unit)" where
  "add_participants channel_id [] d = (d, Inr ())"
| "add_participants channel_id (u # us) d =
     try_run (add_participant channel_id u d) (\<lambda>d _. add_participants channel_id us d)"

definition db_create_dm_channel ::
    "string \<Rightarrow> string \<Rightarrow> string \<Rightarrow> string list \<Rightarrow> db \<Rightarrow> db \<times> (AppError + ChannelRow)" where
  "db_create_dm_channel new_id now creator_id recipient_ids d =
     (if recipient_ids = [] then (d, Inl (BadRequest ''at least one recipient is required'')) else
      try_in d (if length recipient_ids = 1 then find_existing_dm d creator_id (hd recipient_ids) else Inr None)
        (\<lambda>existing.
        case existing of
          Some ch \<Rightarrow> try_run (add_participant (ch_id ch) creator_id d) (\<lambda>d _. (d, Inr ch))
        | None \<Rightarrow>
            try_run (insert_channel
                       (new_dm new_id now (if length recipient_ids = 1 then ''dm'' else ''group_dm'') creator_id) d)
              (\<lambda>d _.
            try_run (add_participants new_id (creator_id # recipient_ids) d) (\<lambda>d _.
            (d, get_channel_row d new_id)))))"

section \<open>Documents and events\<close>

definition overwrite_json :: "PermissionOverwrite \<Rightarrow> json" where
  "overwrite_json ow =
     JObj [(''id'', JStr (ow_id ow)), (''type'', JStr (ow_type ow)), (''allow'', jstrs (ow_allow ow)),
           (''deny'', jstrs (ow_deny ow))]"

text \<open>The whole row; \<open>origin\<close> only when there is one.\<close>

definition user_json :: "User \<Rightarrow> json" where
  "user_json u = JObj (
     [(''id'', JStr (us_id u)), (''username'', JStr (us_username u)), (''display_name'', jstr_opt (us_display_name u)),
      (''avatar'', jstr_opt (us_avatar u)), (''banner'', jstr_opt (us_banner u)),
      (''accent_color'', jint_opt (us_accent_color u)), (''bio'', jstr_opt (us_bio u)), (''bot'', JBool (us_bot u)),
      (''system'', JBool (us_system u)), (''is_admin'', JBool (us_is_admin u)),
      (''mfa_enabled'', JBool (us_mfa_enabled u)), (''disabled'', JBool (us_disabled u)),
      (''flags'', JNum (us_flags u)), (''public_flags'', JNum (us_public_flags u)),
      (''created_at'', JStr (us_created_at u))] @
     (case us_origin u of None \<Rightarrow> [] | Some h \<Rightarrow> [(''origin'', JStr h)]))"

definition channel_row_to_json_with_overwrites :: "ChannelRow \<Rightarrow> PermissionOverwrite list \<Rightarrow> json" where
  "channel_row_to_json_with_overwrites ch ows = JObj
     [(''id'', JStr (ch_id ch)), (''type'', JStr (ch_type ch)), (''space_id'', jstr_opt (ch_space_id ch)),
      (''name'', jstr_opt (ch_name ch)), (''topic'', jstr_opt (ch_topic ch)), (''position'', JNum (ch_position ch)),
      (''parent_id'', jstr_opt (ch_parent_id ch)), (''nsfw'', JBool (ch_nsfw ch)),
      (''rate_limit'', JNum (ch_rate_limit ch)), (''bitrate'', jint_opt (ch_bitrate ch)),
      (''user_limit'', jint_opt (ch_user_limit ch)), (''owner_id'', jstr_opt (ch_owner_id ch)),
      (''last_message_id'', jstr_opt (ch_last_message_id ch)),
      (''permission_overwrites'', JArr (map overwrite_json ows)), (''archived'', JBool (ch_archived ch)),
      (''auto_archive_after'', jint_opt (ch_auto_archive_after ch)),
      (''allow_anonymous_read'', JBool (ch_allow_anonymous_read ch)), (''created_at'', JStr (ch_created_at ch))]"

definition channel_row_to_json_pub :: "db \<Rightarrow> ChannelRow \<Rightarrow> json" where
  "channel_row_to_json_pub d ch =
     (let j = channel_row_to_json_with_overwrites ch (or_default (list_overwrites d (ch_id ch))) in
      if is_dm_channel (ch_type ch)
      then jinsert ''recipients'' (JArr (map user_json (or_default (get_participant_users d (ch_id ch))))) j
      else j)"

fun channels_to_json :: "db \<Rightarrow> ChannelRow list \<Rightarrow> AppError + json list" where
  "channels_to_json d [] = Inr []"
| "channels_to_json d (ch # chs) =
     and_then (list_overwrites d (ch_id ch)) (\<lambda>ows.
     and_then (channels_to_json d chs) (\<lambda>js. Inr (channel_row_to_json_with_overwrites ch ows # js)))"

definition channel_event ::
    "string \<Rightarrow> string option \<Rightarrow> string list option \<Rightarrow> json \<Rightarrow> GatewayBroadcast" where
  "channel_event event_type space_id targets data =
     \<lparr>gb_space_id = space_id, gb_target_user_ids = targets,
      gb_event = JObj [(''op'', JNum 0), (''type'', JStr event_type), (''data'', data)],
      gb_intent = ''channels'', gb_required_permission = None\<rparr>"

section \<open>Handlers of channels\<close>

definition get_channel :: "db \<Rightarrow> string \<Rightarrow> AuthUser \<Rightarrow> AppError + json" where
  "get_channel d channel_id auth =
     and_then (require_channel_permission d channel_id auth ''view_channel'') (\<lambda>_.
     and_then (get_channel_row d channel_id) (\<lambda>channel. Inr (channel_row_to_json_pub d channel)))"

definition quoted :: "string \<Rightarrow> string" where
  "quoted s = CHR 0x27 # s @ [CHR 0x27]"

definition is_non_destructive_type_change :: "string \<Rightarrow> string \<Rightarrow> bool" where
  "is_non_destructive_type_change from to \<longleftrightarrow>
     from \<in> {''text'', ''announcement''} \<and> to \<in> {''text'', ''announcement''}"

definition may_update_channel :: "db \<Rightarrow> string \<Rightarrow> AuthUser \<Rightarrow> ChannelRow \<Rightarrow> AppError + unit" where
  "may_update_channel d channel_id auth existing =
     (if ch_type existing = ''group_dm'' then
        and_then (require_dm_access d channel_id (au_user_id auth)) (\<lambda>_.
        if ch_owner_id existing \<noteq> Some (au_user_id auth)
        then Inl (Forbidden ''only the group owner can rename'') else Inr ())
      else if ch_type existing = ''dm'' then Inl (BadRequest ''cannot rename a 1:1 DM'')
      else and_then (require_channel_permission d channel_id auth ''manage_channels'') (\<lambda>_. Inr ()))"

definition validate_type_change :: "ChannelRow \<Rightarrow> string option \<Rightarrow> AppError + unit" where
  "validate_type_change existing new_type =
     (case new_type of
        None \<Rightarrow> Inr ()
      | Some ty \<Rightarrow>
          if ty \<noteq> ch_type existing \<and> \<not> is_non_destructive_type_change (ch_type existing) ty
          then Inl (BadRequest (''cannot change channel type from '' @ quoted (ch_type existing) @ '' to '' @ quoted ty)) else Inr ())"

text \<open>Tell the participants of a direct message.\<close>

definition tell_participants :: "app \<Rightarrow> string \<Rightarrow> string \<Rightarrow> json \<Rightarrow> app \<times> (AppError + json)" where
  "tell_participants s channel_id event_type data =
     try_in s (list_participant_ids (ap_db s) channel_id) (\<lambda>is.
     (send (channel_event event_type None (Some is) data) s, Inr data))"

definition update_channel :: "app \<Rightarrow> string \<Rightarrow> AuthUser \<Rightarrow> UpdateChannel \<Rightarrow> app \<times> (AppError + json)" where
  "update_channel s channel_id auth input =
     try_in s (get_channel_row (ap_db s) channel_id) (\<lambda>existing.
     try_in s (may_update_channel (ap_db s) channel_id auth existing) (\<lambda>_.
     try_in s (validate_type_change existing (uc_type input)) (\<lambda>_.
     try_run (on_db (db_update_channel channel_id input) s) (\<lambda>s channel.
     let j = channel_row_to_json_pub (ap_db s) channel in
     if is_dm_channel (ch_type existing) then tell_participants s channel_id ''channel.update'' j
     else case ch_space_id existing of
            Some sid \<Rightarrow> (send (channel_event ''channel.update'' (Some sid) None j) s, Inr j)
          | None \<Rightarrow> (s, Inr j)))))"

definition set_owner :: "string \<Rightarrow> string \<Rightarrow> db \<Rightarrow> db \<times> (AppError + unit)" where
  "set_owner channel_id user_id d =
     execute_checked d
       (\<lambda>d. if list_ex (\<lambda>ch. ch_id ch = channel_id) (channels d) \<and> \<not> list_ex (\<lambda>u. us_id u = user_id) (users d)
            then Some (foreign_key_violation d) else None)
       (set_channel channel_id (\<lambda>ch. ch\<lparr>ch_owner_id := Some user_id\<rparr>))"

definition transfer_to_first :: "app \<Rightarrow> string \<Rightarrow> app \<times> (AppError + unit)" where
  "transfer_to_first s channel_id =
     try_in s (list_participant_ids (ap_db s) channel_id) (\<lambda>is.
     case is of [] \<Rightarrow> (s, Inr ()) | new_owner # _ \<Rightarrow> on_db (set_owner channel_id new_owner) s)"

text \<open>For a direct message, deleting is leaving.\<close>

definition leave_dm :: "app \<Rightarrow> string \<Rightarrow> AuthUser \<Rightarrow> ChannelRow \<Rightarrow> app \<times> (AppError + unit)" where
  "leave_dm s channel_id auth existing =
     try_in s (require_dm_access (ap_db s) channel_id (au_user_id auth)) (\<lambda>_.
     try_run (on_db (remove_participant channel_id (au_user_id auth)) s) (\<lambda>s _.
     let s1 = revoke_channel_voice_access s channel_id (Some (au_user_id auth)) in
     try_in s1 (count_participants (ap_db s1) channel_id) (\<lambda>remaining.
     try_run (if remaining \<le> 0 then on_db (db_delete_channel channel_id) s1
              else if ch_type existing = ''group_dm'' \<and> ch_owner_id existing = Some (au_user_id auth)
              then transfer_to_first s1 channel_id else (s1, Inr ())) (\<lambda>s _.
     try_in s (list_participant_ids (ap_db s) channel_id) (\<lambda>is.
     if is = [] then (s, Inr ()) else
     try_in s (get_channel_row (ap_db s) channel_id) (\<lambda>updated.
     (send (channel_event ''channel.update'' None (Some is) (channel_row_to_json_pub (ap_db s) updated)) s,
      Inr ())))))))"

definition delete_channel :: "app \<Rightarrow> string \<Rightarrow> AuthUser \<Rightarrow> app \<times> (AppError + unit)" where
  "delete_channel s channel_id auth =
     try_in s (get_channel_row (ap_db s) channel_id) (\<lambda>existing.
     if is_dm_channel (ch_type existing) then leave_dm s channel_id auth existing else
     try_in s (require_channel_permission (ap_db s) channel_id auth ''manage_channels'') (\<lambda>_.
     let s1 = (case ch_space_id existing of
                 None \<Rightarrow> s
               | Some sid \<Rightarrow> send (channel_event ''channel.delete'' (Some sid) None
                                (JObj [(''id'', JStr channel_id), (''space_id'', JStr sid)])) s) in
     try_run (on_db (db_delete_channel channel_id) s1) (\<lambda>s _.
     (revoke_channel_voice_access s channel_id None, Inr ()))))"

section \<open>Handlers of overwrites\<close>

definition list_channel_overwrites :: "db \<Rightarrow> string \<Rightarrow> AuthUser \<Rightarrow> AppError + json list" where
  "list_channel_overwrites d channel_id auth =
     and_then (require_channel_permission d channel_id auth ''manage_roles'') (\<lambda>_.
     and_then (list_overwrites d channel_id) (\<lambda>ows. Inr (map overwrite_json ows)))"

definition broadcast_permissions_changed :: "chrono \<Rightarrow> app \<Rightarrow> string \<Rightarrow> app \<times> (AppError + json)" where
  "broadcast_permissions_changed chr s channel_id =
     try_in s (get_channel_row (ap_db s) channel_id) (\<lambda>channel.
     let j = channel_row_to_json_pub (ap_db s) channel;
         s1 = send (channel_event ''channel.update'' (ch_space_id channel) None j) s;
         s2 = reconcile_voice_access s1;
         s3 = (case livekit_client s2 of
                 Some lk \<Rightarrow> if test_mode s2 then s2 else refresh_channel_permissions chr lk s2 channel_id
               | None \<Rightarrow> s2)
     in (s3, Inr j))"

fun check_overwritable :: "string list \<Rightarrow> string list \<Rightarrow> AppError + unit" where
  "check_overwritable actor_perms [] = Inr ()"
| "check_overwritable actor_perms (p # ps) =
     (if p = ''administrator'' then Inl (BadRequest ''administrator cannot be overwritten'')
      else if \<not> has_permission actor_perms p
      then Inl (Forbidden (''you cannot overwrite a permission you do not have: '' @ p))
      else check_overwritable actor_perms ps)"

definition validate_existing_overwrite ::
    "db \<Rightarrow> string \<Rightarrow> string \<Rightarrow> string list \<Rightarrow> AppError + unit" where
  "validate_existing_overwrite d channel_id overwrite_id actor_perms =
     and_then (list_overwrites d channel_id) (\<lambda>ows.
     case find (\<lambda>ow. ow_id ow = overwrite_id) ows of
       None \<Rightarrow> Inr ()
     | Some old \<Rightarrow>
         (case find (\<lambda>p. \<not> has_permission actor_perms p) (ow_allow old @ ow_deny old) of
            Some p \<Rightarrow> Inl (Forbidden (''you cannot remove an overwrite for a permission you do not have: '' @ p))
          | None \<Rightarrow> Inr ()))"

definition overwrite_actor_perms :: "db \<Rightarrow> string \<Rightarrow> string \<Rightarrow> AuthUser \<Rightarrow> AppError + string list" where
  "overwrite_actor_perms d channel_id space_id auth =
     (if au_is_admin auth then Inr [''administrator'']
      else resolve_channel_permissions d channel_id space_id (au_user_id auth))"

definition check_overwrite_target :: "db \<Rightarrow> string \<Rightarrow> string \<Rightarrow> string \<Rightarrow> string \<Rightarrow> AppError + unit" where
  "check_overwrite_target d channel_id space_id overwrite_id ty =
     and_then (if ty = ''member'' then and_then (get_member_row d space_id overwrite_id) (\<lambda>_. Inr ()) else Inr ()) (\<lambda>_.
     if ty = ''role'' then
       and_then (get_channel_row d channel_id) (\<lambda>channel.
       case ch_space_id channel of
         None \<Rightarrow> Inr ()
       | Some sid \<Rightarrow>
           and_then (map_err (\<lambda>_. NotFound ''role not found'') (get_role_row d overwrite_id)) (\<lambda>role.
           if ro_space_id role \<noteq> sid then Inl (NotFound ''role not found in this space'') else Inr ()))
     else Inr ())"

definition upsert_overwrite_checks ::
    "db \<Rightarrow> string \<Rightarrow> string \<Rightarrow> AuthUser \<Rightarrow> UpsertOverwriteRequest \<Rightarrow> AppError + unit" where
  "upsert_overwrite_checks d channel_id overwrite_id auth input =
     and_then (require_channel_permission d channel_id auth ''manage_roles'') (\<lambda>_.
     if uo_type input \<noteq> ''role'' \<and> uo_type input \<noteq> ''member''
     then Inl (BadRequest (''type must be '' @ quoted ''role'' @ '' or '' @ quoted ''member'')) else
     case find (\<lambda>p. p \<notin> set ALL_PERMISSIONS) (uo_allow input @ uo_deny input) of
       Some p \<Rightarrow> Inl (BadRequest (''unknown permission: '' @ p))
     | None \<Rightarrow>
     and_then (get_channel_row d channel_id) (\<lambda>channel.
     and_then (ok_or (BadRequest ''DMs do not support permission overwrites'') (ch_space_id channel)) (\<lambda>space_id.
     and_then (overwrite_actor_perms d channel_id space_id auth) (\<lambda>actor_perms.
     and_then (check_overwritable actor_perms (uo_allow input @ uo_deny input)) (\<lambda>_.
     and_then (validate_existing_overwrite d channel_id overwrite_id actor_perms) (\<lambda>_.
     check_overwrite_target d channel_id space_id overwrite_id (uo_type input)))))))"

definition upsert_overwrite ::
    "chrono \<Rightarrow> app \<Rightarrow> string \<Rightarrow> string \<Rightarrow> AuthUser \<Rightarrow> UpsertOverwriteRequest \<Rightarrow> app \<times> (AppError + json)" where
  "upsert_overwrite chr s channel_id overwrite_id auth input =
     try_in s (upsert_overwrite_checks (ap_db s) channel_id overwrite_id auth input) (\<lambda>_.
     let ow = \<lparr>ow_id = overwrite_id, ow_type = uo_type input, ow_allow = uo_allow input, ow_deny = uo_deny input\<rparr> in
     try_run (on_db (db_upsert_overwrite channel_id ow) s) (\<lambda>s _.
     try_run (broadcast_permissions_changed chr s channel_id) (\<lambda>s _. (s, Inr (overwrite_json ow)))))"

definition delete_overwrite_checks :: "db \<Rightarrow> string \<Rightarrow> string \<Rightarrow> AuthUser \<Rightarrow> AppError + unit" where
  "delete_overwrite_checks d channel_id overwrite_id auth =
     and_then (require_channel_permission d channel_id auth ''manage_roles'') (\<lambda>_.
     and_then (get_channel_row d channel_id) (\<lambda>channel.
     and_then (ok_or (BadRequest ''DMs do not support permission overwrites'') (ch_space_id channel)) (\<lambda>space_id.
     and_then (overwrite_actor_perms d channel_id space_id auth) (\<lambda>actor_perms.
     validate_existing_overwrite d channel_id overwrite_id actor_perms))))"

definition delete_overwrite :: "chrono \<Rightarrow> app \<Rightarrow> string \<Rightarrow> string \<Rightarrow> AuthUser \<Rightarrow> app \<times> (AppError + unit)" where
  "delete_overwrite chr s channel_id overwrite_id auth =
     try_in s (delete_overwrite_checks (ap_db s) channel_id overwrite_id auth) (\<lambda>_.
     try_run (on_db (db_delete_overwrite channel_id overwrite_id) s) (\<lambda>s _.
     try_run (broadcast_permissions_changed chr s channel_id) (\<lambda>s _. (s, Inr ()))))"

section \<open>Handlers of group messages\<close>

text \<open>The channel as it is now, to everyone in it.\<close>

definition announce_group :: "app \<Rightarrow> string \<Rightarrow> app \<times> (AppError + json)" where
  "announce_group s channel_id =
     try_in s (get_channel_row (ap_db s) channel_id) (\<lambda>updated.
     tell_participants s channel_id ''channel.update'' (channel_row_to_json_pub (ap_db s) updated))"

definition require_group :: "db \<Rightarrow> string \<Rightarrow> AuthUser \<Rightarrow> string \<Rightarrow> AppError + ChannelRow" where
  "require_group d channel_id auth error =
     and_then (get_channel_row d channel_id) (\<lambda>channel.
     if ch_type channel \<noteq> ''group_dm'' then Inl (BadRequest error) else
     and_then (require_dm_access d channel_id (au_user_id auth)) (\<lambda>_. Inr channel))"

definition add_recipient_checks :: "db \<Rightarrow> string \<Rightarrow> string \<Rightarrow> AuthUser \<Rightarrow> AppError + unit" where
  "add_recipient_checks d channel_id user_id auth =
     and_then (require_group d channel_id auth ''can only add recipients to group DMs'') (\<lambda>channel.
     if ch_owner_id channel \<noteq> Some (au_user_id auth)
     then Inl (Forbidden ''only the group owner can add members'') else
     and_then (get_user d user_id) (\<lambda>_.
     and_then (count_participants d channel_id) (\<lambda>n.
     if n \<ge> 10 then Inl (BadRequest ''group DMs cannot have more than 10 participants'') else Inr ())))"

definition add_recipient :: "app \<Rightarrow> string \<Rightarrow> string \<Rightarrow> AuthUser \<Rightarrow> app \<times> (AppError + json)" where
  "add_recipient s channel_id user_id auth =
     try_in s (add_recipient_checks (ap_db s) channel_id user_id auth) (\<lambda>_.
     try_run (on_db (add_participant channel_id user_id) s) (\<lambda>s _. announce_group s channel_id))"

text \<open>When nobody or one is left, the group goes.\<close>

definition close_group :: "app \<Rightarrow> string \<Rightarrow> app \<times> (AppError + json)" where
  "close_group s channel_id =
     try_run (on_db (db_delete_channel channel_id) s) (\<lambda>s _.
     let s1 = revoke_channel_voice_access s channel_id None in
     try_in s1 (list_participant_ids (ap_db s1) channel_id) (\<lambda>is.
     ((if is = [] then s1
       else send (channel_event ''channel.delete'' None (Some is) (JObj [(''id'', JStr channel_id)])) s1), Inr JNull)))"

definition remove_recipient :: "app \<Rightarrow> string \<Rightarrow> string \<Rightarrow> AuthUser \<Rightarrow> app \<times> (AppError + json)" where
  "remove_recipient s channel_id user_id auth =
     try_in s (require_group (ap_db s) channel_id auth ''can only remove recipients from group DMs'') (\<lambda>channel.
     if user_id \<noteq> au_user_id auth \<and> ch_owner_id channel \<noteq> Some (au_user_id auth)
     then (s, Inl (Forbidden ''only the group owner can remove members'')) else
     try_run (on_db (remove_participant channel_id user_id) s) (\<lambda>s _.
     let s1 = revoke_channel_voice_access s channel_id (Some user_id) in
     try_in s1 (count_participants (ap_db s1) channel_id) (\<lambda>remaining.
     if remaining \<le> 1 then close_group s1 channel_id else
     try_run (if ch_owner_id channel = Some user_id then transfer_to_first s1 channel_id else (s1, Inr ())) (\<lambda>s _.
     announce_group s channel_id))))"

section \<open>Handlers of a space's channels\<close>

definition create_channel_checks :: "db \<Rightarrow> string \<Rightarrow> AuthUser \<Rightarrow> CreateChannel \<Rightarrow> AppError + unit" where
  "create_channel_checks d space_id auth input =
     and_then (require_permission d space_id auth ''manage_channels'') (\<lambda>_.
     if trim (cc_name input) = [] \<or> length (trim (cc_name input)) > 100
     then Inl (BadRequest ''channel name must be between 1 and 100 characters'')
     else if (case cc_topic input of Some t \<Rightarrow> length t > 1024 | None \<Rightarrow> False)
     then Inl (BadRequest ''topic must be at most 1024 characters'')
     else if \<not> in_range 0 384000 (cc_bitrate input)
     then Inl (BadRequest ''bitrate must be between 0 and 384000'')
     else if \<not> in_range 0 99 (cc_user_limit input)
     then Inl (BadRequest ''user_limit must be between 0 and 99'')
     else Inr ())"

definition create_channel ::
    "string \<Rightarrow> string \<Rightarrow> app \<Rightarrow> string \<Rightarrow> AuthUser \<Rightarrow> CreateChannel \<Rightarrow> app \<times> (AppError + json)" where
  "create_channel new_id now s space_id auth input =
     try_in s (create_channel_checks (ap_db s) space_id auth input) (\<lambda>_.
     try_run (on_db (db_create_channel new_id now space_id input) s) (\<lambda>s channel.
     let j = channel_row_to_json_pub (ap_db s) channel in
     (send (channel_event ''channel.create'' (Some space_id) None j) s, Inr j)))"

definition reorder_channels ::
    "app \<Rightarrow> string \<Rightarrow> AuthUser \<Rightarrow> ChannelPositionUpdate list \<Rightarrow> app \<times> (AppError + json list)" where
  "reorder_channels s space_id auth input =
     try_in s (require_permission (ap_db s) space_id auth ''manage_channels'') (\<lambda>_.
     try_run (on_db (db_reorder_channels space_id input) s) (\<lambda>s _.
     try_in s (list_channels_in_space (ap_db s) space_id) (\<lambda>chs.
     try_in s (channels_to_json (ap_db s) chs) (\<lambda>data.
     (send (channel_event ''channel.reorder'' (Some space_id) None
              (JObj [(''space_id'', JStr space_id), (''channels'', JArr data)])) s, Inr data)))))"

definition may_list_channels :: "db \<Rightarrow> SpaceRow \<Rightarrow> AuthUser option \<Rightarrow> AppError + unit" where
  "may_list_channels d space auth =
     (case auth of
        Some user \<Rightarrow>
          if au_is_guest user then
            and_then (require_permission d (sp_id space) user ''view_channel'') (\<lambda>_.
            if \<not> sp_allow_guest_access space then Inl (Forbidden ''guest access is disabled'') else Inr ())
          else if au_is_admin user then Inr ()
          else require_membership d (sp_id space) (au_user_id user)
      | None \<Rightarrow>
          if \<not> sp_public space then Inl (Unauthorized ''authentication required'') else Inr ())"

definition list_channels :: "db \<Rightarrow> string \<Rightarrow> AuthUser option \<Rightarrow> AppError + json list" where
  "list_channels d space_id auth =
     and_then (get_space_row d space_id) (\<lambda>space.
     and_then (may_list_channels d space auth) (\<lambda>_.
     and_then (list_channels_in_space d space_id) (\<lambda>all_channels.
     and_then (readable_channels d auth False all_channels) (\<lambda>chs. channels_to_json d chs))))"

end
