(* ===== verification/ChannelSafety.thy ===== *)
theory ChannelSafety
  imports Channels MessageSpec
begin

text \<open>
  Every request about channels, their overwrites and the participants of group messages together, and what
  holds for every sequence of them: the tree of categories, the references to channels, what a deletion
  takes with it, and whom overwrites can concern.
\<close>

section \<open>Requests\<close>

datatype channel_request =
    NewChannel string string string CreateChannel
  | ChangeChannel string UpdateChannel
  | DropChannel string
  | Reorder string "ChannelPositionUpdate list"
  | PutOverwrite string string UpsertOverwriteRequest
  | DropOverwrite string string
  | AddRecipient string string
  | RemoveRecipient string string

fun handle_channel :: "chrono \<Rightarrow> AuthUser \<Rightarrow> channel_request \<Rightarrow> app \<Rightarrow> app \<times> (AppError + unit)" where
  "handle_channel chr auth (NewChannel i now sp input) s = only_ok (create_channel i now s sp auth input)"
| "handle_channel chr auth (ChangeChannel c input) s = only_ok (update_channel s c auth input)"
| "handle_channel chr auth (DropChannel c) s = delete_channel s c auth"
| "handle_channel chr auth (Reorder sp us) s = only_ok (reorder_channels s sp auth us)"
| "handle_channel chr auth (PutOverwrite c i input) s = only_ok (upsert_overwrite chr s c i auth input)"
| "handle_channel chr auth (DropOverwrite c i) s = delete_overwrite chr s c i auth"
| "handle_channel chr auth (AddRecipient c u) s = only_ok (add_recipient s c u auth)"
| "handle_channel chr auth (RemoveRecipient c u) s = only_ok (remove_recipient s c u auth)"

fun handle_channels :: "chrono \<Rightarrow> (AuthUser \<times> channel_request) list \<Rightarrow> app \<Rightarrow> app" where
  "handle_channels chr [] s = s"
| "handle_channels chr ((auth, r) # rs) s = handle_channels chr rs (fst (handle_channel chr auth r s))"

lemma permissions_evictions_only:
  "evictions_only (ap_db s) (ap_db (fst (broadcast_permissions_changed chr s c)))"
proof -
  have reconciled: "evictions_only (ap_db s) (ap_db (reconcile_voice_access (send b s)))" for b
    using reconcile_evictions_only [of "send b s"] by simp
  moreover have "evictions_only (ap_db t) (ap_db (refresh_channel_permissions chr lk t c))" for lk t
    by (simp add: refresh_channel_permissions_def foldl_evictions_only refresh_participant_evictions_only)
  ultimately have "evictions_only (ap_db s) (ap_db (refresh_channel_permissions chr lk (reconcile_voice_access (send b s)) c))"
    for b lk
    using evictions_only_trans by blast
  with reconciled show ?thesis
    by (auto simp: broadcast_permissions_changed_def Let_def try_in_def split: option.split sum.split)
qed

section \<open>Invariants of the statements are invariants of the handlers\<close>

text \<open>
  What the handlers need of an invariant of the tables: that every statement they run keeps it.  That a
  type is only changed to one without loss is checked by the handler, not the statement.
\<close>

locale channel_invariant =
  fixes I :: "db \<Rightarrow> bool"
  assumes evicted: "I d \<Longrightarrow> evictions_only d d' \<Longrightarrow> I d'"
    and created: "I d \<Longrightarrow> I (fst (db_create_channel i now sp input d))"
    and updated: "I d \<Longrightarrow> get_channel_row d c = Inr ch \<Longrightarrow> validate_type_change ch (uc_type change) = Inr () \<Longrightarrow>
      I (fst (db_update_channel c change d))"
    and deleted: "I d \<Longrightarrow> I (fst (db_delete_channel c d))"
    and reordered: "I d \<Longrightarrow> I (fst (db_reorder_channels sp us d))"
    and overwritten: "I d \<Longrightarrow> I (fst (db_upsert_overwrite c ow d))"
    and unwritten: "I d \<Longrightarrow> I (fst (db_delete_overwrite c i d))"
    and joined: "I d \<Longrightarrow> I (fst (add_participant c u d))"
    and left: "I d \<Longrightarrow> I (fst (remove_participant c u d))"
    and owned: "I d \<Longrightarrow> I (fst (set_owner c u d))"
begin

lemmas checked = keep_try_in [of I]
lemmas ran = keep_try_run [of I]
lemmas wrote = keep_on_db [of I]

lemma revoked: "I (ap_db s) \<Longrightarrow> I (ap_db (revoke_channel_voice_access s c u))"
  unfolding revoke_channel_voice_access_def by (rule evicted [OF _ revoke_evictions_only])

lemma told: "I (ap_db s) \<Longrightarrow> I (ap_db (fst (tell_participants s c ty j)))"
  unfolding tell_participants_def by (rule checked) simp_all

lemma announced: "I (ap_db s) \<Longrightarrow> I (ap_db (fst (announce_group s c)))"
  unfolding announce_group_def by (rule checked) (simp_all add: told)

lemma transferred: "I (ap_db s) \<Longrightarrow> I (ap_db (fst (transfer_to_first s c)))"
  unfolding transfer_to_first_def by (rule checked) (auto intro: wrote owned split: list.split)

lemma permissions_changed: "I (ap_db s) \<Longrightarrow> I (ap_db (fst (broadcast_permissions_changed chr s c)))"
  by (rule evicted [OF _ permissions_evictions_only])

lemma left_dm: "I (ap_db s) \<Longrightarrow> I (ap_db (fst (leave_dm s c auth ch)))"
  unfolding leave_dm_def
  by (intro checked ran)
    (auto simp: Let_def intro!: checked ran wrote left deleted revoked transferred)

lemma deleted_channel: "I (ap_db s) \<Longrightarrow> I (ap_db (fst (delete_channel s c auth)))"
  unfolding delete_channel_def
  by (intro checked)
    (auto simp: Let_def left_dm intro!: checked ran wrote deleted revoked split: option.split)

lemma removed_recipient: "I (ap_db s) \<Longrightarrow> I (ap_db (fst (remove_recipient s c u auth)))"
  unfolding remove_recipient_def close_group_def
  by (intro checked)
    (auto simp: Let_def intro!: checked ran wrote left deleted revoked transferred announced)

lemma handled: "I (ap_db s) \<Longrightarrow> I (ap_db (fst (handle_channel chr auth r s)))"
  by (cases r)
    (auto simp: create_channel_def update_channel_def reorder_channels_def upsert_overwrite_def delete_overwrite_def
      add_recipient_def deleted_channel removed_recipient Let_def
      intro!: checked ran wrote created updated reordered overwritten unwritten joined told announced permissions_changed
      split: option.split)

lemma all_handled: "I (ap_db s) \<Longrightarrow> I (ap_db (handle_channels chr rs s))"
  by (induction chr rs s rule: handle_channels.induct) (simp_all add: handled)

end

section \<open>The tree of categories\<close>

text \<open>Ids are unique, and a channel that has a parent is no category itself: its parent is a category of
  the same space.\<close>

definition placed :: "ChannelRow list \<Rightarrow> ChannelRow \<Rightarrow> bool" where
  "placed chs ch \<longleftrightarrow>
     (\<forall>p. ch_parent_id ch = Some p \<longrightarrow>
        ch_type ch \<noteq> ''category'' \<and> ch_space_id ch \<noteq> None \<and>
        (\<exists>c \<in> set chs. ch_id c = p \<and> ch_type c = ''category'' \<and> ch_space_id c = ch_space_id ch))"

definition channels_wf :: "db \<Rightarrow> bool" where
  "channels_wf d \<longleftrightarrow> distinct (map ch_id (channels d)) \<and> (\<forall>ch \<in> set (channels d). placed (channels d) ch)"

lemma evicted_channels: "evictions_only d d' \<Longrightarrow> channels d' = channels d"
  by (auto simp: evictions_only_def)

lemma channels_wf_evicted: "channels_wf d \<Longrightarrow> evictions_only d d' \<Longrightarrow> channels_wf d'"
  by (simp add: channels_wf_def evicted_channels)

text \<open>Rows changed in place.\<close>

lemma channels_wf_map:
  assumes wf: "channels_wf d"
    and same: "\<And>ch. ch \<in> set (channels d) \<Longrightarrow> ch_id (f ch) = ch_id ch \<and> ch_space_id (f ch) = ch_space_id ch \<and>
      (ch_type (f ch) = ''category'' \<longleftrightarrow> ch_type ch = ''category'') \<and>
      (ch_parent_id (f ch) = ch_parent_id ch \<or> placed (channels d) (f ch))"
    and d': "channels d' = map f (channels d)"
  shows "channels_wf d'"
proof -
  have move: "placed (channels d') c" if "placed (channels d) c" for c
    using that same unfolding placed_def d' by (fastforce simp: image_iff)
  have "placed (channels d) (f ch)" if "ch \<in> set (channels d)" for ch
    using that same [OF that] wf unfolding channels_wf_def by (auto simp: placed_def)
  moreover have "map ch_id (map f (channels d)) = map ch_id (channels d)"
    using same by simp
  ultimately show ?thesis
    using wf move unfolding channels_wf_def d' by (simp del: map_map)
qed

lemma validate_parent_placed:
  assumes "validate_parent d (ch_space_id ch) (ch_type ch) (ch_parent_id ch) = Inr ()"
  shows "placed (channels d) ch"
  using assms
  by (auto simp: validate_parent_def placed_def split: option.splits if_splits dest!: get_channel_row_Inr)

lemma get_channel_row_set: "channels_wf d \<Longrightarrow> get_channel_row d c = Inr ch \<Longrightarrow>
    x \<in> set (channels d) \<Longrightarrow> ch_id x = c \<Longrightarrow> x = ch"
  by (auto simp: channels_wf_def distinct_map inj_on_def dest!: get_channel_row_Inr)

lemma type_change_category:
  "validate_type_change ch ty = Inr () \<Longrightarrow> or_else ty (ch_type ch) = ''category'' \<longleftrightarrow> ch_type ch = ''category''"
  by (auto simp: validate_type_change_def or_else_def is_non_destructive_type_change_def split: option.splits if_splits)


lemma channels_wf_insert:
  assumes wf: "channels_wf d" and "placed (channels d) ch" and "channel_violation ch d = None"
  shows "channels_wf (d\<lparr>channels := channels d @ [ch]\<rparr>)"
proof -
  have "placed (channels d @ [ch]) c" if "placed (channels d) c" for c
    using that by (auto simp: placed_def)
  moreover have "ch_id ch \<notin> ch_id ` set (channels d)"
    using assms(3) by (auto simp: channel_violation_def list_ex_iff split: if_splits)
  ultimately show ?thesis using assms by (simp add: channels_wf_def)
qed

lemma channels_wf_create:
  assumes "channels_wf d"
  shows "channels_wf (fst (db_create_channel i now sp input d))"
proof -
  have "placed (channels d) (new_channel i now sp input)"
    if "validate_parent d (Some sp) (cc_type input) (cc_parent_id input) = Inr ()"
    using that by (intro validate_parent_placed) (simp add: new_channel_def)
  then show ?thesis
    using assms channels_wf_insert [OF assms, of "new_channel i now sp input"]
    by (auto simp: db_create_channel_def insert_channel_def execute_checked_def try_run_def try_in_def
        split: sum.split option.split)
qed

lemma channels_wf_update:
  assumes wf: "channels_wf d" and row: "get_channel_row d c = Inr ch"
    and ty: "validate_type_change ch (uc_type change) = Inr ()"
  shows "channels_wf (fst (db_update_channel c change d))"
proof -
  have "channels_wf (set_channel c (channel_columns change) d)" if new: "validate_new_parent d c change = Inr ()"
  proof (rule channels_wf_map [OF wf, of "\<lambda>ch. if ch_id ch = c then channel_columns change ch else ch"])
    fix x assume x: "x \<in> set (channels d)"
    let ?y = "if ch_id x = c then channel_columns change x else x"
    show "ch_id ?y = ch_id x \<and> ch_space_id ?y = ch_space_id x \<and>
        (ch_type ?y = ''category'' \<longleftrightarrow> ch_type x = ''category'') \<and>
        (ch_parent_id ?y = ch_parent_id x \<or> placed (channels d) ?y)"
    proof (cases "ch_id x = c")
      case True
      then have "x = ch" using get_channel_row_set [OF wf row x] by simp
      moreover have "placed (channels d) (channel_columns change ch)" if "uc_parent_id change = Some p" for p
        using that new row by (intro validate_parent_placed) (auto simp: validate_new_parent_def channel_columns_def or_else_def)
      ultimately show ?thesis
        using True type_change_category [OF ty]
        by (cases "uc_parent_id change") (auto simp: channel_columns_def or_else_def)
    qed simp
  qed (simp add: set_channel_def)
  then show ?thesis
    using wf by (auto simp: db_update_channel_def try_in_def try_run_def execute_def split: sum.split)
qed

lemma channels_wf_same: "channels d' = channels d \<Longrightarrow> channels_wf d' \<longleftrightarrow> channels_wf d"
  by (simp add: channels_wf_def)

lemma clear_parent_simps [simp]:
  "ch_id (clear_parent gone ch) = ch_id ch" "ch_type (clear_parent gone ch) = ch_type ch"
  "ch_space_id (clear_parent gone ch) = ch_space_id ch"
  "ch_parent_id (clear_parent gone ch) = Some p \<longleftrightarrow> ch_parent_id ch = Some p \<and> p \<notin> set gone"
  by (auto simp: clear_parent_def split: option.split)

lemma channels_wf_drop: "channels_wf d \<Longrightarrow> channels_wf (drop_channels P d)"
  unfolding channels_wf_def placed_def drop_channels_def Let_def
  by (fastforce simp: comp_def distinct_map_filter)

lemma channels_wf_delete: "channels_wf d \<Longrightarrow> channels_wf (fst (db_delete_channel c d))"
  using channels_wf_drop [of "delete_messages (\<lambda>m. ms_channel_id m = c) d"]
    channels_wf_same [of "delete_messages (\<lambda>m. ms_channel_id m = c) d" d]
  by (cases "db_ok d") (simp_all add: db_delete_channel_def transaction_def try_run_def)

lemma channels_wf_moves: "channels_wf d \<Longrightarrow> channels_wf (foldl (move_channel sp) d us)"
proof (induction us arbitrary: d)
  case (Cons u us)
  have "channels_wf (move_channel sp d u)"
    by (rule channels_wf_map [OF Cons.prems, of "\<lambda>ch. if ch_id ch = cp_id u \<and> ch_space_id ch = Some sp
      then ch\<lparr>ch_position := cp_position u\<rparr> else ch"]) (simp_all add: move_channel_def)
  then show ?case by (simp add: Cons.IH)
qed simp

lemma beside_channels:
  "channels (fst (db_upsert_overwrite c ow d)) = channels d"
  "channels (fst (db_delete_overwrite c i d)) = channels d"
  "channels (fst (add_participant c u d)) = channels d"
  "channels (fst (remove_participant c u d)) = channels d"
  by (auto simp: db_upsert_overwrite_def db_delete_overwrite_def add_participant_def remove_participant_def
      execute_def execute_checked_fst upsert_overwrite_row_def Let_def)

lemma channels_wf_owner: "channels_wf d \<Longrightarrow> channels_wf (fst (set_owner c u d))"
  using channels_wf_map [of d "\<lambda>ch. if ch_id ch = c then ch\<lparr>ch_owner_id := Some u\<rparr> else ch"
      "set_channel c (\<lambda>ch. ch\<lparr>ch_owner_id := Some u\<rparr>) d"]
  by (auto simp: set_owner_def execute_checked_fst set_channel_def)

interpretation tree: channel_invariant channels_wf
proof
  show "channels_wf (fst (db_reorder_channels sp us d))" if "channels_wf d" for d sp us
    using that channels_wf_moves [OF that]
    by (auto simp: db_reorder_channels_def try_in_def execute_def split: sum.split)
qed (auto simp: channels_wf_evicted channels_wf_create channels_wf_update channels_wf_delete channels_wf_owner
    channels_wf_same [OF beside_channels(1)] channels_wf_same [OF beside_channels(2)]
    channels_wf_same [OF beside_channels(3)] channels_wf_same [OF beside_channels(4)])

text \<open>C31.  Whatever sequence of requests about channels is made, by whomever, the ids stay unique and the
  channels form a tree of depth two: a channel's parent is a category of the same space, and no category has
  a parent.\<close>

theorem channel_tree_preserved:
  assumes "channels_wf (ap_db s)"
  shows "channels_wf (ap_db (handle_channels chr rs s))"
  using assms by (rule tree.all_handled)

section \<open>References to channels\<close>

definition channel_refs :: "db \<Rightarrow> string set" where
  "channel_refs d =
     owr_channel_id ` set (permission_overwrites d) \<union> fst ` set (dm_participants d) \<union>
     mu_channel_id ` set (channel_mutes d) \<union> snd ` set (plugin_sessions d) \<union>
     pi_channel_id ` set (pinned_messages d) \<union> rs_channel_id ` set (read_states d) \<union>
     fst ` fst ` set (message_cooldowns d) \<union> fst ` set (channel_origins d) \<union>
     {c. \<exists>i \<in> set (invites d). in_channel_id i = Some c} \<union> ms_channel_id ` set (messages d)"

definition refs_wf :: "db \<Rightarrow> bool" where
  "refs_wf d \<longleftrightarrow> channel_refs d \<subseteq> ch_id ` set (channels d)"

lemma refs_wf_mono:
  "channel_refs d' \<subseteq> channel_refs d \<Longrightarrow> ch_id ` set (channels d) \<subseteq> ch_id ` set (channels d') \<Longrightarrow>
   refs_wf d \<Longrightarrow> refs_wf d'"
  by (auto simp: refs_wf_def)

lemma set_channel_refs [simp]:
  "channel_refs (d\<lparr>channels := chs\<rparr>) = channel_refs d"
  by (simp add: channel_refs_def)

lemma evicted_refs: "evictions_only d d' \<Longrightarrow> channel_refs d' = channel_refs d"
  unfolding evictions_only_def by (elim exE) (simp add: channel_refs_def)

lemma set_channel_ids: "(\<And>ch. ch_id (f ch) = ch_id ch) \<Longrightarrow>
    ch_id ` set (channels (set_channel c f d)) = ch_id ` set (channels d)"
proof -
  assume "\<And>ch. ch_id (f ch) = ch_id ch"
  then have "map ch_id (channels (set_channel c f d)) = map ch_id (channels d)" by (simp add: set_channel_def)
  then show ?thesis by (metis list.set_map)
qed

lemma channel_columns_id [simp]: "ch_id (channel_columns change ch) = ch_id ch"
  by (simp add: channel_columns_def)

lemma refs_wf_columns: "refs_wf d \<Longrightarrow> (\<And>ch. ch_id (f ch) = ch_id ch) \<Longrightarrow> refs_wf (set_channel c f d)"
  by (rule refs_wf_mono) (simp_all add: set_channel_ids, simp add: set_channel_def)

lemma refs_wf_moves: "refs_wf d \<Longrightarrow> refs_wf (foldl (move_channel sp) d us)"
proof (induction us arbitrary: d)
  case (Cons u us)
  have "map ch_id (channels (move_channel sp d u)) = map ch_id (channels d)" by (simp add: move_channel_def)
  then have "ch_id ` set (channels (move_channel sp d u)) = ch_id ` set (channels d)" by (metis list.set_map)
  then have "refs_wf (move_channel sp d u)"
    by (intro refs_wf_mono [OF _ _ Cons.prems]) (simp_all, simp add: move_channel_def)
  then show ?case by (simp add: Cons.IH)
qed simp

text \<open>What is left after a deletion.\<close>

lemma image_unless: "f ` {x \<in> A. f x \<noteq> c} = f ` A - {c}"
  by auto

lemma delete_messages_refs: "channel_refs (delete_messages P d) \<subseteq> channel_refs d"
proof -
  have "ms_channel_id ` set (messages (delete_messages P d)) \<subseteq> ms_channel_id ` set (messages d)"
    by (auto simp: delete_messages_rows)
  moreover have "pi_channel_id ` set (pinned_messages (delete_messages P d)) \<subseteq> pi_channel_id ` set (pinned_messages d)"
    by (auto simp: delete_messages_rows)
  ultimately show ?thesis
    unfolding channel_refs_def
    by (intro Un_mono) (simp_all add: delete_messages_def Let_def)
qed

lemma taken_chosen: "m \<in> set (messages d) \<Longrightarrow> P m \<Longrightarrow> ms_id m \<in> taken P d"
  by (auto simp: taken_def)

lemma channel_emptied: "m \<in> set (messages (delete_messages (\<lambda>m. ms_channel_id m = c) d)) \<Longrightarrow> ms_channel_id m \<noteq> c"
  using taken_chosen [of _ d "\<lambda>m. ms_channel_id m = c"] by (auto simp: delete_messages_rows)

lemma drop_channels_ids:
  "ch_id ` set (channels (drop_channels (\<lambda>ch. ch_id ch = c) d)) = ch_id ` set (channels d) - {c}"
  by (auto simp: drop_channels_def Let_def image_iff)

lemma drop_channels_refs:
  assumes "c \<in> ch_id ` set (channels d)" and "\<And>m. m \<in> set (messages d) \<Longrightarrow> ms_channel_id m \<noteq> c"
  shows "channel_refs (drop_channels (\<lambda>ch. ch_id ch = c) d) = channel_refs d - {c}"
proof -
  have gone: "set (map ch_id (filter (\<lambda>ch. ch_id ch = c) (channels d))) = {c}"
    using assms(1) by auto
  have fsts: "fst ` fst ` {x \<in> A. fst (fst x) \<noteq> c} = fst ` fst ` A - {c}" for A :: "((string \<times> 'b) \<times> 'c) set"
    using image_unless [of "\<lambda>x. fst (fst x)" A c] by (simp add: image_image)
  have invites: "{c'. \<exists>i. i \<in> A \<and> in_channel_id i \<noteq> Some c \<and> in_channel_id i = Some c'} =
      {c'. \<exists>i \<in> A. in_channel_id i = Some c'} - {c}" for A
    by auto
  have msgs: "ms_channel_id ` set (messages d) - {c} = ms_channel_id ` set (messages d)"
    using assms(2) by auto
  show ?thesis
    unfolding channel_refs_def drop_channels_def Let_def gone
    by (simp add: case_prod_unfold image_unless fsts invites Un_Diff msgs)
qed

lemma refs_wf_delete: "refs_wf d \<Longrightarrow> refs_wf (fst (db_delete_channel c d))"
proof -
  let ?e = "delete_messages (\<lambda>m. ms_channel_id m = c) d"
  assume "refs_wf d"
  then have e: "refs_wf ?e" using refs_wf_mono [OF delete_messages_refs] by simp
  have "refs_wf (drop_channels (\<lambda>ch. ch_id ch = c) ?e)"
  proof (cases "c \<in> ch_id ` set (channels ?e)")
    case True
    then show ?thesis
      using e drop_channels_refs [OF True channel_emptied] unfolding refs_wf_def drop_channels_ids by auto
  next
    case False
    then have none: "filter (\<lambda>ch. ch_id ch = c) (channels ?e) = []" by (auto simp: filter_empty_conv)
    have "drop_channels (\<lambda>ch. ch_id ch = c) ?e = ?e\<lparr>channels := map (clear_parent []) (channels ?e)\<rparr>"
      unfolding drop_channels_def Let_def none by (simp add: case_prod_unfold)
    then show ?thesis using e by (simp add: refs_wf_def image_image)
  qed
  then show ?thesis
    using \<open>refs_wf d\<close> by (cases "db_ok d") (simp_all add: db_delete_channel_def transaction_def try_run_def)
qed

lemma refs_wf_create: "refs_wf d \<Longrightarrow> refs_wf (fst (db_create_channel i now sp input d))"
  by (auto simp: db_create_channel_def insert_channel_def execute_checked_def try_run_def try_in_def refs_wf_def
      split: sum.split option.split)

lemma refs_wf_update: "refs_wf d \<Longrightarrow> refs_wf (fst (db_update_channel c change d))"
  by (simp add: db_update_channel_def try_in_def try_run_def execute_def refs_wf_columns split: sum.split)

lemma refs_wf_add:
  assumes "refs_wf d" and "channel_refs d' \<subseteq> insert c (channel_refs d)" and "c \<in> ch_id ` set (channels d)"
    and "channels d' = channels d"
  shows "refs_wf d'"
  using assms by (auto simp: refs_wf_def)

lemma refs_wf_overwrite: "refs_wf d \<Longrightarrow> refs_wf (fst (db_upsert_overwrite c ow d))"
proof -
  assume d: "refs_wf d"
  have "channel_refs (upsert_overwrite_row c ow d) \<subseteq> insert c (channel_refs d)"
    by (auto simp: channel_refs_def upsert_overwrite_row_def Let_def)
  moreover have "channels (upsert_overwrite_row c ow d) = channels d"
    by (simp add: upsert_overwrite_row_def Let_def)
  ultimately show ?thesis
    using d refs_wf_add [OF d, of "upsert_overwrite_row c ow d" c]
    by (auto simp: db_upsert_overwrite_def execute_checked_fst list_ex_iff)
qed

lemma refs_wf_unwrite: "refs_wf d \<Longrightarrow> refs_wf (fst (db_delete_overwrite c i d))"
  by (cases "db_ok d") (auto simp: db_delete_overwrite_def refs_wf_def channel_refs_def)

lemma refs_wf_join: "refs_wf d \<Longrightarrow> refs_wf (fst (add_participant c u d))"
proof -
  assume d: "refs_wf d"
  let ?e = "d\<lparr>dm_participants := dm_participants d @ [(c, u)]\<rparr>"
  have "channel_refs ?e \<subseteq> insert c (channel_refs d)"
    by (auto simp: channel_refs_def)
  then have "c \<in> ch_id ` set (channels d) \<Longrightarrow> refs_wf ?e"
    using refs_wf_add [OF d, of ?e c] by simp
  then show ?thesis
    using d by (auto simp: add_participant_def execute_checked_fst list_ex_iff)
qed

lemma refs_wf_leave: "refs_wf d \<Longrightarrow> refs_wf (fst (remove_participant c u d))"
  by (cases "db_ok d") (auto simp: remove_participant_def refs_wf_def channel_refs_def)

interpretation refs: channel_invariant refs_wf
proof
  show "refs_wf d'" if "refs_wf d" and e: "evictions_only d d'" for d d'
    using that(1) by (simp add: refs_wf_def evicted_refs [OF e] evicted_channels [OF e])
  show "refs_wf (fst (db_reorder_channels sp us d))" if "refs_wf d" for d sp us
    using that refs_wf_moves [OF that]
    by (auto simp: db_reorder_channels_def try_in_def execute_def split: sum.split)
  show "refs_wf (fst (set_owner c u d))" if "refs_wf d" for c u d
    using that by (simp add: set_owner_def execute_checked_fst refs_wf_columns)
qed (auto simp: refs_wf_create refs_wf_update refs_wf_delete refs_wf_overwrite refs_wf_unwrite refs_wf_join refs_wf_leave)


text \<open>C32.  Whatever sequence of requests about channels is made, no row is left that refers to a channel that is gone:
  overwrites, participants, mutes, plugin sessions, pins, read states, slow-mode rows, invites, origins and
  messages all name a channel that exists.\<close>

theorem channel_references_resolve:
  assumes "refs_wf (ap_db s)"
  shows "refs_wf (ap_db (handle_channels chr rs s))"
  using assms by (rule refs.all_handled)

section \<open>A deletion\<close>

lemma revoked_channel:
  assumes "voice_wf s" and "db_ok (ap_db s)"
  shows "hm_get (voice_states (revoke_channel_voice_access s c None)) k =
    (case hm_get (voice_states s) k of
       Some vs \<Rightarrow> if vs_channel_id vs = Some c then None else Some vs
     | None \<Rightarrow> None)"
  by (simp add: revoke_channel_voice_access_def revoke_get [OF assms] targets_user_def cong: option.case_cong)

text \<open>Deleting a channel of a space is allowed to those who manage it only, and complete: its row is gone
  and nobody else's is, the channels under it move to the top, no row refers to it any more, and everyone who
  was in its voice room is out, nobody else.\<close>

theorem deleted_channel_gone:
  assumes "voice_wf s" and "get_channel_row (ap_db s) c = Inr ch" and "\<not> is_dm_channel (ch_type ch)"
    and "delete_channel s c auth = (s', Inr ())"
  shows "allowed_in (ap_db s) c auth ''manage_channels'' \<and>
    channels (ap_db s') = map (clear_parent [c]) (filter (\<lambda>x. ch_id x \<noteq> c) (channels (ap_db s))) \<and>
    channel_refs (ap_db s') \<subseteq> channel_refs (ap_db s) - {c} \<and>
    hm_get (voice_states s') k = (case hm_get (voice_states s) k of
       Some vs \<Rightarrow> if vs_channel_id vs = Some c then None else Some vs
     | None \<Rightarrow> None)"
proof -
  let ?del = "\<lambda>d. drop_channels (\<lambda>ch. ch_id ch = c) (delete_messages (\<lambda>m. ms_channel_id m = c) d)"
  from get_channel_row_Inr [OF assms(2)] have ok: "db_ok (ap_db s)" and c: "c \<in> ch_id ` set (channels (ap_db s))"
    by auto
  obtain b where s': "s' = revoke_channel_voice_access (s\<lparr>outbox := b, ap_db := ?del (ap_db s)\<rparr>) c None"
    and may: "allowed_in (ap_db s) c auth ''manage_channels''"
  proof (cases "ch_space_id ch")
    case None
    with assms(2-) ok show thesis
      by (intro that [of "outbox s"]) (auto simp: delete_channel_def db_delete_channel_def transaction_def on_db_def
          Let_def try_in_Inr try_run_def allowed_in_def)
  next
    case (Some sid)
    with assms(2-) ok show thesis
      by (intro that) (auto simp: delete_channel_def db_delete_channel_def transaction_def on_db_def
          Let_def send_def try_in_Inr try_run_def allowed_in_def)
  qed
  define t where "t = s\<lparr>outbox := b, ap_db := ?del (ap_db s)\<rparr>"
  have t: "voice_wf t" "db_ok (ap_db t)" "voice_states t = voice_states s" "ap_db t = ?del (ap_db s)"
    using assms(1) ok by (simp_all add: t_def voice_wf_def drop_channels_def Let_def)
  have e: "evictions_only (?del (ap_db s)) (ap_db s')"
    using revoke_evictions_only [of t] by (simp add: s' revoke_channel_voice_access_def t_def)
  have chs: "channels (?del (ap_db s)) = map (clear_parent [c]) (filter (\<lambda>x. ch_id x \<noteq> c) (channels (ap_db s)))"
  proof -
    define gone where "gone = map ch_id (filter (\<lambda>ch. ch_id ch = c) (channels (ap_db s)))"
    have ids: "set gone = {c}" using c by (auto simp: gone_def)
    then have "clear_parent gone = clear_parent [c]" by (auto simp: clear_parent_def fun_eq_iff split: option.split)
    with ids show ?thesis by (simp add: drop_channels_def Let_def del: set_map flip: gone_def)
  qed
  have refs: "channel_refs (?del (ap_db s)) \<subseteq> channel_refs (ap_db s) - {c}"
  proof -
    have "channel_refs (?del (ap_db s)) = channel_refs (delete_messages (\<lambda>m. ms_channel_id m = c) (ap_db s)) - {c}"
      using c by (intro drop_channels_refs) (auto dest: channel_emptied)
    then show ?thesis using delete_messages_refs by blast
  qed
  have chs': "channels (ap_db s') = map (clear_parent [c]) (filter (\<lambda>x. ch_id x \<noteq> c) (channels (ap_db s)))"
    and refs': "channel_refs (ap_db s') \<subseteq> channel_refs (ap_db s) - {c}"
    using chs refs by (simp_all add: evicted_channels [OF e] evicted_refs [OF e])
  show ?thesis
    using may chs' refs' revoked_channel [OF t(1,2), of c k] t(3) by (simp add: s' flip: t_def)
qed

section \<open>Overwrites\<close>

text \<open>What the overwrite of a role or member in a channel says about a permission: allowed, denied.\<close>

definition stance :: "db \<Rightarrow> string \<Rightarrow> string \<Rightarrow> string \<Rightarrow> bool \<times> bool" where
  "stance d c i p =
     (let mine = filter (\<lambda>w. owr_channel_id w = c \<and> owr_id w = i) (permission_overwrites d) in
      (list_ex (\<lambda>w. p \<in> set (from_json_or_default (owr_allow w))) mine,
       list_ex (\<lambda>w. p \<in> set (from_json_or_default (owr_deny w))) mine))"

definition holds_in :: "db \<Rightarrow> string \<Rightarrow> AuthUser \<Rightarrow> string \<Rightarrow> bool" where
  "holds_in d c auth p \<longleftrightarrow>
     (\<exists>ch sp perms. get_channel_row d c = Inr ch \<and> ch_space_id ch = Some sp \<and>
        overwrite_actor_perms d c sp auth = Inr perms \<and> has_permission perms p)"

definition overwrite_keys :: "db \<Rightarrow> bool" where
  "overwrite_keys d \<longleftrightarrow> distinct (map (\<lambda>w. (owr_channel_id w, owr_id w)) (permission_overwrites d))"

lemma check_overwritable_held: "check_overwritable perms ps = Inr () \<Longrightarrow> p \<in> set ps \<Longrightarrow> has_permission perms p"
  by (induction ps) (auto split: if_splits)

lemma unheld_unsaid:
  assumes keys: "overwrite_keys d" and valid: "validate_existing_overwrite d c i perms = Inr ()"
    and lacks: "\<not> has_permission perms p"
  shows "stance d c i p = (False, False)"
proof -
  have "p \<notin> set (from_json_or_default (owr_allow w)) \<and> p \<notin> set (from_json_or_default (owr_deny w))"
    if w: "w \<in> set (permission_overwrites d)" "owr_channel_id w = c" "owr_id w = i" for w
  proof -
    let ?f = "\<lambda>r. \<lparr>ow_id = owr_id r, ow_type = owr_type r, ow_allow = from_json_or_default (owr_allow r),
        ow_deny = from_json_or_default (owr_deny r)\<rparr>"
    obtain ows where ows: "list_overwrites d c = Inr ows"
        "ows = map ?f (filter (\<lambda>r. owr_channel_id r = c) (permission_overwrites d))"
      using valid by (auto simp: validate_existing_overwrite_def list_overwrites_def)
    then have "?f w \<in> set ows" using w by auto
    then obtain old where old: "find (\<lambda>ow. ow_id ow = i) ows = Some old"
      using w(3) by (cases "find (\<lambda>ow. ow_id ow = i) ows") (auto simp: find_None_iff)
    then obtain v where v: "v \<in> set (permission_overwrites d)" "owr_channel_id v = c" "owr_id v = i" "old = ?f v"
      using ows(2) find_SomeD [OF old] by auto
    with w keys have "v = w" by (auto simp: overwrite_keys_def distinct_map inj_on_def)
    then show ?thesis
      using valid ows(1) old v(4) lacks
      by (auto simp: validate_existing_overwrite_def find_None_iff split: option.splits)
  qed
  then show ?thesis by (auto simp: stance_def Let_def list_ex_iff)
qed

lemma stance_evicted: "evictions_only d d' \<Longrightarrow> stance d' = stance d"
  by (auto simp: evictions_only_def stance_def fun_eq_iff)

lemma stance_upsert:
  "stance (upsert_overwrite_row c ow d) c' i' p =
     (if c' = c \<and> i' = ow_id ow then (p \<in> set (ow_allow ow), p \<in> set (ow_deny ow)) else stance d c' i' p)"
proof -
  let ?mine = "\<lambda>w. owr_channel_id w = c \<and> owr_id w = ow_id ow"
  define new where "new = \<lparr>owr_channel_id = c, owr_id = ow_id ow, owr_type = ow_type ow,
      owr_allow = JsonStrings (ow_allow ow), owr_deny = JsonStrings (ow_deny ow)\<rparr>"
  have rows: "set (permission_overwrites (upsert_overwrite_row c ow d)) =
      insert new {w \<in> set (permission_overwrites d). \<not> ?mine w}"
    by (auto simp: upsert_overwrite_row_def Let_def list_ex_iff new_def)
  have new: "owr_channel_id new = c" "owr_id new = ow_id ow" "owr_allow new = JsonStrings (ow_allow ow)"
    "owr_deny new = JsonStrings (ow_deny ow)" by (simp_all add: new_def)
  show ?thesis
    unfolding stance_def Let_def list_ex_iff set_filter rows using new by auto
qed

lemma stance_delete:
  "stance (fst (db_delete_overwrite c i d)) c' i' p =
     (if db_ok d \<and> c' = c \<and> i' = i then (False, False) else stance d c' i' p)"
  by (auto simp: db_delete_overwrite_def execute_def stance_def Let_def list_ex_iff)

text \<open>C33.  What an overwrite says about a permission changes only by someone who may manage the roles of the
  channel and holds that very permission there, and only for the role or member the request names: nobody
  allows, denies or lifts a permission they lack.\<close>

theorem overwrites_confined:
  assumes "overwrite_keys (ap_db s)" and "r = PutOverwrite c i input \<or> r = DropOverwrite c i"
    and "stance (ap_db (fst (handle_channel chr auth r s))) c' i' p \<noteq> stance (ap_db s) c' i' p"
  shows "c' = c \<and> i' = i \<and> allowed_in (ap_db s) c auth ''manage_roles'' \<and> holds_in (ap_db s) c auth p"
  using assms(2)
proof
  assume r: "r = PutOverwrite c i input"
  let ?ow = "\<lparr>ow_id = i, ow_type = uo_type input, ow_allow = uo_allow input, ow_deny = uo_deny input\<rparr>"
  have after: "stance (ap_db (fst (upsert_overwrite chr s c i auth input))) c' i' p =
      (if upsert_overwrite_checks (ap_db s) c i auth input = Inr () then stance (fst (db_upsert_overwrite c ?ow (ap_db s))) c' i' p
       else stance (ap_db s) c' i' p)"
    by (auto simp: upsert_overwrite_def try_in_def try_run_def on_db_def Let_def
        stance_evicted [OF permissions_evictions_only] split: sum.split)
  then have checks: "upsert_overwrite_checks (ap_db s) c i auth input = Inr ()"
    and here: "c' = c \<and> i' = i" and new: "stance (ap_db s) c i p \<noteq> (p \<in> set (uo_allow input), p \<in> set (uo_deny input))"
    using assms(3) by (auto simp: r db_upsert_overwrite_def execute_checked_fst stance_upsert split: if_splits)
  then obtain ch sp perms where row: "get_channel_row (ap_db s) c = Inr ch" "ch_space_id ch = Some sp"
      "overwrite_actor_perms (ap_db s) c sp auth = Inr perms"
    and may: "allowed_in (ap_db s) c auth ''manage_roles''"
    and all: "check_overwritable perms (uo_allow input @ uo_deny input) = Inr ()"
    and valid: "validate_existing_overwrite (ap_db s) c i perms = Inr ()"
    by (auto simp: upsert_overwrite_checks_def allowed_in_def split: if_splits option.splits)
  have "has_permission perms p"
  proof (rule ccontr)
    assume lacks: "\<not> has_permission perms p"
    then have "p \<notin> set (uo_allow input)" "p \<notin> set (uo_deny input)"
      using check_overwritable_held [OF all, of p] by auto
    with new unheld_unsaid [OF assms(1) valid lacks] show False by simp
  qed
  with row may here show ?thesis by (auto simp: holds_in_def)
next
  assume r: "r = DropOverwrite c i"
  have after: "stance (ap_db (fst (delete_overwrite chr s c i auth))) c' i' p =
      (if delete_overwrite_checks (ap_db s) c i auth = Inr () then stance (fst (db_delete_overwrite c i (ap_db s))) c' i' p
       else stance (ap_db s) c' i' p)"
    by (auto simp: delete_overwrite_def try_in_def try_run_def on_db_def Let_def
        stance_evicted [OF permissions_evictions_only] split: sum.split)
  then have checks: "delete_overwrite_checks (ap_db s) c i auth = Inr ()"
    and here: "c' = c \<and> i' = i" and old: "stance (ap_db s) c i p \<noteq> (False, False)"
    using assms(3) by (simp_all add: r stance_delete split: if_splits)
  then obtain ch sp perms where row: "get_channel_row (ap_db s) c = Inr ch" "ch_space_id ch = Some sp"
      "overwrite_actor_perms (ap_db s) c sp auth = Inr perms"
    and may: "allowed_in (ap_db s) c auth ''manage_roles''"
    and valid: "validate_existing_overwrite (ap_db s) c i perms = Inr ()"
    by (auto simp: delete_overwrite_checks_def allowed_in_def)
  have "has_permission perms p" using old unheld_unsaid [OF assms(1) valid, of p] by auto
  with row may here show ?thesis by (auto simp: holds_in_def)
qed

section \<open>Examples\<close>

definition a_tree :: app where
  "a_tree = an_app\<lparr>ap_db := a_db\<lparr>channels := [a_channel ''c'' (Some ''s'') ''text'', a_channel ''cat'' (Some ''s'') ''category'',
     (a_channel ''sub'' (Some ''s'') ''text'')\<lparr>ch_parent_id := Some ''cat''\<rparr>],
     pinned_messages := [\<lparr>pi_channel_id = ''c'', pi_message_id = ''1'', pi_pinned_at = []\<rparr>]\<rparr>\<rparr>"

lemma a_tree_wf: "channels_wf (ap_db a_tree)" "refs_wf (ap_db a_tree)"
  by (simp_all add: channels_wf_def placed_def refs_wf_def channel_refs_def a_tree_def an_app_def sample_defs)

theorem channel_tree_preserved_witness:
  "channels_wf (ap_db (handle_channels a_chrono [(plain_user ''own'', DropChannel ''cat''), (plain_user ''own'', DropChannel ''c'')] a_tree))"
  by (rule channel_tree_preserved) (rule a_tree_wf)

theorem channel_references_resolve_witness:
  "refs_wf (ap_db (handle_channels a_chrono [(plain_user ''own'', DropChannel ''cat''), (plain_user ''own'', DropChannel ''c'')] a_tree))"
  by (rule channel_references_resolve) (rule a_tree_wf)

theorem deleted_channel_gone_witness:
  "channels (ap_db (fst (delete_channel a_tree ''cat'' (plain_user ''own'')))) =
     [a_channel ''c'' (Some ''s'') ''text'', a_channel ''sub'' (Some ''s'') ''text'']"
proof -
  have wf: "voice_wf a_tree" by (simp add: voice_wf_def a_tree_def an_app_def hm_wf_def)
  have row: "get_channel_row (ap_db a_tree) ''cat'' = Inr (a_channel ''cat'' (Some ''s'') ''category'')" by code_simp
  have ty: "\<not> is_dm_channel (ch_type (a_channel ''cat'' (Some ''s'') ''category''))" by code_simp
  have "snd (delete_channel a_tree ''cat'' (plain_user ''own'')) = Inr ()" by code_simp
  then have answer: "delete_channel a_tree ''cat'' (plain_user ''own'') =
      (fst (delete_channel a_tree ''cat'' (plain_user ''own'')), Inr ())" by (metis prod.collapse)
  have "map (clear_parent [''cat'']) (filter (\<lambda>x. ch_id x \<noteq> ''cat'') (channels (ap_db a_tree))) =
      [a_channel ''c'' (Some ''s'') ''text'', a_channel ''sub'' (Some ''s'') ''text'']" by code_simp
  with deleted_channel_gone [OF wf row ty answer] show ?thesis by simp
qed

definition a_role_overwrite :: "string list \<Rightarrow> UpsertOverwriteRequest" where
  "a_role_overwrite ps = \<lparr>uo_type = ''role'', uo_allow = ps, uo_deny = []\<rparr>"

theorem overwrites_confined_witness:
  "holds_in (ap_db a_tree) ''c'' (plain_user ''mod'') ''kick_members'' \<and>
   stance (ap_db (fst (handle_channel a_chrono (plain_user ''mod'')
     (PutOverwrite ''c'' ''helper'' (a_role_overwrite [''ban_members''])) a_tree))) ''c'' ''helper'' ''ban_members'' =
   stance (ap_db a_tree) ''c'' ''helper'' ''ban_members''"
proof
  have keys: "overwrite_keys (ap_db a_tree)" by code_simp
  have "stance (ap_db (fst (handle_channel a_chrono (plain_user ''mod'')
      (PutOverwrite ''c'' ''helper'' (a_role_overwrite [''kick_members''])) a_tree))) ''c'' ''helper'' ''kick_members'' \<noteq>
    stance (ap_db a_tree) ''c'' ''helper'' ''kick_members''" by code_simp
  from overwrites_confined [OF keys disjI1 [OF refl] this]
  show "holds_in (ap_db a_tree) ''c'' (plain_user ''mod'') ''kick_members''" by simp
  have "overwrite_actor_perms (ap_db a_tree) ''c'' ''s'' (plain_user ''mod'') = Inr ([''view_channel'', ''send_messages''] @ [''kick_members'', ''manage_roles''])"
    by code_simp
  then have "\<not> holds_in (ap_db a_tree) ''c'' (plain_user ''mod'') ''ban_members''"
    by (auto simp: holds_in_def a_tree_def an_app_def sample_defs get_channel_row_def has_permission_def)
  with overwrites_confined [OF keys disjI1 [OF refl]]
  show "stance (ap_db (fst (handle_channel a_chrono (plain_user ''mod'')
     (PutOverwrite ''c'' ''helper'' (a_role_overwrite [''ban_members''])) a_tree))) ''c'' ''helper'' ''ban_members'' =
   stance (ap_db a_tree) ''c'' ''helper'' ''ban_members''" by blast
qed

end
