(* ===== verification/Joining.thy ===== *)
theory Joining
  imports Channels
begin

text \<open>
  Who comes into a space and who leaves it: \<open>Server/src/db/bans.rs\<close>, \<open>db/invites.rs\<close>, \<open>db/audit_log.rs\<close>,
  \<open>remove_member_and_data\<close> of \<open>db/members.rs\<close>, and the handlers of \<open>routes/bans.rs\<close>, \<open>routes/invites.rs\<close>,
  \<open>routes/audit_log.rs\<close>, \<open>routes/system_messages.rs\<close>, \<open>join_public_space\<close> (\<open>routes/spaces.rs\<close>) and
  \<open>leave_space\<close> (\<open>routes/members.rs\<close>).

  What a request draws (ids, an invite code, the database's clock) is an argument; the clock of the process
  is \<open>utc_now\<close>, here in seconds.  Files of attachments are not part of the state.
\<close>

section \<open>Statements on bans\<close>

definition get_ban :: "db \<Rightarrow> string \<Rightarrow> string \<Rightarrow> AppError + BanRow" where
  "get_ban d space_id user_id =
     and_then (query d (find (\<lambda>b. ba_space_id b = space_id \<and> ba_user_id b = user_id) (bans d)))
       (ok_or (NotFound ''ban not found''))"

text \<open>Newest first; rows of one time in table order.\<close>

definition db_list_bans :: "db \<Rightarrow> string \<Rightarrow> AppError + BanRow list" where
  "db_list_bans d space_id =
     query d (rev (sort_key ba_created_at (rev (filter (\<lambda>b. ba_space_id b = space_id) (bans d)))))"

definition has_user :: "db \<Rightarrow> string \<Rightarrow> bool" where
  "has_user d user_id = list_ex (\<lambda>u. us_id u = user_id) (users d)"

definition has_space :: "db \<Rightarrow> string \<Rightarrow> bool" where
  "has_space d space_id = list_ex (\<lambda>r. sp_id r = space_id) (spaces d)"

text \<open>A user who is banned already: PostgreSQL updates the row, SQLite replaces it.\<close>

definition put_ban :: "string \<Rightarrow> string \<Rightarrow> string \<Rightarrow> string option \<Rightarrow> string \<Rightarrow> db \<Rightarrow> db" where
  "put_ban now space_id user_id reason banned_by d =
     (let mine = (\<lambda>b. ba_space_id b = space_id \<and> ba_user_id b = user_id) in
      d\<lparr>bans :=
          (if db_is_postgres d \<and> list_ex mine (bans d)
           then map (\<lambda>b. if mine b then b\<lparr>ba_reason := reason, ba_banned_by := Some banned_by\<rparr> else b) (bans d)
           else filter (\<lambda>b. \<not> mine b) (bans d) @
             [\<lparr>ba_user_id = user_id, ba_space_id = space_id, ba_reason = reason, ba_banned_by = Some banned_by,
               ba_created_at = now\<rparr>])\<rparr>)"

text \<open>The membership goes first, in a statement of its own.\<close>

definition db_create_ban ::
    "string \<Rightarrow> string \<Rightarrow> string \<Rightarrow> string option \<Rightarrow> string \<Rightarrow> db \<Rightarrow> db \<times> (AppError + BanRow)" where
  "db_create_ban now space_id user_id reason banned_by d =
     try_run (remove_member space_id user_id d) (\<lambda>d _.
     try_run (execute_checked d
                (\<lambda>d. if \<not> (has_user d user_id \<and> has_space d space_id \<and> has_user d banned_by)
                     then Some (foreign_key_violation d) else None)
                (put_ban now space_id user_id reason banned_by)) (\<lambda>d _.
     (d, get_ban d space_id user_id)))"

definition db_delete_ban :: "string \<Rightarrow> string \<Rightarrow> db \<Rightarrow> db \<times> (AppError + unit)" where
  "db_delete_ban space_id user_id d =
     execute d (\<lambda>d. d\<lparr>bans := filter (\<lambda>b. \<not> (ba_space_id b = space_id \<and> ba_user_id b = user_id)) (bans d)\<rparr>)"

section \<open>Statements on invites\<close>

record CreateInvite =
  ci_max_uses :: "int option"
  ci_max_age :: "int option"
  ci_temporary :: "bool option"

definition db_get_invite :: "db \<Rightarrow> string \<Rightarrow> AppError + Invite" where
  "db_get_invite d inv_code =
     and_then (query d (find (\<lambda>i. in_code i = inv_code) (invites d))) (ok_or (NotFound ''invite not found''))"

definition db_list_space_invites :: "db \<Rightarrow> string \<Rightarrow> AppError + Invite list" where
  "db_list_space_invites d space_id = query d (filter (\<lambda>i. in_space_id i = space_id) (invites d))"

definition db_list_channel_invites :: "db \<Rightarrow> string \<Rightarrow> AppError + Invite list" where
  "db_list_channel_invites d channel_id = query d (filter (\<lambda>i. in_channel_id i = Some channel_id) (invites d))"

definition expiry_format :: string where
  "expiry_format = ''%Y-%m-%dT%H:%M:%S+00:00''"

definition new_invite ::
    "chrono \<Rightarrow> string \<Rightarrow> string \<Rightarrow> string \<Rightarrow> string option \<Rightarrow> string \<Rightarrow> CreateInvite \<Rightarrow> Invite" where
  "new_invite chr inv_code now space_id channel_id inviter_id input =
     \<lparr>in_code = inv_code, in_space_id = space_id, in_channel_id = channel_id, in_inviter_id = Some inviter_id,
      in_max_uses = ci_max_uses input, in_uses = 0, in_max_age = ci_max_age input,
      in_temporary = or_else (ci_temporary input) False, in_created_at = now,
      in_expires_at = (case ci_max_age input of
         Some age \<Rightarrow> if age > 0 then Some (format_utc chr (utc_now chr + age) expiry_format) else None
       | None \<Rightarrow> None)\<rparr>"

definition invite_violation :: "Invite \<Rightarrow> db \<Rightarrow> sqlx_error option" where
  "invite_violation i d =
     (if list_ex (\<lambda>x. in_code x = in_code i) (invites d) then Some (primary_key_violation d)
      else if \<not> has_space d (in_space_id i) \<or>
              (case in_channel_id i of Some c \<Rightarrow> \<not> list_ex (\<lambda>ch. ch_id ch = c) (channels d) | None \<Rightarrow> False) \<or>
              (case in_inviter_id i of Some u \<Rightarrow> \<not> has_user d u | None \<Rightarrow> False)
      then Some (foreign_key_violation d) else None)"

definition insert_invite :: "Invite \<Rightarrow> db \<Rightarrow> db \<times> (AppError + unit)" where
  "insert_invite i d = execute_checked d (invite_violation i) (\<lambda>d. d\<lparr>invites := invites d @ [i]\<rparr>)"

definition db_create_invite ::
    "chrono \<Rightarrow> string \<Rightarrow> string \<Rightarrow> string \<Rightarrow> string option \<Rightarrow> string \<Rightarrow> CreateInvite \<Rightarrow> db \<Rightarrow> db \<times> (AppError + Invite)" where
  "db_create_invite chr inv_code now space_id channel_id inviter_id input d =
     try_run (insert_invite (new_invite chr inv_code now space_id channel_id inviter_id input) d) (\<lambda>d _.
     (d, db_get_invite d inv_code))"

definition db_delete_invite :: "string \<Rightarrow> db \<Rightarrow> db \<times> (AppError + unit)" where
  "db_delete_invite inv_code d = execute d (\<lambda>d. d\<lparr>invites := filter (\<lambda>i. in_code i \<noteq> inv_code) (invites d)\<rparr>)"

text \<open>The condition of the update that claims a use.\<close>

definition claimable :: "string \<Rightarrow> Invite \<Rightarrow> bool" where
  "claimable now i \<longleftrightarrow>
     (case in_max_uses i of None \<Rightarrow> True | Some n \<Rightarrow> n = 0 \<or> in_uses i < n) \<and>
     (case in_expires_at i of None \<Rightarrow> True | Some t \<Rightarrow> now < t)"

definition claim_use :: "string \<Rightarrow> string \<Rightarrow> db \<Rightarrow> db" where
  "claim_use now inv_code d =
     d\<lparr>invites := map (\<lambda>i. if in_code i = inv_code \<and> claimable now i then i\<lparr>in_uses := in_uses i + 1\<rparr> else i) (invites d)\<rparr>"

definition new_member :: "string \<Rightarrow> string \<Rightarrow> string \<Rightarrow> MemberRow" where
  "new_member now space_id user_id =
     \<lparr>mb_user_id = user_id, mb_space_id = space_id, mb_nickname = None, mb_avatar = None, mb_joined_at = now,
      mb_premium_since = None, mb_deaf = False, mb_mute = False, mb_pending = False, mb_timed_out_until = None,
      mb_origin = None\<rparr>"

text \<open>\<open>INSERT .. ON CONFLICT DO NOTHING\<close>, and whether a row was inserted.\<close>

definition insert_member :: "string \<Rightarrow> string \<Rightarrow> string \<Rightarrow> db \<Rightarrow> db \<times> (AppError + bool)" where
  "insert_member now space_id user_id d =
     (let inserted = \<not> has_member d space_id user_id in
      try_run
        (execute_checked d
           (\<lambda>d. if inserted \<and> \<not> (has_user d user_id \<and> has_space d space_id)
                then Some (foreign_key_violation d) else None)
           (\<lambda>d. if inserted then d\<lparr>members := members d @ [new_member now space_id user_id]\<rparr> else d))
        (\<lambda>d _. (d, Inr inserted)))"

text \<open>One transaction: every early return but the successful ones rolls it back.  A membership that exists
  already uses nothing up.\<close>

definition db_accept_invite ::
    "chrono \<Rightarrow> string \<Rightarrow> string \<Rightarrow> string \<Rightarrow> db \<Rightarrow> db \<times> (AppError + Invite \<times> bool)" where
  "db_accept_invite chr now inv_code user_id =
     transaction (\<lambda>d.
       try_in d (db_get_invite d inv_code) (\<lambda>invite.
       let space_id = in_space_id invite in
       try_in d (query d (list_ex (\<lambda>b. ba_space_id b = space_id \<and> ba_user_id b = user_id) (bans d))) (\<lambda>banned.
       if banned then (d, Inl (Forbidden ''you are banned from this space'')) else
       if has_member d space_id user_id then (d, Inr (invite, False)) else
       let clock = format_utc chr (utc_now chr) expiry_format in
       if \<not> claimable clock invite then (d, Inl (BadRequest ''invite expired or exhausted'')) else
       try_run (execute d (claim_use clock inv_code)) (\<lambda>e _.
       try_run (insert_member now space_id user_id e) (\<lambda>e inserted.
       if \<not> inserted then (d, Inr (invite, False))
       else (e, Inr (invite\<lparr>in_uses := in_uses invite + 1\<rparr>, True)))))))"

section \<open>The audit log\<close>

definition create_entry ::
    "string \<Rightarrow> string \<Rightarrow> string \<Rightarrow> string \<Rightarrow> string \<Rightarrow> string option \<Rightarrow> string option \<Rightarrow> string option \<Rightarrow>
     json option \<Rightarrow> db \<Rightarrow> db \<times> (AppError + AuditLogRow)" where
  "create_entry new_id now space_id user_id action_type target_id target_type reason changes d =
     (let row = \<lparr>al_id = new_id, al_space_id = space_id, al_user_id = user_id, al_action_type = action_type,
                 al_target_id = target_id, al_target_type = target_type, al_reason = reason,
                 al_changes = changes, al_created_at = now\<rparr> in
      try_run
        (execute_checked d
           (\<lambda>d. if list_ex (\<lambda>r. al_id r = new_id) (audit_log d) then Some (primary_key_violation d)
                else if \<not> (has_space d space_id \<and> has_user d user_id) then Some (foreign_key_violation d) else None)
           (\<lambda>d. d\<lparr>audit_log := audit_log d @ [row]\<rparr>))
        (\<lambda>d _. (d, Inr row)))"

definition list_entries ::
    "db \<Rightarrow> string \<Rightarrow> string option \<Rightarrow> string option \<Rightarrow> string option \<Rightarrow> int \<Rightarrow> AppError + AuditLogRow list" where
  "list_entries d space_id action_type user_id before limit =
     query d (sql_limit limit (rev (sort_key al_id (filter (\<lambda>r. al_space_id r = space_id \<and>
       satisfies action_type (\<lambda>a. al_action_type r = a) \<and> satisfies user_id (\<lambda>u. al_user_id r = u) \<and>
       satisfies before (\<lambda>b. al_id r < b)) (audit_log d)))))"

definition entry_to_json :: "AuditLogRow \<Rightarrow> json" where
  "entry_to_json e = JObj
     [(''id'', JStr (al_id e)), (''space_id'', JStr (al_space_id e)), (''user_id'', JStr (al_user_id e)),
      (''action_type'', JStr (al_action_type e)), (''target_id'', jstr_opt (al_target_id e)),
      (''target_type'', jstr_opt (al_target_type e)), (''reason'', jstr_opt (al_reason e)),
      (''changes'', or_else (al_changes e) JNull), (''created_at'', JStr (al_created_at e))]"

definition space_event :: "string \<Rightarrow> string \<Rightarrow> string \<Rightarrow> json \<Rightarrow> GatewayBroadcast" where
  "space_event event_type intent space_id data =
     \<lparr>gb_space_id = Some space_id, gb_target_user_ids = None,
      gb_event = JObj [(''op'', JNum 0), (''type'', JStr event_type), (''data'', data)],
      gb_intent = intent, gb_required_permission = None\<rparr>"

definition broadcast_entry :: "AuditLogRow \<Rightarrow> app \<Rightarrow> app" where
  "broadcast_entry e s = send (space_event ''audit_log.create'' ''moderation'' (al_space_id e) (entry_to_json e)) s"

record ListAuditLogQuery =
  la_action_type :: "string option"
  la_user_id :: "string option"
  la_before :: "string option"
  la_limit :: "int option"

definition list_audit_log :: "db \<Rightarrow> string \<Rightarrow> AuthUser \<Rightarrow> ListAuditLogQuery \<Rightarrow> AppError + json list" where
  "list_audit_log d space_id auth q =
     and_then (require_permission d space_id auth ''view_audit_log'') (\<lambda>_.
     and_then (list_entries d space_id (la_action_type q) (la_user_id q) (la_before q) (clamp_limit 25 (la_limit q)))
       (\<lambda>entries. Inr (map entry_to_json entries)))"

section \<open>The message that introduces a member\<close>

definition claim_introduction :: "string \<Rightarrow> string \<Rightarrow> db \<Rightarrow> db \<times> (AppError + bool)" where
  "claim_introduction space_id user_id d =
     (let first = (space_id, user_id) \<notin> set (space_introductions d) in
      try_run
        (execute_checked d
           (\<lambda>d. if first \<and> \<not> (has_space d space_id \<and> has_user d user_id) then Some (foreign_key_violation d) else None)
           (\<lambda>d. if first then d\<lparr>space_introductions := space_introductions d @ [(space_id, user_id)]\<rparr> else d))
        (\<lambda>d _. (d, Inr first)))"

definition revoke_introduction :: "string \<Rightarrow> string \<Rightarrow> db \<Rightarrow> db \<times> (AppError + unit)" where
  "revoke_introduction space_id user_id d =
     execute d (\<lambda>d. d\<lparr>space_introductions := filter (\<lambda>p. p \<noteq> (space_id, user_id)) (space_introductions d)\<rparr>)"

definition joined_content :: "User \<Rightarrow> string" where
  "joined_content user = or_else (us_display_name user) (us_username user) @ '' joined the server.''"

text \<open>Nothing that fails here is reported; a message that could not be posted leaves the claim open.\<close>

definition broadcast_member_join_message :: "stamp \<Rightarrow> string \<Rightarrow> string \<Rightarrow> app \<Rightarrow> app" where
  "broadcast_member_join_message st space_id user_id s =
     (case get_space_row (ap_db s) space_id of
        Inl _ \<Rightarrow> s
      | Inr space \<Rightarrow>
     (case sp_system_channel_id space of
        None \<Rightarrow> s
      | Some channel_id \<Rightarrow> if channel_id = [] then s else
     (let (s1, claim) = on_db (claim_introduction space_id user_id) s in
      if claim \<noteq> Inr True then s1 else
      case get_user (ap_db s1) user_id of
        Inl _ \<Rightarrow> fst (on_db (revoke_introduction space_id user_id) s1)
      | Inr user \<Rightarrow>
     (let (s2, posted) = on_db (create_system_message st channel_id user_id space_id (joined_content user) ''member_join'') s1 in
      case posted of
        Inl _ \<Rightarrow> fst (on_db (revoke_introduction space_id user_id) s2)
      | Inr msg \<Rightarrow> send (message_event ''message.create'' (Some space_id) None
                           (message_row_to_json_with_attachments msg [])) s2))))"

section \<open>Handlers of bans\<close>

record CreateBanBody =
  cb_reason :: "string option"
  cb_delete_message_seconds :: "int option"

definition MAX_DELETE_MESSAGE_SECONDS :: int where
  "MAX_DELETE_MESSAGE_SECONDS = 7 * 24 * 60 * 60"

definition purge_seconds :: "CreateBanBody option \<Rightarrow> int" where
  "purge_seconds body =
     max 0 (min MAX_DELETE_MESSAGE_SECONDS (or_else (Option.bind body cb_delete_message_seconds) 0))"

text \<open>One message after the other; what was deleted before an error stays deleted.\<close>

fun purge_rows :: "(string \<times> string) list \<Rightarrow> db \<Rightarrow> db \<times> (AppError + (string \<times> string) list)" where
  "purge_rows [] d = (d, Inr [])"
| "purge_rows ((message_id, channel_id) # rows) d =
     try_in d (get_attachments_for_message d message_id) (\<lambda>_.
     try_run (db_delete_message message_id d) (\<lambda>d _.
     try_run (purge_rows rows d) (\<lambda>d purged. (d, Inr ((message_id, channel_id) # purged)))))"

definition purge_recent_messages ::
    "chrono \<Rightarrow> string \<Rightarrow> string \<Rightarrow> int \<Rightarrow> db \<Rightarrow> db \<times> (AppError + (string \<times> string) list)" where
  "purge_recent_messages chr space_id user_id seconds d =
     (if seconds \<le> 0 then (d, Inr []) else
      let cutoff = format_utc chr (utc_now chr - seconds) ''%Y-%m-%d %H:%M:%S'' in
      try_in d (list_author_messages_in_space_since d space_id user_id cutoff) (\<lambda>rows. purge_rows rows d))"

definition ban_json :: "BanRow \<Rightarrow> json" where
  "ban_json b = JObj
     [(''user_id'', JStr (ba_user_id b)), (''space_id'', JStr (ba_space_id b)), (''reason'', jstr_opt (ba_reason b)),
      (''banned_by'', jstr_opt (ba_banned_by b)), (''created_at'', JStr (ba_created_at b))]"

definition purged_event :: "string \<Rightarrow> string \<times> string \<Rightarrow> GatewayBroadcast" where
  "purged_event space_id row =
     space_event ''message.delete'' ''messages'' space_id
       (JObj [(''id'', JStr (fst row)), (''channel_id'', JStr (snd row)), (''space_id'', JStr space_id)])"

definition fanout_purged :: "string \<Rightarrow> string \<Rightarrow> app \<Rightarrow> string \<times> string \<Rightarrow> app" where
  "fanout_purged fed space_id s row =
     fst (fanout_to_space space_id ''m.message.delete''
       (JObj [(''id'', JStr (qualify (fst row) fed)), (''channel_id'', JStr (qualify (snd row) fed))]) s)"

definition list_bans :: "db \<Rightarrow> string \<Rightarrow> AuthUser \<Rightarrow> AppError + json list" where
  "list_bans d space_id auth =
     and_then (require_permission d space_id auth ''ban_members'') (\<lambda>_.
     and_then (db_list_bans d space_id) (\<lambda>bs. Inr (map ban_json bs)))"

definition get_ban_request :: "db \<Rightarrow> string \<Rightarrow> string \<Rightarrow> AuthUser \<Rightarrow> AppError + json" where
  "get_ban_request d space_id user_id auth =
     and_then (require_permission d space_id auth ''ban_members'') (\<lambda>_.
     and_then (get_ban d space_id user_id) (\<lambda>b. Inr (ban_json b)))"

definition create_ban ::
    "chrono \<Rightarrow> string \<Rightarrow> app \<Rightarrow> string \<Rightarrow> string \<Rightarrow> AuthUser \<Rightarrow> CreateBanBody option \<Rightarrow> app \<times> (AppError + json)" where
  "create_ban chr now s space_id user_id auth body =
     try_in s (moderation_checks (ap_db s) space_id user_id auth ''ban_members'') (\<lambda>_.
     try_run (on_db (db_create_ban now space_id user_id (Option.bind body cb_reason) (au_user_id auth)) s) (\<lambda>s ban.
     try_run (on_db (purge_recent_messages chr space_id user_id (purge_seconds body))
                (revoke_space_voice_access s space_id (Some user_id))) (\<lambda>s purged.
     let s1 = send (member_leave_event space_id user_id) s;
         s2 = send (space_event ''ban.create'' ''moderation'' space_id (ban_json ban)) s1;
         s3 = foldl (\<lambda>s row. send (purged_event space_id row) s) s2 purged;
         s4 = (case federation_domain s3 of
                 None \<Rightarrow> s3
               | Some fed \<Rightarrow> foldl (fanout_purged fed space_id) s3 purged)
     in (s4, Inr (jinsert ''deleted_message_count'' (JNum (int (length purged))) (ban_json ban))))))"

definition delete_ban :: "app \<Rightarrow> string \<Rightarrow> string \<Rightarrow> AuthUser \<Rightarrow> app \<times> (AppError + unit)" where
  "delete_ban s space_id user_id auth =
     try_in s (moderation_checks (ap_db s) space_id user_id auth ''ban_members'') (\<lambda>_.
     try_run (on_db (db_delete_ban space_id user_id) s) (\<lambda>s _.
     (send (space_event ''ban.delete'' ''moderation'' space_id
              (JObj [(''space_id'', JStr space_id), (''user_id'', JStr user_id)])) s, Inr ())))"

section \<open>Handlers of invites\<close>

definition invite_json :: "Invite \<Rightarrow> json" where
  "invite_json i = JObj
     [(''code'', JStr (in_code i)), (''space_id'', JStr (in_space_id i)), (''channel_id'', jstr_opt (in_channel_id i)),
      (''inviter_id'', jstr_opt (in_inviter_id i)), (''max_uses'', jint_opt (in_max_uses i)), (''uses'', JNum (in_uses i)),
      (''max_age'', jint_opt (in_max_age i)), (''temporary'', JBool (in_temporary i)),
      (''created_at'', JStr (in_created_at i)), (''expires_at'', jstr_opt (in_expires_at i))]"

definition get_invite :: "db \<Rightarrow> string \<Rightarrow> AuthUser \<Rightarrow> AppError + json" where
  "get_invite d inv_code auth = and_then (db_get_invite d inv_code) (\<lambda>i. Inr (invite_json i))"

definition delete_invite :: "app \<Rightarrow> string \<Rightarrow> AuthUser \<Rightarrow> app \<times> (AppError + unit)" where
  "delete_invite s inv_code auth =
     try_in s (db_get_invite (ap_db s) inv_code) (\<lambda>i.
     try_in s (require_permission (ap_db s) (in_space_id i) auth ''manage_channels'') (\<lambda>_.
     on_db (db_delete_invite inv_code) s))"

definition list_space_invites :: "db \<Rightarrow> string \<Rightarrow> AuthUser \<Rightarrow> AppError + json list" where
  "list_space_invites d space_id auth =
     and_then (require_permission d space_id auth ''manage_channels'') (\<lambda>_.
     and_then (db_list_space_invites d space_id) (\<lambda>is. Inr (map invite_json is)))"

definition list_channel_invites :: "db \<Rightarrow> string \<Rightarrow> AuthUser \<Rightarrow> AppError + json list" where
  "list_channel_invites d channel_id auth =
     and_then (require_channel_permission d channel_id auth ''manage_channels'') (\<lambda>_.
     and_then (db_list_channel_invites d channel_id) (\<lambda>is. Inr (map invite_json is)))"

definition create_channel_invite ::
    "chrono \<Rightarrow> string \<Rightarrow> string \<Rightarrow> app \<Rightarrow> string \<Rightarrow> AuthUser \<Rightarrow> CreateInvite \<Rightarrow> app \<times> (AppError + json)" where
  "create_channel_invite chr inv_code now s channel_id auth input =
     try_in s (require_channel_permission (ap_db s) channel_id auth ''create_invites'') (\<lambda>space_id.
     try_run (on_db (db_create_invite chr inv_code now space_id (Some channel_id) (au_user_id auth) input) s) (\<lambda>s i.
     (s, Inr (invite_json i))))"

definition create_space_invite ::
    "chrono \<Rightarrow> string \<Rightarrow> string \<Rightarrow> app \<Rightarrow> string \<Rightarrow> AuthUser \<Rightarrow> CreateInvite \<Rightarrow> app \<times> (AppError + json)" where
  "create_space_invite chr inv_code now s space_id auth input =
     try_in s (require_permission (ap_db s) space_id auth ''create_invites'') (\<lambda>_.
     try_in s (get_space_row (ap_db s) space_id) (\<lambda>_.
     try_run (on_db (db_create_invite chr inv_code now space_id None (au_user_id auth) input) s) (\<lambda>s i.
     (s, Inr (invite_json i)))))"

section \<open>Joining and leaving\<close>

text \<open>What a request to join draws.\<close>

record join_stamp =
  js_now :: string
  js_audit_id :: string
  js_message :: stamp

definition member_join_event :: "string \<Rightarrow> User \<Rightarrow> MemberRow \<Rightarrow> GatewayBroadcast" where
  "member_join_event space_id user member =
     member_event ''member.join'' space_id
       (JObj [(''space_id'', JStr space_id), (''user'', user_json user), (''joined_at'', JStr (mb_joined_at member))])"

text \<open>What follows a new membership: the space is told, peers are told, the audit log has it, and the
  welcome message is posted.\<close>

definition greet ::
    "join_stamp \<Rightarrow> string \<Rightarrow> string \<Rightarrow> MemberRow \<Rightarrow> User \<Rightarrow>
     (string \<times> string option \<times> string option \<times> json option) \<Rightarrow> app \<Rightarrow> app" where
  "greet js space_id user_id member user entry s =
     (let s1 = send (member_join_event space_id user member) s;
          s2 = (case federation_domain s1 of
                  None \<Rightarrow> s1
                | Some fed \<Rightarrow> fst (fanout_to_space space_id ''m.member.join'' (member_join_payload fed user) s1));
          (action, target, target_type, changes) = entry;
          (s3, logged) = on_db (create_entry (js_audit_id js) (js_now js) space_id user_id action target target_type None changes) s2;
          s4 = (case logged of Inr e \<Rightarrow> broadcast_entry e s3 | Inl _ \<Rightarrow> s3)
      in broadcast_member_join_message (js_message js) space_id user_id s4)"

definition accept_invite ::
    "chrono \<Rightarrow> join_stamp \<Rightarrow> app \<Rightarrow> string \<Rightarrow> AuthUser \<Rightarrow> app \<times> (AppError + json)" where
  "accept_invite chr js s inv_code auth =
     (if au_is_guest auth then (s, Inl (Forbidden ''guests cannot accept invites'')) else
      try_run (on_db (db_accept_invite chr (js_now js) inv_code (au_user_id auth)) s) (\<lambda>s (invite, newly_added).
      if \<not> newly_added then (s, Inr (invite_json invite)) else
      try_in s (get_member_row (ap_db s) (in_space_id invite) (au_user_id auth)) (\<lambda>member.
      try_in s (get_user (ap_db s) (au_user_id auth)) (\<lambda>user.
      (greet js (in_space_id invite) (au_user_id auth) member user
         (''invite_accept'', in_inviter_id invite, Some ''invite'',
          Some (JObj [(''invite_code'', JStr (in_code invite)), (''inviter_id'', jstr_opt (in_inviter_id invite))])) s,
       Inr (invite_json invite))))))"

definition get_space_by_slug :: "db \<Rightarrow> string \<Rightarrow> AppError + SpaceRow" where
  "get_space_by_slug d slug =
     and_then (query d (find (\<lambda>r. sp_slug r = slug) (spaces d))) (ok_or (NotFound ''unknown_space''))"

definition space_by_id_or_slug :: "db \<Rightarrow> string \<Rightarrow> AppError + SpaceRow" where
  "space_by_id_or_slug d id_or_slug =
     (case get_space_row d id_or_slug of
        Inl (NotFound _) \<Rightarrow> get_space_by_slug d id_or_slug
      | r \<Rightarrow> r)"

definition join_public_space ::
    "join_stamp \<Rightarrow> app \<Rightarrow> string \<Rightarrow> AuthUser \<Rightarrow> app \<times> (AppError + string)" where
  "join_public_space js s id_or_slug auth =
     try_in s (space_by_id_or_slug (ap_db s) id_or_slug) (\<lambda>space.
     if \<not> sp_public space then (s, Inl (Forbidden ''this space is not public'')) else
     if is_ok (get_ban (ap_db s) (sp_id space) (au_user_id auth))
     then (s, Inl (Forbidden ''you are banned from this space'')) else
     try_run (on_db (add_member (js_now js) (sp_id space) (au_user_id auth)) s) (\<lambda>s (member, newly_added).
     if \<not> newly_added then (s, Inr (sp_id space)) else
     try_in s (get_user (ap_db s) (au_user_id auth)) (\<lambda>user.
     (greet js (sp_id space) (au_user_id auth) member user (''member_join'', None, None, None) s,
      Inr (sp_id space)))))"

text \<open>The channels of a space, as the subqueries select them.\<close>

definition in_space :: "db \<Rightarrow> string \<Rightarrow> string \<Rightarrow> bool" where
  "in_space d space_id c = list_ex (\<lambda>ch. ch_id ch = c \<and> ch_space_id ch = Some space_id) (channels d)"

definition remove_member_and_data :: "string \<Rightarrow> string \<Rightarrow> db \<Rightarrow> db \<times> (AppError + unit)" where
  "remove_member_and_data space_id user_id d =
     try_run (execute d (\<lambda>d. d\<lparr>reactions := filter (\<lambda>r. \<not> (re_user_id r = user_id \<and>
        list_ex (\<lambda>m. ms_id m = re_message_id r \<and> in_space d space_id (ms_channel_id m)) (messages d))) (reactions d)\<rparr>)) (\<lambda>d _.
     try_run (execute d (\<lambda>d. delete_messages (\<lambda>m. ms_author_id m = user_id \<and> in_space d space_id (ms_channel_id m)) d)) (\<lambda>d _.
     try_run (execute d (\<lambda>d. d\<lparr>read_states := filter (\<lambda>r. \<not> (rs_user_id r = user_id \<and> in_space d space_id (rs_channel_id r))) (read_states d)\<rparr>)) (\<lambda>d _.
     try_run (execute d (\<lambda>d. d\<lparr>channel_mutes := filter (\<lambda>m. \<not> (mu_user_id m = user_id \<and> in_space d space_id (mu_channel_id m))) (channel_mutes d)\<rparr>)) (\<lambda>d _.
     try_run (execute d (\<lambda>d. d\<lparr>invites := map (\<lambda>i. if in_inviter_id i = Some user_id \<and> in_space_id i = space_id
                                                     then i\<lparr>in_inviter_id := None\<rparr> else i) (invites d)\<rparr>)) (\<lambda>d _.
     try_run (execute d (\<lambda>d. d\<lparr>emojis := map (\<lambda>e. if em_creator_id e = Some user_id \<and> em_space_id e = space_id
                                                    then e\<lparr>em_creator_id := None\<rparr> else e) (emojis d)\<rparr>)) (\<lambda>d _.
     remove_member space_id user_id d))))))"

text \<open>A space that lives elsewhere is told first; \<open>forward_leave\<close> is the request to its home.\<close>

definition leave_space ::
    "(string \<Rightarrow> string \<Rightarrow> User \<Rightarrow> AppError + unit) \<Rightarrow> app \<Rightarrow> string \<Rightarrow> AuthUser \<Rightarrow> bool option \<Rightarrow> app \<times> (AppError + unit)" where
  "leave_space forward_leave s space_id auth delete_data =
     try_in s (if \<not> au_is_admin auth then require_membership (ap_db s) space_id (au_user_id auth) else Inr ()) (\<lambda>_.
     try_in s (get_space_row (ap_db s) space_id) (\<lambda>space.
     if sp_owner_id space = au_user_id auth
     then (s, Inl (BadRequest ''space owner must transfer ownership before leaving'')) else
     try_in s (space_origin (ap_db s) space_id) (\<lambda>origin.
     case origin of
       Some home \<Rightarrow>
         try_in s (get_user (ap_db s) (au_user_id auth)) (\<lambda>actor.
         try_in s (forward_leave home space_id actor) (\<lambda>_.
         try_run (on_db (remove_member space_id (au_user_id auth)) s) (\<lambda>s _.
         (send (member_leave_event space_id (au_user_id auth))
            (revoke_space_voice_access s space_id (Some (au_user_id auth))), Inr ()))))
     | None \<Rightarrow>
         let fanout_targets = or_default (interested_servers (ap_db s) space_id) in
         try_run (on_db (if delete_data = Some True then remove_member_and_data space_id (au_user_id auth)
                         else remove_member space_id (au_user_id auth)) s) (\<lambda>s _.
         let s1 = send (member_leave_event space_id (au_user_id auth))
                    (revoke_space_voice_access s space_id (Some (au_user_id auth)));
             s2 = (case federation_domain s1 of
                     None \<Rightarrow> s1
                   | Some fed \<Rightarrow> fst (fanout_to_targets space_id ''m.member.leave''
                                  (member_leave_payload fed (au_user_id auth)) fanout_targets s1))
         in (s2, Inr ())))))"

end
