(* ===== verification/JoiningSafety.thy ===== *)
theory JoiningSafety
  imports Joining Moderation ChannelSafety
begin

text \<open>
  Every request by which users come into spaces and leave them together, and what holds for every sequence of
  them: whoever is banned is no member, no invite is used more often than it allows, and a member is introduced
  once.  Then what a single ban and a single acceptance do.
\<close>

section \<open>Requests\<close>

datatype join_request =
    AcceptInvite join_stamp string
  | JoinPublic join_stamp string
  | Ban string string string "CreateBanBody option"
  | Unban string string
  | Kick string string
  | Leave string "bool option"
  | InviteToChannel string string string CreateInvite
  | InviteToSpace string string string CreateInvite
  | DropInvite string

type_synonym remote_home = "string \<Rightarrow> string \<Rightarrow> User \<Rightarrow> AppError + unit"

fun handle_join :: "chrono \<Rightarrow> remote_home \<Rightarrow> AuthUser \<Rightarrow> join_request \<Rightarrow> app \<Rightarrow> app \<times> (AppError + unit)" where
  "handle_join chr fl auth (AcceptInvite js i) s = only_ok (accept_invite chr js s i auth)"
| "handle_join chr fl auth (JoinPublic js sp) s = only_ok (join_public_space js s sp auth)"
| "handle_join chr fl auth (Ban now sp u body) s = only_ok (create_ban chr now s sp u auth body)"
| "handle_join chr fl auth (Unban sp u) s = delete_ban s sp u auth"
| "handle_join chr fl auth (Kick sp u) s = kick_member s sp u auth"
| "handle_join chr fl auth (Leave sp del) s = leave_space fl s sp auth del"
| "handle_join chr fl auth (InviteToChannel i now c input) s = only_ok (create_channel_invite chr i now s c auth input)"
| "handle_join chr fl auth (InviteToSpace i now sp input) s = only_ok (create_space_invite chr i now s sp auth input)"
| "handle_join chr fl auth (DropInvite i) s = delete_invite s i auth"

fun handle_joins :: "chrono \<Rightarrow> remote_home \<Rightarrow> (AuthUser \<times> join_request) list \<Rightarrow> app \<Rightarrow> app" where
  "handle_joins chr fl [] s = s"
| "handle_joins chr fl ((auth, r) # rs) s = handle_joins chr fl rs (fst (handle_join chr fl auth r s))"

lemma fanout_space_queues: "only_queues (ap_db t) (ap_db (fst (fanout_to_space sp ty payload t)))"
  by (simp add: fanout_to_space_def try_in_def fanout_queues split: sum.split)

lemma foldl_send_db [simp]: "ap_db (foldl (\<lambda>s x. send (f x) s) s xs) = ap_db s"
  by (induction xs arbitrary: s) simp_all

lemma fanout_purged_queues: "only_queues (ap_db s) (ap_db (foldl (fanout_purged fed sp) s xs))"
  by (induction xs arbitrary: s) (auto simp: fanout_purged_def intro: only_queues_trans [OF fanout_space_queues])

section \<open>Invariants of the statements are invariants of the handlers\<close>

locale join_invariant =
  fixes I :: "db \<Rightarrow> bool"
  assumes queued: "I d \<Longrightarrow> only_queues d d' \<Longrightarrow> I d'"
    and banned: "I d \<Longrightarrow> I (fst (db_create_ban now sp u reason by d))"
    and unbanned: "I d \<Longrightarrow> I (fst (db_delete_ban sp u d))"
    and accepted: "I d \<Longrightarrow> I (fst (db_accept_invite chr now i u d))"
    and added: "I d \<Longrightarrow> \<not> is_ok (get_ban d sp u) \<Longrightarrow> I (fst (add_member now sp u d))"
    and removed: "I d \<Longrightarrow> I (fst (remove_member sp u d))"
    and erased: "I d \<Longrightarrow> I (fst (remove_member_and_data sp u d))"
    and purged: "I d \<Longrightarrow> I (fst (db_delete_message m d))"
    and invited: "I d \<Longrightarrow> I (fst (db_create_invite chr i now sp c u input d))"
    and uninvited: "I d \<Longrightarrow> I (fst (db_delete_invite i d))"
    and logged: "I d \<Longrightarrow> I (fst (create_entry i now sp u a t tt r ch d))"
    and introduced: "I (ap_db s) \<Longrightarrow> I (ap_db (broadcast_member_join_message st sp u s))"
begin

lemmas checked = keep_try_in [of I]
lemmas ran = keep_try_run [of I]
lemmas wrote = keep_on_db [of I]

lemma revoked: "I (ap_db s) \<Longrightarrow> I (ap_db (revoke_space_voice_access s sp u))"
  by (rule queued [OF _ revoke_space_queues])

lemma purged_rows: "I d \<Longrightarrow> I (fst (purge_rows rows d))"
proof (induction rows d rule: purge_rows.induct)
  case (2 m c rows d)
  then show ?case
    using purged [OF 2(2), of m] by (auto simp: try_in_def try_run_def split: sum.split)
qed simp

lemma purged_recent: "I d \<Longrightarrow> I (fst (purge_recent_messages chr sp u n d))"
  by (simp add: purge_recent_messages_def try_in_def Let_def purged_rows split: sum.split)

lemma greeted: "I (ap_db s) \<Longrightarrow> I (ap_db (greet js sp u member user entry s))"
proof -
  assume "I (ap_db s)"
  define s1 where "s1 = send (member_join_event sp user member) s"
  define s2 where "s2 = (case federation_domain s1 of None \<Rightarrow> s1
     | Some fed \<Rightarrow> fst (fanout_to_space sp ''m.member.join'' (member_join_payload fed user) s1))"
  have "only_queues (ap_db s) (ap_db s2)"
    using fanout_space_queues [of s1] by (auto simp: s1_def s2_def split: option.split)
  with \<open>I (ap_db s)\<close> have s2: "I (ap_db s2)" by (rule queued)
  obtain a t tt ch where entry: "entry = (a, t, tt, ch)" by (cases entry)
  obtain s3 l where s3: "on_db (create_entry (js_audit_id js) (js_now js) sp u a t tt None ch) s2 = (s3, l)" by fastforce
  have "I (ap_db s3)"
    using wrote [of "create_entry (js_audit_id js) (js_now js) sp u a t tt None ch" s2] logged [OF s2] by (simp add: s3)
  then have "I (ap_db (case l of Inr e \<Rightarrow> broadcast_entry e s3 | Inl _ \<Rightarrow> s3))"
    by (simp add: broadcast_entry_def split: sum.split)
  moreover have "greet js sp u member user entry s = broadcast_member_join_message (js_message js) sp u
      (case l of Inr e \<Rightarrow> broadcast_entry e s3 | Inl _ \<Rightarrow> s3)"
    unfolding greet_def entry Let_def prod.case
    unfolding s1_def [symmetric] unfolding s2_def [symmetric] unfolding s3 prod.case by (rule refl)
  ultimately show ?thesis by (simp add: introduced)
qed

lemma ban_handled: "I (ap_db s) \<Longrightarrow> I (ap_db (fst (create_ban chr now s sp u auth body)))"
  unfolding create_ban_def
  by (intro checked ran)
    (auto simp: Let_def intro!: wrote banned purged_recent revoked
      intro: queued [OF _ fanout_purged_queues [of "foldl _ _ _", simplified]] split: option.split)

lemma told_peers: "I (ap_db t) \<Longrightarrow> I (ap_db (fst (fanout_to_targets sp ty p ts t)))"
  by (rule queued [OF _ fanout_queues])

lemma kick_handled: "I (ap_db s) \<Longrightarrow> I (ap_db (fst (kick_member s sp u auth)))"
  unfolding kick_member_def Let_def
  by (intro checked ran) (auto intro!: wrote removed told_peers revoked split: option.split)

lemma leave_handled: "I (ap_db s) \<Longrightarrow> I (ap_db (fst (leave_space fl s sp auth del)))"
  unfolding leave_space_def Let_def
  by (intro checked) (auto intro!: checked ran wrote removed erased told_peers revoked split: option.split)

lemma accept_handled: "I (ap_db s) \<Longrightarrow> I (ap_db (fst (accept_invite chr js s i auth)))"
  unfolding accept_invite_def
  by (auto intro!: ran checked wrote accepted greeted)

lemma join_handled: "I (ap_db s) \<Longrightarrow> I (ap_db (fst (join_public_space js s i auth)))"
  unfolding join_public_space_def
  by (intro checked) (auto intro!: ran checked wrote added greeted)

lemma handled: "I (ap_db s) \<Longrightarrow> I (ap_db (fst (handle_join chr fl auth r s)))"
  by (cases r)
    (auto simp: ban_handled kick_handled leave_handled accept_handled join_handled delete_ban_def delete_invite_def
      create_channel_invite_def create_space_invite_def intro!: checked ran wrote unbanned uninvited invited)

lemma all_handled: "I (ap_db s) \<Longrightarrow> I (ap_db (handle_joins chr fl rs s))"
  by (induction chr fl rs s rule: handle_joins.induct) (simp_all add: handled)

end

section \<open>What the statements leave alone\<close>

definition meanwhile :: "db \<Rightarrow> db \<Rightarrow> bool" where
  "meanwhile d d' \<longleftrightarrow> bans d' = bans d \<and> members d' = members d \<and> invites d' = invites d \<and> db_ok d' = db_ok d"

lemma meanwhile_refl [simp]: "meanwhile d d"
  by (simp add: meanwhile_def)

lemma meanwhile_trans: "meanwhile d d' \<Longrightarrow> meanwhile d' d'' \<Longrightarrow> meanwhile d d''"
  by (simp add: meanwhile_def)

lemma queues_meanwhile: "only_queues d d' \<Longrightarrow> meanwhile d d'"
  by (auto simp: only_queues_def meanwhile_def)

lemma claim_meanwhile: "meanwhile d (fst (claim_introduction sp u d))"
  by (auto simp: claim_introduction_def try_run_def execute_checked_def meanwhile_def Let_def
      split: option.split sum.split)

lemma revoke_meanwhile: "meanwhile d (fst (revoke_introduction sp u d))"
  by (simp add: revoke_introduction_def execute_def meanwhile_def)

lemma system_message_meanwhile: "meanwhile d (fst (create_system_message st c a sp t ty d))"
  by (auto simp: create_system_message_def insert_message_def bump_channel_def try_run_def execute_checked_def
      execute_def set_channel_def meanwhile_def Let_def split: option.split sum.split)

lemma join_message_meanwhile: "meanwhile (ap_db s) (ap_db (broadcast_member_join_message st sp u s))"
  unfolding broadcast_member_join_message_def on_db_def Let_def
  by (simp add: prod.case_eq_if claim_meanwhile meanwhile_trans [OF claim_meanwhile revoke_meanwhile]
      meanwhile_trans [OF claim_meanwhile system_message_meanwhile]
      meanwhile_trans [OF meanwhile_trans [OF claim_meanwhile system_message_meanwhile] revoke_meanwhile]
      split: sum.split option.split)

lemma delete_messages_meanwhile: "meanwhile d (delete_messages P d)"
  by (simp add: delete_messages_def Let_def meanwhile_def)

lemma delete_meanwhile: "meanwhile d (fst (db_delete_message m d))"
  by (simp add: db_delete_message_def execute_def delete_messages_meanwhile)

lemma log_meanwhile: "meanwhile d (fst (create_entry i now sp u a t tt r ch d))"
  by (auto simp: create_entry_def try_run_def execute_checked_def meanwhile_def Let_def split: option.split sum.split)

lemma remove_member_result:
  "fst (remove_member sp u d) = (if db_ok d then drop_member sp u d else d)"
  by (simp add: remove_member_def execute_def)

text \<open>Erasing somebody's data also takes their name off the invites they made.\<close>

definition disown :: "string \<Rightarrow> string \<Rightarrow> Invite \<Rightarrow> Invite" where
  "disown sp u i = (if in_inviter_id i = Some u \<and> in_space_id i = sp then i\<lparr>in_inviter_id := None\<rparr> else i)"

lemma quiet_run:
  assumes "db_ok d" and "meanwhile e d" and "\<And>x. meanwhile x (f x)"
    and "\<And>x. meanwhile e x \<Longrightarrow> db_ok x \<Longrightarrow> P (fst (k x ()))"
  shows "P (fst (try_run (execute d f) k))"
proof -
  have "meanwhile e (f d)" using assms(2,3) meanwhile_trans by blast
  moreover from this assms(1,2) have "db_ok (f d)" by (simp add: meanwhile_def)
  ultimately show ?thesis using assms(1,4) by simp
qed

lemma erased_tables:
  assumes "db_ok d"
  shows "bans (fst (remove_member_and_data sp u d)) = bans d"
    "members (fst (remove_member_and_data sp u d)) = members (drop_member sp u d)"
    "invites (fst (remove_member_and_data sp u d)) = map (disown sp u) (invites d)"
proof -
  have "bans (fst (remove_member_and_data sp u d)) = bans d \<and>
      members (fst (remove_member_and_data sp u d)) = members (drop_member sp u d) \<and>
      invites (fst (remove_member_and_data sp u d)) = map (disown sp u) (invites d)"
    unfolding remove_member_and_data_def
    by (rule quiet_run [where e = d], rule assms, rule meanwhile_refl, simp add: meanwhile_def,
        rule quiet_run [where e = d], assumption, assumption, rule delete_messages_meanwhile,
        rule quiet_run [where e = d], assumption, assumption, simp add: meanwhile_def,
        rule quiet_run [where e = d], assumption, assumption, simp add: meanwhile_def)
      (auto simp: meanwhile_def remove_member_def drop_member_def disown_def)
  then show "bans (fst (remove_member_and_data sp u d)) = bans d"
    "members (fst (remove_member_and_data sp u d)) = members (drop_member sp u d)"
    "invites (fst (remove_member_and_data sp u d)) = map (disown sp u) (invites d)"
    by blast+
qed

lemma erased_unavailable: "\<not> db_ok d \<Longrightarrow> fst (remove_member_and_data sp u d) = d"
  by (simp add: remove_member_and_data_def try_run_def)

section \<open>Who is banned is no member\<close>

definition outsiders :: "db \<Rightarrow> bool" where
  "outsiders d \<longleftrightarrow> (\<forall>b \<in> set (bans d). \<not> has_member d (ba_space_id b) (ba_user_id b))"

lemma outsiders_mono:
  "outsiders d \<Longrightarrow> set (bans d') \<subseteq> set (bans d) \<Longrightarrow> set (members d') \<subseteq> set (members d) \<Longrightarrow> outsiders d'"
  by (fastforce simp: outsiders_def has_member_def list_ex_iff)

lemma outsiders_meanwhile: "outsiders d \<Longrightarrow> meanwhile d d' \<Longrightarrow> outsiders d'"
  by (erule outsiders_mono) (simp_all add: meanwhile_def)

lemma has_member_drop: "has_member (drop_member sp u d) sp' u' \<longleftrightarrow> has_member d sp' u' \<and> \<not> (sp' = sp \<and> u' = u)"
  by (auto simp: has_member_def drop_member_def list_ex_iff)

lemma outsiders_drop: "outsiders d \<Longrightarrow> outsiders (drop_member sp u d)"
  by (erule outsiders_mono) (auto simp: drop_member_def)

lemma outsiders_ban:
  assumes "outsiders d"
  shows "outsiders (fst (db_create_ban now sp u reason by d))"
proof -
  let ?d = "drop_member sp u d"
  have "outsiders (put_ban now sp u reason by ?d)"
  proof -
    have "ba_space_id b = sp \<and> ba_user_id b = u \<or> (\<exists>b' \<in> set (bans d). ba_space_id b' = ba_space_id b \<and> ba_user_id b' = ba_user_id b)"
      if "b \<in> set (bans (put_ban now sp u reason by ?d))" for b
      using that by (auto simp: put_ban_def Let_def drop_member_def split: if_splits)
    moreover have "has_member (put_ban now sp u reason by ?d) = has_member ?d"
      by (simp add: fun_eq_iff has_member_def put_ban_def Let_def)
    ultimately show ?thesis
      using assms by (fastforce simp: outsiders_def has_member_drop)
  qed
  then show ?thesis
    using assms outsiders_drop [OF assms, of sp u]
    by (auto simp: db_create_ban_def remove_member_def try_run_def execute_def execute_checked_def
        split: option.split sum.split)
qed

lemma outsiders_insert:
  assumes "outsiders d" and "\<And>b. b \<in> set (bans d) \<Longrightarrow> \<not> (ba_space_id b = mb_space_id m \<and> ba_user_id b = mb_user_id m)"
    and "bans d' = bans d" and "members d' = members d @ [m]"
  shows "outsiders d'"
  using assms unfolding outsiders_def has_member_def list_ex_iff by fastforce

lemma outsiders_accept: "outsiders d \<Longrightarrow> outsiders (fst (db_accept_invite chr now i u d))"
  by (auto simp: db_accept_invite_def transaction_def try_in_def try_run_def insert_member_def execute_checked_def
      execute_def claim_use_def Let_def list_ex_iff new_member_def query_def
      elim!: outsiders_insert split: sum.split option.split)


lemma outsiders_same: "outsiders d \<Longrightarrow> bans d' = bans d \<Longrightarrow> members d' = members d \<Longrightarrow> outsiders d'"
  by (erule outsiders_mono) simp_all

lemma add_member_result:
  "fst (add_member now sp u d) =
     (if db_ok d \<and> \<not> has_member d sp u \<and> has_user d u \<and> has_space d sp
      then d\<lparr>members := members d @ [new_member now sp u]\<rparr> else d)"
  by (auto simp: add_member_def try_run_def execute_checked_def Let_def new_member_def has_user_def has_space_def)

lemma create_invite_result:
  "fst (db_create_invite chr i now sp c u input d) =
     (if db_ok d \<and> invite_violation (new_invite chr i now sp c u input) d = None
      then d\<lparr>invites := invites d @ [new_invite chr i now sp c u input]\<rparr> else d)"
  by (simp add: db_create_invite_def insert_invite_def try_run_def execute_checked_def split: option.split)

interpretation bans: join_invariant outsiders
proof
  fix d :: db and d' now sp u reason adm chr i m c input a t tt r ch st and s :: app
  assume "outsiders d"
  show "outsiders d'" if "only_queues d d'" using \<open>outsiders d\<close> queues_meanwhile [OF that] by (rule outsiders_meanwhile)
  show "outsiders (fst (db_create_ban now sp u reason adm d))" by (rule outsiders_ban) fact
  show "outsiders (fst (db_delete_ban sp u d))"
    by (rule outsiders_mono [OF \<open>outsiders d\<close>]) (auto simp: db_delete_ban_def execute_def)
  show "outsiders (fst (db_accept_invite chr now i u d))" by (rule outsiders_accept) fact
  show "outsiders (fst (add_member now sp u d))" if "\<not> is_ok (get_ban d sp u)"
    using that \<open>outsiders d\<close>
    by (auto simp: add_member_result get_ban_def is_ok_iff find_None_iff ok_or_def new_member_def
        intro!: outsiders_insert [OF \<open>outsiders d\<close>] split: option.splits)
  show "outsiders (fst (remove_member sp u d))" using \<open>outsiders d\<close> by (simp add: remove_member_result outsiders_drop)
  show "outsiders (fst (remove_member_and_data sp u d))"
    by (cases "db_ok d")
      (auto simp: erased_unavailable \<open>outsiders d\<close> erased_tables drop_member_def intro!: outsiders_mono [OF \<open>outsiders d\<close>])
  show "outsiders (fst (db_delete_message m d))" by (rule outsiders_meanwhile [OF \<open>outsiders d\<close> delete_meanwhile])
  show "outsiders (fst (db_create_invite chr i now sp c u input d))"
    by (rule outsiders_same [OF \<open>outsiders d\<close>]) (simp_all add: create_invite_result)
  show "outsiders (fst (db_delete_invite i d))"
    by (rule outsiders_same [OF \<open>outsiders d\<close>]) (simp_all add: db_delete_invite_def execute_def)
  show "outsiders (fst (create_entry i now sp u a t tt r ch d))" by (rule outsiders_meanwhile [OF \<open>outsiders d\<close> log_meanwhile])
qed (rule outsiders_meanwhile [OF _ join_message_meanwhile])

text \<open>C34.  Whatever sequence of joins, invitations, bans, kicks and departures is requested, by whomever, nobody is a
  member of a space they are banned from.\<close>

theorem banned_stay_out:
  assumes "outsiders (ap_db s)"
  shows "outsiders (ap_db (handle_joins chr fl rs s))"
  using assms by (rule bans.all_handled)

section \<open>Invites are not overused\<close>

definition within_uses :: "Invite \<Rightarrow> bool" where
  "within_uses i \<longleftrightarrow> 0 \<le> in_uses i \<and> (\<forall>n. in_max_uses i = Some n \<longrightarrow> n = 0 \<or> in_uses i \<le> max n 0)"

definition invites_wf :: "db \<Rightarrow> bool" where
  "invites_wf d \<longleftrightarrow> distinct (map in_code (invites d)) \<and> (\<forall>i \<in> set (invites d). within_uses i)"

lemma within_uses_claim: "within_uses i \<Longrightarrow> claimable now i \<Longrightarrow> within_uses (i\<lparr>in_uses := in_uses i + 1\<rparr>)"
  by (auto simp: within_uses_def claimable_def split: option.splits)

lemma invites_wf_same: "invites_wf d \<Longrightarrow> invites d' = invites d \<Longrightarrow> invites_wf d'"
  by (simp add: invites_wf_def)

lemma invites_wf_map:
  assumes "invites_wf d" and "\<And>i. within_uses i \<Longrightarrow> within_uses (f i)" and "\<And>i. in_code (f i) = in_code i"
    and "invites d' = map f (invites d)"
  shows "invites_wf d'"
  using assms by (simp add: invites_wf_def comp_def)

lemma invites_wf_claim: "invites_wf d \<Longrightarrow> invites_wf (claim_use now i d)"
  by (rule invites_wf_map [where f = "\<lambda>x. if in_code x = i \<and> claimable now x then x\<lparr>in_uses := in_uses x + 1\<rparr> else x"])
    (auto simp: claim_use_def within_uses_claim)

lemma disown_keeps: "within_uses i \<Longrightarrow> within_uses (disown sp u i)" "in_code (disown sp u i) = in_code i"
  by (simp_all add: disown_def within_uses_def)

lemma accept_invites:
  "invites (fst (db_accept_invite chr now i u d)) = invites d \<or>
   invites (fst (db_accept_invite chr now i u d)) = invites (claim_use (format_utc chr (utc_now chr) expiry_format) i d)"
  by (auto simp: db_accept_invite_def transaction_def try_in_def try_run_def insert_member_def execute_checked_def
      execute_def Let_def query_def split: sum.split option.split)

interpretation uses: join_invariant invites_wf
proof
  fix d :: db and d' now sp u reason adm chr i m c input a t tt r ch st and s :: app
  assume wf: "invites_wf d"
  note same = invites_wf_same [OF wf]
  show "invites_wf d'" if "only_queues d d'" using queues_meanwhile [OF that] by (simp add: meanwhile_def same)
  show "invites_wf (fst (db_create_ban now sp u reason adm d))"
    by (rule same) (auto simp: db_create_ban_def remove_member_def drop_member_def put_ban_def Let_def try_run_def execute_def
        execute_checked_def split: option.split sum.split)
  show "invites_wf (fst (db_delete_ban sp u d))" by (rule same) (simp add: db_delete_ban_def execute_def)
  show "invites_wf (fst (db_accept_invite chr now i u d))"
    using accept_invites [of chr now i u d] invites_wf_claim [OF wf] by (metis same invites_wf_same)
  show "invites_wf (fst (add_member now sp u d))" by (rule same) (simp add: add_member_result)
  show "invites_wf (fst (remove_member sp u d))" by (rule same) (simp add: remove_member_result drop_member_def)
  show "invites_wf (fst (remove_member_and_data sp u d))"
    using invites_wf_map [OF wf, of "disown sp u"] disown_keeps erased_tables(3) wf
    by (cases "db_ok d") (simp_all add: erased_unavailable)
  show "invites_wf (fst (db_delete_message m d))" using delete_meanwhile [of d m] by (intro same) (simp add: meanwhile_def)
  show "invites_wf (fst (db_create_invite chr i now sp c u input d))"
    using wf by (auto simp: create_invite_result invites_wf_def within_uses_def new_invite_def invite_violation_def
        list_ex_iff split: if_splits)
  show "invites_wf (fst (db_delete_invite i d))"
    using wf by (auto simp: db_delete_invite_def execute_def invites_wf_def distinct_map_filter)
  show "invites_wf (fst (create_entry i now sp u a t tt r ch d))"
    using log_meanwhile [of d i now sp u a t tt r ch] by (intro same) (simp add: meanwhile_def)
next
  fix s :: app and st sp u assume "invites_wf (ap_db s)"
  with join_message_meanwhile [of s st sp u] show "invites_wf (ap_db (broadcast_member_join_message st sp u s))"
    by (simp add: invites_wf_def meanwhile_def)
qed


section \<open>A member is introduced once\<close>

definition introductions :: "db \<Rightarrow> string \<Rightarrow> string \<Rightarrow> MessageRow list" where
  "introductions d sp u =
     filter (\<lambda>m. ms_type m = ''member_join'' \<and> ms_space_id m = Some sp \<and> ms_author_id m = u) (messages d)"

definition introduced_wf :: "db \<Rightarrow> bool" where
  "introduced_wf d \<longleftrightarrow>
     (\<forall>sp u. length (introductions d sp u) \<le> (if (sp, u) \<in> set (space_introductions d) then 1 else 0))"

definition fewer :: "db \<Rightarrow> db \<Rightarrow> bool" where
  "fewer d d' \<longleftrightarrow> space_introductions d' = space_introductions d \<and>
     (\<forall>sp u. length (introductions d' sp u) \<le> length (introductions d sp u))"

lemma fewer_same: "space_introductions d' = space_introductions d \<Longrightarrow> messages d' = messages d \<Longrightarrow> fewer d d'"
  by (simp add: fewer_def introductions_def)

lemma fewer_trans: "fewer d d' \<Longrightarrow> fewer d' d'' \<Longrightarrow> fewer d d''"
  unfolding fewer_def by (metis order_trans)

lemma introduced_fewer: "introduced_wf d \<Longrightarrow> fewer d d' \<Longrightarrow> introduced_wf d'"
  unfolding introduced_wf_def fewer_def by (metis order_trans)

lemma clear_reply_type [simp]: "ms_type (clear_reply gone m) = ms_type m"
  by (simp add: clear_reply_def split: option.split)

lemma fewer_delete: "fewer d (delete_messages P d)"
proof -
  have "length (filter Q (map (clear_reply g) (filter R xs))) \<le> length (filter Q xs)"
    if "\<And>m. Q (clear_reply g m) = Q m" for Q R g and xs :: "MessageRow list"
    using that by (induction xs) auto
  then show ?thesis
    by (simp add: fewer_def introductions_def delete_messages_def Let_def)
qed

lemma fewer_refl [simp]: "fewer d d"
  by (simp add: fewer_def)

lemma fewer_erase: "fewer d (fst (remove_member_and_data sp u d))"
proof (cases "db_ok d")
  case True
  have step: "fewer d (fst (try_run (execute e f) k))"
    if "fewer d e" "db_ok e" "\<And>x. fewer x (f x)" "db_ok (f e)" "\<And>x. fewer d x \<Longrightarrow> db_ok x \<Longrightarrow> fewer d (fst (k x ()))"
    for e f and k :: "db \<Rightarrow> unit \<Rightarrow> db \<times> (AppError + unit)"
    using that fewer_trans by (metis execute_simps(1) try_run_simps(2))
  show ?thesis
    unfolding remove_member_and_data_def
    by (rule step, simp, rule True, rule fewer_same, simp, simp, simp add: True,
        rule step, assumption, assumption, rule fewer_delete, simp,
        (rule step, assumption, assumption, rule fewer_same, simp, simp, simp)+)
      (auto simp: remove_member_result drop_member_def intro: fewer_trans [OF _ fewer_same])
qed (simp add: erased_unavailable)

text \<open>Posting the message either fails and leaves the messages as they were, or adds it.\<close>

lemma posted_system_message:
  "(\<exists>e. snd (create_system_message st c u sp t ty d) = Inl e \<and> fewer d (fst (create_system_message st c u sp t ty d))) \<or>
   (\<exists>m x. snd (create_system_message st c u sp t ty d) = Inr x \<and> ms_space_id m = Some sp \<and> ms_author_id m = u \<and>
      messages (fst (create_system_message st c u sp t ty d)) = messages d @ [m] \<and>
      space_introductions (fst (create_system_message st c u sp t ty d)) = space_introductions d)"
proof -
  define m where "m = (new_message st c u (Some sp)
      \<lparr>cm_content = t, cm_tts = None, cm_embeds = None, cm_reply_to = None, cm_thread_id = None, cm_title = None\<rparr> [])
      \<lparr>ms_type := ty, ms_mention_everyone := False\<rparr>"
  have m: "ms_space_id m = Some sp" "ms_author_id m = u" "ms_id m = st_id st"
    by (simp_all add: m_def new_message_def)
  show ?thesis
  proof (cases "db_ok d \<and> message_violation m d = None")
    case True
    let ?d = "d\<lparr>messages := messages d @ [m]\<rparr>"
    have "is_ok (get_message_row (set_channel c f ?d) (st_id st))" for f
      using True m(3) by (auto simp: get_message_row_def set_channel_def is_ok_iff ok_or_def find_None_iff split: option.split)
    then show ?thesis
      using True m by (simp add: create_system_message_def m_def [symmetric] insert_message_def execute_checked_def
          bump_channel_def Let_def set_channel_def is_ok_iff)
  next
    case False
    then show ?thesis
      by (auto simp: create_system_message_def m_def [symmetric] insert_message_def execute_checked_def try_run_def Let_def
          split: option.split)
  qed
qed

lemma introduced_message:
  assumes "introduced_wf (ap_db s)"
  shows "introduced_wf (ap_db (broadcast_member_join_message st sp u s))"
proof -
  define c where "c = fst (claim_introduction sp u (ap_db s))"
  have claimed: "(sp, u) \<notin> set (space_introductions (ap_db s)) \<and>
      space_introductions c = space_introductions (ap_db s) @ [(sp, u)] \<and> messages c = messages (ap_db s)"
    if "snd (claim_introduction sp u (ap_db s)) = Inr True"
    using that by (auto simp: c_def claim_introduction_def try_run_def execute_checked_def Let_def split: if_splits option.splits)
  have unclaimed: "fewer (ap_db s) c" if "snd (claim_introduction sp u (ap_db s)) \<noteq> Inr True"
    using that by (auto simp: c_def claim_introduction_def try_run_def execute_checked_def Let_def
        split: if_splits option.splits)
  have revoked: "introduced_wf (fst (revoke_introduction sp u e))"
    if "snd (claim_introduction sp u (ap_db s)) = Inr True" "fewer c e" for e
  proof -
    have "length (introductions (ap_db s) sp u) \<le> (if (sp, u) \<in> set (space_introductions (ap_db s)) then 1 else 0)"
      using assms unfolding introduced_wf_def by blast
    then have none: "introductions (ap_db s) sp u = []" using claimed that(1) by simp
    have "length (introductions e sp u) \<le> length (introductions c sp u)" using that(2) by (simp add: fewer_def)
    then have "introductions e sp u = []" using none claimed that(1) by (simp add: introductions_def)
    have "length (introductions e sp' u') \<le> (if (sp', u') \<in> set (space_introductions (ap_db s)) then 1 else 0)" for sp' u'
    proof -
      have "length (introductions e sp' u') \<le> length (introductions c sp' u')" using that(2) by (simp add: fewer_def)
      also have "\<dots> = length (introductions (ap_db s) sp' u')" using claimed that(1) by (simp add: introductions_def)
      also have "\<dots> \<le> (if (sp', u') \<in> set (space_introductions (ap_db s)) then 1 else 0)"
        using assms by (simp only: introduced_wf_def)
      finally show ?thesis .
    qed
    moreover have "set (space_introductions (ap_db s)) \<subseteq> set (space_introductions (fst (revoke_introduction sp u e)))"
      using claimed that by (auto simp: revoke_introduction_def execute_def fewer_def)
    moreover have "introductions (fst (revoke_introduction sp u e)) sp' u' = introductions e sp' u'" for sp' u'
      by (simp add: revoke_introduction_def execute_def introductions_def)
    ultimately show ?thesis
      unfolding introduced_wf_def by (smt (verit, best) le_zero_eq subset_iff zero_le)
  qed
  have posted: "introduced_wf e"
    if "snd (claim_introduction sp u (ap_db s)) = Inr True" "messages e = messages c @ [m]" "ms_space_id m = Some sp"
      "ms_author_id m = u" "space_introductions e = space_introductions c" for e m
    unfolding introduced_wf_def
  proof (intro allI)
    fix sp' u'
    have "length (introductions (ap_db s) sp' u') \<le> (if (sp', u') \<in> set (space_introductions (ap_db s)) then 1 else 0)"
      using assms by (simp only: introduced_wf_def)
    then show "length (introductions e sp' u') \<le> (if (sp', u') \<in> set (space_introductions e) then 1 else 0)"
      using claimed [OF that(1)] that by (cases "(sp', u') = (sp, u)") (auto simp: introductions_def split: if_splits)
  qed
  show ?thesis
    using assms unclaimed introduced_fewer revoked posted posted_system_message
    unfolding broadcast_member_join_message_def on_db_def Let_def c_def
    by (simp add: prod.case_eq_if split: sum.split option.split) (smt (verit) sum.distinct(1))
qed


interpretation welcomes: join_invariant introduced_wf
proof
  fix d :: db and d' now sp u reason adm chr i m c input a t tt r ch
  assume wf: "introduced_wf d"
  note same = introduced_fewer [OF wf fewer_same]
  show "introduced_wf d'" if "only_queues d d'" using that by (intro same) (auto simp: only_queues_def)
  show "introduced_wf (fst (db_create_ban now sp u reason adm d))"
    by (rule same) (auto simp: db_create_ban_def remove_member_def drop_member_def put_ban_def Let_def try_run_def execute_def
        execute_checked_def split: option.split sum.split)
  show "introduced_wf (fst (db_delete_ban sp u d))" by (rule same) (simp_all add: db_delete_ban_def execute_def)
  show "introduced_wf (fst (db_accept_invite chr now i u d))"
    by (rule same) (auto simp: db_accept_invite_def transaction_def try_in_def try_run_def insert_member_def
        execute_checked_def execute_def claim_use_def Let_def query_def split: sum.split option.split)
  show "introduced_wf (fst (add_member now sp u d))" by (rule same) (simp_all add: add_member_result)
  show "introduced_wf (fst (remove_member sp u d))" by (rule same) (simp_all add: remove_member_result drop_member_def)
  show "introduced_wf (fst (remove_member_and_data sp u d))" by (rule introduced_fewer [OF wf fewer_erase])
  show "introduced_wf (fst (db_delete_message m d))"
    using wf by (auto simp: db_delete_message_def execute_def intro: introduced_fewer [OF _ fewer_delete])
  show "introduced_wf (fst (db_create_invite chr i now sp c u input d))" by (rule same) (simp_all add: create_invite_result)
  show "introduced_wf (fst (db_delete_invite i d))" by (rule same) (simp_all add: db_delete_invite_def execute_def)
  show "introduced_wf (fst (create_entry i now sp u a t tt r ch d))"
    by (rule same) (auto simp: create_entry_def try_run_def execute_checked_def Let_def split: option.split sum.split)
qed (rule introduced_message)

text \<open>A member is introduced once: in no sequence of requests, however often someone leaves and comes back, is a
  second message posted that says they joined a space.\<close>

theorem introduced_once:
  assumes "introduced_wf (ap_db s)"
  shows "introduced_wf (ap_db (handle_joins chr fl rs s))"
  using assms by (rule welcomes.all_handled)

section \<open>Accepting an invite\<close>

definition fresh_guest :: "db \<Rightarrow> string \<Rightarrow> string \<Rightarrow> bool" where
  "fresh_guest d sp u \<longleftrightarrow> \<not> has_member d sp u \<and> \<not> (\<exists>b \<in> set (bans d). ba_space_id b = sp \<and> ba_user_id b = u)"


section \<open>A ban\<close>

text \<open>What is left of the messages keeps who wrote it, where and when.\<close>

definition surviving :: "db \<Rightarrow> db \<Rightarrow> bool" where
  "surviving d d' \<longleftrightarrow> (\<forall>m' \<in> set (messages d'). \<exists>m \<in> set (messages d). ms_id m' = ms_id m \<and>
     ms_space_id m' = ms_space_id m \<and> ms_author_id m' = ms_author_id m \<and> ms_created_at m' = ms_created_at m)"

lemma surviving_delete: "surviving d (delete_messages P d)"
  by (auto simp: surviving_def delete_messages_rows clear_reply_def split: option.split)

lemma surviving_trans: "surviving d d' \<Longrightarrow> surviving d' d'' \<Longrightarrow> surviving d d''"
  unfolding surviving_def by metis

lemma purge_rows_gone:
  "purge_rows rows d = (d', Inr purged) \<Longrightarrow>
     surviving d d' \<and> meanwhile d d' \<and> (\<forall>row \<in> set rows. fst row \<notin> ms_id ` set (messages d'))"
proof (induction rows d arbitrary: d' purged rule: purge_rows.induct)
  case (1 d)
  then show ?case by (auto simp: surviving_def)
next
  case (2 i c rows d)
  let ?d = "delete_messages (\<lambda>m. ms_id m = i) d"
  from 2(2) obtain ps where rest: "purge_rows rows ?d = (d', Inr ps)"
    by (auto simp: try_in_Inr try_run_Inr db_delete_message_def)
  have "snd (db_delete_message i d) = Inr ()" "fst (db_delete_message i d) = ?d"
    using 2(2) by (auto simp: try_in_Inr try_run_Inr db_delete_message_def execute_def split: if_splits)
  moreover obtain x where "get_attachments_for_message d i = Inr x" using 2(2) by (auto simp: try_in_Inr)
  ultimately have IH: "surviving ?d d' \<and> meanwhile ?d d' \<and> (\<forall>row \<in> set rows. fst row \<notin> ms_id ` set (messages d'))"
    using 2(1) rest by metis
  have "i \<notin> ms_id ` set (messages ?d)"
  proof -
    have "ms_id ` set (messages ?d) = ms_id ` set (messages d) - taken (\<lambda>m. ms_id m = i) d"
      by (simp add: delete_messages_rows image_image) auto
    then show ?thesis using taken_chosen [of _ d "\<lambda>m. ms_id m = i"] by auto
  qed
  then have "i \<notin> ms_id ` set (messages d')" using IH by (fastforce simp: surviving_def image_iff)
  with IH show ?case
    using surviving_trans [OF surviving_delete] meanwhile_trans [OF delete_messages_meanwhile] by auto
qed

lemma purge_recent_gone:
  assumes "purge_recent_messages chr sp u n d = (d', Inr purged)"
  shows "meanwhile d d'" and "n \<le> 0 \<Longrightarrow> d' = d"
    and "n > 0 \<Longrightarrow> m \<in> set (messages d') \<Longrightarrow>
      \<not> (ms_space_id m = Some sp \<and> ms_author_id m = u \<and>
         format_utc chr (utc_now chr - n) ''%Y-%m-%d %H:%M:%S'' \<le> ms_created_at m)"
proof -
  show "n \<le> 0 \<Longrightarrow> d' = d" using assms by (simp add: purge_recent_messages_def)
  show "meanwhile d d'"
    using assms by (auto simp: purge_recent_messages_def Let_def try_in_Inr dest: purge_rows_gone split: if_splits)
  let ?cutoff = "format_utc chr (utc_now chr - n) ''%Y-%m-%d %H:%M:%S''"
  assume n: "n > 0" and m: "m \<in> set (messages d')"
  from assms n obtain rows where rows: "list_author_messages_in_space_since d sp u ?cutoff = Inr rows"
      "purge_rows rows d = (d', Inr purged)"
    by (auto simp: purge_recent_messages_def Let_def try_in_Inr)
  show "\<not> (ms_space_id m = Some sp \<and> ms_author_id m = u \<and> ?cutoff \<le> ms_created_at m)"
  proof
    assume hit: "ms_space_id m = Some sp \<and> ms_author_id m = u \<and> ?cutoff \<le> ms_created_at m"
    from purge_rows_gone [OF rows(2)] m obtain m0 where "m0 \<in> set (messages d)" "ms_id m = ms_id m0"
        "ms_space_id m = ms_space_id m0" "ms_author_id m = ms_author_id m0" "ms_created_at m = ms_created_at m0"
      unfolding surviving_def by blast
    with hit rows(1) have "(ms_id m, ms_channel_id m0) \<in> set rows"
      by (auto simp: list_author_messages_in_space_since_def newest_first_def)
    with purge_rows_gone [OF rows(2)] m show False by force
  qed
qed

lemma foldl_send_keeps [simp]: "voice_states (foldl (\<lambda>s x. send (f x) s) s xs) = voice_states s"
  by (induction xs arbitrary: s) simp_all

lemma fanout_purged_keeps: "voice_states (foldl (fanout_purged fed sp) s xs) = voice_states s"
proof (induction xs arbitrary: s)
  case (Cons x xs)
  have "\<exists>d. fanout_purged fed sp s x = s\<lparr>ap_db := d\<rparr>"
    using fanout_only_db [of sp "''m.message.delete''" _ _ s]
    by (auto simp: fanout_purged_def fanout_to_space_def try_in_def split: sum.split intro: exI [of _ "ap_db s"])
  then have "voice_states (fanout_purged fed sp s x) = voice_states s" by auto
  with Cons show ?case by simp
qed simp

lemma fanout_purged_messages: "messages (ap_db (foldl (fanout_purged fed sp) s xs)) = messages (ap_db s)"
  using fanout_purged_queues [of s fed sp xs] by (auto simp: only_queues_def)

lemma on_db_Inr: "on_db f s = (t, Inr x) \<longleftrightarrow> (\<exists>d. f (ap_db s) = (d, Inr x) \<and> t = s\<lparr>ap_db := d\<rparr>)"
  by (cases "f (ap_db s)") (auto simp: on_db_def)

text \<open>C37.  A ban that succeeds was allowed and is complete: the caller may ban members and is above the one banned;
  afterwards they are banned, have no membership and no place in a voice channel of the space (nobody else lost
  theirs), and when messages were to go, no message of theirs in the space is younger than the window asked for,
  which is never more than seven days; when none were to go, all are left.\<close>

theorem ban_is_complete:
  assumes "create_ban chr now s sp u auth body = (s', Inr j)" and "voice_wf s"
  shows "permitted (ap_db s) sp auth ''ban_members'' \<and> above (ap_db s) sp auth (rank (ap_db s) sp u) \<and>
    \<not> has_member (ap_db s') sp u \<and> (\<exists>b \<in> set (bans (ap_db s')). ba_space_id b = sp \<and> ba_user_id b = u) \<and>
    hm_get (voice_states s') k = (case hm_get (voice_states s) k of
        Some vs \<Rightarrow> if vs_space_id vs = Some sp \<and> k = u then None else Some vs | None \<Rightarrow> None) \<and>
    purge_seconds body \<le> 604800 \<and> (purge_seconds body = 0 \<longrightarrow> messages (ap_db s') = messages (ap_db s)) \<and>
    (purge_seconds body > 0 \<longrightarrow> (\<forall>m \<in> set (messages (ap_db s')). \<not> (ms_space_id m = Some sp \<and> ms_author_id m = u \<and>
       format_utc chr (utc_now chr - purge_seconds body) ''%Y-%m-%d %H:%M:%S'' \<le> ms_created_at m)))"
proof -
  let ?n = "purge_seconds body"
  from assms(1) have checks: "moderation_checks (ap_db s) sp u auth ''ban_members'' = Inr ()"
    by (auto simp: create_ban_def try_in_Inr)
  obtain d1 b d2 purged where
      ban: "db_create_ban now sp u (Option.bind body cb_reason) (au_user_id auth) (ap_db s) = (d1, Inr b)"
      and purge: "purge_recent_messages chr sp u ?n (ap_db (revoke_space_voice_access (s\<lparr>ap_db := d1\<rparr>) sp (Some u))) = (d2, Inr purged)"
    using assms(1) by (auto simp: create_ban_def try_in_Inr try_run_Inr on_db_Inr)
  define s1 where "s1 = revoke_space_voice_access (s\<lparr>ap_db := d1\<rparr>) sp (Some u)"
  note purge = purge [folded s1_def]
  define t where "t = foldl (\<lambda>s row. send (purged_event sp row) s)
      (send (space_event ''ban.create'' ''moderation'' sp (ban_json b)) (send (member_leave_event sp u) (s1\<lparr>ap_db := d2\<rparr>))) purged"
  have t: "voice_states t = voice_states s1" "ap_db t = d2" by (simp_all add: t_def)
  have "on_db (db_create_ban now sp u (Option.bind body cb_reason) (au_user_id auth)) s = (s\<lparr>ap_db := d1\<rparr>, Inr b)"
    using ban by (simp add: on_db_Inr)
  moreover have "on_db (purge_recent_messages chr sp u ?n) s1 = (s1\<lparr>ap_db := d2\<rparr>, Inr purged)"
    using purge by (simp add: on_db_Inr)
  ultimately have s': "s' = t \<or> (\<exists>fed. s' = foldl (fanout_purged fed sp) t purged)"
    using assms(1) checks by (auto simp: create_ban_def Let_def s1_def [symmetric] t_def [symmetric] split: option.splits)
  have queued: "only_queues d2 (ap_db s')" and voice: "voice_states s' = voice_states s1"
    using s' t fanout_purged_queues [of t _ sp purged] fanout_purged_keeps [of _ sp t purged] by auto
  have q1: "only_queues d1 (ap_db s1)" using revoke_space_queues [of "s\<lparr>ap_db := d1\<rparr>"] by (simp add: s1_def)
  have same: "bans (ap_db s') = bans d1" "members (ap_db s') = members d1"
    using queues_meanwhile [OF queued] queues_meanwhile [OF q1] purge_recent_gone(1) [OF purge] by (simp_all add: meanwhile_def)
  have d1: "\<not> has_member d1 sp u" "\<exists>b \<in> set (bans d1). ba_space_id b = sp \<and> ba_user_id b = u"
    "messages d1 = messages (ap_db s)" "db_ok d1"
    using ban by (auto simp: db_create_ban_def try_run_Inr remove_member_def execute_checked_def put_ban_def Let_def
        has_member_def drop_member_def list_ex_iff get_ban_def split: if_splits dest: find_SomeD)
  have "voice_wf (s\<lparr>ap_db := d1\<rparr>)" using assms(2) by (simp add: voice_wf_def)
  from revoke_get [OF this, of "\<lambda>vs. vs_space_id vs = Some sp \<and> targets_user (Some u) (vs_user_id vs)" k] d1(4)
  have places: "hm_get (voice_states s') k = (case hm_get (voice_states s) k of
        Some vs \<Rightarrow> if vs_space_id vs = Some sp \<and> k = u then None else Some vs | None \<Rightarrow> None)"
    using assms(2) unfolding voice s1_def revoke_space_voice_access_def
    by (auto simp: targets_user_def voice_wf_def split: option.splits)
  have msgs: "messages (ap_db s') = messages d2" "messages (ap_db s1) = messages d1"
    using queued q1 by (auto simp: only_queues_def)
  from checks have "permitted (ap_db s) sp auth ''ban_members''" "above (ap_db s) sp auth (rank (ap_db s) sp u)"
    by (auto simp: moderation_checks_def require_permission_permitted dest: require_hierarchy_above)
  moreover have "?n \<le> 604800" by (simp add: purge_seconds_def MAX_DELETE_MESSAGE_SECONDS_def)
  moreover have "?n = 0 \<Longrightarrow> messages d2 = messages (ap_db s)" using purge_recent_gone(2) [OF purge] msgs(2) d1(3) by simp
  ultimately show ?thesis
    using places d1(1,2) same purge_recent_gone(3) [OF purge] by (auto simp: msgs(1) has_member_def)
qed

section \<open>Examples\<close>

text \<open>An invite for one, and a user who is in no space.\<close>

definition a_gate :: app where
  "a_gate = an_app\<lparr>ap_db := a_db\<lparr>users := users a_db @ [a_user ''new'', a_user ''out''],
     bans := [\<lparr>ba_user_id = ''out'', ba_space_id = ''s'', ba_reason = None, ba_banned_by = None, ba_created_at = []\<rparr>],
     invites := [\<lparr>in_code = ''i'', in_space_id = ''s'', in_channel_id = None, in_inviter_id = Some ''own'',
       in_max_uses = Some 1, in_uses = 0, in_max_age = None, in_temporary = False, in_created_at = [],
       in_expires_at = None\<rparr>]\<rparr>\<rparr>"

definition a_join_stamp :: join_stamp where
  "a_join_stamp = \<lparr>js_now = ''t'', js_audit_id = ''a'', js_message = \<lparr>st_id = ''1'', st_ms = 0, st_now = ''t''\<rparr>\<rparr>"

lemma a_gate_wf: "outsiders (ap_db a_gate)" "invites_wf (ap_db a_gate)" "introduced_wf (ap_db a_gate)"
  by (simp_all add: outsiders_def has_member_def invites_wf_def within_uses_def introduced_wf_def introductions_def
      a_gate_def an_app_def sample_defs)

theorem banned_stay_out_witness:
  "outsiders (ap_db (handle_joins a_chrono (\<lambda>_ _ _. Inr ())
     [(plain_user ''out'', AcceptInvite a_join_stamp ''i''), (plain_user ''own'', Ban ''t'' ''s'' ''pat'' None)] a_gate))"
  by (rule banned_stay_out) (rule a_gate_wf)


theorem introduced_once_witness:
  "introduced_wf (ap_db (handle_joins a_chrono (\<lambda>_ _ _. Inr ())
     [(plain_user ''new'', AcceptInvite a_join_stamp ''i''), (plain_user ''new'', Leave ''s'' None)] a_gate))"
  by (rule introduced_once) (rule a_gate_wf)


theorem ban_is_complete_witness:
  "\<exists>s'. fst (create_ban a_chrono ''t'' voice_app ''s'' ''pat'' (plain_user ''own'')
       (Some \<lparr>cb_reason = None, cb_delete_message_seconds = Some 999999\<rparr>)) = s' \<and>
     \<not> has_member (ap_db s') ''s'' ''pat'' \<and> hm_get (voice_states s') ''pat'' = None \<and>
     hm_get (voice_states s') ''mod'' \<noteq> None"
proof -
  let ?body = "Some \<lparr>cb_reason = None, cb_delete_message_seconds = Some 999999\<rparr>"
  let ?run = "create_ban a_chrono ''t'' voice_app ''s'' ''pat'' (plain_user ''own'') ?body"
  have "is_ok (snd ?run)" by code_simp
  then obtain j where ban: "?run = (fst ?run, Inr j)" by (metis is_ok_iff prod.collapse)
  have "hm_get (voice_states voice_app) ''mod'' \<noteq> None" by code_simp
  then obtain m where m: "hm_get (voice_states voice_app) ''mod'' = Some m" by blast
  have "map_option vs_space_id (hm_get (voice_states voice_app) ''pat'') = Some (Some ''s'')" by code_simp
  then obtain p where p: "hm_get (voice_states voice_app) ''pat'' = Some p" "vs_space_id p = Some ''s''" by auto
  from ban_is_complete [OF ban voice_app_wf, of "''pat''"] ban_is_complete [OF ban voice_app_wf, of "''mod''"]
  show ?thesis by (simp add: m p)
qed

end
