(* ===== verification/SpaceLife.thy ===== *)
theory SpaceLife
  imports Joining Slug ChannelSafety
begin

text \<open>
  Spaces as such: the statements of \<open>Server/src/db/spaces.rs\<close> that create, change, delete and list them, and
  their handlers in \<open>routes/spaces.rs\<close>.  What creating a space draws (ids, the database's clock) is an
  argument; columns the code does not set have the defaults of the migrations.  \<open>image_store\<close> is the part of
  \<open>storage.rs\<close> the handlers call, and \<open>lower\<close> the Unicode table of \<open>slug.rs\<close>.
\<close>

section \<open>Inputs\<close>

record CreateSpace =
  cs_name :: string
  cs_slug :: "string option"
  cs_description :: "string option"
  cs_public :: "bool option"
  cs_allow_guest_access :: "bool option"

record UpdateSpace =
  us_name :: "string option"
  us_slug :: "string option"
  us_description :: "string option"
  us_icon :: "string option"
  us_space_banner :: "string option"
  us_verification_level :: "string option"
  us_default_notifications :: "string option"
  us_afk_channel_id :: "string option"
  us_afk_timeout :: "int option"
  us_system_channel_id :: "string option"
  us_rules_channel_id :: "string option"
  us_preferred_locale :: "string option"
  us_public :: "bool option"
  us_allow_guest_access :: "bool option"

record space_stamp =
  ss_id :: string
  ss_everyone_id :: string
  ss_guest_id :: string
  ss_mod_id :: string
  ss_admin_id :: string
  ss_channel_id :: string
  ss_now :: string

record image_store =
  im_save :: "app \<Rightarrow> string \<Rightarrow> string \<Rightarrow> string \<Rightarrow> string \<Rightarrow> AppError + string"
      \<comment> \<open>uploader, kind, space, data: the url it is served under\<close>
  im_delete :: "app \<Rightarrow> string \<Rightarrow> string \<Rightarrow> AppError + unit"          \<comment> \<open>kind, space\<close>

section \<open>Slugs that are not taken\<close>

text \<open>\<open>str::chars\<close> of UTF-8.\<close>

function utf8_chars :: "string \<Rightarrow> nat list" where
  "utf8_chars [] = []"
| "utf8_chars (c # cs) =
     (let b = byte c;
          n = (if b < 0x80 then 0 else if b < 0xE0 then 1 else if b < 0xF0 then 2 else 3);
          lead = (if b < 0x80 then b else if b < 0xE0 then b - 0xC0 else if b < 0xF0 then b - 0xE0 else b - 0xF0)
      in foldl (\<lambda>v x. 64 * v + byte x mod 64) lead (take n cs) # utf8_chars (drop n cs))"
  by pat_completeness auto

termination utf8_chars
  by (relation "measure length") auto

text \<open>How many other spaces have this slug.\<close>

definition slug_count :: "db \<Rightarrow> string option \<Rightarrow> string \<Rightarrow> nat" where
  "slug_count d exclude_id slug =
     length (filter (\<lambda>r. sp_slug r = slug \<and> Some (sp_id r) \<noteq> exclude_id) (spaces d))"

definition suffixed :: "string \<Rightarrow> nat \<Rightarrow> string" where
  "suffixed base_slug n = base_slug @ ''-'' @ to_decimal n"

lemma suffixed_inj: "suffixed base m = suffixed base n \<longleftrightarrow> m = n"
  by (auto simp: suffixed_def) (metis decimal_value_to_decimal)

text \<open>The slugs the loop may still try and find taken.\<close>

definition obstacles :: "db \<Rightarrow> string \<Rightarrow> string \<Rightarrow> nat \<Rightarrow> string set" where
  "obstacles d base_slug candidate suffix =
     sp_slug ` set (spaces d) \<inter> insert candidate {suffixed base_slug k |k. suffix \<le> k}"

lemma slug_taken: "slug_count d exclude_id slug \<noteq> 0 \<Longrightarrow> slug \<in> sp_slug ` set (spaces d)"
  by (auto simp: slug_count_def filter_empty_conv)

lemma obstacles_shrink:
  assumes "candidate \<in> sp_slug ` set (spaces d)"
  shows "2 * card (obstacles d base (suffixed base suffix) (suffix + 1)) + (if suffixed base suffix \<in> {suffixed base k |k. suffix + 1 \<le> k} then 1 else 0)
    < 2 * card (obstacles d base candidate suffix) + (if candidate \<in> {suffixed base k |k. suffix \<le> k} then 1 else 0)"
proof -
  let ?rest = "sp_slug ` set (spaces d) \<inter> {suffixed base k |k. suffix \<le> k}"
  have next_rest: "insert (suffixed base suffix) {suffixed base k |k. suffix + 1 \<le> k} = {suffixed base k |k. suffix \<le> k}"
    by (auto simp: le_eq_less_or_eq Suc_le_eq)
  have "suffixed base suffix \<notin> {suffixed base k |k. suffix + 1 \<le> k}" by (auto simp: suffixed_inj)
  moreover have "card (obstacles d base candidate suffix) =
      (if candidate \<in> {suffixed base k |k. suffix \<le> k} then card ?rest else Suc (card ?rest))"
    using assms by (auto simp: obstacles_def insert_absorb)
  moreover have "obstacles d base (suffixed base suffix) (suffix + 1) = ?rest"
    unfolding obstacles_def next_rest ..
  ultimately show ?thesis by (simp add: suffixed_inj)
qed

function unique_slug_from ::
    "db \<Rightarrow> string option \<Rightarrow> string \<Rightarrow> string \<Rightarrow> nat \<Rightarrow> AppError + string" where
  "unique_slug_from d exclude_id base_slug candidate suffix =
     (case query d (slug_count d exclude_id candidate) of
        Inl e \<Rightarrow> Inl e
      | Inr taken_by \<Rightarrow>
          if taken_by = 0 then Inr candidate
          else unique_slug_from d exclude_id base_slug (suffixed base_slug suffix) (suffix + 1))"
  by pat_completeness auto

termination unique_slug_from
proof (relation "measure (\<lambda>(d, exclude_id, base, candidate, suffix).
    2 * card (obstacles d base candidate suffix) + (if candidate \<in> {suffixed base k |k. suffix \<le> k} then 1 else 0))")
  fix d exclude_id base candidate suffix taken_by
  assume "query d (slug_count d exclude_id candidate) = Inr taken_by" "taken_by \<noteq> 0"
  then have "candidate \<in> sp_slug ` set (spaces d)" by (auto intro: slug_taken)
  from obstacles_shrink [OF this, of base suffix]
  show "((d, exclude_id, base, suffixed base suffix, suffix + 1), d, exclude_id, base, candidate, suffix) \<in>
    measure (\<lambda>(d, exclude_id, base, candidate, suffix).
      2 * card (obstacles d base candidate suffix) + (if candidate \<in> {suffixed base k |k. suffix \<le> k} then 1 else 0))"
    by simp
qed simp

declare unique_slug_from.simps [simp del]

definition ensure_unique_slug :: "db \<Rightarrow> string \<Rightarrow> string option \<Rightarrow> AppError + string" where
  "ensure_unique_slug d base_slug exclude_id = unique_slug_from d exclude_id base_slug base_slug 2"

definition checked_slug :: "string \<Rightarrow> AppError + string" where
  "checked_slug slug = and_then (map_err BadRequest (validate_slug slug)) (\<lambda>_. Inr slug)"

section \<open>Statements\<close>

definition new_space :: "space_stamp \<Rightarrow> string \<Rightarrow> string \<Rightarrow> CreateSpace \<Rightarrow> SpaceRow" where
  "new_space ss slug owner_id input =
     \<lparr>sp_id = ss_id ss, sp_name = cs_name input, sp_slug = slug, sp_description = cs_description input,
      sp_icon = None, sp_banner = None, sp_splash = None, sp_owner_id = owner_id,
      sp_verification_level = ''none'', sp_default_notifications = ''all'',
      sp_explicit_content_filter = ''disabled'', sp_vanity_url_code = None, sp_preferred_locale = ''en-US'',
      sp_afk_channel_id = None, sp_afk_timeout = 300, sp_system_channel_id = None, sp_rules_channel_id = None,
      sp_nsfw_level = ''default'', sp_premium_tier = ''none'', sp_public = or_else (cs_public input) False,
      sp_allow_guest_access = or_else (cs_allow_guest_access input) True, sp_premium_subscription_count = 0,
      sp_max_members = 500000, sp_created_at = ss_now ss\<rparr>"

text \<open>The names of the built-in roles, in UTF-8.\<close>

definition utf8 :: "nat list \<Rightarrow> string" where
  "utf8 = map char_of"

definition everyone_name :: string where
  "everyone_name = utf8 [0xE6, 0x99, 0xAE, 0xE9, 0x80, 0x9A, 0xE6, 0x88, 0x90, 0xE5, 0x91, 0x98]"

definition guest_name :: string where
  "guest_name = utf8 [0xE5, 0x98, 0x89, 0xE5, 0xAE, 0xBE]"

definition moderator_name :: string where
  "moderator_name = utf8 [0xE7, 0xAE, 0xA1, 0xE7, 0x90, 0x86, 0xE5, 0x91, 0x98]"

definition admin_name :: string where
  "admin_name = utf8 [0xE9, 0xAB, 0x98, 0xE7, 0xBA, 0xA7] @ moderator_name"

definition built_in_role :: "string \<Rightarrow> string \<Rightarrow> string \<Rightarrow> int \<Rightarrow> bool \<Rightarrow> int \<Rightarrow> string list \<Rightarrow> RoleRow" where
  "built_in_role i space_id name color hoist pos perms =
     \<lparr>ro_id = i, ro_space_id = space_id, ro_name = name, ro_color = color, ro_hoist = hoist, ro_icon = None,
      ro_position = pos, ro_permissions = JsonStrings perms, ro_managed = False, ro_mentionable = False\<rparr>"

definition built_in_roles :: "space_stamp \<Rightarrow> RoleRow list" where
  "built_in_roles ss =
     [built_in_role (ss_everyone_id ss) (ss_id ss) everyone_name 0 False 0 DEFAULT_EVERYONE_PERMISSIONS,
      built_in_role (ss_guest_id ss) (ss_id ss) guest_name 10181046 True 1 [],
      built_in_role (ss_mod_id ss) (ss_id ss) moderator_name 3447003 True 2 MODERATOR_PERMISSIONS,
      built_in_role (ss_admin_id ss) (ss_id ss) admin_name 15158332 True 3 ADMIN_PERMISSIONS]"

definition general_channel :: CreateChannel where
  "general_channel =
     \<lparr>cc_name = ''general'', cc_type = ''text'', cc_topic = None, cc_parent_id = None, cc_nsfw = None,
      cc_bitrate = None, cc_user_limit = None, cc_rate_limit = None, cc_position = Some 0,
      cc_allow_anonymous_read = None\<rparr>"

definition unique_violation :: "db \<Rightarrow> sqlx_error" where
  "unique_violation d =
     DatabaseError (Some (if db_is_postgres d then ''23505'' else ''2067'')) ''unique constraint''"

definition space_violation :: "SpaceRow \<Rightarrow> db \<Rightarrow> sqlx_error option" where
  "space_violation r d =
     (if has_space d (sp_id r) then Some (primary_key_violation d)
      else if slug_count d None (sp_slug r) \<noteq> 0 then Some (unique_violation d)
      else if \<not> has_user d (sp_owner_id r) then Some (foreign_key_violation d) else None)"

definition insert_role :: "RoleRow \<Rightarrow> db \<Rightarrow> db \<times> (AppError + unit)" where
  "insert_role r d =
     execute_checked d
       (\<lambda>d. if list_ex (\<lambda>x. ro_id x = ro_id r) (roles d) then Some (primary_key_violation d)
            else if \<not> has_space d (ro_space_id r) then Some (foreign_key_violation d) else None)
       (\<lambda>d. d\<lparr>roles := roles d @ [r]\<rparr>)"

fun insert_roles :: "RoleRow list \<Rightarrow> db \<Rightarrow> db \<times> (AppError + unit)" where
  "insert_roles [] d = (d, Inr ())"
| "insert_roles (r # rs) d = try_run (insert_role r d) (\<lambda>d _. insert_roles rs d)"

text \<open>A plain \<open>INSERT INTO members\<close>.\<close>

definition insert_owner :: "string \<Rightarrow> string \<Rightarrow> string \<Rightarrow> db \<Rightarrow> db \<times> (AppError + unit)" where
  "insert_owner now space_id owner_id d =
     execute_checked d
       (\<lambda>d. if has_member d space_id owner_id then Some (primary_key_violation d)
            else if \<not> (has_user d owner_id \<and> has_space d space_id) then Some (foreign_key_violation d) else None)
       (\<lambda>d. d\<lparr>members := members d @ [new_member now space_id owner_id]\<rparr>)"

text \<open>One statement after the other, without a transaction.\<close>

definition db_create_space ::
    "(nat \<Rightarrow> nat list) \<Rightarrow> space_stamp \<Rightarrow> string \<Rightarrow> CreateSpace \<Rightarrow> db \<Rightarrow> db \<times> (AppError + SpaceRow)" where
  "db_create_space lower ss owner_id input d =
     try_in d (case cs_slug input of Some slug \<Rightarrow> checked_slug slug
               | None \<Rightarrow> Inr (slugify lower (utf8_chars (cs_name input)))) (\<lambda>base_slug.
     try_in d (ensure_unique_slug d base_slug None) (\<lambda>slug.
     let row = new_space ss slug owner_id input in
     try_run (execute_checked d (space_violation row) (\<lambda>d. d\<lparr>spaces := spaces d @ [row]\<rparr>)) (\<lambda>d _.
     try_run (insert_roles (built_in_roles ss) d) (\<lambda>d _.
     try_run (db_create_channel (ss_channel_id ss) (ss_now ss) (ss_id ss) general_channel d) (\<lambda>d _.
     try_run (insert_owner (ss_now ss) (ss_id ss) owner_id d) (\<lambda>d _.
     (d, get_space_row d (ss_id ss))))))))"

text \<open>An empty icon or banner is removed.\<close>

definition cleared :: "string \<Rightarrow> string option" where
  "cleared x = (if x = [] then None else Some x)"

definition space_columns :: "string option \<Rightarrow> UpdateSpace \<Rightarrow> SpaceRow \<Rightarrow> SpaceRow" where
  "space_columns slug input r =
     r\<lparr>sp_name := or_else (us_name input) (sp_name r),
       sp_slug := or_else slug (sp_slug r),
       sp_description := (case us_description input of Some x \<Rightarrow> Some x | None \<Rightarrow> sp_description r),
       sp_icon := (case us_icon input of Some x \<Rightarrow> cleared x | None \<Rightarrow> sp_icon r),
       sp_banner := (case us_space_banner input of Some x \<Rightarrow> cleared x | None \<Rightarrow> sp_banner r),
       sp_verification_level := or_else (us_verification_level input) (sp_verification_level r),
       sp_default_notifications := or_else (us_default_notifications input) (sp_default_notifications r),
       sp_afk_channel_id := (case us_afk_channel_id input of Some x \<Rightarrow> Some x | None \<Rightarrow> sp_afk_channel_id r),
       sp_system_channel_id := (case us_system_channel_id input of Some x \<Rightarrow> Some x | None \<Rightarrow> sp_system_channel_id r),
       sp_rules_channel_id := (case us_rules_channel_id input of Some x \<Rightarrow> Some x | None \<Rightarrow> sp_rules_channel_id r),
       sp_preferred_locale := or_else (us_preferred_locale input) (sp_preferred_locale r),
       sp_afk_timeout := or_else (us_afk_timeout input) (sp_afk_timeout r),
       sp_public := or_else (us_public input) (sp_public r),
       sp_allow_guest_access := or_else (us_allow_guest_access input) (sp_allow_guest_access r)\<rparr>"

definition no_space_columns :: "UpdateSpace \<Rightarrow> bool" where
  "no_space_columns input \<longleftrightarrow>
     us_name input = None \<and> us_slug input = None \<and> us_description input = None \<and> us_icon input = None \<and>
     us_space_banner input = None \<and> us_verification_level input = None \<and> us_default_notifications input = None \<and>
     us_afk_channel_id input = None \<and> us_system_channel_id input = None \<and> us_rules_channel_id input = None \<and>
     us_preferred_locale input = None \<and> us_afk_timeout input = None \<and> us_public input = None \<and>
     us_allow_guest_access input = None"

definition set_space :: "string \<Rightarrow> (SpaceRow \<Rightarrow> SpaceRow) \<Rightarrow> db \<Rightarrow> db" where
  "set_space space_id f d = d\<lparr>spaces := map (\<lambda>r. if sp_id r = space_id then f r else r) (spaces d)\<rparr>"

definition new_slug :: "db \<Rightarrow> string \<Rightarrow> string option \<Rightarrow> AppError + string option" where
  "new_slug d space_id slug =
     (case slug of
        None \<Rightarrow> Inr None
      | Some s \<Rightarrow>
          and_then (checked_slug s) (\<lambda>base_slug.
          and_then (ensure_unique_slug d base_slug (Some space_id)) (\<lambda>slug. Inr (Some slug))))"

definition db_update_space :: "string \<Rightarrow> UpdateSpace \<Rightarrow> db \<Rightarrow> db \<times> (AppError + SpaceRow)" where
  "db_update_space space_id input d =
     try_in d (new_slug d space_id (us_slug input)) (\<lambda>slug.
     if no_space_columns input then (d, get_space_row d space_id)
     else try_run (execute d (set_space space_id (space_columns slug input))) (\<lambda>d _.
          (d, get_space_row d space_id)))"

text \<open>What goes with a space: its channels with all that hangs on them, its messages wherever they are, its
  roles and members with the assignments, and every other row that names it.\<close>

definition drop_space :: "string \<Rightarrow> db \<Rightarrow> db" where
  "drop_space space_id d =
     (let e = drop_channels (\<lambda>ch. ch_space_id ch = Some space_id)
                (delete_messages (\<lambda>m. ms_space_id m = Some space_id) d);
          gone_roles = map ro_id (filter (\<lambda>r. ro_space_id r = space_id) (roles d));
          gone_emojis = map em_id (filter (\<lambda>x. em_space_id x = space_id) (emojis d)) in
      e\<lparr>spaces := filter (\<lambda>r. sp_id r \<noteq> space_id) (spaces e),
        roles := filter (\<lambda>r. ro_space_id r \<noteq> space_id) (roles e),
        members := filter (\<lambda>m. mb_space_id m \<noteq> space_id) (members e),
        member_roles := filter (\<lambda>(u, s, i). s \<noteq> space_id \<and> i \<notin> set gone_roles) (member_roles e),
        bans := filter (\<lambda>b. ba_space_id b \<noteq> space_id) (bans e),
        guest_tokens := filter (\<lambda>t. gt_space_id t \<noteq> space_id) (guest_tokens e),
        invites := filter (\<lambda>i. in_space_id i \<noteq> space_id) (invites e),
        space_introductions := filter (\<lambda>(s, u). s \<noteq> space_id) (space_introductions e),
        audit_log := filter (\<lambda>r. al_space_id r \<noteq> space_id) (audit_log e),
        emojis := filter (\<lambda>x. em_space_id x \<noteq> space_id) (emojis e),
        emoji_roles := filter (\<lambda>(x, r). x \<notin> set gone_emojis \<and> r \<notin> set gone_roles) (emoji_roles e),
        space_origins := filter (\<lambda>(s, h). s \<noteq> space_id) (space_origins e),
        reports := filter (\<lambda>r. rp_space_id r \<noteq> Some space_id) (reports e)\<rparr>)"

definition db_delete_space :: "string \<Rightarrow> db \<Rightarrow> db \<times> (AppError + unit)" where
  "db_delete_space space_id =
     transaction (\<lambda>d.
       try_run (execute d (\<lambda>d. delete_messages (\<lambda>m. in_space d space_id (ms_channel_id m)) d)) (\<lambda>d _.
       execute d (drop_space space_id)))"

definition public_space_json :: "db \<Rightarrow> SpaceRow \<Rightarrow> json" where
  "public_space_json d r = JObj
     [(''id'', JStr (sp_id r)), (''name'', JStr (sp_name r)), (''slug'', JStr (sp_slug r)),
      (''description'', jstr_opt (sp_description r)), (''icon'', jstr_opt (sp_icon r)),
      (''member_count'', JNum (int (length (filter (\<lambda>m. mb_space_id m = sp_id r) (members d))))),
      (''public'', JBool (sp_public r)), (''allow_guest_access'', JBool (sp_allow_guest_access r))]"

definition list_public_spaces :: "db \<Rightarrow> AppError + json list" where
  "list_public_spaces d = query d (map (public_space_json d) (sort_key sp_name (filter sp_public (spaces d))))"

section \<open>Handlers\<close>

definition one_with_metadata :: "app \<Rightarrow> SpaceRow \<Rightarrow> AppError + json" where
  "one_with_metadata s r =
     and_then (spaces_with_metadata s [r]) (\<lambda>js. Inr (if js = [] then JNull else last js))"

definition create_space_checks :: "CreateSpace \<Rightarrow> AppError + unit" where
  "create_space_checks input =
     (if trim (cs_name input) = [] \<or> length (trim (cs_name input)) > 100
      then Inl (BadRequest ''space name must be between 1 and 100 characters'')
      else if (case cs_slug input of Some x \<Rightarrow> length x > 100 | None \<Rightarrow> False)
      then Inl (BadRequest ''slug must be at most 100 characters'')
      else if (case cs_description input of Some x \<Rightarrow> length x > 1000 | None \<Rightarrow> False)
      then Inl (BadRequest ''description must be at most 1000 characters'')
      else Inr ())"

definition create_space ::
    "(nat \<Rightarrow> nat list) \<Rightarrow> space_stamp \<Rightarrow> app \<Rightarrow> AuthUser \<Rightarrow> CreateSpace \<Rightarrow> app \<times> (AppError + json)" where
  "create_space lower ss s auth input =
     try_in s (create_space_checks input) (\<lambda>_.
     try_run (on_db (db_create_space lower ss (au_user_id auth) input) s) (\<lambda>s space.
     (s, one_with_metadata s space)))"

definition get_space :: "app \<Rightarrow> string \<Rightarrow> AuthUser option \<Rightarrow> AppError + json" where
  "get_space s id_or_slug auth =
     and_then (space_by_id_or_slug (ap_db s) id_or_slug) (\<lambda>space.
     let is_guest = (case auth of Some a \<Rightarrow> au_is_guest a | None \<Rightarrow> False);
         guest_allowed = (is_guest \<and> Option.bind auth au_guest_space_id = Some (sp_id space)) in
     if is_guest \<and> (\<not> guest_allowed \<or> \<not> sp_allow_guest_access space)
     then Inl (Forbidden ''guest access is disabled for this space'') else
     and_then (if \<not> sp_public space \<and> \<not> guest_allowed
               then and_then (ok_or (Unauthorized ''authentication required'') auth) (\<lambda>user.
                    if \<not> au_is_guest user \<and> \<not> au_is_admin user
                    then require_membership (ap_db s) (sp_id space) (au_user_id user) else Inr ())
               else Inr ()) (\<lambda>_. one_with_metadata s space))"

text \<open>A data URI is stored, an empty text deletes what is stored, anything else is kept as the url it is.\<close>

definition process_image ::
    "image_store \<Rightarrow> app \<Rightarrow> string \<Rightarrow> string \<Rightarrow> AuthUser \<Rightarrow> string option \<Rightarrow> AppError + string option" where
  "process_image st s kind space_id auth picture =
     (case picture of
        None \<Rightarrow> Inr None
      | Some x \<Rightarrow>
          if starts_with x ''data:'' then
            and_then (get_space_row (ap_db s) space_id) (\<lambda>_.
            and_then (im_save st s (au_user_id auth) kind space_id x) (\<lambda>url. Inr (Some url)))
          else if x = [] then
            and_then (get_space_row (ap_db s) space_id) (\<lambda>_.
            and_then (im_delete st s kind space_id) (\<lambda>_. Inr (Some [])))
          else Inr (Some x))"

definition update_space ::
    "image_store \<Rightarrow> app \<Rightarrow> string \<Rightarrow> AuthUser \<Rightarrow> UpdateSpace \<Rightarrow> app \<times> (AppError + json)" where
  "update_space st s space_id auth input =
     try_in s (require_permission (ap_db s) space_id auth ''manage_space'') (\<lambda>_.
     try_in s (process_image st s ''icons'' space_id auth (us_icon input)) (\<lambda>icon.
     try_in s (process_image st s ''banners'' space_id auth (us_space_banner input)) (\<lambda>banner.
     try_run (on_db (db_update_space space_id (input\<lparr>us_icon := icon, us_space_banner := banner\<rparr>)) s) (\<lambda>s space.
     try_in s (one_with_metadata s space) (\<lambda>j.
     (send (space_event ''space.update'' ''spaces'' space_id j) s, Inr j))))))"

text \<open>The members are told while they still are members.\<close>

definition delete_space :: "app \<Rightarrow> string \<Rightarrow> AuthUser \<Rightarrow> app \<times> (AppError + unit)" where
  "delete_space s space_id auth =
     try_in s (get_space_row (ap_db s) space_id) (\<lambda>space.
     if sp_owner_id space \<noteq> au_user_id auth \<and> \<not> au_is_admin auth
     then (s, Inl (Forbidden ''you do not own this space'')) else
     let s1 = send (space_event ''space.delete'' ''spaces'' space_id (JObj [(''id'', JStr space_id)])) s in
     try_run (on_db (db_delete_space space_id) s1) (\<lambda>s _.
     (revoke_space_voice_access s space_id None, Inr ())))"

definition get_anonymous_count :: "app \<Rightarrow> string \<Rightarrow> AuthUser \<Rightarrow> AppError + nat" where
  "get_anonymous_count s space_id auth =
     Inr (case hm_get (guest_counts s) space_id of Some n \<Rightarrow> n | None \<Rightarrow> 0)"

section \<open>The slug a space gets\<close>

text \<open>The slugs in the order they are tried: the one asked for, then with 2, 3, 4 and so on.\<close>

fun candidate_slug :: "string \<Rightarrow> nat \<Rightarrow> string" where
  "candidate_slug base_slug 0 = base_slug"
| "candidate_slug base_slug (Suc n) = suffixed base_slug (n + 2)"

lemma candidate_slug_inj: "candidate_slug base m = candidate_slug base n \<Longrightarrow> m = n"
  by (cases m; cases n) (auto simp: suffixed_inj, auto simp: suffixed_def)

lemma unique_slug_from_first:
  assumes "db_ok d" and "candidate = candidate_slug base k" and "suffix = k + 2"
  shows "\<exists>n \<ge> k. unique_slug_from d ex base candidate suffix = Inr (candidate_slug base n) \<and>
    slug_count d ex (candidate_slug base n) = 0 \<and> (\<forall>m. k \<le> m \<and> m < n \<longrightarrow> slug_count d ex (candidate_slug base m) \<noteq> 0)"
  using assms
proof (induction d ex base candidate suffix arbitrary: k rule: unique_slug_from.induct)
  case (1 d ex base candidate suffix)
  note step = unique_slug_from.simps [of d ex base candidate suffix]
  show ?case
  proof (cases "slug_count d ex candidate = 0")
    case True
    then have "unique_slug_from d ex base candidate suffix = Inr candidate" using step 1(2) by simp
    with True show ?thesis using 1(3) by (intro exI [of _ k]) auto
  next
    case False
    have q: "query d (slug_count d ex candidate) = Inr (slug_count d ex candidate)" using 1(2) by simp
    from 1(1) [OF q False 1(2), of "Suc k"] 1(4) obtain n where n: "Suc k \<le> n"
        "unique_slug_from d ex base (suffixed base suffix) (suffix + 1) = Inr (candidate_slug base n)"
        "slug_count d ex (candidate_slug base n) = 0"
        "\<forall>m. Suc k \<le> m \<and> m < n \<longrightarrow> slug_count d ex (candidate_slug base m) \<noteq> 0"
      by auto
    moreover have "slug_count d ex (candidate_slug base m) \<noteq> 0" if "k \<le> m" "m < n" for m
      using n(4) that False 1(3) by (cases "m = k") auto
    moreover have "unique_slug_from d ex base candidate suffix = Inr (candidate_slug base n)"
      using n(2) step False 1(2) by simp
    ultimately show ?thesis by (intro exI [of _ n]) auto
  qed
qed

text \<open>C38.  Whatever slugs are taken, the search for one ends, within as many steps as there are spaces, with the first of
  the candidates (the slug asked for, then the same with 2, 3, ...) that no other space has.\<close>

theorem slug_search_ends:
  assumes "db_ok d"
  shows "\<exists>n \<le> length (spaces d). ensure_unique_slug d base ex = Inr (candidate_slug base n) \<and>
    slug_count d ex (candidate_slug base n) = 0 \<and> (\<forall>m < n. slug_count d ex (candidate_slug base m) \<noteq> 0)"
proof -
  from unique_slug_from_first [OF assms, of base base 0 2 ex] obtain n where
      n: "ensure_unique_slug d base ex = Inr (candidate_slug base n)" "slug_count d ex (candidate_slug base n) = 0"
      "\<forall>m < n. slug_count d ex (candidate_slug base m) \<noteq> 0"
    by (auto simp: ensure_unique_slug_def)
  have "candidate_slug base ` {..<n} \<subseteq> sp_slug ` set (spaces d)"
    using n(3) slug_taken by blast
  then have "card (candidate_slug base ` {..<n}) \<le> card (sp_slug ` set (spaces d))"
    by (intro card_mono) simp_all
  moreover have "card (candidate_slug base ` {..<n}) = n"
    by (subst card_image) (auto intro: inj_onI candidate_slug_inj)
  moreover have "card (sp_slug ` set (spaces d)) \<le> length (spaces d)"
    using card_image_le [of "set (spaces d)" sp_slug] card_length [of "spaces d"] by simp
  ultimately have "n \<le> length (spaces d)" by simp
  with n show ?thesis by blast
qed

section \<open>A new space\<close>

lemma find_appended: "find P (xs @ ys) = (case find P xs of None \<Rightarrow> find P ys | Some x \<Rightarrow> Some x)"
  by (induction xs) simp_all

lemma created_channel:
  assumes "db_create_channel i now sp input d = (d', Inr ch)"
  shows "ch = new_channel i now sp input \<and> d' = d\<lparr>channels := channels d @ [ch]\<rparr>"
proof -
  let ?ch = "new_channel i now sp input"
  from assms have ok: "db_ok d" "channel_violation ?ch d = None"
    by (auto simp: db_create_channel_def insert_channel_def execute_checked_def try_in_Inr try_run_def
        split: if_splits option.splits)
  then have "find (\<lambda>x. ch_id x = i) (channels d) = None"
    by (auto simp: channel_violation_def list_ex_iff new_channel_def find_None_iff split: if_splits)
  moreover have "ch_id ?ch = i" by (simp add: new_channel_def)
  ultimately have "get_channel_row (d\<lparr>channels := channels d @ [?ch]\<rparr>) i = Inr ?ch"
    using ok(1) by (simp add: get_channel_row_def find_appended)
  with assms ok show ?thesis
    by (auto simp: db_create_channel_def insert_channel_def execute_checked_def try_in_Inr)
qed

lemma insert_roles_ok:
  assumes "insert_roles rs d = (d', Inr ())"
  shows "d' = d\<lparr>roles := roles d @ rs\<rparr>"
  using assms
proof (induction rs arbitrary: d)
  case (Cons r rs)
  from Cons(2) have "insert_roles rs (d\<lparr>roles := roles d @ [r]\<rparr>) = (d', Inr ())"
    by (auto simp: try_run_def insert_role_def execute_checked_def split: if_splits option.splits)
  from Cons(1) [OF this] show ?case by simp
qed simp

text \<open>A space that is created belongs to its creator, who is its one member; its slug was nobody's; it has the four
  built-in roles at positions 0 to 3, the one everyone has with the default permissions, and one text channel;
  nothing else in the database changes.\<close>

theorem created_space_ready:
  assumes "db_create_space lower ss owner input d = (d', Inr r)"
  shows "\<exists>slug. r = new_space ss slug owner input \<and> slug_count d None slug = 0 \<and>
    d' = d\<lparr>spaces := spaces d @ [r], roles := roles d @ built_in_roles ss,
           channels := channels d @ [new_channel (ss_channel_id ss) (ss_now ss) (ss_id ss) general_channel],
           members := members d @ [new_member (ss_now ss) (ss_id ss) owner]\<rparr> \<and>
    map ro_position (built_in_roles ss) = [0, 1, 2, 3] \<and>
    ro_permissions (hd (built_in_roles ss)) = JsonStrings DEFAULT_EVERYONE_PERMISSIONS"
proof -
  from assms obtain base slug where
      slug: "ensure_unique_slug d base None = Inr slug"
    and run: "try_run (execute_checked d (space_violation (new_space ss slug owner input))
           (\<lambda>d. d\<lparr>spaces := spaces d @ [new_space ss slug owner input]\<rparr>)) (\<lambda>d _.
     try_run (insert_roles (built_in_roles ss) d) (\<lambda>d _.
     try_run (db_create_channel (ss_channel_id ss) (ss_now ss) (ss_id ss) general_channel d) (\<lambda>d _.
     try_run (insert_owner (ss_now ss) (ss_id ss) owner d) (\<lambda>d _.
     (d, get_space_row d (ss_id ss)))))) = (d', Inr r)"
    by (auto simp: db_create_space_def try_in_Inr Let_def)
  let ?r = "new_space ss slug owner input"
  let ?d1 = "d\<lparr>spaces := spaces d @ [?r]\<rparr>"
  let ?d2 = "?d1\<lparr>roles := roles d @ built_in_roles ss\<rparr>"
  let ?ch = "new_channel (ss_channel_id ss) (ss_now ss) (ss_id ss) general_channel"
  let ?d3 = "?d2\<lparr>channels := channels d @ [?ch]\<rparr>"
  let ?d4 = "?d3\<lparr>members := members d @ [new_member (ss_now ss) (ss_id ss) owner]\<rparr>"
  from run have ok: "db_ok d" "space_violation ?r d = None"
    by (auto simp: try_run_def execute_checked_def split: if_splits option.splits)
  with run obtain d2 where d2: "insert_roles (built_in_roles ss) ?d1 = (d2, Inr ())"
    and run: "try_run (db_create_channel (ss_channel_id ss) (ss_now ss) (ss_id ss) general_channel d2) (\<lambda>d _.
     try_run (insert_owner (ss_now ss) (ss_id ss) owner d) (\<lambda>d _.
     (d, get_space_row d (ss_id ss)))) = (d', Inr r)"
    by (auto simp: execute_checked_def try_run_Inr)
  from insert_roles_ok [OF d2] have d2: "d2 = ?d2" by simp
  from run obtain d3 ch where "db_create_channel (ss_channel_id ss) (ss_now ss) (ss_id ss) general_channel ?d2 = (d3, Inr ch)"
    and run: "try_run (insert_owner (ss_now ss) (ss_id ss) owner d3) (\<lambda>d _. (d, get_space_row d (ss_id ss))) = (d', Inr r)"
    by (auto simp: d2 try_run_Inr)
  from created_channel [OF this(1)] have "d3 = ?d3" by simp
  with run have "d' = ?d4 \<and> get_space_row ?d4 (ss_id ss) = Inr r"
    by (auto simp: insert_owner_def execute_checked_def try_run_def split: if_splits option.splits)
  moreover have "get_space_row ?d4 (ss_id ss) = Inr ?r"
  proof -
    have "find (\<lambda>x. sp_id x = ss_id ss) (spaces d) = None"
      using ok(2) by (auto simp: space_violation_def has_space_def list_ex_iff new_space_def find_None_iff split: if_splits)
    moreover have "sp_id ?r = ss_id ss" by (simp add: new_space_def)
    ultimately show ?thesis using ok(1) by (simp add: get_space_row_def find_appended)
  qed
  moreover have "slug_count d None slug = 0"
    using ok(2) by (auto simp: space_violation_def new_space_def split: if_splits)
  ultimately show ?thesis by (intro exI [of _ slug]) (simp add: built_in_roles_def built_in_role_def)
qed

section \<open>A space that goes\<close>

definition space_refs :: "db \<Rightarrow> string set" where
  "space_refs d =
     sp_id ` set (spaces d) \<union> ro_space_id ` set (roles d) \<union> mb_space_id ` set (members d) \<union>
     (\<lambda>(u, s, i). s) ` set (member_roles d) \<union> ba_space_id ` set (bans d) \<union> gt_space_id ` set (guest_tokens d) \<union>
     in_space_id ` set (invites d) \<union> fst ` set (space_introductions d) \<union> al_space_id ` set (audit_log d) \<union>
     em_space_id ` set (emojis d) \<union> fst ` set (space_origins d) \<union>
     {s. Some s \<in> ch_space_id ` set (channels d)} \<union> {s. Some s \<in> ms_space_id ` set (messages d)} \<union>
     {s. Some s \<in> rp_space_id ` set (reports d)}"

lemma drop_space_tables:
  "spaces (drop_space sp d) = filter (\<lambda>r. sp_id r \<noteq> sp) (spaces d)"
  "roles (drop_space sp d) = filter (\<lambda>r. ro_space_id r \<noteq> sp) (roles d)"
  "members (drop_space sp d) = filter (\<lambda>m. mb_space_id m \<noteq> sp) (members d)"
  "bans (drop_space sp d) = filter (\<lambda>b. ba_space_id b \<noteq> sp) (bans d)"
  "db_ok (drop_space sp d) = db_ok d"
  by (simp_all add: drop_space_def drop_channels_def delete_messages_def Let_def)

lemma drop_space_channels: "ch \<in> set (channels (drop_space sp d)) \<Longrightarrow> ch_space_id ch \<noteq> Some sp"
  by (auto simp: drop_space_def drop_channels_def delete_messages_def Let_def clear_parent_def split: option.splits if_splits)

lemma drop_space_messages: "m \<in> set (messages (drop_space sp d)) \<Longrightarrow> ms_space_id m \<noteq> Some sp"
proof -
  assume "m \<in> set (messages (drop_space sp d))"
  then have "m \<in> set (messages (delete_messages (\<lambda>m. ms_space_id m = Some sp) d))"
    by (simp add: drop_space_def drop_channels_def Let_def)
  then show ?thesis
    using taken_chosen [of _ d "\<lambda>m. ms_space_id m = Some sp"] by (auto simp: delete_messages_rows)
qed

lemma drop_space_refs: "sp \<notin> space_refs (drop_space sp d)"
proof -
  have "sp \<notin> (\<lambda>(u, s, i). s) ` set (member_roles (drop_space sp d))" "sp \<notin> gt_space_id ` set (guest_tokens (drop_space sp d))"
    "sp \<notin> in_space_id ` set (invites (drop_space sp d))" "sp \<notin> fst ` set (space_introductions (drop_space sp d))"
    "sp \<notin> al_space_id ` set (audit_log (drop_space sp d))" "sp \<notin> em_space_id ` set (emojis (drop_space sp d))"
    "sp \<notin> fst ` set (space_origins (drop_space sp d))" "Some sp \<notin> rp_space_id ` set (reports (drop_space sp d))"
    by (auto simp: drop_space_def Let_def)
  moreover have "sp \<notin> sp_id ` set (spaces (drop_space sp d))" "sp \<notin> ro_space_id ` set (roles (drop_space sp d))"
    "sp \<notin> mb_space_id ` set (members (drop_space sp d))" "sp \<notin> ba_space_id ` set (bans (drop_space sp d))"
    by (auto simp: drop_space_tables)
  ultimately show ?thesis
    unfolding space_refs_def using drop_space_channels drop_space_messages by fastforce
qed

lemma evicted_space_refs: "evictions_only d d' \<Longrightarrow> space_refs d' = space_refs d"
  unfolding evictions_only_def by (elim exE) (simp add: space_refs_def)


section \<open>Examples\<close>

definition a_space_stamp :: space_stamp where
  "a_space_stamp = \<lparr>ss_id = ''n'', ss_everyone_id = ''r0'', ss_guest_id = ''r1'', ss_mod_id = ''r2'', ss_admin_id = ''r3'',
     ss_channel_id = ''nc'', ss_now = ''t''\<rparr>"

definition a_new_space :: CreateSpace where
  "a_new_space = \<lparr>cs_name = ''S'', cs_slug = Some ''n'', cs_description = None, cs_public = None, cs_allow_guest_access = None\<rparr>"

theorem slug_search_ends_witness:
  "\<exists>n \<le> 1. ensure_unique_slug a_db ''s'' None = Inr (candidate_slug ''s'' n)"
proof -
  have ok: "db_ok a_db" by code_simp
  have "length (spaces a_db) = 1" by code_simp
  with slug_search_ends [OF ok, of "''s''" None] show ?thesis by auto
qed

theorem created_space_ready_witness:
  "\<exists>d' r. db_create_space (\<lambda>c. [c]) a_space_stamp ''pat'' a_new_space a_db = (d', Inr r) \<and> sp_owner_id r = ''pat'' \<and>
     length (roles d') = length (roles a_db) + 4"
proof -
  have "db_ok a_db" "slug_count a_db None ''n'' = 0" by code_simp+
  then have slug: "ensure_unique_slug a_db ''n'' None = Inr ''n''"
    unfolding ensure_unique_slug_def by (subst unique_slug_from.simps) simp
  have valid: "checked_slug ''n'' = Inr ''n''" by code_simp
  have "is_ok (snd (let row = new_space a_space_stamp ''n'' ''pat'' a_new_space in
     try_run (execute_checked a_db (space_violation row) (\<lambda>d. d\<lparr>spaces := spaces d @ [row]\<rparr>)) (\<lambda>d _.
     try_run (insert_roles (built_in_roles a_space_stamp) d) (\<lambda>d _.
     try_run (db_create_channel (ss_channel_id a_space_stamp) (ss_now a_space_stamp) (ss_id a_space_stamp) general_channel d) (\<lambda>d _.
     try_run (insert_owner (ss_now a_space_stamp) (ss_id a_space_stamp) ''pat'' d) (\<lambda>d _.
     (d, get_space_row d (ss_id a_space_stamp))))))))"
    by (simp add: Let_def execute_checked_def space_violation_def has_space_def has_user_def slug_count_def new_space_def
        a_space_stamp_def a_new_space_def built_in_roles_def built_in_role_def insert_role_def db_create_channel_def
        general_channel_def validate_rate_limit_def in_range_def or_else_def validate_parent_def insert_channel_def
        channel_violation_def new_channel_def get_channel_row_def insert_owner_def has_member_def get_space_row_def sample_defs)
  moreover have "cs_slug a_new_space = Some ''n''" by code_simp
  ultimately have "is_ok (snd (db_create_space (\<lambda>c. [c]) a_space_stamp ''pat'' a_new_space a_db))"
    by (simp only: db_create_space_def slug valid option.case try_in_simps)
  then obtain d' r where run: "db_create_space (\<lambda>c. [c]) a_space_stamp ''pat'' a_new_space a_db = (d', Inr r)"
    by (metis is_ok_iff prod.collapse)
  from created_space_ready [OF run] show ?thesis
    using run by (auto simp: new_space_def built_in_roles_def)
qed


end
