(* ===== verification/Accounts.thy ===== *)
theory Accounts
  imports SpaceLife Security
begin

text \<open>
  Accounts: the handlers of \<open>Server/src/routes/auth.rs\<close>, that is registration, login with a password and with a
  second factor, sessions, passwords, backup codes and guest tokens.

  The crates it calls are fields of \<open>crypto\<close>: a digest, Argon2, AES-GCM, Base32, RFC 6238 codes and Unicode
  upper-casing.  What a request draws (tokens, salts, secrets, ids) is in its \<open>auth_stamp\<close>.  Times are seconds
  on the UTC clock and milliseconds on the monotonic one.
\<close>

record crypto =
  cy_sha256_hex :: "string \<Rightarrow> string"
  cy_parse_hash :: "string \<Rightarrow> string option"             \<comment> \<open>the error of \<open>PasswordHash::new\<close>, if any\<close>
  cy_verify :: "string \<Rightarrow> string \<Rightarrow> bool"                 \<comment> \<open>password, stored hash\<close>
  cy_hash_password :: "string \<Rightarrow> string \<Rightarrow> string + string"  \<comment> \<open>password, salt\<close>
  cy_encrypt :: "string \<Rightarrow> string \<Rightarrow> string \<Rightarrow> string"        \<comment> \<open>key, nonce, plaintext\<close>
  cy_decrypt :: "string \<Rightarrow> string \<Rightarrow> string \<Rightarrow> string option"
  cy_is_utf8 :: "string \<Rightarrow> bool"
  cy_base32 :: "string \<Rightarrow> string"
  cy_unbase32 :: "string \<Rightarrow> string option"
  cy_totp_new :: "string \<Rightarrow> string option"               \<comment> \<open>why a secret is refused, if it is\<close>
  cy_totp_check :: "string \<Rightarrow> string \<Rightarrow> string + bool"      \<comment> \<open>secret, code, now\<close>
  cy_to_uppercase :: "string \<Rightarrow> string"

record auth_stamp =
  ax_instant :: nat              \<comment> \<open>\<open>Instant::now\<close>\<close>
  ax_now :: string               \<comment> \<open>the clock of the database\<close>
  ax_user_id :: string
  ax_token :: string
  ax_salt :: string
  ax_secret :: string            \<comment> \<open>20 bytes\<close>
  ax_nonce :: string             \<comment> \<open>12 bytes\<close>
  ax_codes :: "string list"
  ax_message :: stamp

definition MAX_SESSIONS_PER_USER :: int where "MAX_SESSIONS_PER_USER = 25"
definition TOTP_MAX_FAILURES :: nat where "TOTP_MAX_FAILURES = 5"
definition TOTP_WINDOW_SECS :: nat where "TOTP_WINDOW_SECS = 900"
definition LOGIN_MAX_FAILURES :: nat where "LOGIN_MAX_FAILURES = 5"
definition LOGIN_WINDOW_SECS :: nat where "LOGIN_WINDOW_SECS = 900"
definition REGISTER_MAX_ATTEMPTS :: nat where "REGISTER_MAX_ATTEMPTS = 5"
definition REGISTER_WINDOW_SECS :: nat where "REGISTER_WINDOW_SECS = 900"
definition GUEST_MAX_ATTEMPTS :: nat where "GUEST_MAX_ATTEMPTS = 10"
definition GUEST_WINDOW_SECS :: nat where "GUEST_WINDOW_SECS = 3600"
definition GUEST_TOKEN_LIFETIME_SECS :: int where "GUEST_TOKEN_LIFETIME_SECS = 3600"

section \<open>Requests\<close>

record RegisterRequest =
  rr_username :: string
  rr_password :: string
  rr_display_name :: "string option"

record LoginRequest =
  lr_username :: string
  lr_password :: string

record ChangePasswordRequest =
  cp_old_password :: string
  cp_new_password :: string

record MfaLoginRequest =
  ml_ticket :: string
  ml_code :: string

section \<open>Secrets at rest\<close>

definition em_dash :: string where "em_dash = utf8 [0xE2, 0x80, 0x94]"

definition hex_digit :: "nat \<Rightarrow> char" where
  "hex_digit n = char_of (if n < 10 then 48 + n else 87 + n)"

definition hex_encode :: "string \<Rightarrow> string" where
  "hex_encode bytes = concat (map (\<lambda>b. [hex_digit (byte b div 16), hex_digit (byte b mod 16)]) bytes)"

text \<open>A digit of \<open>u8::from_str_radix\<close>, which takes either case and a leading plus.\<close>

definition from_hex_digit :: "char \<Rightarrow> nat option" where
  "from_hex_digit c =
     (let b = byte c in
      if 48 \<le> b \<and> b \<le> 57 then Some (b - 48)
      else if 97 \<le> b \<and> b \<le> 102 then Some (b - 87)
      else if 65 \<le> b \<and> b \<le> 70 then Some (b - 55) else None)"

definition from_hex_pair :: "char \<Rightarrow> char \<Rightarrow> char option" where
  "from_hex_pair a b =
     (case (from_hex_digit a, from_hex_digit b) of
        (Some h, Some l) \<Rightarrow> Some (char_of (16 * h + l))
      | (None, Some l) \<Rightarrow> if a = CHR ''+'' then Some (char_of l) else None
      | _ \<Rightarrow> None)"

text \<open>The code slices the text in steps of two bytes; a slice through a character of several bytes, which
  panics, cannot be part of a number either.\<close>

fun hex_decode :: "string \<Rightarrow> string option" where
  "hex_decode [] = Some []"
| "hex_decode [a] = None"
| "hex_decode (a # b # rest) =
     (case from_hex_pair a b of None \<Rightarrow> None | Some c \<Rightarrow> map_option (\<lambda>cs. c # cs) (hex_decode rest))"

definition encrypt_totp_secret :: "crypto \<Rightarrow> string \<Rightarrow> string \<Rightarrow> string option \<Rightarrow> string" where
  "encrypt_totp_secret cy nonce secret key =
     (case key of
        None \<Rightarrow> secret
      | Some k \<Rightarrow> ''enc:'' @ hex_encode nonce @ '':'' @ hex_encode (cy_encrypt cy k nonce secret))"

definition decrypt_totp_secret :: "crypto \<Rightarrow> string \<Rightarrow> string option \<Rightarrow> AppError + string" where
  "decrypt_totp_secret cy stored key =
     (case strip_prefix stored ''enc:'' of
        None \<Rightarrow> Inr stored
      | Some rest \<Rightarrow>
          and_then (ok_or (Internal ''TOTP secret is encrypted but TOTP_ENCRYPTION_KEY is not set'') key) (\<lambda>k.
          and_then (ok_or (Internal ''malformed encrypted TOTP secret'') (split_once (CHR '':'') rest)) (\<lambda>(nonce_hex, text_hex).
          and_then (ok_or (Internal ''bad TOTP nonce'') (hex_decode nonce_hex)) (\<lambda>nonce.
          and_then (ok_or (Internal ''bad TOTP ciphertext'') (hex_decode text_hex)) (\<lambda>ciphertext.
          and_then (ok_or (Internal (''TOTP decryption failed '' @ em_dash @ '' wrong key?'')) (cy_decrypt cy k nonce ciphertext)) (\<lambda>plaintext.
          if cy_is_utf8 cy plaintext then Inr plaintext
          else Inl (Internal ''decrypted TOTP secret is not valid UTF-8'')))))))"

definition hash_backup_code :: "crypto \<Rightarrow> string \<Rightarrow> string" where
  "hash_backup_code cy typed = cy_sha256_hex cy (cy_to_uppercase cy typed)"

definition hash_ip :: "crypto \<Rightarrow> string \<Rightarrow> string" where
  "hash_ip cy ip = cy_sha256_hex cy ip"

fun percent_encode :: "char \<Rightarrow> string" where
  "percent_encode c =
     (let b = byte c; upper = (\<lambda>n. char_of (if n < 10 then 48 + n else 55 + n)) in
      if is_ascii_alphanumeric c \<or> c \<in> {CHR ''-'', CHR ''_'', CHR ''.'', CHR ''~''} then [c]
      else [CHR ''%'', upper (b div 16), upper (b mod 16)])"

definition urlencoded :: "string \<Rightarrow> string" where
  "urlencoded s = concat (map percent_encode s)"

section \<open>Attempts\<close>

text \<open>The four limiters share this code: a tracker is reserved, and refuses once its count is reached within
  its window.\<close>

definition check_attempts ::
    "nat \<Rightarrow> nat \<Rightarrow> nat \<Rightarrow> string \<Rightarrow> (string, AttemptTracker) hmap \<Rightarrow> (string, AttemptTracker) hmap \<times> (AppError + unit)" where
  "check_attempts now window max_count key m =
     try_run (reserve_tracker m key (\<lambda>t. as_secs (now - tk_window_start t) \<ge> window)
                \<lparr>tk_count = 0, tk_window_start = now\<rparr>) (\<lambda>m _.
     case hm_get m key of
       None \<Rightarrow> (m, Inr ())
     | Some t \<Rightarrow>
         let elapsed = as_secs (now - tk_window_start t) in
         if elapsed < window \<and> tk_count t \<ge> max_count then (m, Inl (RateLimited (window - elapsed))) else (m, Inr ()))"

definition U32_MAX :: nat where "U32_MAX = 4294967295"

definition record_attempt :: "string \<Rightarrow> (string, AttemptTracker) hmap \<Rightarrow> (string, AttemptTracker) hmap" where
  "record_attempt key m =
     (case hm_get m key of
        None \<Rightarrow> m
      | Some t \<Rightarrow> hm_insert key (t\<lparr>tk_count := min (tk_count t + 1) U32_MAX\<rparr>) m)"

definition check_login_rate_limit :: "nat \<Rightarrow> string \<Rightarrow> app \<Rightarrow> app \<times> (AppError + unit)" where
  "check_login_rate_limit now username s =
     (let r = check_attempts now LOGIN_WINDOW_SECS LOGIN_MAX_FAILURES username (login_failures s)
      in (s\<lparr>login_failures := fst r\<rparr>, snd r))"

definition record_login_failure :: "string \<Rightarrow> app \<Rightarrow> app" where
  "record_login_failure username s = s\<lparr>login_failures := record_attempt username (login_failures s)\<rparr>"

definition clear_login_failures :: "string \<Rightarrow> app \<Rightarrow> app" where
  "clear_login_failures username s = s\<lparr>login_failures := hm_remove username (login_failures s)\<rparr>"

definition check_totp_rate_limit :: "nat \<Rightarrow> string \<Rightarrow> app \<Rightarrow> app \<times> (AppError + unit)" where
  "check_totp_rate_limit now user_id s =
     (let r = check_attempts now TOTP_WINDOW_SECS TOTP_MAX_FAILURES user_id (totp_attempts s)
      in (s\<lparr>totp_attempts := fst r\<rparr>, snd r))"

definition record_totp_failure :: "string \<Rightarrow> app \<Rightarrow> app" where
  "record_totp_failure user_id s = s\<lparr>totp_attempts := record_attempt user_id (totp_attempts s)\<rparr>"

definition clear_totp_failures :: "string \<Rightarrow> app \<Rightarrow> app" where
  "clear_totp_failures user_id s = s\<lparr>totp_attempts := hm_remove user_id (totp_attempts s)\<rparr>"

definition check_register_rate_limit :: "crypto \<Rightarrow> nat \<Rightarrow> string \<Rightarrow> app \<Rightarrow> app \<times> (AppError + unit)" where
  "check_register_rate_limit cy now ip s =
     (if test_mode s then (s, Inr ()) else
      let r = check_attempts now REGISTER_WINDOW_SECS REGISTER_MAX_ATTEMPTS (hash_ip cy ip) (register_attempts s)
      in (s\<lparr>register_attempts := fst r\<rparr>, snd r))"

definition record_register_attempt :: "crypto \<Rightarrow> string \<Rightarrow> app \<Rightarrow> app" where
  "record_register_attempt cy ip s = s\<lparr>register_attempts := record_attempt (hash_ip cy ip) (register_attempts s)\<rparr>"

definition check_guest_rate_limit :: "crypto \<Rightarrow> nat \<Rightarrow> string \<Rightarrow> app \<Rightarrow> app \<times> (AppError + unit)" where
  "check_guest_rate_limit cy now ip s =
     (let r = check_attempts now GUEST_WINDOW_SECS GUEST_MAX_ATTEMPTS (hash_ip cy ip) (guest_attempts s)
      in (s\<lparr>guest_attempts := fst r\<rparr>, snd r))"

definition record_guest_attempt :: "crypto \<Rightarrow> string \<Rightarrow> app \<Rightarrow> app" where
  "record_guest_attempt cy ip s = s\<lparr>guest_attempts := record_attempt (hash_ip cy ip) (guest_attempts s)\<rparr>"

section \<open>Statements\<close>

definition credentials_of :: "db \<Rightarrow> string \<Rightarrow> Credentials" where
  "credentials_of d user_id =
     (case map_of (user_credentials d) user_id of
        Some c \<Rightarrow> c
      | None \<Rightarrow> \<lparr>cr_password_hash = None, cr_force_password_reset = False, cr_totp_secret = None\<rparr>)"

text \<open>\<open>SELECT .. FROM users WHERE id = ?\<close> with \<open>fetch_one\<close>.\<close>

definition fetch_user :: "db \<Rightarrow> string \<Rightarrow> AppError + User \<times> Credentials" where
  "fetch_user d user_id =
     and_then (query d (find (\<lambda>u. us_id u = user_id) (users d))) (\<lambda>r.
     and_then (ok_or (from_sqlx RowNotFound) r) (\<lambda>u. Inr (u, credentials_of d user_id)))"

definition set_credentials :: "string \<Rightarrow> (Credentials \<Rightarrow> Credentials) \<Rightarrow> db \<Rightarrow> db" where
  "set_credentials user_id f d =
     (if has_user d user_id
      then d\<lparr>user_credentials := AList.update user_id (f (credentials_of d user_id)) (user_credentials d)\<rparr> else d)"

definition set_mfa_enabled :: "string \<Rightarrow> bool \<Rightarrow> db \<Rightarrow> db" where
  "set_mfa_enabled user_id b d =
     d\<lparr>users := map (\<lambda>u. if us_id u = user_id then u\<lparr>us_mfa_enabled := b\<rparr> else u) (users d)\<rparr>"

definition issued_expiry :: "chrono \<Rightarrow> string" where
  "issued_expiry chr = format_utc chr (utc_now chr + 30 * 86400) expiry_format"

definition insert_token :: "string \<Rightarrow> string \<Rightarrow> string \<Rightarrow> string \<Rightarrow> db \<Rightarrow> db \<times> (AppError + unit)" where
  "insert_token now token_hash user_id expires_at d =
     execute_checked d
       (\<lambda>d. if list_ex (\<lambda>t. ut_token_hash t = token_hash) (user_tokens d) then Some (primary_key_violation d)
            else if \<not> has_user d user_id then Some (foreign_key_violation d) else None)
       (\<lambda>d. d\<lparr>user_tokens := user_tokens d @
          [\<lparr>ut_token_hash = token_hash, ut_user_id = user_id, ut_expires_at = expires_at, ut_created_at = now\<rparr>]\<rparr>)"

text \<open>Both best effort: their results are dropped.\<close>

definition cleanup_expired_tokens :: "chrono \<Rightarrow> string \<Rightarrow> db \<Rightarrow> db" where
  "cleanup_expired_tokens chr user_id d =
     fst (execute d (\<lambda>d. d\<lparr>user_tokens := filter (\<lambda>t. \<not> (ut_user_id t = user_id \<and>
        ut_expires_at t < format_utc chr (utc_now chr) expiry_format)) (user_tokens d)\<rparr>))"

definition oldest_tokens :: "db \<Rightarrow> string \<Rightarrow> nat \<Rightarrow> string list" where
  "oldest_tokens d user_id n =
     map ut_token_hash (take n (sort_key ut_created_at (filter (\<lambda>t. ut_user_id t = user_id) (user_tokens d))))"

definition enforce_session_limit :: "string \<Rightarrow> db \<Rightarrow> db" where
  "enforce_session_limit user_id d =
     (let held = (case query d (length (filter (\<lambda>t. ut_user_id t = user_id) (user_tokens d))) of
                    Inr n \<Rightarrow> int n | Inl _ \<Rightarrow> 0);
          excess = held - MAX_SESSIONS_PER_USER in
      if excess > 0
      then fst (execute d (\<lambda>d. d\<lparr>user_tokens := filter (\<lambda>t. \<not> (ut_user_id t = user_id \<and>
             ut_token_hash t \<in> set (oldest_tokens d user_id (nat excess)))) (user_tokens d)\<rparr>))
      else d)"

text \<open>The three statements that end registration and both logins.\<close>

definition issue_token :: "crypto \<Rightarrow> chrono \<Rightarrow> auth_stamp \<Rightarrow> string \<Rightarrow> db \<Rightarrow> db \<times> (AppError + unit)" where
  "issue_token cy chr ax user_id d =
     try_run (insert_token (ax_now ax) (cy_sha256_hex cy (ax_token ax)) user_id (issued_expiry chr) d) (\<lambda>d _.
     (enforce_session_limit user_id (cleanup_expired_tokens chr user_id d), Inr ()))"

definition delete_backup_codes :: "string \<Rightarrow> db \<Rightarrow> db \<times> (AppError + unit)" where
  "delete_backup_codes user_id d =
     execute d (\<lambda>d. d\<lparr>backup_codes := filter (\<lambda>b. bk_user_id b \<noteq> user_id) (backup_codes d)\<rparr>)"

text \<open>Ids are given out by the table.\<close>

definition insert_backup_code :: "string \<Rightarrow> string \<Rightarrow> db \<Rightarrow> db \<times> (AppError + unit)" where
  "insert_backup_code user_id code_hash d =
     execute_checked d (\<lambda>d. if \<not> has_user d user_id then Some (foreign_key_violation d) else None)
       (\<lambda>d. d\<lparr>backup_codes := backup_codes d @
          [\<lparr>bk_id = foldr max (map bk_id (backup_codes d)) 0 + 1, bk_user_id = user_id, bk_code_hash = code_hash,
            bk_used = False\<rparr>]\<rparr>)"

fun insert_backup_codes :: "crypto \<Rightarrow> string \<Rightarrow> string list \<Rightarrow> db \<Rightarrow> db \<times> (AppError + unit)" where
  "insert_backup_codes cy user_id [] d = (d, Inr ())"
| "insert_backup_codes cy user_id (c # cs) d =
     try_run (insert_backup_code user_id (hash_backup_code cy c) d) (\<lambda>d _. insert_backup_codes cy user_id cs d)"

definition replace_backup_codes :: "crypto \<Rightarrow> string \<Rightarrow> string list \<Rightarrow> db \<Rightarrow> db \<times> (AppError + unit)" where
  "replace_backup_codes cy user_id cs d =
     try_run (delete_backup_codes user_id d) (\<lambda>d _. insert_backup_codes cy user_id cs d)"

definition first_space :: "(SpaceRow \<Rightarrow> bool) \<Rightarrow> db \<Rightarrow> string option" where
  "first_space P d =
     (case sort_key sp_created_at (filter P (spaces d)) of [] \<Rightarrow> None | r # _ \<Rightarrow> Some (sp_id r))"

section \<open>Registration\<close>

definition validate_username :: "string \<Rightarrow> AppError + unit" where
  "validate_username username =
     (if CHR ''@'' \<in> set username then Inl (BadRequest ''username may not be an email address'')
      else if \<not> list_all (\<lambda>c. is_ascii_lowercase c \<or> is_ascii_digit c \<or> c = CHR ''_'' \<or> c = CHR ''.'') username
      then Inl (BadRequest (''username may only contain lowercase letters, digits, '' @ quoted ''_'' @ '' and '' @ quoted ''.''))
      else if username \<noteq> [] \<and> (hd username = CHR ''.'' \<or> last username = CHR ''.'')
      then Inl (BadRequest (''username may not start or end with '' @ quoted ''.''))
      else Inr ())"

definition check_new_password :: "string \<Rightarrow> AppError + unit" where
  "check_new_password password =
     (if length password < 8 \<or> length password > 128
      then Inl (BadRequest ''password must be between 8 and 128 characters'') else Inr ())"

definition hash_password :: "crypto \<Rightarrow> string \<Rightarrow> string \<Rightarrow> AppError + string" where
  "hash_password cy salt password =
     map_err (\<lambda>e. Internal (''password hashing failed: '' @ e)) (cy_hash_password cy password salt)"

definition new_user :: "auth_stamp \<Rightarrow> string \<Rightarrow> string \<Rightarrow> User" where
  "new_user ax username display_name =
     \<lparr>us_id = ax_user_id ax, us_username = username, us_display_name = Some display_name, us_avatar = None,
      us_banner = None, us_accent_color = None, us_bio = None, us_bot = False, us_system = False,
      us_is_admin = False, us_mfa_enabled = False, us_disabled = False, us_flags = 0, us_public_flags = 0,
      us_created_at = ax_now ax, us_origin = None\<rparr>"

definition insert_user :: "User \<Rightarrow> string \<Rightarrow> db \<Rightarrow> db \<times> (AppError + unit)" where
  "insert_user u password_hash d =
     execute_checked d
       (\<lambda>d. if has_user d (us_id u) then Some (primary_key_violation d)
            else if list_ex (\<lambda>x. us_username x = us_username u) (users d) then Some (unique_violation d) else None)
       (\<lambda>d. d\<lparr>users := users d @ [u],
              user_credentials := AList.update (us_id u)
                \<lparr>cr_password_hash = Some password_hash, cr_force_password_reset = False, cr_totp_secret = None\<rparr>
                (user_credentials d)\<rparr>)"

definition register_checks :: "db \<Rightarrow> ServerSettings \<Rightarrow> RegisterRequest \<Rightarrow> AppError + unit" where
  "register_checks d policy input =
     (if sv_registration_policy policy = ''closed''
      then Inl (Forbidden ''registration is currently closed'')
      else if sv_registration_policy policy = ''invite_only''
      then Inl (Forbidden ''registration requires an invitation'') else
      let username = trim (rr_username input) in
      if username = [] \<or> length username > 32
      then Inl (BadRequest ''username must be between 1 and 32 characters'') else
      and_then (validate_username username) (\<lambda>_.
      if (case rr_display_name input of Some dn \<Rightarrow> length dn > 32 | None \<Rightarrow> False)
      then Inl (BadRequest ''display_name must not exceed 32 characters'') else
      and_then (check_new_password (rr_password input)) (\<lambda>_.
      and_then (query d (list_ex (\<lambda>u. us_username u = username \<and> \<not> us_bot u) (users d))) (\<lambda>taken_already.
      if taken_already then Inl (Conflict ''registration failed'') else Inr ()))))"

text \<open>The first space of the server is joined at once; a failure to join is only logged.\<close>

definition join_default_space :: "auth_stamp \<Rightarrow> string \<Rightarrow> app \<Rightarrow> app" where
  "join_default_space ax space_id s =
     (case on_db (add_member (ax_now ax) space_id (ax_user_id ax)) s of
        (s, Inr (member, True)) \<Rightarrow> broadcast_member_join_message (ax_message ax) space_id (ax_user_id ax) s
      | (s, _) \<Rightarrow> s)"

text \<open>What follows once the account exists.\<close>

definition first_session :: "crypto \<Rightarrow> chrono \<Rightarrow> auth_stamp \<Rightarrow> app \<Rightarrow> app \<times> (AppError + json)" where
  "first_session cy chr ax s =
     try_in s (get_user (ap_db s) (ax_user_id ax)) (\<lambda>user.
     try_in s (query (ap_db s) (first_space (\<lambda>_. True) (ap_db s))) (\<lambda>default_space.
     let s = (case default_space of None \<Rightarrow> s | Some space_id \<Rightarrow> join_default_space ax space_id s) in
     try_run (on_db (issue_token cy chr ax (ax_user_id ax)) s) (\<lambda>s _.
     (s, Inr (JObj [(''user'', user_json user), (''token'', JStr (ax_token ax))])))))"

definition register ::
    "crypto \<Rightarrow> chrono \<Rightarrow> auth_stamp \<Rightarrow> app \<Rightarrow> string \<Rightarrow> RegisterRequest \<Rightarrow> app \<times> (AppError + json)" where
  "register cy chr ax s ip input =
     try_run (check_register_rate_limit cy (ax_instant ax) ip s) (\<lambda>s _.
     let s = record_register_attempt cy ip s; username = trim (rr_username input) in
     try_in s (register_checks (ap_db s) (settings s) input) (\<lambda>_.
     try_in s (hash_password cy (ax_salt ax) (rr_password input)) (\<lambda>password_hash.
     try_run (on_db (insert_user (new_user ax username (or_else (rr_display_name input) username)) password_hash) s) (\<lambda>s _.
     first_session cy chr ax s))))"

section \<open>Logging in\<close>

text \<open>The account a login names: not a bot, with a password.\<close>

definition login_account :: "db \<Rightarrow> string \<Rightarrow> AppError + (User \<times> string) option" where
  "login_account d username =
     and_then (query d (find (\<lambda>u. us_username u = username \<and> \<not> us_bot u \<and>
                               cr_password_hash (credentials_of d (us_id u)) \<noteq> None) (users d))) (\<lambda>r.
     Inr (case r of
            None \<Rightarrow> None
          | Some u \<Rightarrow> map_option (\<lambda>h. (u, h)) (cr_password_hash (credentials_of d (us_id u)))))"

definition check_password :: "crypto \<Rightarrow> string \<Rightarrow> string \<Rightarrow> AppError + bool" where
  "check_password cy password stored_hash =
     (case cy_parse_hash cy stored_hash of
        Some e \<Rightarrow> Inl (Internal (''stored hash parse failed: '' @ e))
      | None \<Rightarrow> Inr (cy_verify cy password stored_hash))"

definition verify_user_password :: "crypto \<Rightarrow> db \<Rightarrow> string \<Rightarrow> string \<Rightarrow> AppError + unit" where
  "verify_user_password cy d user_id password =
     and_then (fetch_user d user_id) (\<lambda>(u, c).
     and_then (ok_or (BadRequest ''account has no password'') (cr_password_hash c)) (\<lambda>stored_hash.
     and_then (check_password cy password stored_hash) (\<lambda>matches.
     if matches then Inr () else Inl (Unauthorized ''invalid password''))))"

text \<open>A ticket replaces the earlier one of its user; expired ones go with it.\<close>

definition issue_ticket :: "chrono \<Rightarrow> string \<Rightarrow> string \<Rightarrow> app \<Rightarrow> app \<times> (AppError + unit)" where
  "issue_ticket chr ticket_hash user_id s =
     (let m = hm_retain (\<lambda>_ t. mt_user_id t \<noteq> user_id \<and> mt_expires_at t > utc_now chr) (mfa_tickets s) in
      if length m \<ge> MAX_TRACKERS then (s\<lparr>mfa_tickets := m\<rparr>, Inl (RateLimited 60))
      else (s\<lparr>mfa_tickets := hm_insert ticket_hash \<lparr>mt_user_id = user_id, mt_expires_at = utc_now chr + 300\<rparr> m\<rparr>, Inr ()))"

definition session_json :: "auth_stamp \<Rightarrow> User \<Rightarrow> bool \<Rightarrow> json" where
  "session_json ax user force_password_reset =
     JObj ([(''user'', user_json user), (''token'', JStr (ax_token ax))] @
           (if force_password_reset then [(''force_password_reset'', JBool True)] else []))"

definition login_failed :: "string \<Rightarrow> app \<Rightarrow> app \<times> (AppError + 'a)" where
  "login_failed username s = (record_login_failure username s, Inl (Unauthorized ''invalid credentials''))"

definition password_accepted ::
    "crypto \<Rightarrow> chrono \<Rightarrow> auth_stamp \<Rightarrow> User \<Rightarrow> app \<Rightarrow> app \<times> (AppError + json)" where
  "password_accepted cy chr ax account s =
     (if us_mfa_enabled account then
        try_run (issue_ticket chr (cy_sha256_hex cy (ax_token ax)) (us_id account) s) (\<lambda>s _.
        (s, Inr (JObj [(''mfa_required'', JBool True), (''ticket'', JStr (ax_token ax))])))
      else
        try_in s (get_user (ap_db s) (us_id account)) (\<lambda>user.
        let force = cr_force_password_reset (credentials_of (ap_db s) (us_id account)) in
        try_run (on_db (issue_token cy chr ax (us_id account)) s) (\<lambda>s _. (s, Inr (session_json ax user force)))))"

definition login :: "crypto \<Rightarrow> chrono \<Rightarrow> auth_stamp \<Rightarrow> app \<Rightarrow> LoginRequest \<Rightarrow> app \<times> (AppError + json)" where
  "login cy chr ax s input =
     (if length (lr_username input) > 32 \<or> length (lr_password input) > 128
      then (s, Inl (Unauthorized ''invalid username or password'')) else
      try_run (check_login_rate_limit (ax_instant ax) (lr_username input) s) (\<lambda>s _.
      try_in s (login_account (ap_db s) (lr_username input)) (\<lambda>account.
      case account of
        None \<Rightarrow> login_failed (lr_username input) s
      | Some (u, stored_hash) \<Rightarrow>
          if us_disabled u then (s, Inl (Forbidden ''account is disabled'')) else
          try_in s (check_password cy (lr_password input) stored_hash) (\<lambda>matches.
          if \<not> matches then login_failed (lr_username input) s
          else password_accepted cy chr ax u (clear_login_failures (lr_username input) s)))))"

section \<open>The second factor\<close>

text \<open>The secret of a user as bytes, and whether a code is right for it now.\<close>

definition totp_of :: "crypto \<Rightarrow> string \<Rightarrow> string option \<Rightarrow> string \<Rightarrow> AppError + string" where
  "totp_of cy encrypted key invalid =
     and_then (decrypt_totp_secret cy encrypted key) (\<lambda>secret_base32.
     and_then (ok_or (Internal invalid) (cy_unbase32 cy secret_base32)) (\<lambda>secret.
     case cy_totp_new cy secret of
       Some e \<Rightarrow> Inl (Internal (''TOTP init failed: '' @ e))
     | None \<Rightarrow> Inr secret))"

definition check_current :: "crypto \<Rightarrow> string \<Rightarrow> string \<Rightarrow> AppError + bool" where
  "check_current cy secret typed =
     map_err (\<lambda>e. Internal (''TOTP check failed: '' @ e)) (cy_totp_check cy secret typed)"

definition verify_totp_code :: "crypto \<Rightarrow> string \<Rightarrow> string \<Rightarrow> app \<Rightarrow> app \<times> (AppError + unit)" where
  "verify_totp_code cy user_id typed s =
     try_in s (fetch_user (ap_db s) user_id) (\<lambda>(u, c).
     try_in s (ok_or (Internal ''2FA is enabled but no secret stored'') (cr_totp_secret c)) (\<lambda>encrypted.
     try_in s (totp_of cy encrypted (totp_key s) ''stored TOTP secret is invalid'') (\<lambda>secret.
     try_in s (check_current cy secret typed) (\<lambda>right.
     if right then (s, Inr ())
     else (record_totp_failure user_id s, Inl (Unauthorized ''invalid TOTP code''))))))"

definition use_backup_code :: "int \<Rightarrow> db \<Rightarrow> db" where
  "use_backup_code i d = d\<lparr>backup_codes := map (\<lambda>b. if bk_id b = i then b\<lparr>bk_used := True\<rparr> else b) (backup_codes d)\<rparr>"

definition verify_and_consume_backup_code :: "crypto \<Rightarrow> string \<Rightarrow> string \<Rightarrow> app \<Rightarrow> app \<times> (AppError + unit)" where
  "verify_and_consume_backup_code cy user_id typed s =
     try_in s (query (ap_db s) (find (\<lambda>b. bk_user_id b = user_id \<and> bk_code_hash b = hash_backup_code cy typed)
                 (backup_codes (ap_db s)))) (\<lambda>r.
     case r of
       None \<Rightarrow> (record_totp_failure user_id s, Inl (Unauthorized ''invalid code''))
     | Some b \<Rightarrow>
         if bk_used b
         then (record_totp_failure user_id s, Inl (Unauthorized ''backup code has already been used''))
         else on_db (\<lambda>d. execute d (use_backup_code (bk_id b))) s)"

definition is_totp_code :: "string \<Rightarrow> bool" where
  "is_totp_code typed \<longleftrightarrow> length typed = 6 \<and> list_all is_ascii_digit typed"

text \<open>The part of \<open>login_mfa\<close> that checks the code, and the part that follows a right one.\<close>

definition second_factor :: "crypto \<Rightarrow> string \<Rightarrow> string \<Rightarrow> app \<Rightarrow> app \<times> (AppError + unit)" where
  "second_factor cy user_id typed s =
     (if is_totp_code typed then verify_totp_code cy user_id typed s
      else verify_and_consume_backup_code cy user_id typed s)"

definition code_accepted :: "crypto \<Rightarrow> chrono \<Rightarrow> auth_stamp \<Rightarrow> string \<Rightarrow> app \<Rightarrow> app \<times> (AppError + json)" where
  "code_accepted cy chr ax user_id s =
     (let s = clear_totp_failures user_id s in
      try_in s (get_user (ap_db s) user_id) (\<lambda>user.
      try_run (on_db (issue_token cy chr ax user_id) s) (\<lambda>s _.
      let force = (case fetch_user (ap_db s) user_id of Inr (_, c) \<Rightarrow> cr_force_password_reset c | Inl _ \<Rightarrow> False)
      in (s, Inr (session_json ax user force)))))"

definition login_mfa :: "crypto \<Rightarrow> chrono \<Rightarrow> auth_stamp \<Rightarrow> app \<Rightarrow> MfaLoginRequest \<Rightarrow> app \<times> (AppError + json)" where
  "login_mfa cy chr ax s input =
     (let ticket_hash = cy_sha256_hex cy (ml_ticket input) in
      case hm_get (mfa_tickets s) ticket_hash of
        None \<Rightarrow> (s, Inl (Unauthorized ''invalid or expired MFA ticket''))
      | Some ticket \<Rightarrow>
          let s = s\<lparr>mfa_tickets := hm_remove ticket_hash (mfa_tickets s)\<rparr>; user_id = mt_user_id ticket in
          if mt_expires_at ticket < utc_now chr
          then (s, Inl (Unauthorized (''MFA ticket has expired '' @ em_dash @ '' please log in again''))) else
          try_run (check_totp_rate_limit (ax_instant ax) user_id s) (\<lambda>s _.
          try_run (second_factor cy user_id (trim (ml_code input)) s) (\<lambda>s _.
          code_accepted cy chr ax user_id s)))"

section \<open>Sessions and passwords\<close>

definition raw_bearer :: "string option \<Rightarrow> string" where
  "raw_bearer auth_header = or_else (Option.bind auth_header (\<lambda>h. strip_prefix h ''Bearer '')) []"

definition drop_tokens :: "(UserToken \<Rightarrow> bool) \<Rightarrow> db \<Rightarrow> db \<times> (AppError + unit)" where
  "drop_tokens P d = execute d (\<lambda>d. d\<lparr>user_tokens := filter (\<lambda>t. \<not> P t) (user_tokens d)\<rparr>)"

definition logout :: "crypto \<Rightarrow> app \<Rightarrow> AuthUser \<Rightarrow> string option \<Rightarrow> app \<times> (AppError + unit)" where
  "logout cy s auth auth_header =
     on_db (drop_tokens (\<lambda>t. ut_token_hash t = cy_sha256_hex cy (raw_bearer auth_header))) s"

definition revoke_all_sessions :: "app \<Rightarrow> AuthUser \<Rightarrow> app \<times> (AppError + unit)" where
  "revoke_all_sessions s auth = on_db (drop_tokens (\<lambda>t. ut_user_id t = au_user_id auth)) s"

definition change_password ::
    "crypto \<Rightarrow> auth_stamp \<Rightarrow> app \<Rightarrow> AuthUser \<Rightarrow> string option \<Rightarrow> ChangePasswordRequest \<Rightarrow> app \<times> (AppError + unit)" where
  "change_password cy ax s auth auth_header input =
     try_in s (check_new_password (cp_new_password input)) (\<lambda>_.
     try_in s (verify_user_password cy (ap_db s) (au_user_id auth) (cp_old_password input)) (\<lambda>_.
     try_in s (hash_password cy (ax_salt ax) (cp_new_password input)) (\<lambda>password_hash.
     try_run (on_db (\<lambda>d. execute d (set_credentials (au_user_id auth)
                (\<lambda>c. c\<lparr>cr_password_hash := Some password_hash, cr_force_password_reset := False\<rparr>))) s) (\<lambda>s _.
     on_db (drop_tokens (\<lambda>t. ut_user_id t = au_user_id auth \<and>
        ut_token_hash t \<noteq> cy_sha256_hex cy (raw_bearer auth_header))) s))))"

section \<open>Setting up the second factor\<close>

definition otpauth_uri :: "string \<Rightarrow> string \<Rightarrow> string" where
  "otpauth_uri username secret_base32 =
     ''otpauth://totp/Accord:'' @ urlencoded username @ ''?secret='' @ secret_base32 @
     ''&issuer=Accord&algorithm=SHA1&digits=6&period=30''"

definition enable_2fa :: "crypto \<Rightarrow> auth_stamp \<Rightarrow> app \<Rightarrow> AuthUser \<Rightarrow> string \<Rightarrow> app \<times> (AppError + json)" where
  "enable_2fa cy ax s auth password =
     try_in s (verify_user_password cy (ap_db s) (au_user_id auth) password) (\<lambda>_.
     try_in s (fetch_user (ap_db s) (au_user_id auth)) (\<lambda>(u, _).
     if us_mfa_enabled u then (s, Inl (BadRequest ''2FA is already enabled'')) else
     let secret_base32 = cy_base32 cy (ax_secret ax);
         encrypted = encrypt_totp_secret cy (ax_nonce ax) secret_base32 (totp_key s) in
     try_run (on_db (\<lambda>d. execute d (set_credentials (au_user_id auth) (\<lambda>c. c\<lparr>cr_totp_secret := Some encrypted\<rparr>))) s) (\<lambda>s _.
     try_in s (fetch_user (ap_db s) (au_user_id auth)) (\<lambda>(u, _).
     (s, Inr (JObj [(''secret'', JStr secret_base32),
                    (''otpauth_uri'', JStr (otpauth_uri (us_username u) secret_base32))]))))))"

definition backup_codes_json :: "string list \<Rightarrow> json" where
  "backup_codes_json cs = JObj [(''backup_codes'', JArr (map JStr cs))]"

definition turn_on_2fa :: "crypto \<Rightarrow> auth_stamp \<Rightarrow> string \<Rightarrow> app \<Rightarrow> app \<times> (AppError + json)" where
  "turn_on_2fa cy ax user_id s =
     try_run (on_db (\<lambda>d. execute d (set_mfa_enabled user_id True)) s) (\<lambda>s _.
     try_run (on_db (replace_backup_codes cy user_id (ax_codes ax)) s) (\<lambda>s _.
     (s, Inr (backup_codes_json (ax_codes ax)))))"

definition verify_2fa :: "crypto \<Rightarrow> auth_stamp \<Rightarrow> app \<Rightarrow> AuthUser \<Rightarrow> string \<Rightarrow> app \<times> (AppError + json)" where
  "verify_2fa cy ax s auth input =
     (let typed = trim input; user_id = au_user_id auth in
      if \<not> is_totp_code typed then (s, Inl (BadRequest ''code must be a 6-digit number'')) else
      try_run (check_totp_rate_limit (ax_instant ax) user_id s) (\<lambda>s _.
      try_in s (fetch_user (ap_db s) user_id) (\<lambda>(u, c).
      if us_mfa_enabled u then (s, Inl (BadRequest ''2FA is already enabled'')) else
      try_in s (ok_or (BadRequest (''no 2FA setup in progress '' @ em_dash @ '' call enable first'')) (cr_totp_secret c)) (\<lambda>encrypted.
      try_in s (totp_of cy encrypted (totp_key s) ''stored secret is invalid'') (\<lambda>secret.
      try_in s (check_current cy secret typed) (\<lambda>right.
      if \<not> right then (record_totp_failure user_id s, Inl (Unauthorized ''invalid code'')) else
      turn_on_2fa cy ax user_id (clear_totp_failures user_id s)))))))"

definition disable_2fa :: "crypto \<Rightarrow> app \<Rightarrow> AuthUser \<Rightarrow> string \<Rightarrow> app \<times> (AppError + unit)" where
  "disable_2fa cy s auth password =
     try_in s (verify_user_password cy (ap_db s) (au_user_id auth) password) (\<lambda>_.
     try_run (on_db (\<lambda>d. execute d (\<lambda>d. set_mfa_enabled (au_user_id auth) False
                (set_credentials (au_user_id auth) (\<lambda>c. c\<lparr>cr_totp_secret := None\<rparr>) d))) s) (\<lambda>s _.
     on_db (delete_backup_codes (au_user_id auth)) s))"

definition regenerate_backup_codes ::
    "crypto \<Rightarrow> auth_stamp \<Rightarrow> app \<Rightarrow> AuthUser \<Rightarrow> string \<Rightarrow> app \<times> (AppError + json)" where
  "regenerate_backup_codes cy ax s auth password =
     try_in s (verify_user_password cy (ap_db s) (au_user_id auth) password) (\<lambda>_.
     try_in s (fetch_user (ap_db s) (au_user_id auth)) (\<lambda>(u, _).
     if \<not> us_mfa_enabled u then (s, Inl (BadRequest ''2FA is not enabled'')) else
     try_run (on_db (replace_backup_codes cy (au_user_id auth) (ax_codes ax)) s) (\<lambda>s _.
     (s, Inr (backup_codes_json (ax_codes ax))))))"

section \<open>Guests\<close>

definition find_guest_space :: "db \<Rightarrow> AppError + SpaceRow" where
  "find_guest_space d =
     and_then (query d (first_space (\<lambda>r. sp_public r \<and> sp_allow_guest_access r) d)) (\<lambda>open_space.
     case open_space of
       Some i \<Rightarrow> get_space_row d i
     | None \<Rightarrow>
         and_then (query d (first_space sp_allow_guest_access d)) (\<lambda>any.
         case any of
           Some i \<Rightarrow> get_space_row d i
         | None \<Rightarrow> Inl (NotFound ''no spaces available for guest access'')))"

definition insert_guest_token :: "string \<Rightarrow> string \<Rightarrow> string \<Rightarrow> db \<Rightarrow> db \<times> (AppError + unit)" where
  "insert_guest_token token_hash space_id expires_at d =
     execute_checked d
       (\<lambda>d. if list_ex (\<lambda>t. gt_token_hash t = token_hash) (guest_tokens d) then Some (primary_key_violation d)
            else if \<not> has_space d space_id then Some (foreign_key_violation d) else None)
       (\<lambda>d. d\<lparr>guest_tokens := guest_tokens d @
          [\<lparr>gt_token_hash = token_hash, gt_space_id = space_id, gt_expires_at = expires_at\<rparr>]\<rparr>)"

definition drop_expired_guests :: "string \<Rightarrow> db \<Rightarrow> db" where
  "drop_expired_guests now d =
     fst (execute d (\<lambda>d. d\<lparr>guest_tokens := filter (\<lambda>t. \<not> gt_expires_at t < now) (guest_tokens d)\<rparr>))"

definition count_guest :: "string \<Rightarrow> app \<Rightarrow> app" where
  "count_guest space_id s =
     s\<lparr>guest_counts := hm_insert space_id (case hm_get (guest_counts s) space_id of Some n \<Rightarrow> n + 1 | None \<Rightarrow> 1)
        (guest_counts s)\<rparr>"

definition guest :: "crypto \<Rightarrow> chrono \<Rightarrow> auth_stamp \<Rightarrow> app \<Rightarrow> string \<Rightarrow> app \<times> (AppError + json)" where
  "guest cy chr ax s ip =
     try_run (check_guest_rate_limit cy (ax_instant ax) ip s) (\<lambda>s _.
     let s = record_guest_attempt cy ip s;
         expires_at = format_utc chr (utc_now chr + GUEST_TOKEN_LIFETIME_SECS) expiry_format in
     try_in s (find_guest_space (ap_db s)) (\<lambda>space.
     try_run (on_db (insert_guest_token (cy_sha256_hex cy (ax_token ax)) (sp_id space) expires_at) s) (\<lambda>s _.
     (count_guest (sp_id space) (s\<lparr>ap_db := drop_expired_guests (ax_now ax) (ap_db s)\<rparr>),
      Inr (JObj [(''token'', JStr (ax_token ax)), (''expires_at'', JStr expires_at),
                 (''space_id'', JStr (sp_id space))])))))"

end
