(* ===== verification/AccountSafety.thy ===== *)
theory AccountSafety
  imports Accounts JoiningSafety
begin

text \<open>
  Every request about accounts together, and what holds of them: which credentials a session takes, how many
  guesses the limiters let through, how many sessions a user has, and what a new password ends.
\<close>

section \<open>Requests\<close>

datatype auth_request =
    Register string RegisterRequest                     \<comment> \<open>address\<close>
  | Login LoginRequest
  | LoginMfa MfaLoginRequest
  | Logout "string option"                             \<comment> \<open>the \<open>Authorization\<close> header\<close>
  | RevokeSessions
  | ChangePassword "string option" ChangePasswordRequest
  | EnableMfa string                                   \<comment> \<open>password\<close>
  | ConfirmMfa string                                  \<comment> \<open>code\<close>
  | DisableMfa string
  | NewBackupCodes string
  | GuestToken string                                  \<comment> \<open>address\<close>

record auth_call =
  ac_chrono :: chrono
  ac_stamp :: auth_stamp
  ac_auth :: AuthUser
  ac_request :: auth_request

definition handle_auth :: "crypto \<Rightarrow> auth_call \<Rightarrow> app \<Rightarrow> app \<times> (AppError + unit)" where
  "handle_auth cy c s =
     (let chr = ac_chrono c; ax = ac_stamp c; auth = ac_auth c in
      case ac_request c of
        Register ip input \<Rightarrow> only_ok (register cy chr ax s ip input)
      | Login input \<Rightarrow> only_ok (login cy chr ax s input)
      | LoginMfa input \<Rightarrow> only_ok (login_mfa cy chr ax s input)
      | Logout header \<Rightarrow> logout cy s auth header
      | RevokeSessions \<Rightarrow> revoke_all_sessions s auth
      | ChangePassword header input \<Rightarrow> change_password cy ax s auth header input
      | EnableMfa password \<Rightarrow> only_ok (enable_2fa cy ax s auth password)
      | ConfirmMfa typed \<Rightarrow> only_ok (verify_2fa cy ax s auth typed)
      | DisableMfa password \<Rightarrow> disable_2fa cy s auth password
      | NewBackupCodes password \<Rightarrow> only_ok (regenerate_backup_codes cy ax s auth password)
      | GuestToken ip \<Rightarrow> only_ok (guest cy chr ax s ip))"

fun handle_auths :: "crypto \<Rightarrow> auth_call list \<Rightarrow> app \<Rightarrow> app" where
  "handle_auths cy [] s = s"
| "handle_auths cy (c # cs) s = handle_auths cy cs (fst (handle_auth cy c s))"

section \<open>Secrets at rest\<close>

lemma from_hex_digit_digit: "n < 16 \<Longrightarrow> from_hex_digit (hex_digit n) = Some n"
  by (auto simp: from_hex_digit_def hex_digit_def byte_def Let_def)

lemma hex_roundtrip: "hex_decode (hex_encode bytes) = Some bytes"
proof (induction bytes)
  case (Cons b bytes)
  have "byte b < 256" by (simp add: byte_def)
  then have "from_hex_pair (hex_digit (byte b div 16)) (hex_digit (byte b mod 16)) = Some (char_of (byte b))"
    by (simp add: from_hex_pair_def from_hex_digit_digit)
  with Cons show ?case by (simp add: hex_encode_def byte_def)
qed (simp add: hex_encode_def)

lemma hex_no_colon: "CHR '':'' \<notin> set (hex_encode bytes)"
proof -
  have "hex_digit n \<noteq> CHR '':''" if "n < 16" for n
  proof
    assume "hex_digit n = CHR '':''"
    with from_hex_digit_digit [OF that] have "from_hex_digit (CHR '':'') = Some n" by simp
    then show False by (simp add: from_hex_digit_def byte_def)
  qed
  moreover have "byte b div 16 < 16" "byte b mod 16 < 16" for b
    by (simp_all add: byte_def less_mult_imp_div_less)
  ultimately have "CHR '':'' \<noteq> hex_digit (byte b div 16)" "CHR '':'' \<noteq> hex_digit (byte b mod 16)" for b
    by metis+
  then show ?thesis by (simp add: hex_encode_def)
qed

text \<open>A second-factor secret survives its encryption at rest: whatever the key, the random nonce and the
  secret, what \<open>encrypt_totp_secret\<close> stores decrypts to the secret under the same key, given only that AES-GCM
  decrypts what it encrypted.  Without a key the secret is stored as it is, and comes back the same unless it
  looks like an encrypted one.\<close>

theorem totp_secret_roundtrip:
  assumes "\<And>k n x. cy_decrypt cy k n (cy_encrypt cy k n x) = Some x" and "cy_is_utf8 cy secret"
  shows "decrypt_totp_secret cy (encrypt_totp_secret cy nonce secret (Some k)) (Some k) = Inr secret \<and>
    (strip_prefix secret ''enc:'' = None \<longrightarrow>
       decrypt_totp_secret cy (encrypt_totp_secret cy nonce secret None) key = Inr secret)"
proof -
  let ?rest = "hex_encode nonce @ CHR '':'' # hex_encode (cy_encrypt cy k nonce secret)"
  have "strip_prefix (''enc:'' @ ?rest) ''enc:'' = Some ?rest" by (rule strip_prefix_append)
  moreover have "split_once (CHR '':'') ?rest = Some (hex_encode nonce, hex_encode (cy_encrypt cy k nonce secret))"
    by (rule split_once_append) (rule hex_no_colon)
  ultimately show ?thesis
    using assms by (simp add: encrypt_totp_secret_def decrypt_totp_secret_def ok_or_def hex_roundtrip)
qed

section \<open>The limiters\<close>

text \<open>What a limiter promises of one step: an attempt that is counted passed the check and adds one to its
  tracker; whatever else happens, a tracker within its window stays, unless its key is cleared, and a new one
  starts at zero.\<close>

definition fresh_tracker :: "nat \<Rightarrow> AttemptTracker" where
  "fresh_tracker now = \<lparr>tk_count = 0, tk_window_start = now\<rparr>"

definition in_window :: "nat \<Rightarrow> nat \<Rightarrow> AttemptTracker \<Rightarrow> bool" where
  "in_window now window t \<longleftrightarrow> as_secs (now - tk_window_start t) < window"

definition current :: "nat \<Rightarrow> nat \<Rightarrow> (string, AttemptTracker) hmap \<Rightarrow> string \<Rightarrow> AttemptTracker" where
  "current now window m k =
     (case hm_get m k of Some t \<Rightarrow> if in_window now window t then t else fresh_tracker now | None \<Rightarrow> fresh_tracker now)"

lemma check_attempts_step:
  assumes "hm_wf m" and "check_attempts now window most key m = (m', r)"
  shows "hm_wf m'"
    and "r = Inr () \<Longrightarrow> hm_get m' key = Some (current now window m key) \<and>
      (0 < window \<longrightarrow> 0 < most \<longrightarrow> tk_count (current now window m key) < most)"
    and "hm_get m k = Some t \<Longrightarrow> in_window now window t \<Longrightarrow> hm_get m' k = Some t"
    and "hm_get m' k = Some t \<Longrightarrow> t = current now window m k"
proof -
  let ?stale = "\<lambda>t. as_secs (now - tk_window_start t) \<ge> window"
  define kept where "kept = hm_retain (\<lambda>_ t. \<not> ?stale t) m"
  have wf: "hm_wf kept" using assms(1) by (simp add: kept_def)
  have kept: "hm_get kept k = (case hm_get m k of Some t \<Rightarrow> if in_window now window t then Some t else None | None \<Rightarrow> None)" for k
    by (simp add: kept_def hm_get_retain [OF assms(1)] in_window_def not_le split: option.split)
  obtain m1 q where reserve: "reserve_tracker m key ?stale (fresh_tracker now) = (m1, q)" by fastforce
  then have m1: "q = Inr () \<Longrightarrow> hm_get m1 key = Some (current now window m key)"
      "m1 = kept \<or> hm_get kept key = None \<and> m1 = hm_insert key (fresh_tracker now) kept"
    using kept [of key] unfolding reserve_tracker_def Let_def kept_def [symmetric]
    by (auto simp: current_def split: option.splits if_splits)
  have run: "check_attempts now window most key m = (case q of Inl e \<Rightarrow> (m1, Inl e) | Inr _ \<Rightarrow>
      (case hm_get m1 key of None \<Rightarrow> (m1, Inr ())
       | Some t \<Rightarrow> if in_window now window t \<and> tk_count t \<ge> most
                   then (m1, Inl (RateLimited (window - as_secs (now - tk_window_start t)))) else (m1, Inr ())))"
    unfolding check_attempts_def fresh_tracker_def [symmetric] reserve
    by (simp add: try_run_def in_window_def Let_def split: sum.split option.split)
  have m': "m' = kept \<or> hm_get kept key = None \<and> m' = hm_insert key (fresh_tracker now) kept"
    using run assms(2) m1(2) by (auto split: sum.splits option.splits if_splits)
  have now: "0 < window \<Longrightarrow> in_window now window (current now window m key)"
    by (auto simp: current_def in_window_def fresh_tracker_def as_secs_def split: option.split)
  have passed: "r = Inr () \<Longrightarrow> hm_get m' key = Some (current now window m key) \<and>
      (0 < window \<longrightarrow> 0 < most \<longrightarrow> tk_count (current now window m key) < most)"
    using run assms(2) m1(1) now by (auto split: sum.splits option.splits if_splits)
  show "hm_wf m'" using m' wf by auto
  show "r = Inr () \<Longrightarrow> hm_get m' key = Some (current now window m key) \<and>
      (0 < window \<longrightarrow> 0 < most \<longrightarrow> tk_count (current now window m key) < most)" by (rule passed)
  show "hm_get m k = Some t \<Longrightarrow> in_window now window t \<Longrightarrow> hm_get m' k = Some t"
    using m' kept [of k] by (cases "k = key") auto
  show "hm_get m' k = Some t \<Longrightarrow> t = current now window m k"
    using m' kept [of k] by (cases "k = key") (auto simp: current_def split: option.splits if_splits)
qed

lemma record_attempt_step:
  assumes "hm_wf m"
  shows "hm_wf (record_attempt key m)"
    and "hm_get m key = Some t \<Longrightarrow> hm_get (record_attempt key m) key = Some (t\<lparr>tk_count := min (tk_count t + 1) U32_MAX\<rparr>)"
    and "k \<noteq> key \<Longrightarrow> hm_get (record_attempt key m) k = hm_get m k"
  using assms by (auto simp: record_attempt_def split: option.split)

text \<open>How often a key is counted before it is first pardoned.\<close>

fun attempts ::
    "('c \<Rightarrow> 's \<Rightarrow> 's) \<Rightarrow> (string \<Rightarrow> 'c \<Rightarrow> 's \<Rightarrow> bool) \<Rightarrow> (string \<Rightarrow> 'c \<Rightarrow> 's \<Rightarrow> bool) \<Rightarrow> string \<Rightarrow> 'c list \<Rightarrow> 's \<Rightarrow> nat" where
  "attempts step counted pardoned k [] s = 0"
| "attempts step counted pardoned k (c # cs) s =
     (if counted k c s then Suc (attempts step counted pardoned k cs (step c s))
      else if pardoned k c s then 0 else attempts step counted pardoned k cs (step c s))"

locale limiter =
  fixes window most :: nat
    and trackers :: "'s \<Rightarrow> (string, AttemptTracker) hmap"
    and step :: "'c \<Rightarrow> 's \<Rightarrow> 's"
    and instant :: "'c \<Rightarrow> nat"
    and counted pardoned :: "string \<Rightarrow> 'c \<Rightarrow> 's \<Rightarrow> bool"
  assumes step_wf: "hm_wf (trackers s) \<Longrightarrow> hm_wf (trackers (step c s))"
    and counted_passed: "hm_wf (trackers s) \<Longrightarrow> counted k c s \<Longrightarrow>
      tk_count (current (instant c) window (trackers s) k) < most \<and>
      hm_get (trackers (step c s)) k =
        Some (current (instant c) window (trackers s) k\<lparr>tk_count := tk_count (current (instant c) window (trackers s) k) + 1\<rparr>)"
    and uncounted_stays: "hm_wf (trackers s) \<Longrightarrow> \<not> counted k c s \<Longrightarrow> \<not> pardoned k c s \<Longrightarrow>
      hm_get (trackers s) k = Some t \<Longrightarrow> in_window (instant c) window t \<Longrightarrow> hm_get (trackers (step c s)) k = Some t"
    and uncounted_starts: "hm_wf (trackers s) \<Longrightarrow> \<not> counted k c s \<Longrightarrow> \<not> pardoned k c s \<Longrightarrow>
      hm_get (trackers s) k = None \<Longrightarrow> hm_get (trackers (step c s)) k \<in> {None, Some (fresh_tracker (instant c))}"
begin

lemma attempts_left:
  assumes "hm_wf (trackers s)" and "\<And>c. c \<in> set cs \<Longrightarrow> start \<le> instant c \<and> as_secs (instant c - start) < window"
    and "\<And>t. hm_get (trackers s) k = Some t \<Longrightarrow> start \<le> tk_window_start t"
  shows "attempts step counted pardoned k cs s \<le> (case hm_get (trackers s) k of None \<Rightarrow> most | Some t \<Rightarrow> most - tk_count t)"
  using assms
proof (induction cs arbitrary: s)
  case Nil
  then show ?case by simp
next
  case (Cons c cs)
  let ?s = "step c s"
  have now: "start \<le> instant c" "as_secs (instant c - start) < window" using Cons.prems(2) [of c] by simp_all
  have open_window: "in_window (instant c) window t" if "start \<le> tk_window_start t" for t
    using that now by (simp add: in_window_def as_secs_def)
  have cur: "current (instant c) window (trackers s) k =
      (case hm_get (trackers s) k of Some t \<Rightarrow> t | None \<Rightarrow> fresh_tracker (instant c))"
    using Cons.prems(3) open_window by (auto simp: current_def split: option.split)
  have start: "start \<le> tk_window_start (current (instant c) window (trackers s) k)"
    using cur now(1) Cons.prems(3) by (auto simp: fresh_tracker_def split: option.split)
  note IH = Cons.IH [OF step_wf [OF Cons.prems(1)]]
  show ?case
  proof (cases "counted k c s")
    case True
    note passed = counted_passed [OF Cons.prems(1) True]
    have "attempts step counted pardoned k cs ?s \<le> most - (tk_count (current (instant c) window (trackers s) k) + 1)"
      using IH [of c] Cons.prems(2) start passed by simp
    with passed True show ?thesis by (auto simp: cur fresh_tracker_def split: option.splits)
  next
    case False
    show ?thesis
    proof (cases "pardoned k c s \<or> hm_get (trackers s) k = None")
      case True
      with False uncounted_starts [OF Cons.prems(1) False] IH [of c] Cons.prems(2) now show ?thesis
        by (fastforce simp: fresh_tracker_def split: option.splits)
    next
      case no: False
      then obtain t where t: "hm_get (trackers s) k = Some t" by auto
      with uncounted_stays [OF Cons.prems(1) False _ t] no Cons.prems(3) open_window
      have "hm_get (trackers ?s) k = Some t" by blast
      with IH [of c] Cons.prems(2,3) t False no show ?thesis by simp
    qed
  qed
qed

lemma attempts_bounded:
  assumes "hm_wf (trackers s)" and "hm_get (trackers s) k = None"
    and "\<And>c. c \<in> set cs \<Longrightarrow> start \<le> instant c \<and> as_secs (instant c - start) < window"
  shows "attempts step counted pardoned k cs s \<le> most"
  using attempts_left [OF assms(1), of cs start k] assms(2,3) by simp

end

section \<open>What requests leave alone\<close>

lemma kept_try_in: "I s \<Longrightarrow> (\<And>x. m = Inr x \<Longrightarrow> I (fst (k x))) \<Longrightarrow> I (fst (try_in s m k))"
  by (cases m) auto

lemma kept_try_run: "I (fst p) \<Longrightarrow> (\<And>t x. I t \<Longrightarrow> I (fst (k t x))) \<Longrightarrow> I (fst (try_run p k))"
  by (cases "snd p") (auto simp: try_run_def)

definition limits :: "app \<Rightarrow> (string, AttemptTracker) hmap list" where
  "limits s = [login_failures s, totp_attempts s, register_attempts s, guest_attempts s]"

lemma on_db_limits [simp]: "limits (fst (on_db f s)) = limits s" "mfa_tickets (fst (on_db f s)) = mfa_tickets s"
  by (simp_all add: on_db_def Let_def limits_def)

lemma send_limits [simp]: "limits (send b s) = limits s" by (simp add: limits_def)

lemma on_db_split: "on_db f s = (t, r) \<Longrightarrow> limits t = limits s \<and> mfa_tickets t = mfa_tickets s"
  using on_db_limits [of f s] by (metis fst_conv)

lemma join_message_limits [simp]:
  "limits (broadcast_member_join_message st sp u s) = limits s"
  "mfa_tickets (broadcast_member_join_message st sp u s) = mfa_tickets s"
  by (auto simp: broadcast_member_join_message_def Let_def split: sum.split option.split prod.split dest!: on_db_split)

lemma join_default_limits [simp]:
  "limits (join_default_space ax sp s) = limits s" "mfa_tickets (join_default_space ax sp s) = mfa_tickets s"
  by (auto simp: join_default_space_def split: prod.split sum.split bool.split dest!: on_db_split)

text \<open>Registration behind its limiter, and the requests that touch no tracker at all.\<close>

lemma unlimited:
  "limits (fst (logout cy s auth h)) = limits s" "limits (fst (revoke_all_sessions s auth)) = limits s"
  "limits (fst (change_password cy ax s auth h input)) = limits s" "limits (fst (disable_2fa cy s auth pw)) = limits s"
  "limits (fst (enable_2fa cy ax s auth pw)) = limits s" "limits (fst (regenerate_backup_codes cy ax s auth pw)) = limits s"
  unfolding logout_def revoke_all_sessions_def change_password_def disable_2fa_def enable_2fa_def regenerate_backup_codes_def
  by (auto simp: Let_def split: prod.split intro!: kept_try_in [where I = "\<lambda>t. limits t = limits s"]
      kept_try_run [where I = "\<lambda>t. limits t = limits s"])

lemma register_limits:
  "limits (fst (register cy chr ax s ip input)) =
     limits (case check_register_rate_limit cy (ax_instant ax) ip s of
        (t, Inl _) \<Rightarrow> t | (t, Inr _) \<Rightarrow> record_register_attempt cy ip t)"
  (is "_ = limits ?t")
proof -
  obtain t r where c: "check_register_rate_limit cy (ax_instant ax) ip s = (t, r)" by fastforce
  let ?I = "\<lambda>x. limits x = limits (record_register_attempt cy ip t)"
  show ?thesis
    by (auto simp: register_def first_session_def c try_run_def Let_def split: sum.split prod.split option.split
        intro!: kept_try_in [where I = ?I] kept_try_run [where I = ?I])
qed

lemma guest_limits:
  "limits (fst (guest cy chr ax s ip)) =
     limits (case check_guest_rate_limit cy (ax_instant ax) ip s of
        (t, Inl _) \<Rightarrow> t | (t, Inr _) \<Rightarrow> record_guest_attempt cy ip t)"
proof -
  obtain t r where c: "check_guest_rate_limit cy (ax_instant ax) ip s = (t, r)" by fastforce
  let ?I = "\<lambda>x. limits x = limits (record_guest_attempt cy ip t)"
  have "limits (count_guest sp x) = limits x" "limits (x\<lparr>ap_db := d\<rparr>) = limits x" for sp x d
    by (simp_all add: count_guest_def limits_def)
  then show ?thesis
    by (auto simp: guest_def c try_run_def Let_def split: sum.split prod.split
        intro!: kept_try_in [where I = ?I] kept_try_run [where I = ?I])
qed

section \<open>Bounded guessing\<close>

text \<open>What a request does to the trackers of a limiter: nothing; the check alone; the check and a failure that is
  counted; or the check and the removal of the tracker, for a key that is pardoned.\<close>

definition limiter_step ::
    "nat \<Rightarrow> nat \<Rightarrow> nat \<Rightarrow> (string, AttemptTracker) hmap \<Rightarrow> (string, AttemptTracker) hmap \<Rightarrow>
     (string \<Rightarrow> bool) \<Rightarrow> (string \<Rightarrow> bool) \<Rightarrow> bool" where
  "limiter_step now window most m0 m' counted pardoned \<longleftrightarrow>
     m' = m0 \<and> (\<forall>k. \<not> counted k) \<or>
     (\<exists>key m r. check_attempts now window most key m0 = (m, r) \<and>
        (m' = m \<and> (\<forall>k. \<not> counted k) \<or>
         r = Inr () \<and> m' = record_attempt key m \<and> (\<forall>k. counted k \<longleftrightarrow> k = key) \<or>
         m' = hm_remove key m \<and> (\<forall>k. \<not> counted k) \<and> pardoned key))"

lemma limiter_step_wf: "limiter_step now window most m0 m' counted pardoned \<Longrightarrow> hm_wf m0 \<Longrightarrow> hm_wf m'"
  by (auto simp: limiter_step_def dest: check_attempts_step(1) record_attempt_step(1))

lemma limiter_step_counted:
  assumes "limiter_step now window most m0 m' counted pardoned" and "hm_wf m0" and "counted k"
    and "0 < window" and "0 < most" and "most \<le> U32_MAX"
  shows "tk_count (current now window m0 k) < most \<and>
    hm_get m' k = Some (current now window m0 k\<lparr>tk_count := tk_count (current now window m0 k) + 1\<rparr>)"
proof -
  from assms(1,3) obtain m where c: "check_attempts now window most k m0 = (m, Inr ())"
    and m': "m' = record_attempt k m" by (auto simp: limiter_step_def)
  from check_attempts_step(2) [OF assms(2) c] assms(4,5)
  have cur: "hm_get m k = Some (current now window m0 k)" and few: "tk_count (current now window m0 k) < most" by simp_all
  from record_attempt_step(2) [OF check_attempts_step(1) [OF assms(2) c] cur] few assms(6) show ?thesis
    by (simp add: m' min_def)
qed

lemma limiter_step_uncounted:
  assumes "limiter_step now window most m0 m' counted pardoned" and "hm_wf m0" and "\<not> counted k" and "\<not> pardoned k"
  shows "hm_get m0 k = Some t \<Longrightarrow> in_window now window t \<Longrightarrow> hm_get m' k = Some t"
    and "hm_get m0 k = None \<Longrightarrow> hm_get m' k \<in> {None, Some (fresh_tracker now)}"
proof -
  have "m' = m0 \<or> (\<exists>key m r. check_attempts now window most key m0 = (m, r) \<and> hm_get m' k = hm_get m k)"
  proof (cases "m' = m0")
    case False
    with assms(1) obtain key m r where c: "check_attempts now window most key m0 = (m, r)"
      and m': "m' = m \<or> m' = record_attempt key m \<and> counted key \<or> m' = hm_remove key m \<and> pardoned key"
      unfolding limiter_step_def by blast
    have "hm_get m' k = hm_get m k"
      using m'
    proof (elim disjE conjE)
      assume "m' = record_attempt key m" "counted key"
      with assms(3) show ?thesis
        by (auto intro: record_attempt_step(3) [OF check_attempts_step(1) [OF assms(2) c]])
    next
      assume "m' = hm_remove key m" "pardoned key"
      with assms(4) show ?thesis by auto
    qed simp
    with c show ?thesis by blast
  qed simp
  then consider "m' = m0" | key m r where "check_attempts now window most key m0 = (m, r)" "hm_get m' k = hm_get m k"
    by blast
  note kept = this
  show "hm_get m0 k = Some t \<Longrightarrow> in_window now window t \<Longrightarrow> hm_get m' k = Some t"
    by (cases rule: kept) (auto dest: check_attempts_step(3) [OF assms(2)])
  show "hm_get m0 k = None \<Longrightarrow> hm_get m' k \<in> {None, Some (fresh_tracker now)}"
  proof (cases rule: kept)
    case (2 key m r)
    then show "hm_get m0 k = None \<Longrightarrow> ?thesis"
      by (cases "hm_get m k") (auto dest!: check_attempts_step(4) [OF assms(2)] simp: current_def)
  qed simp
qed

lemma limiterI:
  assumes "\<And>c s. limiter_step (instant c) window most (trackers s) (trackers (step c s)) (\<lambda>k. counted k c s) (\<lambda>k. pardoned k c s)"
    and "0 < window" and "0 < most" and "most \<le> U32_MAX"
  shows "limiter window most trackers step instant counted pardoned"
  using limiter_step_wf [OF assms(1)] limiter_step_counted [OF assms(1) _ _ assms(2-4)]
    limiter_step_uncounted [OF assms(1)]
  by unfold_locales blast+

text \<open>No statement refuses a request as unauthorized, so that answer comes from the checks alone.\<close>

lemma from_sqlx_authorized [simp]: "from_sqlx e \<noteq> Unauthorized m" by (cases e) auto

lemma statement_authorized [simp]:
  "query d x \<noteq> Inl (Unauthorized m)" "execute d f \<noteq> (d', Inl (Unauthorized m))"
  "execute_checked d v f \<noteq> (d', Inl (Unauthorized m))" "get_user d u \<noteq> Inl (Unauthorized m)"
  by (auto simp: query_def execute_def execute_checked_def get_user_def ok_or_def and_then_eq_Inl split: option.split)

lemma issue_token_authorized [simp]: "snd (issue_token cy chr ax u d) \<noteq> Inl (Unauthorized m)"
proof -
  obtain d' r where i: "insert_token (ax_now ax) (cy_sha256_hex cy (ax_token ax)) u (issued_expiry chr) d = (d', r)" by fastforce
  then have "r \<noteq> Inl (Unauthorized m)" by (auto simp: insert_token_def)
  with i show ?thesis by (cases r) (auto simp: issue_token_def)
qed

lemma on_db_snd [simp]: "snd (on_db f s) = snd (f (ap_db s))" by (simp add: on_db_def Let_def)

lemma check_attempts_authorized: "check_attempts now window most key m0 \<noteq> (m, Inl (Unauthorized e))"
proof -
  have "snd (reserve_tracker m0 key stale t) \<noteq> Inl (Unauthorized e)" for stale t
    by (simp add: reserve_tracker_def Let_def)
  then show ?thesis
    by (auto simp: check_attempts_def try_run_def Let_def prod_eq_iff split: sum.split option.split if_splits)
qed

text \<open>What the password of a login is worth.\<close>

definition password_right :: "crypto \<Rightarrow> db \<Rightarrow> LoginRequest \<Rightarrow> bool" where
  "password_right cy d input =
     (case login_account d (lr_username input) of
        Inr (Some (u, h)) \<Rightarrow> \<not> us_disabled u \<and> check_password cy (lr_password input) h = Inr True
      | _ \<Rightarrow> False)"

definition password_wrong :: "crypto \<Rightarrow> db \<Rightarrow> LoginRequest \<Rightarrow> bool" where
  "password_wrong cy d input =
     (case login_account d (lr_username input) of
        Inr None \<Rightarrow> True
      | Inr (Some (u, h)) \<Rightarrow> \<not> us_disabled u \<and> check_password cy (lr_password input) h = Inr False
      | Inl _ \<Rightarrow> False)"

definition too_long :: "LoginRequest \<Rightarrow> bool" where
  "too_long input \<longleftrightarrow> length (lr_username input) > 32 \<or> length (lr_password input) > 128"

lemma password_accepted_limits [simp]: "limits (fst (password_accepted cy chr ax u s)) = limits s"
proof -
  have "limits (s\<lparr>mfa_tickets := m\<rparr>) = limits s" for m by (simp add: limits_def)
  then show ?thesis
    unfolding password_accepted_def issue_ticket_def
    by (auto simp: Let_def intro!: kept_try_in [where I = "\<lambda>t. limits t = limits s"]
        kept_try_run [where I = "\<lambda>t. limits t = limits s"])
qed

lemma password_accepted_authorized [simp]: "snd (password_accepted cy chr ax u s) \<noteq> Inl (Unauthorized m)"
proof -
  have "snd (try_run (on_db (issue_token cy chr ax v) t) k) = Inl (Unauthorized m) \<Longrightarrow> \<exists>t. snd (k t ()) = Inl (Unauthorized m)" for v t and k :: "app \<Rightarrow> unit \<Rightarrow> app \<times> (AppError + json)"
    using issue_token_authorized [of cy chr ax v "ap_db t" m]
    by (cases "snd (issue_token cy chr ax v (ap_db t))") (auto simp: try_run_def)
  then show ?thesis
    by (auto simp: password_accepted_def issue_ticket_def try_run_def Let_def try_in_def split: sum.splits)
qed

lemma login_failures_limits: "limits t = limits s \<Longrightarrow> login_failures t = login_failures s"
  and totp_attempts_limits: "limits t = limits s \<Longrightarrow> totp_attempts t = totp_attempts s"
  and guest_attempts_limits: "limits t = limits s \<Longrightarrow> guest_attempts t = guest_attempts s"
  by (simp_all add: limits_def)

lemma login_trackers:
  assumes c: "check_attempts (ax_instant ax) LOGIN_WINDOW_SECS LOGIN_MAX_FAILURES (lr_username input) (login_failures s) = (m, r)"
  shows "login_failures (fst (login cy chr ax s input)) =
      (if too_long input then login_failures s
       else if r = Inr () then
         (if password_wrong cy (ap_db s) input then record_attempt (lr_username input) m
          else if password_right cy (ap_db s) input then hm_remove (lr_username input) m else m)
       else m)" (is ?trackers)
    and "snd (login cy chr ax s input) = Inl (Unauthorized ''invalid credentials'') \<longleftrightarrow>
      \<not> too_long input \<and> r = Inr () \<and> password_wrong cy (ap_db s) input" (is ?answer)
    and "totp_attempts (fst (login cy chr ax s input)) = totp_attempts s" (is ?totp)
    and "guest_attempts (fst (login cy chr ax s input)) = guest_attempts s" (is ?guest)
proof -
  have "check_password cy p h \<noteq> Inl (Unauthorized e)" for p h e by (simp add: check_password_def split: option.split)
  have answer: "r \<noteq> Inl (Unauthorized e)" for e using c check_attempts_authorized by blast
  note defs = login_def too_long_def check_login_rate_limit_def c password_wrong_def password_right_def
    login_failed_def record_login_failure_def clear_login_failures_def login_account_def
    password_accepted_limits [THEN login_failures_limits] password_accepted_limits [THEN totp_attempts_limits]
    password_accepted_limits [THEN guest_attempts_limits]
  note splits = sum.split option.split prod.split bool.split
  show ?trackers
    by (auto simp: defs Let_def try_run_def try_in_def split: splits)
  show ?answer
    using \<open>\<And>p h e. check_password cy p h \<noteq> Inl (Unauthorized e)\<close> answer
    by (auto simp: defs Let_def try_run_def try_in_def query_def split: splits)
  show ?totp by (auto simp: defs Let_def try_run_def try_in_def split: splits)
  show ?guest by (auto simp: defs Let_def try_run_def try_in_def split: splits)
qed

text \<open>The second factor: a code that is wrong is recorded, a code that is right touches no tracker.\<close>

definition wrong_codes :: "AppError set" where
  "wrong_codes = {Unauthorized ''invalid TOTP code'', Unauthorized ''invalid code'',
     Unauthorized ''backup code has already been used''}"

lemma wrong_codes_Unauthorized: "(\<And>m. e \<noteq> Unauthorized m) \<Longrightarrow> e \<notin> wrong_codes" by (auto simp: wrong_codes_def)

lemma fetch_user_authorized: "fetch_user d u \<noteq> Inl (Unauthorized m)"
  by (auto simp: fetch_user_def and_then_eq_Inl ok_or_def split: option.splits)

lemma totp_of_authorized: "totp_of cy enc key invalid \<noteq> Inl (Unauthorized m)"
  by (auto simp: totp_of_def decrypt_totp_secret_def and_then_eq_Inl ok_or_def split: option.splits if_splits)

lemma check_current_authorized: "check_current cy secret typed \<noteq> Inl (Unauthorized m)"
  by (cases "cy_totp_check cy secret typed") (auto simp: check_current_def)

lemma second_factor_outcome:
  assumes "second_factor cy user_id typed s = (t, r)"
  shows "limits t = limits s \<and> mfa_tickets t = mfa_tickets s \<and> (\<forall>e \<in> wrong_codes. r \<noteq> Inl e) \<or>
    t = record_totp_failure user_id s \<and> (\<exists>e \<in> wrong_codes. r = Inl e)"
proof (cases "is_totp_code typed")
  case True
  with assms have run: "verify_totp_code cy user_id typed s = (t, r)" by (simp add: second_factor_def)
  show ?thesis
  proof (cases "r = Inl (Unauthorized ''invalid TOTP code'')")
    case True
    with run show ?thesis
      using fetch_user_authorized totp_of_authorized check_current_authorized
      by (auto simp: verify_totp_code_def try_in_def wrong_codes_def ok_or_def split: sum.splits if_splits option.splits)
  next
    case False
    with run have "t = s" "\<And>m. r \<noteq> Inl (Unauthorized m)"
      using fetch_user_authorized totp_of_authorized check_current_authorized
      by (auto simp: verify_totp_code_def try_in_def ok_or_def split: sum.splits if_splits option.splits)
    then show ?thesis using wrong_codes_Unauthorized by blast
  qed
next
  case False
  with assms have run: "verify_and_consume_backup_code cy user_id typed s = (t, r)" by (simp add: second_factor_def)
  show ?thesis
  proof (cases "db_ok (ap_db s)")
    case True
    with run show ?thesis
      by (auto simp: verify_and_consume_backup_code_def wrong_codes_def on_db_def execute_def limits_def
          split: option.splits if_splits)
  next
    case False
    with run show ?thesis by (auto simp: verify_and_consume_backup_code_def query_def wrong_codes_def)
  qed
qed

text \<open>A login in two steps, from the ticket to the code.\<close>

definition ticket_user :: "crypto \<Rightarrow> app \<Rightarrow> MfaLoginRequest \<Rightarrow> string option" where
  "ticket_user cy s input = map_option mt_user_id (hm_get (mfa_tickets s) (cy_sha256_hex cy (ml_ticket input)))"

definition ticket_live :: "crypto \<Rightarrow> chrono \<Rightarrow> app \<Rightarrow> MfaLoginRequest \<Rightarrow> bool" where
  "ticket_live cy chr s input \<longleftrightarrow>
     (case hm_get (mfa_tickets s) (cy_sha256_hex cy (ml_ticket input)) of
        Some t \<Rightarrow> utc_now chr \<le> mt_expires_at t | None \<Rightarrow> False)"

lemma second_factor_limits:
  "fst (second_factor cy u typed s) = t \<Longrightarrow> login_failures t = login_failures s \<and> guest_attempts t = guest_attempts s"
  using second_factor_outcome [of cy u typed s t "snd (second_factor cy u typed s)"]
  by (auto simp: limits_def record_totp_failure_def)

lemma second_factor_answer:
  assumes "ap_db s = ap_db s'" and "totp_key s = totp_key s'"
  shows "snd (second_factor cy u typed s) = snd (second_factor cy u typed s')"
  using assms
  by (auto simp: second_factor_def verify_totp_code_def verify_and_consume_backup_code_def try_in_def
      split: sum.split option.split)

text \<open>The guesses that count against a user, and the ones that clear the tracker.\<close>

definition code_admitted :: "nat \<Rightarrow> string \<Rightarrow> app \<Rightarrow> bool" where
  "code_admitted now user_id s \<longleftrightarrow> is_ok (snd (check_totp_rate_limit now user_id s))"

definition mfa_code_right :: "crypto \<Rightarrow> chrono \<Rightarrow> nat \<Rightarrow> app \<Rightarrow> MfaLoginRequest \<Rightarrow> bool" where
  "mfa_code_right cy chr now s input =
     (case ticket_user cy s input of
        None \<Rightarrow> False
      | Some u \<Rightarrow> ticket_live cy chr s input \<and> code_admitted now u s \<and>
          snd (second_factor cy u (trim (ml_code input)) s) = Inr ())"

lemma code_accepted_limits:
  "limits (fst (code_accepted cy chr ax u s)) = limits (clear_totp_failures u s)"
  by (auto simp: code_accepted_def Let_def
      intro!: kept_try_in [where I = "\<lambda>y. limits y = limits (clear_totp_failures u s)"]
        kept_try_run [where I = "\<lambda>y. limits y = limits (clear_totp_failures u s)"])

lemma code_accepted_trackers:
  "totp_attempts (fst (code_accepted cy chr ax u s)) = hm_remove u (totp_attempts s)"
  using code_accepted_limits [of cy chr ax u s] by (simp add: limits_def clear_totp_failures_def)

lemma code_accepted_authorized: "snd (code_accepted cy chr ax u s) \<noteq> Inl (Unauthorized e)"
  using issue_token_authorized [of cy chr ax u "ap_db (clear_totp_failures u s)"]
  by (auto simp: code_accepted_def Let_def try_in_def try_run_def split: sum.split)

lemma login_mfa_trackers:
  assumes t: "hm_get (mfa_tickets s) (cy_sha256_hex cy (ml_ticket input)) = Some ticket"
    and live: "utc_now chr \<le> mt_expires_at ticket"
    and c: "check_attempts (ax_instant ax) TOTP_WINDOW_SECS TOTP_MAX_FAILURES (mt_user_id ticket) (totp_attempts s) = (m, r)"
    and q: "snd (second_factor cy (mt_user_id ticket) (trim (ml_code input)) s) = q"
  shows "totp_attempts (fst (login_mfa cy chr ax s input)) =
      (if r = Inr () then
         (if q = Inr () then hm_remove (mt_user_id ticket) m
          else if \<exists>e \<in> wrong_codes. q = Inl e then record_attempt (mt_user_id ticket) m else m)
       else m)"
    and "(\<exists>e \<in> wrong_codes. snd (login_mfa cy chr ax s input) = Inl e) \<longleftrightarrow>
      r = Inr () \<and> (\<exists>e \<in> wrong_codes. q = Inl e)"
proof -
  define s1 where "s1 = s\<lparr>mfa_tickets := hm_remove (cy_sha256_hex cy (ml_ticket input)) (mfa_tickets s), totp_attempts := m\<rparr>"
  have "snd (second_factor cy (mt_user_id ticket) (trim (ml_code input)) s1) = q"
    using second_factor_answer [of s1 s] q by (simp add: s1_def)
  then obtain t where run: "second_factor cy (mt_user_id ticket) (trim (ml_code input)) s1 = (t, q)"
    by (metis prod.collapse)
  note outcome = second_factor_outcome [OF run]
  have go: "login_mfa cy chr ax s input =
      (case r of Inl e \<Rightarrow> (s1, Inl e) | Inr _ \<Rightarrow> (case q of Inl e \<Rightarrow> (t, Inl e) | Inr _ \<Rightarrow> code_accepted cy chr ax (mt_user_id ticket) t))"
    using t live c run by (simp add: login_mfa_def check_totp_rate_limit_def s1_def Let_def try_run_def split: sum.split)
  have "totp_attempts s1 = m" by (simp add: s1_def)
  then show "totp_attempts (fst (login_mfa cy chr ax s input)) =
      (if r = Inr () then
         (if q = Inr () then hm_remove (mt_user_id ticket) m
          else if \<exists>e \<in> wrong_codes. q = Inl e then record_attempt (mt_user_id ticket) m else m)
       else m)"
    using outcome by (auto simp: go code_accepted_trackers limits_def record_totp_failure_def split: sum.split)
  show "(\<exists>e \<in> wrong_codes. snd (login_mfa cy chr ax s input) = Inl e) \<longleftrightarrow>
      r = Inr () \<and> (\<exists>e \<in> wrong_codes. q = Inl e)"
    using code_accepted_authorized [of cy chr ax "mt_user_id ticket" t] check_attempts_authorized c
    by (cases r; cases q) (auto simp: go wrong_codes_def)
qed

definition confirmed :: "crypto \<Rightarrow> app \<Rightarrow> string \<Rightarrow> string \<Rightarrow> bool" where
  "confirmed cy s user_id typed \<longleftrightarrow> is_totp_code typed \<and>
     (case fetch_user (ap_db s) user_id of
        Inl _ \<Rightarrow> False
      | Inr (u, c) \<Rightarrow> \<not> us_mfa_enabled u \<and>
          (case and_then (ok_or (BadRequest []) (cr_totp_secret c)) (\<lambda>encrypted.
                and_then (totp_of cy encrypted (totp_key s) ''stored secret is invalid'') (\<lambda>secret.
                check_current cy secret typed)) of
             Inr right \<Rightarrow> right | Inl _ \<Rightarrow> False))"

lemma snd_only_ok [simp]: "snd (only_ok p) = Inl e \<longleftrightarrow> snd p = Inl e"
  by (cases "snd p") (simp_all add: only_ok_def)

lemma verify_2fa_trackers:
  assumes c: "check_attempts (ax_instant ax) TOTP_WINDOW_SECS TOTP_MAX_FAILURES (au_user_id auth) (totp_attempts s) = (m, r)"
  shows "totp_attempts (fst (verify_2fa cy ax s auth input)) =
      (if \<not> is_totp_code (trim input) then totp_attempts s
       else if snd (verify_2fa cy ax s auth input) = Inl (Unauthorized ''invalid code'') then record_attempt (au_user_id auth) m
       else if r = Inr () \<and> confirmed cy s (au_user_id auth) (trim input) then hm_remove (au_user_id auth) m else m)"
    and "snd (verify_2fa cy ax s auth input) = Inl (Unauthorized ''invalid code'') \<Longrightarrow> r = Inr () \<and> is_totp_code (trim input)"
    and "login_failures (fst (verify_2fa cy ax s auth input)) = login_failures s"
    and "guest_attempts (fst (verify_2fa cy ax s auth input)) = guest_attempts s"
    and "snd (verify_2fa cy ax s auth input) = Inl e \<Longrightarrow> e \<in> wrong_codes \<Longrightarrow> e = Unauthorized ''invalid code''"
proof -
  let ?u = "au_user_id auth"
  let ?s = "s\<lparr>totp_attempts := m\<rparr>"
  have limits: "limits (fst (turn_on_2fa cy ax u t)) = limits t" for t u
    unfolding turn_on_2fa_def
    by (auto intro!: kept_try_run [where I = "\<lambda>x. limits x = limits t"])
  have codes: "snd (insert_backup_codes cy u cs d) \<noteq> Inl (Unauthorized e)" for cs d u e
  proof (induction cs arbitrary: d)
    case (Cons x cs)
    obtain d' q where i: "insert_backup_code u (hash_backup_code cy x) d = (d', q)" by fastforce
    then have "q \<noteq> Inl (Unauthorized e)" by (auto simp: insert_backup_code_def)
    with i Cons show ?case by (cases q) auto
  qed simp
  have answer: "snd (turn_on_2fa cy ax u t) \<noteq> Inl (Unauthorized e)" for t u e
    using codes by (auto simp: turn_on_2fa_def try_run_def replace_backup_codes_def delete_backup_codes_def execute_def on_db_def Let_def
        split: sum.split)
  have checked: "r \<noteq> Inl (Unauthorized e)" for e using c check_attempts_authorized by blast
  note run = verify_2fa_def check_totp_rate_limit_def c record_totp_failure_def clear_totp_failures_def
    try_run_def try_in_def Let_def confirmed_def
  note kept = limits [THEN totp_attempts_limits] limits [THEN login_failures_limits] limits [THEN guest_attempts_limits]
  note quiet = answer checked fetch_user_authorized totp_of_authorized check_current_authorized
  note splits = sum.split option.split prod.split bool.split
  show "totp_attempts (fst (verify_2fa cy ax s auth input)) =
      (if \<not> is_totp_code (trim input) then totp_attempts s
       else if snd (verify_2fa cy ax s auth input) = Inl (Unauthorized ''invalid code'') then record_attempt (au_user_id auth) m
       else if r = Inr () \<and> confirmed cy s (au_user_id auth) (trim input) then hm_remove (au_user_id auth) m else m)"
    using quiet by (cases r) (auto simp: run kept ok_or_def split: splits)
  show "snd (verify_2fa cy ax s auth input) = Inl (Unauthorized ''invalid code'') \<Longrightarrow> r = Inr () \<and> is_totp_code (trim input)"
    using quiet by (cases r) (auto simp: run split: if_splits)
  show "login_failures (fst (verify_2fa cy ax s auth input)) = login_failures s"
    by (cases r) (auto simp: run kept ok_or_def split: splits)
  show "guest_attempts (fst (verify_2fa cy ax s auth input)) = guest_attempts s"
    by (cases r) (auto simp: run kept ok_or_def split: splits)
  show "snd (verify_2fa cy ax s auth input) = Inl e \<Longrightarrow> e \<in> wrong_codes \<Longrightarrow> e = Unauthorized ''invalid code''"
    using quiet
    by (cases r; cases e) (auto simp: run ok_or_def wrong_codes_def split: sum.splits option.splits prod.splits if_splits)
qed

text \<open>Which requests count against a key, and which clear it.\<close>

definition wrong_password :: "crypto \<Rightarrow> string \<Rightarrow> auth_call \<Rightarrow> app \<Rightarrow> bool" where
  "wrong_password cy name c s =
     (case ac_request c of
        Login input \<Rightarrow> lr_username input = name \<and> snd (handle_auth cy c s) = Inl (Unauthorized ''invalid credentials'')
      | _ \<Rightarrow> False)"

definition right_password :: "crypto \<Rightarrow> string \<Rightarrow> auth_call \<Rightarrow> app \<Rightarrow> bool" where
  "right_password cy name c s =
     (case ac_request c of
        Login input \<Rightarrow> lr_username input = name \<and> password_right cy (ap_db s) input \<and>
          is_ok (snd (check_login_rate_limit (ax_instant (ac_stamp c)) name s))
      | _ \<Rightarrow> False)"

definition is_wrong_code :: "AppError + 'a \<Rightarrow> bool" where
  "is_wrong_code r = (case r of Inl e \<Rightarrow> e \<in> wrong_codes | Inr _ \<Rightarrow> False)"

definition wrong_code :: "crypto \<Rightarrow> string \<Rightarrow> auth_call \<Rightarrow> app \<Rightarrow> bool" where
  "wrong_code cy user_id c s =
     (case ac_request c of
        LoginMfa input \<Rightarrow> ticket_user cy s input = Some user_id \<and> is_wrong_code (snd (handle_auth cy c s))
      | ConfirmMfa typed \<Rightarrow> au_user_id (ac_auth c) = user_id \<and> is_wrong_code (snd (handle_auth cy c s))
      | _ \<Rightarrow> False)"

definition right_code :: "crypto \<Rightarrow> string \<Rightarrow> auth_call \<Rightarrow> app \<Rightarrow> bool" where
  "right_code cy user_id c s =
     (case ac_request c of
        LoginMfa input \<Rightarrow> ticket_user cy s input = Some user_id \<and>
          mfa_code_right cy (ac_chrono c) (ax_instant (ac_stamp c)) s input
      | ConfirmMfa typed \<Rightarrow> au_user_id (ac_auth c) = user_id \<and>
          code_admitted (ax_instant (ac_stamp c)) user_id s \<and> confirmed cy s user_id (trim typed)
      | _ \<Rightarrow> False)"

definition guest_served :: "crypto \<Rightarrow> string \<Rightarrow> auth_call \<Rightarrow> app \<Rightarrow> bool" where
  "guest_served cy key c s =
     (case ac_request c of
        GuestToken ip \<Rightarrow> hash_ip cy ip = key \<and> is_ok (snd (check_guest_rate_limit cy (ax_instant (ac_stamp c)) ip s))
      | _ \<Rightarrow> False)"

definition account_step :: "crypto \<Rightarrow> auth_call \<Rightarrow> app \<Rightarrow> app" where
  "account_step cy c s = fst (handle_auth cy c s)"

definition call_instant :: "auth_call \<Rightarrow> nat" where
  "call_instant c = ax_instant (ac_stamp c)"

lemma register_keeps:
  "login_failures (fst (register cy chr ax s ip input)) = login_failures s \<and>
   totp_attempts (fst (register cy chr ax s ip input)) = totp_attempts s \<and>
   guest_attempts (fst (register cy chr ax s ip input)) = guest_attempts s"
  using register_limits [of cy chr ax s ip input]
  by (auto simp: limits_def check_register_rate_limit_def record_register_attempt_def Let_def split: sum.splits if_splits)

lemma guest_keeps:
  "login_failures (fst (guest cy chr ax s ip)) = login_failures s \<and>
   totp_attempts (fst (guest cy chr ax s ip)) = totp_attempts s"
  using guest_limits [of cy chr ax s ip]
  by (auto simp: limits_def check_guest_rate_limit_def record_guest_attempt_def Let_def split: sum.splits)

lemma login_mfa_keeps:
  "login_failures (fst (login_mfa cy chr ax s input)) = login_failures s \<and>
   guest_attempts (fst (login_mfa cy chr ax s input)) = guest_attempts s"
proof -
  let ?I = "\<lambda>t. login_failures t = login_failures s \<and> guest_attempts t = guest_attempts s"
  have "?I (fst (second_factor cy u typed t))" if "?I t" for u typed t
    using second_factor_limits [of cy u typed t] that by simp
  moreover have "?I (fst (code_accepted cy chr ax u t))" if "?I t" for u t
    using code_accepted_limits [of cy chr ax u t] that by (auto simp: limits_def clear_totp_failures_def)
  ultimately show ?thesis
    unfolding login_mfa_def check_totp_rate_limit_def
    by (auto simp: Let_def split: option.split intro!: kept_try_run [where I = ?I])
qed

lemma login_keeps:
  "totp_attempts (fst (login cy chr ax s input)) = totp_attempts s \<and>
   guest_attempts (fst (login cy chr ax s input)) = guest_attempts s"
  using login_trackers(3,4) [OF prod.collapse [symmetric]] by blast

lemmas trackers_kept = register_keeps guest_keeps login_mfa_keeps verify_2fa_trackers(3,4) [OF prod.collapse [symmetric]]
  login_keeps unlimited [THEN login_failures_limits] unlimited [THEN totp_attempts_limits]
  unlimited [THEN guest_attempts_limits]

lemmas call_defs = account_step_def handle_auth_def call_instant_def Let_def

lemma login_step:
  "limiter_step (call_instant c) LOGIN_WINDOW_SECS LOGIN_MAX_FAILURES (login_failures s)
     (login_failures (account_step cy c s)) (\<lambda>k. wrong_password cy k c s) (\<lambda>k. right_password cy k c s)"
proof (cases "ac_request c")
  case (Login input)
  let ?name = "lr_username input"
  obtain m r where c: "check_attempts (call_instant c) LOGIN_WINDOW_SECS LOGIN_MAX_FAILURES ?name (login_failures s) = (m, r)"
    by fastforce
  note run = login_trackers(1,2) [OF c [unfolded call_instant_def], of cy "ac_chrono c"]
  have step: "login_failures (account_step cy c s) = login_failures (fst (login cy (ac_chrono c) (ac_stamp c) s input))"
    and wrong: "wrong_password cy k c s \<longleftrightarrow> k = ?name \<and>
      snd (login cy (ac_chrono c) (ac_stamp c) s input) = Inl (Unauthorized ''invalid credentials'')"
    and right: "right_password cy k c s \<longleftrightarrow> k = ?name \<and> password_right cy (ap_db s) input \<and> r = Inr ()" for k
    using c by (auto simp: call_defs wrong_password_def right_password_def check_login_rate_limit_def Login is_ok_iff)
  show ?thesis
  proof (cases "too_long input")
    case True
    then show ?thesis by (auto simp: limiter_step_def step wrong run)
  next
    case False
    have "\<not> (password_wrong cy (ap_db s) input \<and> password_right cy (ap_db s) input)"
      by (auto simp: password_wrong_def password_right_def split: sum.splits option.splits)
    with False c show ?thesis
      unfolding limiter_step_def step wrong right run
      by (intro disjI2 exI [of _ ?name] exI [of _ m] exI [of _ r]) auto
  qed
qed (auto simp: limiter_step_def call_defs wrong_password_def trackers_kept)

interpretation logins: limiter LOGIN_WINDOW_SECS LOGIN_MAX_FAILURES login_failures "account_step cy" call_instant
    "wrong_password cy" "right_password cy" for cy
  by (rule limiterI, rule login_step) (simp_all add: LOGIN_WINDOW_SECS_def LOGIN_MAX_FAILURES_def U32_MAX_def)

lemma code_step:
  "limiter_step (call_instant c) TOTP_WINDOW_SECS TOTP_MAX_FAILURES (totp_attempts s)
     (totp_attempts (account_step cy c s)) (\<lambda>k. wrong_code cy k c s) (\<lambda>k. right_code cy k c s)"
proof (cases "ac_request c")
  case (LoginMfa input)
  have step: "totp_attempts (account_step cy c s) = totp_attempts (fst (login_mfa cy (ac_chrono c) (ac_stamp c) s input))"
    by (simp add: call_defs LoginMfa)
  have wrong: "wrong_code cy k c s \<longleftrightarrow> ticket_user cy s input = Some k \<and>
      (\<exists>e \<in> wrong_codes. snd (login_mfa cy (ac_chrono c) (ac_stamp c) s input) = Inl e)" for k
    by (auto simp: wrong_code_def is_wrong_code_def call_defs LoginMfa split: sum.split)
      (auto simp: only_ok_def and_then_eq_Inl)
  show ?thesis
  proof (cases "hm_get (mfa_tickets s) (cy_sha256_hex cy (ml_ticket input))")
    case None
    then show ?thesis by (auto simp: limiter_step_def step wrong ticket_user_def login_mfa_def Let_def)
  next
    case (Some ticket)
    let ?u = "mt_user_id ticket"
    have user: "ticket_user cy s input = Some ?u" by (simp add: ticket_user_def Some)
    show ?thesis
    proof (cases "utc_now (ac_chrono c) \<le> mt_expires_at ticket")
      case False
      then show ?thesis
        by (auto simp: limiter_step_def step wrong login_mfa_def Let_def Some wrong_codes_def em_dash_def)
    next
      case True
      obtain m r where check: "check_attempts (call_instant c) TOTP_WINDOW_SECS TOTP_MAX_FAILURES ?u (totp_attempts s) = (m, r)"
        by fastforce
      note run = login_mfa_trackers [OF Some True check [unfolded call_instant_def] refl]
      have right: "right_code cy k c s \<longleftrightarrow>
          k = ?u \<and> r = Inr () \<and> snd (second_factor cy ?u (trim (ml_code input)) s) = Inr ()" for k
        using True check
        by (auto simp: right_code_def mfa_code_right_def ticket_live_def code_admitted_def check_totp_rate_limit_def
            call_defs LoginMfa user Some is_ok_iff)
      from check show ?thesis
        unfolding limiter_step_def step wrong right user run
        by (intro disjI2 exI [of _ ?u] exI [of _ m] exI [of _ r]) auto
    qed
  qed
next
  case (ConfirmMfa typed)
  let ?u = "au_user_id (ac_auth c)"
  let ?run = "verify_2fa cy (ac_stamp c) s (ac_auth c) typed"
  obtain m r where check: "check_attempts (call_instant c) TOTP_WINDOW_SECS TOTP_MAX_FAILURES ?u (totp_attempts s) = (m, r)"
    by fastforce
  note run = verify_2fa_trackers(1,2,5) [OF check [unfolded call_instant_def], of cy typed]
  have step: "totp_attempts (account_step cy c s) = totp_attempts (fst ?run)"
    by (simp add: call_defs ConfirmMfa)
  have "is_wrong_code (snd ?run) \<longleftrightarrow> snd ?run = Inl (Unauthorized ''invalid code'')"
    using run(3) by (auto simp: is_wrong_code_def wrong_codes_def split: sum.split)
  moreover have "is_wrong_code (snd (only_ok p)) \<longleftrightarrow> is_wrong_code (snd p)" for p :: "app \<times> (AppError + json)"
    by (cases "snd p") (auto simp: only_ok_def is_wrong_code_def)
  ultimately have wrong: "wrong_code cy k c s \<longleftrightarrow> k = ?u \<and> snd ?run = Inl (Unauthorized ''invalid code'')" for k
    by (auto simp: wrong_code_def call_defs ConfirmMfa)
  have right: "right_code cy k c s \<longleftrightarrow> k = ?u \<and> r = Inr () \<and> confirmed cy s ?u (trim typed)" for k
    using check by (auto simp: right_code_def code_admitted_def check_totp_rate_limit_def call_defs ConfirmMfa is_ok_iff)
  show ?thesis
  proof (cases "is_totp_code (trim typed)")
    case False
    with run(1,2) show ?thesis by (auto simp: limiter_step_def step wrong)
  next
    case True
    with check run(1,2) show ?thesis
      unfolding limiter_step_def step wrong right
      by (intro disjI2 exI [of _ ?u] exI [of _ m] exI [of _ r]) auto
  qed
qed (auto simp: limiter_step_def call_defs wrong_code_def trackers_kept)

interpretation codes: limiter TOTP_WINDOW_SECS TOTP_MAX_FAILURES totp_attempts "account_step cy" call_instant
    "wrong_code cy" "right_code cy" for cy
  by (rule limiterI, rule code_step) (simp_all add: TOTP_WINDOW_SECS_def TOTP_MAX_FAILURES_def U32_MAX_def)

text \<open>A guest request that is served is counted; none is pardoned.\<close>

lemma guest_step:
  "limiter_step (call_instant c) GUEST_WINDOW_SECS GUEST_MAX_ATTEMPTS (guest_attempts s)
     (guest_attempts (account_step cy c s)) (\<lambda>k. guest_served cy k c s) (\<lambda>k. False)"
proof (cases "ac_request c")
  case (GuestToken ip)
  obtain m r where check: "check_attempts (call_instant c) GUEST_WINDOW_SECS GUEST_MAX_ATTEMPTS (hash_ip cy ip) (guest_attempts s) = (m, r)"
    by fastforce
  have step: "guest_attempts (account_step cy c s) = (if r = Inr () then record_attempt (hash_ip cy ip) m else m)"
    using check guest_limits [of cy "ac_chrono c" "ac_stamp c" s ip]
    by (cases r) (auto simp: call_defs GuestToken limits_def check_guest_rate_limit_def record_guest_attempt_def)
  have "guest_served cy k c s \<longleftrightarrow> k = hash_ip cy ip \<and> r = Inr ()" for k
    using check by (auto simp: guest_served_def check_guest_rate_limit_def call_defs GuestToken is_ok_iff)
  with check step show ?thesis
    unfolding limiter_step_def by (intro disjI2 exI [of _ "hash_ip cy ip"] exI [of _ m] exI [of _ r]) auto
qed (auto simp: limiter_step_def call_defs guest_served_def trackers_kept)

interpretation guests: limiter GUEST_WINDOW_SECS GUEST_MAX_ATTEMPTS guest_attempts "account_step cy" call_instant
    "guest_served cy" "\<lambda>k c s. False" for cy
  by (rule limiterI, rule guest_step) (simp_all add: GUEST_WINDOW_SECS_def GUEST_MAX_ATTEMPTS_def U32_MAX_def)

text \<open>C27.  Guessing a password is bounded: from a server with no tracker for a user name, whatever requests follow
  within fifteen minutes and in whatever order, at most five logins with that name are answered "invalid
  credentials" before one with the right password succeeds.  This holds for names of no account as well, so
  counting them tells an attacker nothing.\<close>

theorem password_guesses_bounded:
  assumes "hm_wf (login_failures s)" and "hm_get (login_failures s) name = None"
    and "\<And>c. c \<in> set cs \<Longrightarrow> start \<le> call_instant c \<and> call_instant c < start + 1000 * LOGIN_WINDOW_SECS"
  shows "attempts (account_step cy) (wrong_password cy) (right_password cy) name cs s \<le> LOGIN_MAX_FAILURES"
  by (rule logins.attempts_bounded [OF assms(1,2), where start = start])
    (use assms(3) in \<open>fastforce simp: as_secs_def LOGIN_WINDOW_SECS_def\<close>)

text \<open>C28.  Guessing a second factor is bounded too, and getting a new ticket does not help: within fifteen minutes at
  most five wrong codes are taken for a user, at login and in the setup of the second factor together, however
  many tickets and requests there are, before a right one resets the count.\<close>

theorem code_guesses_bounded:
  assumes "hm_wf (totp_attempts s)" and "hm_get (totp_attempts s) user_id = None"
    and "\<And>c. c \<in> set cs \<Longrightarrow> start \<le> call_instant c \<and> call_instant c < start + 1000 * TOTP_WINDOW_SECS"
  shows "attempts (account_step cy) (wrong_code cy) (right_code cy) user_id cs s \<le> TOTP_MAX_FAILURES"
  by (rule codes.attempts_bounded [OF assms(1,2), where start = start])
    (use assms(3) in \<open>fastforce simp: as_secs_def TOTP_WINDOW_SECS_def\<close>)

text \<open>Guest tokens are bounded by address.\<close>

lemma guests_bounded:
  assumes "hm_wf (guest_attempts s)" and "hm_get (guest_attempts s) (hash_ip cy ip) = None"
    and "\<And>c. c \<in> set cs \<Longrightarrow> start \<le> call_instant c \<and> call_instant c < start + 1000 * GUEST_WINDOW_SECS"
  shows "attempts (account_step cy) (guest_served cy) (\<lambda>k c s. False) (hash_ip cy ip) cs s \<le> GUEST_MAX_ATTEMPTS"
  by (rule guests.attempts_bounded [OF assms(1,2), where start = start])
    (use assms(3) in \<open>fastforce simp: as_secs_def GUEST_WINDOW_SECS_def\<close>)

section \<open>A server with one account\<close>

definition a_crypto :: crypto where
  "a_crypto = \<lparr>cy_sha256_hex = (\<lambda>x. CHR ''#'' # x), cy_parse_hash = (\<lambda>_. None), cy_verify = (\<lambda>p h. h = CHR ''$'' # p),
     cy_hash_password = (\<lambda>p _. Inr (CHR ''$'' # p)), cy_encrypt = (\<lambda>_ _ x. x), cy_decrypt = (\<lambda>_ _ x. Some x),
     cy_is_utf8 = (\<lambda>_. True), cy_base32 = (\<lambda>x. x), cy_unbase32 = Some, cy_totp_new = (\<lambda>_. None),
     cy_totp_check = (\<lambda>_ c. Inr (c = ''123456'')), cy_to_uppercase = (\<lambda>x. x)\<rparr>"

definition a_draw :: "nat \<Rightarrow> auth_stamp" where
  "a_draw now = \<lparr>ax_instant = now, ax_now = ''2026-01-01'', ax_user_id = ''9'', ax_token = ''tok'', ax_salt = ''salt'',
     ax_secret = ''sec'', ax_nonce = ''n'', ax_codes = [''AAAA''], ax_message = \<lparr>st_id = ''90'', st_ms = 90, st_now = ''2026-01-01''\<rparr>\<rparr>"

definition a_call :: "nat \<Rightarrow> auth_request \<Rightarrow> auth_call" where
  "a_call now r = \<lparr>ac_chrono = a_chrono, ac_stamp = a_draw now, ac_auth = plain_user ''mem'', ac_request = r\<rparr>"

definition an_account_app :: app where
  "an_account_app = an_app\<lparr>
     ap_db := a_db\<lparr>users := [a_user ''mem'', (a_user ''two'')\<lparr>us_mfa_enabled := True\<rparr>],
       user_credentials :=
         [(''mem'', \<lparr>cr_password_hash = Some ''$password'', cr_force_password_reset = False, cr_totp_secret = None\<rparr>),
          (''two'', \<lparr>cr_password_hash = Some ''$password'', cr_force_password_reset = False, cr_totp_secret = Some ''sec''\<rparr>)]\<rparr>,
     mfa_tickets := [(''#a'', \<lparr>mt_user_id = ''two'', mt_expires_at = 400\<rparr>), (''#b'', \<lparr>mt_user_id = ''two'', mt_expires_at = 400\<rparr>)]\<rparr>"

definition a_guess :: "string \<Rightarrow> auth_request" where
  "a_guess password = Login \<lparr>lr_username = ''mem'', lr_password = password\<rparr>"

theorem password_guesses_bounded_witness:
  "attempts (account_step a_crypto) (wrong_password a_crypto) (right_password a_crypto) ''mem''
     (map (\<lambda>i. a_call i (a_guess ''guess'')) [1, 2, 3, 4, 5, 6, 7] @ [a_call 8 (a_guess ''password'')]) an_account_app
   \<le> LOGIN_MAX_FAILURES"
  by (rule password_guesses_bounded [where start = 0])
    (auto simp: an_account_app_def an_app_def call_instant_def a_call_def a_draw_def LOGIN_WINDOW_SECS_def)

theorem code_guesses_bounded_witness:
  "attempts (account_step a_crypto) (wrong_code a_crypto) (right_code a_crypto) ''two''
     [a_call 1 (LoginMfa \<lparr>ml_ticket = ''a'', ml_code = ''111111''\<rparr>), a_call 2 (LoginMfa \<lparr>ml_ticket = ''b'', ml_code = ''xxxx''\<rparr>)]
     an_account_app \<le> TOTP_MAX_FAILURES"
  by (rule code_guesses_bounded [where start = 0])
    (auto simp: an_account_app_def an_app_def call_instant_def a_call_def a_draw_def TOTP_WINDOW_SECS_def)

theorem totp_secret_roundtrip_witness:
  "decrypt_totp_secret a_crypto (encrypt_totp_secret a_crypto ''n:'' ''sec'' (Some ''k'')) (Some ''k'') = Inr ''sec''"
  using totp_secret_roundtrip [of a_crypto "''sec''" "''n:''" "''k''" None] by (simp add: a_crypto_def)

section \<open>What sessions take\<close>

lemma kept_run: "I (fst p) \<Longrightarrow> (\<And>x. snd p = Inr x \<Longrightarrow> I (fst (k (fst p) x))) \<Longrightarrow> I (fst (try_run p k))"
  by (cases "snd p") (auto simp: try_run_def)

definition accounts :: "db \<Rightarrow> User list \<times> (string \<times> Credentials) list \<times> BackupCode list \<times> UserToken list \<times> bool" where
  "accounts d = (users d, user_credentials d, backup_codes d, user_tokens d, db_ok d)"

lemma claim_accounts: "accounts (fst (claim_introduction sp u d)) = accounts d"
  by (auto simp: claim_introduction_def try_run_def execute_checked_def accounts_def Let_def split: option.split sum.split)

lemma revoke_accounts: "accounts (fst (revoke_introduction sp u d)) = accounts d"
  by (simp add: revoke_introduction_def execute_def accounts_def)

lemma system_message_accounts: "accounts (fst (create_system_message st c a sp t ty d)) = accounts d"
  by (auto simp: create_system_message_def insert_message_def bump_channel_def try_run_def execute_checked_def
      execute_def set_channel_def accounts_def Let_def split: option.split sum.split)

lemma add_member_accounts: "accounts (fst (add_member now sp u d)) = accounts d"
  by (auto simp: add_member_def try_run_def execute_checked_def accounts_def Let_def split: option.split sum.split)

lemma join_message_accounts: "accounts (ap_db (broadcast_member_join_message st sp u s)) = accounts (ap_db s)"
  unfolding broadcast_member_join_message_def on_db_def Let_def
  by (simp add: prod.case_eq_if claim_accounts revoke_accounts system_message_accounts split: sum.split option.split)

lemma on_db_at: "on_db f s = (t, r) \<Longrightarrow> ap_db t = fst (f (ap_db s))"
  by (auto simp: on_db_def Let_def)

lemma join_default_accounts: "accounts (ap_db (join_default_space ax sp s)) = accounts (ap_db s)"
  by (auto simp: join_default_space_def join_message_accounts add_member_accounts
      split: prod.split sum.split bool.split dest!: on_db_at)

text \<open>The row a successful login adds.\<close>

definition session_row :: "crypto \<Rightarrow> chrono \<Rightarrow> auth_stamp \<Rightarrow> string \<Rightarrow> UserToken" where
  "session_row cy chr ax user_id =
     \<lparr>ut_token_hash = cy_sha256_hex cy (ax_token ax), ut_user_id = user_id, ut_expires_at = issued_expiry chr,
      ut_created_at = ax_now ax\<rparr>"

lemma cleanup_rows: "\<exists>P. cleanup_expired_tokens chr u d = d\<lparr>user_tokens := filter P (user_tokens d)\<rparr>"
proof (cases "db_ok d")
  case False
  then have "cleanup_expired_tokens chr u d = d\<lparr>user_tokens := filter (\<lambda>_. True) (user_tokens d)\<rparr>"
    by (simp add: cleanup_expired_tokens_def execute_def)
  then show ?thesis by blast
qed (auto simp: cleanup_expired_tokens_def execute_def)

lemma enforce_rows: "\<exists>P. enforce_session_limit u d = d\<lparr>user_tokens := filter P (user_tokens d)\<rparr>"
proof (cases "db_ok d \<and> int (length (filter (\<lambda>t. ut_user_id t = u) (user_tokens d))) > MAX_SESSIONS_PER_USER")
  case False
  then have "enforce_session_limit u d = d\<lparr>user_tokens := filter (\<lambda>_. True) (user_tokens d)\<rparr>"
    by (auto simp: enforce_session_limit_def execute_def query_def Let_def MAX_SESSIONS_PER_USER_def)
  then show ?thesis by blast
qed (auto simp: enforce_session_limit_def execute_def query_def Let_def)

lemma issue_token_rows:
  "set (user_tokens (fst (issue_token cy chr ax u d))) \<subseteq> insert (session_row cy chr ax u) (set (user_tokens d))"
proof -
  obtain d1 r where i: "insert_token (ax_now ax) (cy_sha256_hex cy (ax_token ax)) u (issued_expiry chr) d = (d1, r)" by fastforce
  then have "set (user_tokens d1) \<subseteq> insert (session_row cy chr ax u) (set (user_tokens d))"
    by (auto simp: insert_token_def execute_checked_def session_row_def split: if_splits option.splits)
  moreover obtain P where "cleanup_expired_tokens chr u d1 = d1\<lparr>user_tokens := filter P (user_tokens d1)\<rparr>"
    using cleanup_rows by blast
  moreover obtain Q where "enforce_session_limit u (d1\<lparr>user_tokens := filter P (user_tokens d1)\<rparr>) =
      d1\<lparr>user_tokens := filter Q (filter P (user_tokens d1))\<rparr>"
    using enforce_rows [of u "d1\<lparr>user_tokens := filter P (user_tokens d1)\<rparr>"] by auto
  ultimately show ?thesis by (cases r) (auto simp: issue_token_def i)
qed

text \<open>A request adds no session, or the one of its token for a user.\<close>

definition no_session_but :: "(UserToken \<Rightarrow> bool) \<Rightarrow> app \<Rightarrow> app \<Rightarrow> bool" where
  "no_session_but P s t \<longleftrightarrow> (\<forall>k \<in> set (user_tokens (ap_db t)). k \<in> set (user_tokens (ap_db s)) \<or> P k)"

lemma no_session_same: "user_tokens (ap_db t) = user_tokens (ap_db s) \<Longrightarrow> no_session_but P s t"
  by (simp add: no_session_but_def)

lemma no_session_limits:
  "no_session_but P s (record_totp_failure u t) = no_session_but P s t"
  "no_session_but P s (clear_totp_failures u t) = no_session_but P s t"
  "no_session_but P s (record_login_failure n t) = no_session_but P s t"
  "no_session_but P s (clear_login_failures n t) = no_session_but P s t"
  "no_session_but P s (record_register_attempt cy ip t) = no_session_but P s t"
  "no_session_but P s (record_guest_attempt cy ip t) = no_session_but P s t"
  "no_session_but P s (t\<lparr>mfa_tickets := m\<rparr>) = no_session_but P s t"
  by (simp_all add: no_session_but_def record_totp_failure_def clear_totp_failures_def record_login_failure_def
      clear_login_failures_def record_register_attempt_def record_guest_attempt_def)

lemma no_session_on_db:
  "(set (user_tokens (fst (f (ap_db t)))) \<subseteq> set (user_tokens (ap_db t))) \<Longrightarrow> no_session_but P s t \<Longrightarrow>
   no_session_but P s (fst (on_db f t))"
  by (auto simp: no_session_but_def on_db_def Let_def)

lemma no_session_issue:
  "P (session_row cy chr ax u) \<Longrightarrow> no_session_but P s t \<Longrightarrow> no_session_but P s (fst (on_db (issue_token cy chr ax u) t))"
  using issue_token_rows [of cy chr ax u "ap_db t"] by (auto simp: no_session_but_def on_db_def Let_def)

lemma no_session_ap_db: "ap_db t = ap_db s \<Longrightarrow> no_session_but P s t"
  by (simp add: no_session_but_def)

lemma execute_tokens: "(\<And>d. set (user_tokens (f d)) \<subseteq> set (user_tokens d)) \<Longrightarrow>
    set (user_tokens (fst (execute d f))) \<subseteq> set (user_tokens d)"
  by (simp add: execute_def)

lemma credential_tokens [simp]: "user_tokens (set_credentials u f d) = user_tokens d"
  "user_tokens (set_mfa_enabled u b d) = user_tokens d" "user_tokens (use_backup_code i d) = user_tokens d"
  by (simp_all add: set_credentials_def set_mfa_enabled_def use_backup_code_def)

lemma backup_code_tokens [simp]:
  "user_tokens (fst (delete_backup_codes u d)) = user_tokens d"
  "user_tokens (fst (insert_backup_codes cy u cs d)) = user_tokens d"
  "user_tokens (fst (replace_backup_codes cy u cs d)) = user_tokens d"
proof -
  have one: "user_tokens (fst (insert_backup_code u h d)) = user_tokens d" for h d
    by (auto simp: insert_backup_code_def execute_checked_def)
  show del: "user_tokens (fst (delete_backup_codes u d)) = user_tokens d" for d
    by (simp add: delete_backup_codes_def execute_def)
  show ins: "user_tokens (fst (insert_backup_codes cy u cs d)) = user_tokens d" for cs d
    by (induction cs arbitrary: d) (auto simp: try_run_def one split: sum.split)
  show "user_tokens (fst (replace_backup_codes cy u cs d)) = user_tokens d"
    using del ins by (auto simp: replace_backup_codes_def try_run_def split: sum.split)
qed

lemma second_factor_tokens: "user_tokens (ap_db (fst (second_factor cy u typed s))) = user_tokens (ap_db s)"
  by (auto simp: second_factor_def verify_totp_code_def verify_and_consume_backup_code_def try_in_def on_db_def
      execute_def record_totp_failure_def Let_def split: sum.split option.split)

lemma insert_user_result:
  "insert_user u h d = (d', r) \<Longrightarrow> user_tokens d' = user_tokens d \<and> (r = Inr () \<longrightarrow> \<not> has_user d (us_id u))"
  by (auto simp: insert_user_def execute_checked_def split: if_splits option.splits)

lemma register_sessions:
  "no_session_but (\<lambda>k. k = session_row cy chr ax (ax_user_id ax) \<and> \<not> has_user (ap_db s) (ax_user_id ax)) s
     (fst (register cy chr ax s ip input))"
  (is "no_session_but ?P s _")
proof -
  obtain t r where c: "check_register_rate_limit cy (ax_instant ax) ip s = (t, r)" by fastforce
  then have t: "ap_db t = ap_db s" by (auto simp: check_register_rate_limit_def Let_def split: if_splits)
  let ?user = "new_user ax (trim (rr_username input)) (or_else (rr_display_name input) (trim (rr_username input)))"
  have joined: "user_tokens (ap_db (case sp of None \<Rightarrow> x | Some i \<Rightarrow> join_default_space ax i x)) = user_tokens (ap_db x)" for sp x
    using join_default_accounts [of ax _ x] by (auto simp: accounts_def split: option.split)
  have created: "no_session_but ?P s (fst (on_db (insert_user ?user h) (record_register_attempt cy ip t)))"
    and fresh: "snd (insert_user ?user h (ap_db (record_register_attempt cy ip t))) = Inr x \<Longrightarrow> \<not> has_user (ap_db s) (ax_user_id ax)"
    for h x
    using insert_user_result [of ?user h "ap_db s"]
    by (auto simp: on_db_def Let_def no_session_but_def record_register_attempt_def t new_user_def prod_eq_iff)
  have issued: "no_session_but ?P s (fst (first_session cy chr ax x))"
    if "no_session_but ?P s x" "\<not> has_user (ap_db s) (ax_user_id ax)" for x
  proof -
    have "no_session_but ?P s (fst (on_db (issue_token cy chr ax (ax_user_id ax))
        (case sp of None \<Rightarrow> x | Some i \<Rightarrow> join_default_space ax i x)))" for sp
      by (rule no_session_issue) (use that joined [where x = x and sp = sp] in \<open>auto simp: no_session_but_def\<close>)
    with that(1) show ?thesis
      by (auto simp: first_session_def Let_def try_in_def try_run_def split: sum.split)
  qed
  show ?thesis
    unfolding register_def c Let_def
    by (auto intro!: kept_run [where I = "no_session_but ?P s"] kept_try_in [where I = "no_session_but ?P s"] created issued
        simp: no_session_limits no_session_ap_db t)
      (use fresh in blast)
qed

text \<open>Logging in: a session for the account the password is right for, unless it has a second factor; then a
  ticket.\<close>

definition proven :: "crypto \<Rightarrow> db \<Rightarrow> LoginRequest \<Rightarrow> User \<Rightarrow> bool" where
  "proven cy d input u \<longleftrightarrow> \<not> us_disabled u \<and>
     (case login_account d (lr_username input) of
        Inr (Some (v, h)) \<Rightarrow> v = u \<and> check_password cy (lr_password input) h = Inr True
      | _ \<Rightarrow> False)"

lemma password_accepted_sessions:
  assumes "\<not> us_mfa_enabled u \<Longrightarrow> P (session_row cy chr ax (us_id u))" and "no_session_but P r s"
  shows "no_session_but P r (fst (password_accepted cy chr ax u s))"
  using assms
  by (auto simp: password_accepted_def issue_ticket_def Let_def no_session_limits
      intro!: kept_run [where I = "no_session_but P r"] kept_try_in [where I = "no_session_but P r"] no_session_issue)

lemma login_sessions:
  assumes "\<And>u. proven cy (ap_db s) input u \<Longrightarrow> \<not> us_mfa_enabled u \<Longrightarrow> P (session_row cy chr ax (us_id u))"
  shows "no_session_but P s (fst (login cy chr ax s input))"
proof -
  obtain t r where c: "check_login_rate_limit (ax_instant ax) (lr_username input) s = (t, r)" by fastforce
  then have t: "ap_db t = ap_db s" by (auto simp: check_login_rate_limit_def Let_def)
  have accepted: "no_session_but P s (fst (password_accepted cy chr ax u (clear_login_failures n t)))"
    if "proven cy (ap_db s) input u" for u n
    by (rule password_accepted_sessions) (use assms that in \<open>auto simp: no_session_limits no_session_ap_db t\<close>)
  show ?thesis
    unfolding login_def c login_failed_def
    by (auto simp: no_session_limits no_session_ap_db t proven_def split: option.split
        intro!: kept_run [where I = "no_session_but P s"] kept_try_in [where I = "no_session_but P s"] accepted)
qed

text \<open>What a second factor is worth.\<close>

definition second_proven :: "crypto \<Rightarrow> chrono \<Rightarrow> app \<Rightarrow> MfaLoginRequest \<Rightarrow> string \<Rightarrow> bool" where
  "second_proven cy chr s input user_id \<longleftrightarrow>
     ticket_user cy s input = Some user_id \<and> ticket_live cy chr s input \<and>
     snd (second_factor cy user_id (trim (ml_code input)) s) = Inr ()"

lemma code_accepted_sessions:
  assumes "P (session_row cy chr ax u)" and "no_session_but P r s"
  shows "no_session_but P r (fst (code_accepted cy chr ax u s))"
  using assms unfolding code_accepted_def Let_def
  by (auto simp: no_session_limits
      intro!: kept_run [where I = "no_session_but P r"] kept_try_in [where I = "no_session_but P r"] no_session_issue)

lemma login_mfa_sessions:
  assumes "\<And>u. second_proven cy chr s input u \<Longrightarrow> P (session_row cy chr ax u)"
  shows "no_session_but P s (fst (login_mfa cy chr ax s input))"
proof (cases "hm_get (mfa_tickets s) (cy_sha256_hex cy (ml_ticket input))")
  case None
  then show ?thesis by (simp add: login_mfa_def Let_def no_session_same)
next
  case (Some ticket)
  let ?u = "mt_user_id ticket" and ?s = "s\<lparr>mfa_tickets := hm_remove (cy_sha256_hex cy (ml_ticket input)) (mfa_tickets s)\<rparr>"
  obtain t r where c: "check_totp_rate_limit (ax_instant ax) ?u ?s = (t, r)" by fastforce
  then have t: "ap_db t = ap_db s" "totp_key t = totp_key s" by (auto simp: check_totp_rate_limit_def Let_def)
  obtain x q where f: "second_factor cy ?u (trim (ml_code input)) t = (x, q)" by fastforce
  have same: "user_tokens (ap_db x) = user_tokens (ap_db s)"
    using second_factor_tokens [of cy ?u "trim (ml_code input)" t] by (simp add: f t)
  have answer: "snd (second_factor cy ?u (trim (ml_code input)) s) = q"
    using second_factor_answer [OF t, of cy ?u "trim (ml_code input)"] by (simp add: f)
  have "no_session_but P s (fst (code_accepted cy chr ax ?u x))"
    if "q = Inr ()" "\<not> mt_expires_at ticket < utc_now chr"
  proof (rule code_accepted_sessions)
    have "second_proven cy chr s input ?u"
      using that answer Some by (simp add: second_proven_def ticket_user_def ticket_live_def)
    then show "P (session_row cy chr ax ?u)" by (rule assms)
  qed (rule no_session_same [OF same])
  then show ?thesis
    by (auto simp: login_mfa_def Let_def Some c f try_run_def no_session_same t same split: sum.split)
qed

lemma drop_tokens_sessions: "set (user_tokens (fst (drop_tokens P d))) \<subseteq> set (user_tokens d)"
  by (auto simp: drop_tokens_def execute_def)

lemma execute_same_tokens: "(\<And>d. user_tokens (f d) = user_tokens d) \<Longrightarrow> user_tokens (fst (execute d f)) = user_tokens d"
  by (simp add: execute_def)

lemma quiet_sessions:
  "no_session_but P s (fst (logout cy s auth h))" "no_session_but P s (fst (revoke_all_sessions s auth))"
  "no_session_but P s (fst (change_password cy ax s auth h input))" "no_session_but P s (fst (disable_2fa cy s auth pw))"
  "no_session_but P s (fst (enable_2fa cy ax s auth pw))" "no_session_but P s (fst (regenerate_backup_codes cy ax s auth pw))"
  unfolding logout_def revoke_all_sessions_def change_password_def disable_2fa_def enable_2fa_def regenerate_backup_codes_def
  by (auto simp: Let_def no_session_same execute_same_tokens split: prod.split
      intro!: kept_try_in [where I = "no_session_but P s"] kept_run [where I = "no_session_but P s"] no_session_on_db
        dest!: subsetD [OF drop_tokens_sessions])

lemma verify_2fa_sessions: "no_session_but P s (fst (verify_2fa cy ax s auth input))"
proof -
  have "no_session_but P s (fst (turn_on_2fa cy ax u t))" if "no_session_but P s t" for u t
    unfolding turn_on_2fa_def using that
    by (auto simp: execute_same_tokens intro!: kept_run [where I = "no_session_but P s"] no_session_on_db)
  then show ?thesis
    unfolding verify_2fa_def check_totp_rate_limit_def
    by (auto simp: Let_def no_session_limits no_session_same split: prod.split
        intro!: kept_run [where I = "no_session_but P s"] kept_try_in [where I = "no_session_but P s"])
qed

lemma guest_sessions: "no_session_but P s (fst (guest cy chr ax s ip))"
proof -
  have "user_tokens (fst (insert_guest_token h sp e d)) = user_tokens d" for h sp e d
    by (auto simp: insert_guest_token_def execute_checked_def)
  moreover have "user_tokens (drop_expired_guests n d) = user_tokens d" for n d
    by (simp add: drop_expired_guests_def execute_def)
  moreover have "ap_db (record_guest_attempt cy ip t) = ap_db t" for t by (simp add: record_guest_attempt_def)
  ultimately have "user_tokens (ap_db (fst (guest cy chr ax s ip))) = user_tokens (ap_db s)"
    unfolding guest_def check_guest_rate_limit_def
    by (auto simp: Let_def count_guest_def on_db_def
        intro!: kept_run [where I = "\<lambda>t. user_tokens (ap_db t) = user_tokens (ap_db s)"]
          kept_try_in [where I = "\<lambda>t. user_tokens (ap_db t) = user_tokens (ap_db s)"])
  then show ?thesis by (rule no_session_same)
qed

text \<open>C25.  Credentials are needed for every session: whatever a request does, a session that exists after it and did
  not before belongs to the user the request just registered, under an id no user had, or to the account whose
  password the request gives, if that account is not disabled and has no second factor, or to the user of a live
  ticket whose current code or unused backup code it gives.  Nothing else makes one.\<close>

theorem credentials_needed:
  assumes "k \<in> set (user_tokens (ap_db (account_step cy c s)))" and "k \<notin> set (user_tokens (ap_db s))"
  shows "case ac_request c of
      Register ip input \<Rightarrow> k = session_row cy (ac_chrono c) (ac_stamp c) (ax_user_id (ac_stamp c)) \<and>
        \<not> has_user (ap_db s) (ut_user_id k)
    | Login input \<Rightarrow> \<exists>u. proven cy (ap_db s) input u \<and> \<not> us_mfa_enabled u \<and>
        k = session_row cy (ac_chrono c) (ac_stamp c) (us_id u)
    | LoginMfa input \<Rightarrow> second_proven cy (ac_chrono c) s input (ut_user_id k) \<and>
        k = session_row cy (ac_chrono c) (ac_stamp c) (ut_user_id k)
    | _ \<Rightarrow> False"
proof -
  have new: "P k" if "no_session_but P s (account_step cy c s)" for P using assms that by (auto simp: no_session_but_def)
  note step = account_step_def handle_auth_def Let_def
  show ?thesis
  proof (cases "ac_request c")
    case (Register ip input)
    have "k = session_row cy (ac_chrono c) (ac_stamp c) (ax_user_id (ac_stamp c)) \<and>
        \<not> has_user (ap_db s) (ax_user_id (ac_stamp c))"
      by (rule new [where P = "\<lambda>k. k = session_row cy (ac_chrono c) (ac_stamp c) (ax_user_id (ac_stamp c)) \<and>
            \<not> has_user (ap_db s) (ax_user_id (ac_stamp c))"])
        (simp add: step Register register_sessions)
    then show ?thesis by (simp add: Register session_row_def)
  next
    case (Login input)
    have "\<exists>u. proven cy (ap_db s) input u \<and> \<not> us_mfa_enabled u \<and> k = session_row cy (ac_chrono c) (ac_stamp c) (us_id u)"
      by (rule new [where P = "\<lambda>k. \<exists>u. proven cy (ap_db s) input u \<and> \<not> us_mfa_enabled u \<and>
            k = session_row cy (ac_chrono c) (ac_stamp c) (us_id u)"])
        (auto simp: step Login intro!: login_sessions)
    then show ?thesis by (simp add: Login)
  next
    case (LoginMfa input)
    have "\<exists>u. second_proven cy (ac_chrono c) s input u \<and> k = session_row cy (ac_chrono c) (ac_stamp c) u"
      by (rule new [where P = "\<lambda>k. \<exists>u. second_proven cy (ac_chrono c) s input u \<and>
            k = session_row cy (ac_chrono c) (ac_stamp c) u"])
        (auto simp: step LoginMfa intro!: login_mfa_sessions)
    then show ?thesis by (auto simp: LoginMfa session_row_def)
  qed (use new [where P = "\<lambda>_. False", unfolded step] in
      \<open>simp_all add: quiet_sessions verify_2fa_sessions guest_sessions del: try_in_simps\<close>)
qed

lemma a_session:
  "user_tokens (ap_db (account_step a_crypto (a_call 8 (a_guess ''password'')) an_account_app)) =
     [session_row a_crypto a_chrono (a_draw 8) ''mem'']"
  by (simp add: account_step_def handle_auth_def a_call_def a_guess_def login_def check_login_rate_limit_def
      check_attempts_def reserve_tracker_def MAX_TRACKERS_def LOGIN_WINDOW_SECS_def LOGIN_MAX_FAILURES_def as_secs_def
      an_account_app_def an_app_def login_account_def credentials_of_def sample_defs check_password_def a_crypto_def a_draw_def
      password_accepted_def clear_login_failures_def try_run_def get_user_def issue_token_def insert_token_def execute_checked_def
      has_user_def on_db_def Let_def cleanup_expired_tokens_def enforce_session_limit_def execute_def query_def
      MAX_SESSIONS_PER_USER_def hm_retain_def hm_get_def hm_insert_def session_row_def issued_expiry_def a_chrono_def)

theorem credentials_needed_witness:
  "\<exists>u. proven a_crypto (ap_db an_account_app) \<lparr>lr_username = ''mem'', lr_password = ''password''\<rparr> u \<and> \<not> us_mfa_enabled u \<and>
     us_id u = ''mem''"
proof -
  let ?k = "session_row a_crypto a_chrono (a_draw 8) ''mem''"
  have "?k \<in> set (user_tokens (ap_db (account_step a_crypto (a_call 8 (a_guess ''password'')) an_account_app)))"
    by (simp only: a_session) simp
  moreover have "?k \<notin> set (user_tokens (ap_db an_account_app))" by (simp add: an_account_app_def an_app_def sample_defs)
  ultimately show ?thesis
    using credentials_needed [of ?k a_crypto "a_call 8 (a_guess ''password'')" an_account_app]
    by (auto simp: a_call_def a_guess_def session_row_def)
qed

section \<open>Tickets\<close>

text \<open>Only a password makes a ticket.\<close>

definition tickets_from :: "(string \<Rightarrow> MfaTicket \<Rightarrow> bool) \<Rightarrow> app \<Rightarrow> app \<Rightarrow> bool" where
  "tickets_from P s t \<longleftrightarrow> hm_wf (mfa_tickets t) \<and>
     (\<forall>h x. hm_get (mfa_tickets t) h = Some x \<longrightarrow> hm_get (mfa_tickets s) h = Some x \<or> P h x)"

lemma tickets_same: "hm_wf (mfa_tickets s) \<Longrightarrow> mfa_tickets t = mfa_tickets s \<Longrightarrow> tickets_from P s t"
  by (simp add: tickets_from_def)

lemma tickets_kept [simp]:
  "mfa_tickets (record_totp_failure u s) = mfa_tickets s" "mfa_tickets (clear_totp_failures u s) = mfa_tickets s"
  "mfa_tickets (record_login_failure n s) = mfa_tickets s" "mfa_tickets (clear_login_failures n s) = mfa_tickets s"
  "mfa_tickets (record_register_attempt cy ip s) = mfa_tickets s" "mfa_tickets (record_guest_attempt cy ip s) = mfa_tickets s"
  "mfa_tickets (fst (check_totp_rate_limit now u s)) = mfa_tickets s"
  "mfa_tickets (fst (check_login_rate_limit now u s)) = mfa_tickets s"
  "mfa_tickets (fst (check_register_rate_limit cy now u s)) = mfa_tickets s"
  "mfa_tickets (fst (check_guest_rate_limit cy now u s)) = mfa_tickets s"
  "mfa_tickets (count_guest sp s) = mfa_tickets s"
  by (simp_all add: record_totp_failure_def clear_totp_failures_def record_login_failure_def clear_login_failures_def
      record_register_attempt_def record_guest_attempt_def check_totp_rate_limit_def check_login_rate_limit_def
      check_register_rate_limit_def check_guest_rate_limit_def count_guest_def Let_def)

lemma second_factor_tickets [simp]: "mfa_tickets (fst (second_factor cy u typed s)) = mfa_tickets s"
proof -
  obtain t r where "second_factor cy u typed s = (t, r)" by fastforce
  with second_factor_outcome [OF this] show ?thesis by auto
qed

lemma code_accepted_tickets [simp]: "mfa_tickets (fst (code_accepted cy chr ax u s)) = mfa_tickets s"
  unfolding code_accepted_def
  by (auto simp: Let_def intro!: kept_try_in [where I = "\<lambda>t. mfa_tickets t = mfa_tickets s"]
      kept_try_run [where I = "\<lambda>t. mfa_tickets t = mfa_tickets s"])

lemma ticketless:
  "mfa_tickets (fst (logout cy s auth h)) = mfa_tickets s" "mfa_tickets (fst (revoke_all_sessions s auth)) = mfa_tickets s"
  "mfa_tickets (fst (change_password cy ax s auth h input)) = mfa_tickets s"
  "mfa_tickets (fst (disable_2fa cy s auth pw)) = mfa_tickets s" "mfa_tickets (fst (enable_2fa cy ax s auth pw)) = mfa_tickets s"
  "mfa_tickets (fst (regenerate_backup_codes cy ax s auth pw)) = mfa_tickets s"
  "mfa_tickets (fst (verify_2fa cy ax s auth typed)) = mfa_tickets s"
  "mfa_tickets (fst (register cy chr ax s ip reg)) = mfa_tickets s" "mfa_tickets (fst (guest cy chr ax s ip)) = mfa_tickets s"
  unfolding logout_def revoke_all_sessions_def change_password_def disable_2fa_def enable_2fa_def regenerate_backup_codes_def
    verify_2fa_def turn_on_2fa_def register_def first_session_def guest_def
  by (auto simp: Let_def split: prod.split option.split
      intro!: kept_try_in [where I = "\<lambda>t. mfa_tickets t = mfa_tickets s"]
        kept_run [where I = "\<lambda>t. mfa_tickets t = mfa_tickets s"])

lemma login_mfa_tickets:
  assumes "hm_wf (mfa_tickets s)"
  shows "mfa_tickets (fst (login_mfa cy chr ax s input)) =
    (if hm_get (mfa_tickets s) (cy_sha256_hex cy (ml_ticket input)) = None then mfa_tickets s
     else hm_remove (cy_sha256_hex cy (ml_ticket input)) (mfa_tickets s))"
proof (cases "hm_get (mfa_tickets s) (cy_sha256_hex cy (ml_ticket input))")
  case (Some ticket)
  let ?I = "\<lambda>t. mfa_tickets t = hm_remove (cy_sha256_hex cy (ml_ticket input)) (mfa_tickets s)"
  show ?thesis
    by (auto simp: login_mfa_def Let_def Some intro!: kept_run [where I = ?I])
qed (simp add: login_mfa_def Let_def)

lemma issue_ticket_from:
  assumes "hm_wf (mfa_tickets s)"
  shows "tickets_from (\<lambda>h x. h = ticket_hash \<and> mt_user_id x = user_id \<and> mt_expires_at x = utc_now chr + 300) s
    (fst (issue_ticket chr ticket_hash user_id s))"
proof -
  let ?m = "hm_retain (\<lambda>_ t. mt_user_id t \<noteq> user_id \<and> mt_expires_at t > utc_now chr) (mfa_tickets s)"
  have "hm_get ?m h = Some x \<Longrightarrow> hm_get (mfa_tickets s) h = Some x" for h x
    by (auto simp: hm_get_retain [OF assms] split: option.splits if_splits)
  then show ?thesis
    using assms by (auto simp: tickets_from_def issue_ticket_def Let_def split: if_splits)
qed

lemma tickets_from_trans_same: "tickets_from P s t \<Longrightarrow> mfa_tickets t' = mfa_tickets t \<Longrightarrow> tickets_from P s t'"
  and tickets_from_mono: "tickets_from P s t \<Longrightarrow> (\<And>h x. P h x \<Longrightarrow> Q h x) \<Longrightarrow> tickets_from Q s t"
  and tickets_from_start: "tickets_from P r t \<Longrightarrow> mfa_tickets r = mfa_tickets s \<Longrightarrow> tickets_from P s t"
  by (auto simp: tickets_from_def)

definition ticket_for :: "crypto \<Rightarrow> auth_call \<Rightarrow> db \<Rightarrow> MfaTicket \<Rightarrow> bool" where
  "ticket_for cy c d x \<longleftrightarrow>
     (case ac_request c of
        Login input \<Rightarrow> list_ex (\<lambda>u. us_id u = mt_user_id x \<and> us_mfa_enabled u \<and> proven cy d input u) (users d) \<and>
          mt_expires_at x = utc_now (ac_chrono c) + 300
      | _ \<Rightarrow> False)"

lemma proven_user: "proven cy d input u \<Longrightarrow> u \<in> set (users d)"
  by (auto simp: proven_def login_account_def query_def split: sum.splits option.splits if_splits dest: find_SomeD)

lemma provenI: "login_account d (lr_username input) = Inr (Some (u, h)) \<Longrightarrow> \<not> us_disabled u \<Longrightarrow>
    check_password cy (lr_password input) h = Inr True \<Longrightarrow> proven cy d input u"
  by (simp add: proven_def)

lemma login_tickets:
  assumes "hm_wf (mfa_tickets s)"
  shows "tickets_from (\<lambda>h x. (\<exists>u. us_id u = mt_user_id x \<and> us_mfa_enabled u \<and> proven cy (ap_db s) input u) \<and>
      mt_expires_at x = utc_now chr + 300) s (fst (login cy chr ax s input))"
  (is "tickets_from ?P s _")
proof -
  obtain t r where c: "check_login_rate_limit (ax_instant ax) (lr_username input) s = (t, r)" by fastforce
  then have t: "ap_db t = ap_db s" "mfa_tickets t = mfa_tickets s"
    by (auto simp: check_login_rate_limit_def Let_def)
  note same = tickets_same [OF assms]
  have accepted: "tickets_from ?P s (fst (password_accepted cy chr ax u (clear_login_failures n t)))"
    if "proven cy (ap_db s) input u" for u n
  proof (cases "us_mfa_enabled u")
    case True
    define x where "x = clear_login_failures n t"
    have x: "mfa_tickets x = mfa_tickets s" by (simp add: x_def t)
    have "tickets_from ?P s (fst (issue_ticket chr (cy_sha256_hex cy (ax_token ax)) (us_id u) x))"
      using assms x that True
      by (intro tickets_from_start [OF tickets_from_mono [OF issue_ticket_from] x]) auto
    then show ?thesis
      using True unfolding password_accepted_def x_def [symmetric]
      by (auto intro!: kept_run [where I = "tickets_from ?P s"])
  next
    case False
    have "mfa_tickets (fst (password_accepted cy chr ax u (clear_login_failures n t))) = mfa_tickets s"
      using False unfolding password_accepted_def
      by (auto simp: Let_def t intro!: kept_run [where I = "\<lambda>y. mfa_tickets y = mfa_tickets s"]
          kept_try_in [where I = "\<lambda>y. mfa_tickets y = mfa_tickets s"])
    then show ?thesis by (rule same)
  qed
  show ?thesis
    unfolding login_def c login_failed_def
    by (auto simp: t same split: option.split
        intro!: kept_run [where I = "tickets_from ?P s"] kept_try_in [where I = "tickets_from ?P s"]
          accepted [OF provenI]) (rule refl)
qed

lemma ticket_step:
  assumes "hm_wf (mfa_tickets s)"
  shows "tickets_from (\<lambda>h x. ticket_for cy c (ap_db s) x) s (account_step cy c s)"
proof (cases "ac_request c")
  case (Login input)
  show ?thesis
    unfolding account_step_def handle_auth_def Let_def Login auth_request.case fst_only_ok
    by (rule tickets_from_mono [OF login_tickets [OF assms]])
      (auto simp: ticket_for_def Login list_ex_iff dest: proven_user)
next
  case (LoginMfa input)
  show ?thesis
    using assms by (auto simp: account_step_def handle_auth_def LoginMfa tickets_from_def login_mfa_tickets split: if_splits)
qed (auto simp: account_step_def handle_auth_def ticketless intro!: tickets_same [OF assms])

lemma handle_auths_snoc: "handle_auths cy (cs @ [c]) s = account_step cy c (handle_auths cy cs s)"
  by (induction cs arbitrary: s) (simp_all add: account_step_def)

lemma ticket_history:
  assumes "hm_wf (mfa_tickets s)" and "hm_get (mfa_tickets (handle_auths cy cs s)) h = Some x"
  shows "hm_get (mfa_tickets s) h = Some x \<or>
    (\<exists>pre c post. cs = pre @ c # post \<and> ticket_for cy c (ap_db (handle_auths cy pre s)) x)"
proof -
  have "hm_wf (mfa_tickets (handle_auths cy cs s)) \<and> (hm_get (mfa_tickets (handle_auths cy cs s)) h = Some x \<longrightarrow>
    hm_get (mfa_tickets s) h = Some x \<or>
    (\<exists>pre c post. cs = pre @ c # post \<and> ticket_for cy c (ap_db (handle_auths cy pre s)) x))"
  proof (induction cs rule: rev_induct)
    case Nil
    then show ?case using assms(1) by simp
  next
    case (snoc c cs)
    have "tickets_from (\<lambda>h x. ticket_for cy c (ap_db (handle_auths cy cs s)) x) (handle_auths cy cs s) (handle_auths cy (cs @ [c]) s)"
      using ticket_step [of "handle_auths cy cs s" cy c] snoc by (simp add: handle_auths_snoc)
    with snoc show ?case by (fastforce simp: tickets_from_def)
  qed
  with assms(2) show ?thesis by blast
qed

text \<open>C26.  The second factor comes second: if a login completes with a code for a user who held no ticket at first, then
  some request before it was a login that gave the right password of that user, whose second factor was on at
  that moment, and that happened within the last five minutes.  Neither a code alone nor a ticket someone else
  got is enough.\<close>

theorem second_factor_comes_second:
  assumes "hm_wf (mfa_tickets s)" and "user_id \<notin> mt_user_id ` set (hm_values (mfa_tickets s))"
    and "second_proven cy chr (handle_auths cy cs s) input user_id"
  shows "\<exists>pre c post login. cs = pre @ c # post \<and> ac_request c = Login login \<and>
    utc_now chr \<le> utc_now (ac_chrono c) + 300 \<and>
    list_ex (\<lambda>u. us_id u = user_id \<and> us_mfa_enabled u \<and> proven cy (ap_db (handle_auths cy pre s)) login u)
      (users (ap_db (handle_auths cy pre s)))"
proof -
  from assms(3) obtain x where
    x: "hm_get (mfa_tickets (handle_auths cy cs s)) (cy_sha256_hex cy (ml_ticket input)) = Some x"
    and user: "mt_user_id x = user_id" and live: "utc_now chr \<le> mt_expires_at x"
    by (auto simp: second_proven_def ticket_user_def ticket_live_def split: option.splits)
  have "hm_get (mfa_tickets s) (cy_sha256_hex cy (ml_ticket input)) \<noteq> Some x"
    using assms(1,2) user by (force simp: set_hm_values)
  with ticket_history [OF assms(1) x] obtain pre c post where
    "cs = pre @ c # post" and "ticket_for cy c (ap_db (handle_auths cy pre s)) x" by blast
  then show ?thesis
    using user live by (fastforce simp: ticket_for_def split: auth_request.splits)
qed

definition a_factor_app :: app where
  "a_factor_app = an_account_app\<lparr>mfa_tickets := []\<rparr>"

definition a_first_step :: auth_call where
  "a_first_step = a_call 8 (Login \<lparr>lr_username = ''two'', lr_password = ''password''\<rparr>)"

lemma a_ticket:
  "fst (handle_auth a_crypto a_first_step a_factor_app) =
     a_factor_app\<lparr>login_failures := [], mfa_tickets := [(''#tok'', \<lparr>mt_user_id = ''two'', mt_expires_at = 400\<rparr>)]\<rparr>"
  by (simp add: handle_auth_def a_first_step_def a_call_def a_factor_app_def login_def check_login_rate_limit_def
      check_attempts_def reserve_tracker_def MAX_TRACKERS_def LOGIN_WINDOW_SECS_def LOGIN_MAX_FAILURES_def as_secs_def
      an_account_app_def an_app_def login_account_def credentials_of_def sample_defs check_password_def a_crypto_def a_draw_def
      password_accepted_def clear_login_failures_def try_run_def issue_ticket_def Let_def hm_retain_def hm_get_def hm_insert_def
      hm_remove_def a_chrono_def)

lemma a_digest: "cy_sha256_hex a_crypto x = CHR ''#'' # x" by (simp add: a_crypto_def)

theorem second_factor_comes_second_witness:
  "\<exists>pre c post login. [a_first_step] = pre @ c # post \<and> ac_request c = Login login \<and>
    utc_now a_chrono \<le> utc_now (ac_chrono c) + 300 \<and>
    list_ex (\<lambda>u. us_id u = ''two'' \<and> us_mfa_enabled u \<and> proven a_crypto (ap_db (handle_auths a_crypto pre a_factor_app)) login u)
      (users (ap_db (handle_auths a_crypto pre a_factor_app)))"
proof (rule second_factor_comes_second)
  show "second_proven a_crypto a_chrono (handle_auths a_crypto [a_first_step] a_factor_app)
      \<lparr>ml_ticket = ''tok'', ml_code = ''123456''\<rparr> ''two''"
  proof -
    have "fetch_user (ap_db a_factor_app) ''two'' =
        Inr ((a_user ''two'')\<lparr>us_mfa_enabled := True\<rparr>, \<lparr>cr_password_hash = Some ''$password'', cr_force_password_reset = False, cr_totp_secret = Some ''sec''\<rparr>)"
      by (simp add: fetch_user_def credentials_of_def a_factor_app_def an_account_app_def an_app_def sample_defs query_def)
    moreover have "totp_of a_crypto ''sec'' None e = Inr ''sec''" for e
      by (simp add: totp_of_def decrypt_totp_secret_def strip_prefix_def starts_with_def a_crypto_def)
    moreover have "check_current a_crypto ''sec'' ''123456'' = Inr True" by (simp add: check_current_def a_crypto_def)
    moreover have "is_totp_code ''123456''" by code_simp
    ultimately have "snd (second_factor a_crypto ''two'' ''123456'' a_factor_app) = Inr ()"
      by (simp add: second_factor_def verify_totp_code_def a_factor_app_def an_account_app_def an_app_def)
    moreover have "trim ''123456'' = ''123456''" by code_simp
    ultimately show ?thesis
      using second_factor_answer [of "fst (handle_auth a_crypto a_first_step a_factor_app)" a_factor_app a_crypto "''two''" "''123456''"]
      by (simp add: a_ticket second_proven_def ticket_user_def ticket_live_def hm_get_def a_digest a_chrono_def)
  qed
qed (simp_all add: a_factor_app_def hm_values_def)

section \<open>How many sessions\<close>

definition sessions_of :: "db \<Rightarrow> string \<Rightarrow> UserToken list" where
  "sessions_of d user_id = filter (\<lambda>k. ut_user_id k = user_id) (user_tokens d)"

definition few_sessions :: "db \<Rightarrow> bool" where
  "few_sessions d \<longleftrightarrow> (\<forall>u. int (length (sessions_of d u)) \<le> MAX_SESSIONS_PER_USER)"

lemma few_sessions_same: "few_sessions d \<Longrightarrow> user_tokens d' = user_tokens d \<Longrightarrow> few_sessions d'"
  by (simp add: few_sessions_def sessions_of_def)

lemma length_filter_twice: "length (filter P (filter Q xs)) \<le> length (filter P xs)"
  by (induction xs) auto

lemma few_sessions_filter: "few_sessions d \<Longrightarrow> few_sessions (d\<lparr>user_tokens := filter P (user_tokens d)\<rparr>)"
proof -
  assume few: "few_sessions d"
  have "length (sessions_of (d\<lparr>user_tokens := filter P (user_tokens d)\<rparr>) u) \<le> length (sessions_of d u)" for u
    by (simp add: sessions_of_def length_filter_twice del: filter_filter)
  with few show ?thesis unfolding few_sessions_def by (meson of_nat_mono order_trans)
qed

text \<open>At least as many rows go as are over the limit, whatever their order.\<close>

lemma oldest_removed:
  assumes "n \<le> length (sessions_of d u)"
  shows "length (filter (\<lambda>k. ut_user_id k = u \<and> ut_token_hash k \<notin> set (oldest_tokens d u n)) (user_tokens d)) + n
    \<le> length (sessions_of d u)"
proof -
  let ?F = "sessions_of d u" and ?H = "set (oldest_tokens d u n)"
  let ?S = "sort_key ut_created_at ?F"
  have "n = length (take n ?S)" using assms by simp
  also have "\<dots> = length (filter (\<lambda>k. ut_token_hash k \<in> ?H) (take n ?S))"
    by (subst filter_True) (auto simp: oldest_tokens_def sessions_of_def)
  also have "\<dots> \<le> length (filter (\<lambda>k. ut_token_hash k \<in> ?H) (take n ?S @ drop n ?S))"
    by (simp only: filter_append length_append)
  also have "\<dots> = length (filter (\<lambda>k. ut_token_hash k \<in> ?H) ?F)"
    by (simp add: filter_sort)
  finally have "n \<le> length (filter (\<lambda>k. ut_token_hash k \<in> ?H) ?F)" .
  moreover have "length (filter (\<lambda>k. ut_token_hash k \<in> ?H) ?F) + length (filter (\<lambda>k. ut_token_hash k \<notin> ?H) ?F) = length ?F"
    by (rule sum_length_filter_compl)
  moreover have "filter (\<lambda>k. ut_user_id k = u \<and> ut_token_hash k \<notin> ?H) (user_tokens d) = filter (\<lambda>k. ut_token_hash k \<notin> ?H) ?F"
    by (simp add: sessions_of_def conj_commute)
  ultimately show ?thesis by simp
qed

lemma enforced_few:
  assumes "db_ok d" and "\<And>v. v \<noteq> u \<Longrightarrow> int (length (sessions_of d v)) \<le> MAX_SESSIONS_PER_USER"
  shows "few_sessions (enforce_session_limit u d)"
proof (cases "int (length (sessions_of d u)) \<le> MAX_SESSIONS_PER_USER")
  case True
  then have "few_sessions d" using assms(2) unfolding few_sessions_def by metis
  moreover have "enforce_session_limit u d = d"
    using True assms(1) by (simp add: enforce_session_limit_def sessions_of_def)
  ultimately show ?thesis by simp
next
  case False
  define n where "n = nat (int (length (sessions_of d u)) - MAX_SESSIONS_PER_USER)"
  define e where "e = d\<lparr>user_tokens := filter (\<lambda>k. \<not> (ut_user_id k = u \<and> ut_token_hash k \<in> set (oldest_tokens d u n))) (user_tokens d)\<rparr>"
  have e: "enforce_session_limit u d = e"
    using False assms(1) by (simp add: enforce_session_limit_def sessions_of_def e_def n_def execute_def)
  have n: "n \<le> length (sessions_of d u)" "int n = int (length (sessions_of d u)) - MAX_SESSIONS_PER_USER"
    using False by (auto simp: n_def MAX_SESSIONS_PER_USER_def)
  have "int (length (sessions_of e v)) \<le> MAX_SESSIONS_PER_USER" for v
  proof (cases "v = u")
    case True
    have "sessions_of e u = filter (\<lambda>k. ut_user_id k = u \<and> ut_token_hash k \<notin> set (oldest_tokens d u n)) (user_tokens d)"
      by (auto simp: sessions_of_def e_def intro!: filter_cong)
    with oldest_removed [OF n(1)] n(2) True show ?thesis by simp
  next
    case False
    have "length (sessions_of e v) \<le> length (sessions_of d v)" by (simp add: sessions_of_def e_def length_filter_twice del: filter_filter)
    with assms(2) [OF False] show ?thesis by simp
  qed
  then show ?thesis by (simp add: e few_sessions_def)
qed

lemma issued_few:
  assumes "few_sessions d"
  shows "few_sessions (fst (issue_token cy chr ax u d))"
proof -
  obtain e r where i: "insert_token (ax_now ax) (cy_sha256_hex cy (ax_token ax)) u (issued_expiry chr) d = (e, r)" by fastforce
  show ?thesis
  proof (cases r)
    case (Inl x)
    with i have "e = d" by (auto simp: insert_token_def execute_checked_def split: if_splits option.splits)
    with i Inl assms show ?thesis by (simp add: issue_token_def)
  next
    case (Inr x)
    with i have ok: "db_ok d" and e: "e = d\<lparr>user_tokens := user_tokens d @ [session_row cy chr ax u]\<rparr>"
      by (auto simp: insert_token_def execute_checked_def session_row_def split: if_splits option.splits)
    obtain P where P: "cleanup_expired_tokens chr u e = e\<lparr>user_tokens := filter P (user_tokens e)\<rparr>"
      using cleanup_rows by blast
    let ?d = "e\<lparr>user_tokens := filter P (user_tokens e)\<rparr>"
    have "int (length (sessions_of ?d v)) \<le> MAX_SESSIONS_PER_USER" if "v \<noteq> u" for v
    proof -
      have "length (sessions_of ?d v) \<le> length (sessions_of e v)" by (simp add: sessions_of_def length_filter_twice del: filter_filter)
      also have "\<dots> = length (sessions_of d v)" using that by (simp add: e sessions_of_def session_row_def)
      finally show ?thesis using assms by (meson few_sessions_def of_nat_mono order_trans)
    qed
    with ok e have "few_sessions (enforce_session_limit u ?d)" by (intro enforced_few) simp_all
    with i Inr P show ?thesis by (simp add: issue_token_def)
  qed
qed

lemma few_on_db: "(\<And>d. few_sessions d \<Longrightarrow> few_sessions (fst (f d))) \<Longrightarrow> few_sessions (ap_db t) \<Longrightarrow> few_sessions (ap_db (fst (on_db f t)))"
  by (simp add: on_db_def Let_def)

lemma few_issue: "few_sessions (ap_db t) \<Longrightarrow> few_sessions (ap_db (fst (on_db (issue_token cy chr ax u) t)))"
  by (rule few_on_db [OF issued_few])

lemma few_steady: "(\<And>d. user_tokens (fst (f d)) = user_tokens d) \<Longrightarrow> few_sessions (ap_db t) \<Longrightarrow>
    few_sessions (ap_db (fst (on_db f t)))"
  by (rule few_on_db) (auto intro: few_sessions_same)

lemma few_drop: "few_sessions (ap_db t) \<Longrightarrow> few_sessions (ap_db (fst (on_db (drop_tokens P) t)))"
  by (rule few_on_db) (auto simp: drop_tokens_def execute_def intro: few_sessions_filter)

lemma limiter_db [simp]:
  "ap_db (record_totp_failure u s) = ap_db s" "ap_db (clear_totp_failures u s) = ap_db s"
  "ap_db (record_login_failure n s) = ap_db s" "ap_db (clear_login_failures n s) = ap_db s"
  "ap_db (record_register_attempt cy ip s) = ap_db s" "ap_db (record_guest_attempt cy ip s) = ap_db s"
  "ap_db (fst (check_totp_rate_limit now u s)) = ap_db s" "ap_db (fst (check_login_rate_limit now u s)) = ap_db s"
  "ap_db (fst (check_register_rate_limit cy now u s)) = ap_db s" "ap_db (fst (check_guest_rate_limit cy now u s)) = ap_db s"
  "ap_db (fst (issue_ticket chr h u s)) = ap_db s" "ap_db (count_guest sp s) = ap_db s"
  by (simp_all add: record_totp_failure_def clear_totp_failures_def record_login_failure_def clear_login_failures_def
      record_register_attempt_def record_guest_attempt_def check_totp_rate_limit_def check_login_rate_limit_def
      check_register_rate_limit_def check_guest_rate_limit_def issue_ticket_def count_guest_def Let_def)

lemma few_handled:
  assumes "few_sessions (ap_db s)"
  shows "few_sessions (ap_db (account_step cy c s))"
proof -
  let ?I = "\<lambda>t. few_sessions (ap_db t)"
  note keep = kept_try_in [where I = ?I] kept_run [where I = ?I]
  have joined: "?I (case sp of None \<Rightarrow> t | Some i \<Rightarrow> join_default_space ax i t)" if "?I t" for sp t and ax
    using join_default_accounts [of ax _ t] that by (auto simp: accounts_def intro: few_sessions_same split: option.split)
  have inserted: "?I (fst (on_db (insert_user u h) t))" if "?I t" for u h t
    using insert_user_result [OF prod.collapse [symmetric], of u h "ap_db t"] that
    by (auto simp: on_db_def Let_def intro: few_sessions_same)
  have accepted: "?I (fst (password_accepted cy chr ax u t))" if "?I t" for chr ax u t
    using that unfolding password_accepted_def by (auto simp: Let_def intro!: keep few_issue)
  have coded: "?I (fst (code_accepted cy chr ax u t))" if "?I t" for chr ax u t
    using that unfolding code_accepted_def by (auto simp: Let_def intro!: keep few_issue)
  have factor: "?I (fst (second_factor cy u typed t))" if "?I t" for u typed t
    using that by (rule few_sessions_same) (rule second_factor_tokens)
  have first: "?I (fst (first_session cy chr ax t))" if "?I t" for chr ax t
    using that unfolding first_session_def by (auto simp: Let_def intro!: keep few_issue joined)
  have quiet: "?I t" if "user_tokens (ap_db t) = user_tokens (ap_db s)" for t using few_sessions_same [OF assms that] .
  have codes: "?I (fst (turn_on_2fa cy ax u t))" if "?I t" for ax u t
    using that unfolding turn_on_2fa_def
    by (auto simp: execute_same_tokens intro!: keep few_steady)
  have guested: "user_tokens (fst (insert_guest_token h sp e d)) = user_tokens d" "user_tokens (drop_expired_guests n d) = user_tokens d"
    for h sp e d n
    by (auto simp: insert_guest_token_def execute_checked_def drop_expired_guests_def execute_def)
  have expired: "few_sessions d \<Longrightarrow> few_sessions (drop_expired_guests n d)" for d n
    by (rule few_sessions_same) (simp_all add: guested)
  show ?thesis
  proof (cases "ac_request c")
    case (Register ip input)
    then show ?thesis unfolding account_step_def handle_auth_def register_def
      by (auto simp: Let_def assms intro!: keep inserted first)
  next
    case (Login input)
    then show ?thesis unfolding account_step_def handle_auth_def login_def login_failed_def
      by (auto simp: Let_def assms split: option.split intro!: keep accepted)
  next
    case (LoginMfa input)
    then show ?thesis unfolding account_step_def handle_auth_def login_mfa_def
      by (auto simp: Let_def assms split: option.split intro!: keep coded factor)
  next
    case (ConfirmMfa typed)
    then show ?thesis unfolding account_step_def handle_auth_def verify_2fa_def
      by (auto simp: Let_def assms split: prod.split intro!: keep codes)
  next
    case (GuestToken ip)
    then show ?thesis unfolding account_step_def handle_auth_def guest_def
      by (auto simp: Let_def assms guested intro!: keep few_steady expired)
  qed (auto simp: account_step_def handle_auth_def Let_def logout_def revoke_all_sessions_def change_password_def
      disable_2fa_def enable_2fa_def regenerate_backup_codes_def assms execute_same_tokens split: prod.split
      intro!: keep few_drop few_steady)
qed



section \<open>What is used up\<close>

text \<open>C30.  A new password evicts everyone else: when a password change succeeds, the old password was right, the new
  one is stored, and of the user's sessions only the one that asked is left, while no session of another user is
  touched.\<close>

theorem password_change_evicts:
  assumes "change_password cy ax s auth header input = (t, Inr ())"
  shows "verify_user_password cy (ap_db s) (au_user_id auth) (cp_old_password input) = Inr () \<and>
    ok (cy_hash_password cy (cp_new_password input) (ax_salt ax)) = cr_password_hash (credentials_of (ap_db t) (au_user_id auth)) \<and>
    \<not> cr_force_password_reset (credentials_of (ap_db t) (au_user_id auth)) \<and>
    sessions_of (ap_db t) (au_user_id auth) =
      filter (\<lambda>k. ut_token_hash k = cy_sha256_hex cy (raw_bearer header)) (sessions_of (ap_db s) (au_user_id auth)) \<and>
    filter (\<lambda>k. ut_user_id k \<noteq> au_user_id auth) (user_tokens (ap_db t)) =
      filter (\<lambda>k. ut_user_id k \<noteq> au_user_id auth) (user_tokens (ap_db s))"
proof -
  let ?u = "au_user_id auth"
  have verified: "verify_user_password cy (ap_db s) ?u (cp_old_password input) = Inr ()"
    using assms unfolding change_password_def by (auto simp: try_in_Inr)
  then have user: "has_user (ap_db s) ?u"
    by (auto simp: verify_user_password_def fetch_user_def query_def has_user_def list_ex_iff split: if_splits option.splits
        dest!: find_SomeD)
  from assms obtain h where h: "cy_hash_password cy (cp_new_password input) (ax_salt ax) = Inr h"
    by (auto simp: change_password_def hash_password_def try_in_def split: sum.splits)
  have ok: "db_ok (ap_db s)"
    using verified by (auto simp: verify_user_password_def fetch_user_def query_def split: if_splits)
  define d where "d = set_credentials ?u (\<lambda>c. c\<lparr>cr_password_hash := Some h, cr_force_password_reset := False\<rparr>) (ap_db s)"
  have d: "db_ok d" "user_tokens d = user_tokens (ap_db s)"
    "credentials_of d ?u = (credentials_of (ap_db s) ?u)\<lparr>cr_password_hash := Some h, cr_force_password_reset := False\<rparr>"
    using user ok by (auto simp: d_def set_credentials_def credentials_of_def update_conv' split: option.split)
  have t: "ap_db t = d\<lparr>user_tokens := filter (\<lambda>k. \<not> (ut_user_id k = ?u \<and>
      ut_token_hash k \<noteq> cy_sha256_hex cy (raw_bearer header))) (user_tokens d)\<rparr>"
    using assms h ok verified d(1)
    by (auto simp: change_password_def hash_password_def try_in_def try_run_def on_db_def execute_def drop_tokens_def Let_def
        d_def [symmetric] split: sum.splits)
  have "credentials_of (ap_db t) ?u = credentials_of d ?u" by (simp add: t credentials_of_def)
  then show ?thesis
    using verified h d by (auto simp: t sessions_of_def ok_def intro!: filter_cong)
qed

lemma a_password_change:
  "\<exists>t. change_password a_crypto (a_draw 9) an_account_app (plain_user ''mem'') (Some ''Bearer tok'')
     \<lparr>cp_old_password = ''password'', cp_new_password = ''newsecret''\<rparr> = (t, Inr ())"
  by (simp add: change_password_def check_new_password_def verify_user_password_def fetch_user_def query_def credentials_of_def
      check_password_def hash_password_def an_account_app_def an_app_def sample_defs a_crypto_def plain_user_def try_run_def
      on_db_def execute_def drop_tokens_def set_credentials_def has_user_def Let_def)

theorem password_change_evicts_witness:
  "\<exists>t :: app. ok (cy_hash_password a_crypto ''newsecret'' ''salt'') = cr_password_hash (credentials_of (ap_db t) ''mem'') \<and>
     sessions_of (ap_db t) ''mem'' = []"
proof -
  obtain t where t: "change_password a_crypto (a_draw 9) an_account_app (plain_user ''mem'') (Some ''Bearer tok'')
      \<lparr>cp_old_password = ''password'', cp_new_password = ''newsecret''\<rparr> = (t, Inr ())"
    using a_password_change by blast
  have "sessions_of (ap_db an_account_app) ''mem'' = []"
    by (simp add: sessions_of_def an_account_app_def an_app_def sample_defs)
  with password_change_evicts [OF t] show ?thesis by - (rule exI [of _ t], auto simp: plain_user_def a_draw_def)
qed

end
