(* ===== verification/Spec2Isabelle.thy ===== *)
theory Spec2Isabelle
  imports Snowflake Slug Mentions Security Session Moderation MessageDelivery MessagePages Unread
    Relationships ChannelSafety JoiningSafety SpaceLife AccountSafety
begin

text \<open>
  A verification development of the Vokusz server, the Rust program under \<open>Server/src\<close>: a chat and voice
  server for spaces (communities) with channels, roles and members, reached over HTTP and a WebSocket gateway,
  keeping its state in SQLite or PostgreSQL, delegating media to LiveKit and exchanging events with federated
  peers.

  \<^bold>\<open>How the program is put together, and the model with it.\<close>  A request is authenticated
  (\<open>middleware/auth.rs\<close>), authorised (\<open>middleware/permissions.rs\<close>), then a handler of \<open>routes/\<close> runs
  statements of \<open>db/\<close> and announces what it did: to gateway sessions by a broadcast, to LiveKit by revoking
  voice access, to peers by rows of an outbox.  The model has one record for each side of this:
    \<^item> \<open>db\<close> (theory Database): the tables, each a list of row records with the columns of the source's
      structs; a query is a filter over it, a statement maps one \<open>db\<close> to another.  The field \<open>db_ok\<close> says
      whether the database answers: when it does not, every query and statement returns the error the source
      maps it to.  Violated keys are errors of the statement that violates them, cascades of the schema are part
      of the statement that triggers them, a transaction that fails returns the database it started from.
    \<^item> \<open>app\<close> (theory AppState): \<open>AppState\<close> of \<open>state.rs\<close>, that is the database, the voice memberships,
      presences, sessions, the evictions waiting for LiveKit, and, in order, everything broadcast
      (\<open>outbox\<close>).  A handler is a function from \<open>app\<close> to \<open>app\<close> and \<open>AppError + 'a\<close>; every early return,
      \<open>?\<close> and panic of the source is a branch.
    \<^item> What a request draws from outside, fresh ids, clock readings, random codes, answers of other
      servers, hash functions and date parsers, is an argument of the definitions that use it.

  \<^bold>\<open>Theories.\<close>
    \<^item> Prelude: the combinators of \<open>Result\<close> and \<open>Option\<close>, ASCII functions, decimal numbers, saturating and
      wrapping integers, hash maps as association lists with the locale of keyed stores.  Json: the values of
      serde_json that are built and inspected.  Errors: \<open>error.rs\<close>.  Database, AppState: the state.
    \<^item> Snowflake (\<open>snowflake.rs\<close>: ids on 64-bit words and the same code as interleaved atomic steps), Slug
      (\<open>slug.rs\<close>), Mentions (\<open>mentions.rs\<close>).
    \<^item> Auth (\<open>middleware/auth.rs\<close>), Permissions (\<open>middleware/permissions.rs\<close>), Security (\<open>security.rs\<close>,
      \<open>middleware/rate_limit.rs\<close>: bounded admission as a state machine, token buckets on rationals).
    \<^item> Voice (\<open>voice/state.rs\<close>, \<open>voice/livekit.rs\<close>, \<open>routes/voice.rs\<close> and the revocations of
      \<open>security.rs\<close>).
    \<^item> Resume (\<open>gateway/intents.rs\<close>, \<open>gateway/resume.rs\<close>), Gateway (delivery of one broadcast) and Session
      (a whole connection of \<open>gateway/mod.rs\<close>: handshake, event loop, parking, resume, sign-off).
    \<^item> Roles, Members, ModerationSpec and Moderation (\<open>routes/roles.rs\<close>, \<open>routes/members.rs\<close> over
      \<open>db/roles.rs\<close>, \<open>db/members.rs\<close>): the handlers, the abstract steps each permission and rank allows, and the
      proof that every request is such steps.
    \<^item> Federation (\<open>federation/mapping.rs\<close>, \<open>outbound.rs\<close>, \<open>sender.rs\<close>): qualified ids and the outbox.
    \<^item> MessageStore, Messages, Reactions (\<open>db/messages.rs\<close>, \<open>routes/messages.rs\<close>, \<open>routes/reactions.rs\<close>),
      MessageSpec and MessageSafety (abstract steps and refinement), MessageDelivery (who is told),
      MessagePages (cursors and search), Slowmode, Unread (\<open>routes/read_states.rs\<close>, \<open>db/read_states.rs\<close>).
    \<^item> Relationships (\<open>routes/relationships.rs\<close>, \<open>db/relationships.rs\<close>), refining a symmetric state of each
      pair of users.
    \<^item> Channels and ChannelSafety (\<open>routes/channels.rs\<close>, \<open>db/channels.rs\<close>, \<open>db/permission_overwrites.rs\<close>,
      \<open>db/dm_participants.rs\<close>).
    \<^item> Joining and JoiningSafety (\<open>routes/bans.rs\<close>, \<open>routes/invites.rs\<close>, \<open>routes/audit_log.rs\<close>,
      \<open>routes/system_messages.rs\<close> and their statements, joining and leaving of \<open>routes/spaces.rs\<close> and
      \<open>routes/members.rs\<close>), Spaces and SpaceLife (\<open>routes/spaces.rs\<close>, \<open>db/spaces.rs\<close>).
    \<^item> Accounts and AccountSafety (\<open>routes/auth.rs\<close>): registration, login in one and in two steps, sessions,
      passwords, backup codes, guests, and the four limiters in front of them.  The crates called (digests, Argon2,
      AES-GCM, Base32, one-time codes) are fields of the record \<open>crypto\<close>, what a request draws is in its
      \<open>auth_stamp\<close>.

  \<^bold>\<open>What the lemmas show.\<close>  Checks: when exactly a permission check passes, with roles, overwrites,
  guests, timeouts and ownership; that authentication accepts only current tokens.  Authority: no sequence of
  requests by users who rank below a role or member changes it, grants a permission its author lacks, edits what
  others wrote or speaks through an overwrite its author could not write.  Delivery: a broadcast reaches only
  sessions that may see it and, over a resume, each exactly once and in order.  State: the invariants of every
  group of tables (keys, references, trees, the bounds of invites, the single introduction of a member), each kept
  by every sequence of the requests of its component.  Completeness: what kicks, bans, deletions and sign-offs
  leave behind, namely nothing.  Accounts: no session without the credentials of its user, no second factor before
  the first, bounded guesses of either within a window, bounded sessions.  Termination: the loops that search for a free slug and the pages of a feed end and
  return every row.  The findings, theorems that show where the code departs from what it means, stand next to the
  component they concern.

  Invariants over sequences of requests are stated in locales (\<open>channel_invariant\<close>, \<open>join_invariant\<close>)
  whose assumptions are what one statement does, and interpreted for each invariant of the component.  The locale
  \<open>limiter\<close> states what one request does to a table of trackers and is interpreted for logins, codes and guests.

  \<^bold>\<open>Bounds and fuel.\<close>  Integers that the source lets wrap or saturate are kept at their width (words in
  Snowflake, \<open>i64_add\<close> elsewhere); the others are \<open>int\<close> or \<open>nat\<close> where the inputs are bounded by the checks.
  No definition takes fuel: loops are structural, over a list, or functions with a termination proof.

  \<^bold>\<open>Not modelled.\<close>  The queries' text and the drivers (only the rows they select); time passing inside a
  request; the storage of files; the fetching of link previews; plugins and their sandbox; the HTML of landing,
  invite and search-engine pages; the MCP bridge; configuration and start-up; the seeding and migration binaries; the signed
  requests and handshakes between federated servers and the application of their events; profiles, reports,
  emojis and sounds; server settings beyond the policies the modelled handlers read; automatic moderation of
  uploads; and the clients under
  \<open>Client\<close> and \<open>WindowsClient\<close>, which are other programs.
\<close>

end
